(* ===== verification/HPGS_Prelude.thy ===== *)
theory HPGS_Prelude
  imports Main "HOL-Library.Word"
begin

text \<open>
  Shared vocabulary of the development: machine integer types, the ways a C++ operation can
  fail, results as sums, and bounds-checked access to blocks of memory.  The lemmas on lists and
  on \<open>list_put\<close> are what the component theories use to reason about buffers.
\<close>

unbundle bit_operations_syntax

section \<open>Types\<close>

type_synonym byte = "8 word"
type_synonym u16 = "16 word"
type_synonym u32 = "32 word"
type_synonym u64 = "64 word"

text \<open>
  Everything that ends an operation other than by a normal return: the exceptions that the code
  throws, \<open>HPGS_ASSERT\<close> aborting the process, and the undefined behaviours a model must not hide
  (null dereference, access outside a block, division by zero, a loop that never ends, and the rest).
\<close>

datatype exn =
    Out_Of_Range
  | Logic_Error
  | Invalid_Argument
  | Assert_Fail
  | Null_Deref
  | Bad_Access
  | Div_By_Zero
  | Diverge
  | Undefined

type_synonym 'a res = "exn + 'a"

named_theorems res_simps \<open>unfolding of results\<close>

definition rbind :: "'a res \<Rightarrow> ('a \<Rightarrow> 'b res) \<Rightarrow> 'b res" where
  "rbind m f = (case m of Inl e \<Rightarrow> Inl e | Inr x \<Rightarrow> f x)"

lemma rbind_Inr [simp]: "rbind (Inr x) f = f x"
  by (simp add: rbind_def)

lemma rbind_Inl [simp]: "rbind (Inl e) f = Inl e"
  by (simp add: rbind_def)

lemma rbind_eq_Inr: "rbind m f = Inr y \<longleftrightarrow> (\<exists>x. m = Inr x \<and> f x = Inr y)"
  by (cases m) auto

definition cpp_assert :: "bool \<Rightarrow> 'a res \<Rightarrow> 'a res" where
  "cpp_assert b k = (if b then k else Inl Assert_Fail)"

lemma cpp_assert_True [simp]: "b \<Longrightarrow> cpp_assert b k = k"
  by (simp add: cpp_assert_def)

lemma cpp_assert_eq_Inr: "cpp_assert b k = Inr x \<longleftrightarrow> b \<and> k = Inr x"
  by (simp add: cpp_assert_def)

declare rbind_eq_Inr [res_simps] cpp_assert_eq_Inr [res_simps]

section \<open>Blocks of memory\<close>

text \<open>\<open>list_put xs i ys\<close> overwrites \<open>xs\<close> from index \<open>i\<close> on with \<open>ys\<close>.\<close>

definition list_put :: "'a list \<Rightarrow> nat \<Rightarrow> 'a list \<Rightarrow> 'a list" where
  "list_put xs i ys = take i xs @ ys @ drop (i + length ys) xs"

text \<open>\<open>memcpy\<close> into and out of a block: outside the block it is an access violation.\<close>

definition mem_put :: "'a list \<Rightarrow> nat \<Rightarrow> 'a list \<Rightarrow> 'a list res" where
  "mem_put xs i ys =
     (if i + length ys \<le> length xs then Inr (list_put xs i ys) else Inl Bad_Access)"

definition mem_get :: "'a list \<Rightarrow> nat \<Rightarrow> nat \<Rightarrow> 'a list res" where
  "mem_get xs i n = (if i + n \<le> length xs then Inr (take n (drop i xs)) else Inl Bad_Access)"

lemma length_list_put: "i \<le> length xs \<Longrightarrow> length (list_put xs i ys) = max (length xs) (i + length ys)"
  by (auto simp: list_put_def)

lemma length_list_put_in [simp]:
  "i + length ys \<le> length xs \<Longrightarrow> length (list_put xs i ys) = length xs"
  by (simp add: length_list_put)

lemma list_put_Nil [simp]: "list_put xs i [] = xs"
  by (simp add: list_put_def)

lemma list_put_0_all: "length xs \<le> length ys \<Longrightarrow> list_put xs 0 ys = ys"
  by (simp add: list_put_def)

lemma list_put_end: "list_put xs (length xs) ys = xs @ ys"
  by (simp add: list_put_def)

lemma take_list_put: "i \<le> length xs \<Longrightarrow> take i (list_put xs i ys) = take i xs"
  by (simp add: list_put_def)

lemma read_list_put:
  "i \<le> length xs \<Longrightarrow> take (length ys) (drop i (list_put xs i ys)) = ys"
  by (simp add: list_put_def)

lemma list_put_append:
  "i \<le> length xs \<Longrightarrow>
   list_put (list_put xs i ys) (i + length ys) zs = list_put xs i (ys @ zs)"
  by (simp add: list_put_def min_def add.commute add.left_commute)

lemma list_put_left:
  "i + length ys \<le> length xs \<Longrightarrow> list_put (xs @ zs) i ys = list_put xs i ys @ zs"
  by (simp add: list_put_def)

lemma list_put_right:
  "list_put (xs @ zs) (length xs + i) ys = xs @ list_put zs i ys"
  by (simp add: list_put_def add.assoc)

lemma list_put_extend:
  "i \<le> length xs \<Longrightarrow> length xs \<le> i + length ys \<Longrightarrow> list_put xs i ys = take i xs @ ys"
  by (simp add: list_put_def)

lemma take_list_put_max:
  assumes "i \<le> n" "n \<le> length xs"
  shows "take (max n (i + length ys)) (list_put xs i ys) = list_put (take n xs) i ys"
proof (cases "i + length ys \<le> n")
  case True
  then have "i < n \<or> i = n \<and> ys = []"
    by (cases ys) auto
  with True assms show ?thesis
    by (auto simp: list_put_def max_def min_def drop_take)
next
  case False
  with assms show ?thesis
    by (auto simp: list_put_def max_def min_def)
qed

section \<open>Chains of equally long blocks\<close>

lemma concat_uniform_length:
  "\<forall>x \<in> set xss. length x = b \<Longrightarrow> length (concat xss) = b * length xss"
  by (induction xss) auto

lemma concat_split_nth:
  "c < length xss \<Longrightarrow>
   concat xss = concat (take c xss) @ xss ! c @ concat (drop (Suc c) xss)"
  by (metis append_take_drop_id concat.simps(2) concat_append Cons_nth_drop_Suc)

lemma length_concat_take:
  "\<forall>x \<in> set xss. length x = b \<Longrightarrow> c \<le> length xss \<Longrightarrow> length (concat (take c xss)) = b * c"
  by (subst concat_uniform_length [where b = b]) (auto dest: in_set_takeD)

lemma drop_concat_uniform:
  assumes "\<forall>x \<in> set xss. length x = b" "c < length xss" "off \<le> b"
  shows "drop (b * c + off) (concat xss) = drop off (xss ! c) @ concat (drop (Suc c) xss)"
proof -
  have "length (concat (take c xss)) = b * c"
    using assms by (intro length_concat_take) auto
  moreover have "length (xss ! c) = b"
    using assms by auto
  ultimately show ?thesis
    using assms(2,3) by (subst concat_split_nth [OF assms(2)]) simp
qed

lemma concat_list_update:
  assumes "\<forall>x \<in> set xss. length x = b" "c < length xss" "off + length ys \<le> b"
  shows "concat (xss[c := list_put (xss ! c) off ys]) = list_put (concat xss) (b * c + off) ys"
proof -
  have len: "length (concat (take c xss)) = b * c"
    using assms by (intro length_concat_take) auto
  have nc: "length (xss ! c) = b"
    using assms by auto
  have "concat (xss[c := list_put (xss ! c) off ys]) =
    concat (take c xss) @ list_put (xss ! c) off ys @ concat (drop (Suc c) xss)"
    using assms(2) by (subst concat_split_nth [of c]) simp_all
  also have "\<dots> = list_put (concat (take c xss) @ xss ! c @ concat (drop (Suc c) xss))
      (b * c + off) ys"
    using assms(3) nc by (simp add: len [symmetric] list_put_right list_put_left)
  also have "\<dots> = list_put (concat xss) (b * c + off) ys"
    using concat_split_nth [OF assms(2)] by simp
  finally show ?thesis .
qed

lemma set_list_update_uniform:
  "\<forall>x \<in> set xss. length x = b \<Longrightarrow> length y = b \<Longrightarrow> \<forall>x \<in> set (xss[c := y]). length x = b"
  by (auto dest!: set_update_subset_insert [THEN subsetD])

section \<open>Words\<close>

lemma unat_bound: "unat (w :: 'a::len word) < 2 ^ LENGTH('a)"
  by (rule unsigned_less)

lemma unat_drop_bit: "unat (drop_bit n (w :: 'a::len word)) = unat w div 2 ^ n"
  by (metis unat_drop_bit_eq drop_bit_eq_div)

end
