(* ===== verification/Endian.thy ===== *)
theory Endian
  imports HPGS_Prelude
begin

text \<open>
  Byte order (\<open>include/util/myendian.h\<close>): the byte representation of machine words in memory,
  the byte-swapping templates, and the conversions that only act on one kind of host.  The byte
  order of the host is fixed when the code is built (\<open>HPGS_BYTE_ORDER\<close>); here it is an argument,
  so every theorem holds on both kinds of machine.
\<close>

section \<open>Byte orders\<close>

datatype byte_order = HPGS_LITTLE_ENDIAN | HPGS_BIG_ENDIAN

section \<open>The representation of a word in memory\<close>

definition le_bytes :: "'a::len word \<Rightarrow> byte list" where
  "le_bytes w = map (\<lambda>i. ucast (drop_bit (8 * i) w)) [0..<LENGTH('a) div 8]"

primrec le_word :: "byte list \<Rightarrow> 'a::len word" where
  "le_word [] = 0"
| "le_word (b # bs) = ucast b OR push_bit 8 (le_word bs)"

text \<open>What \<open>memcpy\<close> from and to a variable sees on a host of the given byte order.\<close>

definition mem_bytes :: "byte_order \<Rightarrow> 'a::len word \<Rightarrow> byte list" where
  "mem_bytes host w = (case host of HPGS_LITTLE_ENDIAN \<Rightarrow> le_bytes w | HPGS_BIG_ENDIAN \<Rightarrow> rev (le_bytes w))"

definition mem_word :: "byte_order \<Rightarrow> byte list \<Rightarrow> 'a::len word" where
  "mem_word host bs = (case host of HPGS_LITTLE_ENDIAN \<Rightarrow> le_word bs | HPGS_BIG_ENDIAN \<Rightarrow> le_word (rev bs))"

section \<open>Byte swapping\<close>

definition byteswap :: "'a::len word \<Rightarrow> 'a word" where
  "byteswap value = le_word (rev (le_bytes value))"

definition byteswapOnLittleEndian :: "byte_order \<Rightarrow> 'a::len word \<Rightarrow> 'a word" where
  "byteswapOnLittleEndian host t =
     (case host of HPGS_BIG_ENDIAN \<Rightarrow> t | HPGS_LITTLE_ENDIAN \<Rightarrow> byteswap t)"

definition byteswapOnBigEndian :: "byte_order \<Rightarrow> 'a::len word \<Rightarrow> 'a word" where
  "byteswapOnBigEndian host t =
     (case host of HPGS_BIG_ENDIAN \<Rightarrow> byteswap t | HPGS_LITTLE_ENDIAN \<Rightarrow> t)"

section \<open>Lemmas\<close>

lemma length_le_bytes [simp]: "length (le_bytes (w::'a::len word)) = LENGTH('a) div 8"
  by (simp add: le_bytes_def)

lemma length_mem_bytes [simp]: "length (mem_bytes host (w::'a::len word)) = LENGTH('a) div 8"
  by (simp add: mem_bytes_def split: byte_order.split)

lemma bit_le_word:
  "bit (le_word bs :: 'a::len word) n \<longleftrightarrow>
     n < LENGTH('a) \<and> n div 8 < length bs \<and> bit (bs ! (n div 8)) (n mod 8)"
proof (induction bs arbitrary: n)
  case Nil
  then show ?case by simp
next
  case (Cons b bs)
  show ?case
  proof (cases "n < 8")
    case True
    then show ?thesis
      by (auto simp: bit_or_iff bit_push_bit_iff bit_word_ucast_iff)
  next
    case False
    then have d: "n div 8 = Suc ((n - 8) div 8)" "(n - 8) mod 8 = n mod 8"
      by (simp_all add: le_div_geq le_mod_geq)
    from False have "\<not> bit b n"
      using bit_imp_le_length [of b n] by auto
    with False show ?thesis
      by (auto simp: bit_or_iff bit_push_bit_iff bit_word_ucast_iff Cons.IH d)
  qed
qed

lemma le_word_le_bytes [simp]:
  assumes "8 dvd LENGTH('a)"
  shows "le_word (le_bytes w) = (w :: 'a::len word)"
proof (rule bit_word_eqI)
  fix n assume n: "n < LENGTH('a)"
  with assms have "n div 8 < LENGTH('a) div 8"
    by (metis dvd_div_mult_self div_less_iff_less_mult zero_less_numeral)
  with n show "bit (le_word (le_bytes w) :: 'a word) n = bit w n"
    by (auto simp: bit_le_word le_bytes_def bit_word_ucast_iff bit_drop_bit_eq)
qed

lemma le_bytes_le_word [simp]:
  assumes "length bs = LENGTH('a) div 8"
  shows "le_bytes (le_word bs :: 'a::len word) = bs"
proof (rule nth_equalityI)
  show "length (le_bytes (le_word bs :: 'a word)) = length bs"
    using assms by simp
next
  fix i assume "i < length (le_bytes (le_word bs :: 'a word))"
  then have i: "i < LENGTH('a) div 8" by simp
  show "le_bytes (le_word bs :: 'a word) ! i = bs ! i"
  proof (rule bit_word_eqI)
    fix n assume n: "n < LENGTH(8)"
    with i have "8 * i + n < LENGTH('a)"
      by (simp add: less_eq_div_iff_mult_less_eq)
    with i n assms show "bit (le_bytes (le_word bs :: 'a word) ! i) n = bit (bs ! i) n"
      by (simp add: le_bytes_def bit_word_ucast_iff bit_drop_bit_eq bit_le_word)
  qed
qed

lemma mem_word_mem_bytes [simp]:
  "8 dvd LENGTH('a) \<Longrightarrow> mem_word host (mem_bytes host w) = (w :: 'a::len word)"
  by (simp add: mem_word_def mem_bytes_def split: byte_order.split)

lemma mem_bytes_mem_word [simp]:
  "length bs = LENGTH('a) div 8 \<Longrightarrow> mem_bytes host (mem_word host bs :: 'a::len word) = bs"
  by (simp add: mem_word_def mem_bytes_def split: byte_order.split)

lemma le_bytes_byteswap: "le_bytes (byteswap w) = rev (le_bytes w)"
  by (simp add: byteswap_def)

lemma byteswap_byteswap [simp]: "8 dvd LENGTH('a) \<Longrightarrow> byteswap (byteswap w) = (w :: 'a::len word)"
  unfolding byteswap_def [of "byteswap w"] by (simp add: le_bytes_byteswap)

lemma mem_bytes_byteswap: "mem_bytes host (byteswap w) = rev (mem_bytes host w)"
  by (simp add: mem_bytes_def le_bytes_byteswap split: byte_order.split)

text \<open>
  Swapping on one kind of host fixes the byte order that the variable has in memory: network order
  (big endian) for \<open>byteswapOnLittleEndian\<close>, little endian for \<open>byteswapOnBigEndian\<close>.
\<close>

lemma mem_bytes_byteswapOnLittleEndian:
  "mem_bytes host (byteswapOnLittleEndian host w) = rev (le_bytes w)"
  by (cases host)
    (simp_all add: byteswapOnLittleEndian_def mem_bytes_def le_bytes_byteswap)

lemma mem_bytes_byteswapOnBigEndian:
  "mem_bytes host (byteswapOnBigEndian host w) = le_bytes w"
  by (cases host)
    (simp_all add: byteswapOnBigEndian_def mem_bytes_def le_bytes_byteswap)

lemma byteswapOnLittleEndian_invol [simp]:
  "8 dvd LENGTH('a) \<Longrightarrow>
   byteswapOnLittleEndian host (byteswapOnLittleEndian host w) = (w :: 'a::len word)"
  by (cases host) (simp_all add: byteswapOnLittleEndian_def)

lemma byteswapOnLittleEndian_eq_iff:
  "8 dvd LENGTH('a) \<Longrightarrow>
   byteswapOnLittleEndian host v = byteswapOnLittleEndian host w \<longleftrightarrow> v = (w :: 'a::len word)"
  by (metis byteswapOnLittleEndian_invol)

end
