(* ===== verification/ByteArray.thy ===== *)
theory ByteArray
  imports Endian
begin

text \<open>
  The serialisation buffer (\<open>src/network/bytearray.cc\<close>, \<open>include/network/bytearray.h\<close>): a chain of
  equally long memory blocks with a cursor.  This theory models the untyped operations (growing,
  writing, reading, seeking, clearing, scatter/gather views, files) and proves that the chain behaves
  like one contiguous byte sequence; the typed readers and writers are in \<open>ByteArray_Codec\<close>.

  A chain of nodes is a list of blocks, a \<open>Node*\<close> is an index into it (\<open>None\<close> is the null pointer),
  and \<open>m_fresh\<close> stands for the indeterminate contents of a block that \<open>new char[s]\<close> returns.
\<close>

section \<open>State\<close>

record bytearray =
  m_baseSize :: nat
  m_position :: nat
  m_capacity :: nat
  m_size :: nat
  m_endian :: byte_order
  m_nodes :: "byte list list"
  m_cur :: "nat option"
  m_fresh :: "nat \<Rightarrow> nat \<Rightarrow> byte"

definition Node_new :: "(nat \<Rightarrow> nat \<Rightarrow> byte) \<Rightarrow> nat \<Rightarrow> nat \<Rightarrow> byte list" where
  "Node_new fresh k s = map (fresh k) [0..<s]"

definition node_next :: "byte list list \<Rightarrow> nat \<Rightarrow> nat option" where
  "node_next nodes c = (if Suc c < length nodes then Some (Suc c) else None)"

definition deref :: "byte list list \<Rightarrow> nat option \<Rightarrow> (nat \<times> byte list) res" where
  "deref nodes p =
     (case p of None \<Rightarrow> Inl Null_Deref
      | Some c \<Rightarrow> if c < length nodes then Inr (c, nodes ! c) else Inl Bad_Access)"

definition ByteArray_new :: "(nat \<Rightarrow> nat \<Rightarrow> byte) \<Rightarrow> nat \<Rightarrow> bytearray" where
  "ByteArray_new fresh base_size =
     \<lparr>m_baseSize = base_size, m_position = 0, m_capacity = base_size, m_size = 0,
      m_endian = HPGS_BIG_ENDIAN, m_nodes = [Node_new fresh 0 base_size], m_cur = Some 0,
      m_fresh = fresh\<rparr>"

text \<open>The destructor: the nodes that it deletes, in this order, from \<open>tmp\<close> on.\<close>

function delete_loop :: "byte list list \<Rightarrow> nat option \<Rightarrow> nat list" where
  "delete_loop nodes tmp =
     (case tmp of None \<Rightarrow> []
      | Some c \<Rightarrow> if c < length nodes then c # delete_loop nodes (node_next nodes c) else [c])"
  by pat_completeness auto
termination
  by (relation "measure (\<lambda>(nodes, tmp). case tmp of None \<Rightarrow> 0 | Some c \<Rightarrow> Suc (length nodes) - c)") (auto simp: node_next_def)

declare delete_loop.simps [simp del]

definition ByteArray_delete :: "bytearray \<Rightarrow> nat list" where
  "ByteArray_delete ba = delete_loop (m_nodes ba) (Some 0)"

text \<open>Every node is deleted, and once.\<close>

lemma delete_loop_all: "c < length nodes \<Longrightarrow> delete_loop nodes (Some c) = [c..<length nodes]"
proof (induction "length nodes - c" arbitrary: c)
  case (Suc k)
  then show ?case
    by (subst delete_loop.simps) (cases "Suc c < length nodes", auto simp: node_next_def upt_conv_Cons delete_loop.simps [of _ None])
qed simp

lemma ByteArray_delete_all: "m_nodes ba \<noteq> [] \<Longrightarrow> ByteArray_delete ba = [0..<length (m_nodes ba)]"
  by (simp add: ByteArray_delete_def delete_loop_all)

definition isLittleEndian :: "bytearray \<Rightarrow> bool" where
  "isLittleEndian ba \<longleftrightarrow> m_endian ba = HPGS_LITTLE_ENDIAN"

definition setIsLittleEndian :: "bytearray \<Rightarrow> bool \<Rightarrow> bytearray" where
  "setIsLittleEndian ba val =
     (if val then ba\<lparr>m_endian := HPGS_LITTLE_ENDIAN\<rparr> else ba\<lparr>m_endian := HPGS_BIG_ENDIAN\<rparr>)"

text \<open>Subtraction of \<open>size_t\<close> values wraps.\<close>

definition size_t_minus :: "nat \<Rightarrow> nat \<Rightarrow> nat" where
  "size_t_minus a b = (if b \<le> a then a - b else (a + 2 ^ 64 - b) mod 2 ^ 64)"

definition getReadSize :: "bytearray \<Rightarrow> nat" where
  "getReadSize ba = size_t_minus (m_size ba) (m_position ba)"

definition getCapacity :: "bytearray \<Rightarrow> nat" where
  "getCapacity ba = size_t_minus (m_capacity ba) (m_position ba)"

section \<open>Growing and clearing\<close>

text \<open>\<open>ceil(1.0 * size / m_baseSize)\<close> is computed in floating point; it is exact for the sizes below
  \<open>2 ^ 53\<close> that a process can allocate.  A block size of 0 gives an infinite quotient, and its
  conversion to \<open>size_t\<close> is undefined.\<close>

definition node_count :: "nat \<Rightarrow> nat \<Rightarrow> nat" where
  "node_count sz base = (sz + base - 1) div base"

definition addCapacity :: "bytearray \<Rightarrow> nat \<Rightarrow> bytearray res" where
  "addCapacity ba sz =
     (if sz = 0 then Inr ba
      else let old_cap = getCapacity ba in
        if old_cap \<ge> sz then Inr ba
        else if m_baseSize ba = 0 then Inl Undefined
        else
          let count = node_count (sz - old_cap) (m_baseSize ba);
              n = length (m_nodes ba);
              added = map (\<lambda>i. Node_new (m_fresh ba) i (m_baseSize ba)) [n..<n + count];
              ba' = ba\<lparr>m_nodes := m_nodes ba @ added,
                       m_capacity := m_capacity ba + count * m_baseSize ba\<rparr>
          in Inr (if old_cap = 0 then ba'\<lparr>m_cur := (if count = 0 then None else Some n)\<rparr> else ba'))"

definition ba_clear :: "bytearray \<Rightarrow> bytearray" where
  "ba_clear ba =
     ba\<lparr>m_position := 0, m_size := 0, m_capacity := m_baseSize ba,
        m_nodes := take 1 (m_nodes ba), m_cur := Some 0\<rparr>"

section \<open>Writing and reading\<close>

text \<open>
  The copy loops.  \<open>rest\<close> is the part of the caller's buffer not yet copied (\<open>buf + bpos\<close>, \<open>size\<close>
  bytes long); every turn of the else branch moves to the next node of the chain.
\<close>

function write_loop ::
  "byte list list \<Rightarrow> nat option \<Rightarrow> nat \<Rightarrow> nat \<Rightarrow> nat \<Rightarrow> byte list \<Rightarrow>
   (byte list list \<times> nat option \<times> nat) res" where
  "write_loop nodes cur npos ncap position rest =
     (if rest = [] then Inr (nodes, cur, position)
      else case cur of None \<Rightarrow> Inl Null_Deref
      | Some c \<Rightarrow>
        if length nodes \<le> c then Inl Bad_Access
        else if length rest \<le> ncap then
          (case mem_put (nodes ! c) npos rest of Inl e \<Rightarrow> Inl e
           | Inr nd \<Rightarrow>
             Inr (nodes[c := nd],
                  if length (nodes ! c) = npos + length rest then node_next nodes c else Some c,
                  position + length rest))
        else
          (case mem_put (nodes ! c) npos (take ncap rest) of Inl e \<Rightarrow> Inl e
           | Inr nd \<Rightarrow>
             (case node_next nodes c of None \<Rightarrow> Inl Null_Deref
              | Some c' \<Rightarrow>
                write_loop (nodes[c := nd]) (Some c') 0 (length (nodes ! c'))
                  (position + ncap) (drop ncap rest))))"
  by pat_completeness auto
termination
  by (relation "measure (\<lambda>(nodes, cur, _). length nodes - (case cur of None \<Rightarrow> 0 | Some c \<Rightarrow> c))")
    (auto simp: node_next_def split: if_splits)

declare write_loop.simps [simp del]

definition ba_write :: "bytearray \<Rightarrow> byte list \<Rightarrow> bytearray res" where
  "ba_write ba buf =
     (if buf = [] then Inr ba
      else rbind (addCapacity ba (length buf)) (\<lambda>ba.
        if m_baseSize ba = 0 then Inl Div_By_Zero
        else
          let npos = m_position ba mod m_baseSize ba in
          rbind (deref (m_nodes ba) (m_cur ba)) (\<lambda>(c, nd).
          rbind (write_loop (m_nodes ba) (m_cur ba) npos (length nd - npos) (m_position ba) buf)
            (\<lambda>(nodes, cur, position).
              Inr (ba\<lparr>m_nodes := nodes, m_cur := cur, m_position := position,
                      m_size := (if position > m_size ba then position else m_size ba)\<rparr>)))))"

function read_loop ::
  "byte list list \<Rightarrow> nat option \<Rightarrow> nat \<Rightarrow> nat \<Rightarrow> nat \<Rightarrow> nat \<Rightarrow>
   (byte list \<times> nat option \<times> nat) res" where
  "read_loop nodes cur npos ncap position sz =
     (if sz = 0 then Inr ([], cur, position)
      else case cur of None \<Rightarrow> Inl Null_Deref
      | Some c \<Rightarrow>
        if length nodes \<le> c then Inl Bad_Access
        else if sz \<le> ncap then
          (case mem_get (nodes ! c) npos sz of Inl e \<Rightarrow> Inl e
           | Inr bs \<Rightarrow>
             Inr (bs, if length (nodes ! c) = npos + sz then node_next nodes c else Some c,
                  position + sz))
        else
          (case mem_get (nodes ! c) npos ncap of Inl e \<Rightarrow> Inl e
           | Inr bs \<Rightarrow>
             (case node_next nodes c of None \<Rightarrow> Inl Null_Deref
              | Some c' \<Rightarrow>
                (case read_loop nodes (Some c') 0 (length (nodes ! c')) (position + ncap) (sz - ncap)
                 of Inl e \<Rightarrow> Inl e
                 | Inr (bs', cur', position') \<Rightarrow> Inr (bs @ bs', cur', position')))))"
  by pat_completeness auto
termination
  by (relation "measure (\<lambda>(nodes, cur, _). length nodes - (case cur of None \<Rightarrow> 0 | Some c \<Rightarrow> c))")
    (auto simp: node_next_def split: if_splits)

declare read_loop.simps [simp del]

text \<open>\<open>read(buf, size)\<close>.  The first node is dereferenced before the loop tests \<open>size\<close>.\<close>

definition ba_read :: "bytearray \<Rightarrow> nat \<Rightarrow> (byte list \<times> bytearray) res" where
  "ba_read ba sz =
     (if sz > getReadSize ba then Inl Out_Of_Range
      else if m_baseSize ba = 0 then Inl Div_By_Zero
      else
        let npos = m_position ba mod m_baseSize ba in
        rbind (deref (m_nodes ba) (m_cur ba)) (\<lambda>(c, nd).
        rbind (read_loop (m_nodes ba) (m_cur ba) npos (length nd - npos) (m_position ba) sz)
          (\<lambda>(bs, cur, position). Inr (bs, ba\<lparr>m_cur := cur, m_position := position\<rparr>))))"

text \<open>\<open>read(buf, size, position) const\<close>: the walk starts at \<open>m_cur\<close> whatever \<open>position\<close> is.\<close>

definition ba_read_at :: "bytearray \<Rightarrow> nat \<Rightarrow> nat \<Rightarrow> byte list res" where
  "ba_read_at ba sz position =
     (if sz > size_t_minus (m_size ba) position then Inl Out_Of_Range
      else if m_baseSize ba = 0 then Inl Div_By_Zero
      else
        let npos = position mod m_baseSize ba in
        rbind (deref (m_nodes ba) (m_cur ba)) (\<lambda>(c, nd).
        rbind (read_loop (m_nodes ba) (m_cur ba) npos (length nd - npos) position sz)
          (\<lambda>(bs, cur, position). Inr bs)))"

section \<open>Seeking\<close>

function seek_loop :: "byte list list \<Rightarrow> nat option \<Rightarrow> nat \<Rightarrow> (nat \<times> byte list \<times> nat) res" where
  "seek_loop nodes cur v =
     (case cur of None \<Rightarrow> Inl Null_Deref
      | Some c \<Rightarrow>
        if length nodes \<le> c then Inl Bad_Access
        else if v > length (nodes ! c)
        then seek_loop nodes (node_next nodes c) (v - length (nodes ! c))
        else Inr (c, nodes ! c, v))"
  by pat_completeness auto
termination
  by (relation "measure (\<lambda>(nodes, cur, _). case cur of None \<Rightarrow> 0 | Some c \<Rightarrow> length nodes - c)")
    (auto simp: node_next_def split: if_splits option.splits)

declare seek_loop.simps [simp del]

definition setPosition :: "bytearray \<Rightarrow> nat \<Rightarrow> bytearray res" where
  "setPosition ba v =
     (if v > m_capacity ba then Inl Out_Of_Range
      else
        let ba = ba\<lparr>m_position := v, m_size := (if v > m_size ba then v else m_size ba)\<rparr> in
        rbind (seek_loop (m_nodes ba) (Some 0) v) (\<lambda>(c, nd, v).
          Inr (ba\<lparr>m_cur := (if v = length nd then node_next (m_nodes ba) c else Some c)\<rparr>)))"

section \<open>Strings and scatter/gather views\<close>

definition ba_toString :: "bytearray \<Rightarrow> byte list res" where
  "ba_toString ba =
     (if getReadSize ba = 0 then Inr [] else ba_read_at ba (getReadSize ba) (m_position ba))"

text \<open>An \<open>iovec\<close> into the chain: node, offset in the node, length.\<close>

record iovec =
  iov_node :: nat
  iov_off :: nat
  iov_len :: nat

function buffers_loop :: "byte list list \<Rightarrow> nat option \<Rightarrow> nat \<Rightarrow> nat \<Rightarrow> nat \<Rightarrow> iovec list res" where
  "buffers_loop nodes cur npos ncap len =
     (if len = 0 then Inr []
      else case cur of None \<Rightarrow> Inl Null_Deref
      | Some c \<Rightarrow>
        if length nodes \<le> c then Inl Bad_Access
        else if len \<le> ncap then Inr [\<lparr>iov_node = c, iov_off = npos, iov_len = len\<rparr>]
        else
          (case node_next nodes c of None \<Rightarrow> Inl Null_Deref
           | Some c' \<Rightarrow>
             (case buffers_loop nodes (Some c') 0 (length (nodes ! c')) (len - ncap) of Inl e \<Rightarrow> Inl e
              | Inr iovs \<Rightarrow> Inr (\<lparr>iov_node = c, iov_off = npos, iov_len = ncap\<rparr> # iovs))))"
  by pat_completeness auto
termination
  by (relation "measure (\<lambda>(nodes, cur, _). length nodes - (case cur of None \<Rightarrow> 0 | Some c \<Rightarrow> c))")
    (auto simp: node_next_def split: if_splits)

declare buffers_loop.simps [simp del]

text \<open>The two overloads of \<open>getReadBuffers\<close>: from the cursor, and from a given position.\<close>

definition getReadBuffers :: "bytearray \<Rightarrow> nat \<Rightarrow> (nat \<times> iovec list) res" where
  "getReadBuffers ba len0 =
     (let len = (if len0 > getReadSize ba then getReadSize ba else len0) in
      if len = 0 then Inr (0, [])
      else if m_baseSize ba = 0 then Inl Div_By_Zero
      else
        let npos = m_position ba mod m_baseSize ba in
        rbind (deref (m_nodes ba) (m_cur ba)) (\<lambda>(c, nd).
        rbind (buffers_loop (m_nodes ba) (m_cur ba) npos (length nd - npos) len)
          (\<lambda>iovs. Inr (len, iovs))))"

primrec node_walk :: "byte list list \<Rightarrow> nat \<Rightarrow> nat option \<Rightarrow> nat option res" where
  "node_walk nodes 0 cur = Inr cur"
| "node_walk nodes (Suc n) cur =
     (case cur of None \<Rightarrow> Inl Null_Deref | Some c \<Rightarrow> node_walk nodes n (node_next nodes c))"

definition getReadBuffers_at :: "bytearray \<Rightarrow> nat \<Rightarrow> nat \<Rightarrow> (nat \<times> iovec list) res" where
  "getReadBuffers_at ba len0 position =
     (let len = (if len0 > getReadSize ba then getReadSize ba else len0) in
      if len = 0 then Inr (0, [])
      else if m_baseSize ba = 0 then Inl Div_By_Zero
      else
        let npos = position mod m_baseSize ba in
        rbind (node_walk (m_nodes ba) (position div m_baseSize ba) (Some 0)) (\<lambda>cur.
        rbind (deref (m_nodes ba) cur) (\<lambda>(c, nd).
        rbind (buffers_loop (m_nodes ba) cur npos (length nd - npos) len)
          (\<lambda>iovs. Inr (len, iovs)))))"

section \<open>Hexadecimal dump\<close>

definition hex_digit :: "nat \<Rightarrow> char" where
  "hex_digit n = ''0123456789abcdef'' ! (n mod 16)"

definition hex_byte :: "byte \<Rightarrow> string" where
  "hex_byte b = [hex_digit (unat b div 16), hex_digit (unat b)]"

text \<open>Every turn of the loop prints \<open>str[1]\<close>, the second character of the string (the terminating
  NUL when there is only one).\<close>

definition toHexString :: "bytearray \<Rightarrow> string res" where
  "toHexString ba =
     rbind (ba_toString ba) (\<lambda>str.
       Inr (concat (map (\<lambda>i.
         (if i > 0 \<and> i mod 32 = 0 then [CHR 10] else []) @
         hex_byte (if 1 < length str then str ! 1 else 0) @ '' '') [0..<length str])))"

section \<open>Files\<close>

text \<open>
  \<open>writeToFile\<close>: \<open>opened\<close> is whether \<open>ofstream::open\<close> succeeded; the result is the return value and
  the bytes written.  The counts are \<open>int64_t\<close>; \<open>ofstream::write\<close> with a negative count is undefined.
\<close>

function wtf_loop :: "nat \<Rightarrow> byte list list \<Rightarrow> nat option \<Rightarrow> int \<Rightarrow> int \<Rightarrow> byte list res" where
  "wtf_loop base nodes cur pos read_size =
     (if read_size \<le> 0 then Inr []
      else if base = 0 then Inl Div_By_Zero
      else case cur of None \<Rightarrow> Inl Null_Deref
      | Some c \<Rightarrow>
        if length nodes \<le> c then Inl Bad_Access
        else
          let diff = pos mod int base;
              len = (if read_size > int base then int base else read_size) - diff
          in if len < 0 then Inl Undefined
             else (case mem_get (nodes ! c) (nat diff) (nat len) of Inl e \<Rightarrow> Inl e
                   | Inr bs \<Rightarrow>
                     (case wtf_loop base nodes (node_next nodes c) (pos + len) (read_size - len)
                      of Inl e \<Rightarrow> Inl e | Inr out \<Rightarrow> Inr (bs @ out))))"
  by pat_completeness auto
termination
  by (relation "measure (\<lambda>(base, nodes, cur, _). case cur of None \<Rightarrow> 0 | Some c \<Rightarrow> length nodes - c)")
    (auto simp: node_next_def split: if_splits option.splits)

declare wtf_loop.simps [simp del]

definition writeToFile :: "bytearray \<Rightarrow> bool \<Rightarrow> (bool \<times> byte list) res" where
  "writeToFile ba opened =
     (if \<not> opened then Inr (False, [])
      else rbind (wtf_loop (m_baseSize ba) (m_nodes ba) (m_cur ba) (int (m_position ba))
                   (int (getReadSize ba))) (\<lambda>out. Inr (True, out)))"

text \<open>
  \<open>readFromFile\<close>: \<open>file\<close> is \<open>None\<close> when the file cannot be opened.  Every turn reads \<open>m_baseSize\<close> bytes
  and writes the \<open>gcount\<close> bytes it got; the read that comes short sets \<open>eof\<close>.  With blocks of size 0
  no read ever reaches the end of the file.
\<close>

function rff_loop :: "nat \<Rightarrow> byte list \<Rightarrow> bytearray \<Rightarrow> bytearray res" where
  "rff_loop base file ba =
     (if base = 0 then Inl Diverge
      else if length file < base then ba_write ba file
      else (case ba_write ba (take base file) of Inl e \<Rightarrow> Inl e
            | Inr ba' \<Rightarrow> rff_loop base (drop base file) ba'))"
  by pat_completeness auto
termination
  by (relation "measure (\<lambda>(base, file, ba). length file)") auto

declare rff_loop.simps [simp del]

definition readFromFile :: "bytearray \<Rightarrow> byte list option \<Rightarrow> (bool \<times> bytearray) res" where
  "readFromFile ba file =
     (case file of None \<Rightarrow> Inr (False, ba)
      | Some bytes \<Rightarrow> rbind (rff_loop (m_baseSize ba) bytes ba) (\<lambda>ba'. Inr (True, ba')))"

end
