(* ===== verification/ByteArray_Inv.thy ===== *)
theory ByteArray_Inv
  imports ByteArray
begin

text \<open>
  The invariant of the serialisation buffer and its abstraction to one contiguous byte sequence:
  every operation of \<open>ByteArray\<close> preserves the invariant and acts on the sequence as the obvious list
  operation does, whatever the block size.
\<close>

section \<open>Invariant and abstraction\<close>

definition cursor :: "nat \<Rightarrow> nat \<Rightarrow> nat \<Rightarrow> nat option" where
  "cursor base n pos = (if pos < base * n then Some (pos div base) else None)"

definition ba_inv :: "bytearray \<Rightarrow> bool" where
  "ba_inv ba \<longleftrightarrow>
     0 < m_baseSize ba \<and> m_nodes ba \<noteq> [] \<and>
     (\<forall>nd \<in> set (m_nodes ba). length nd = m_baseSize ba) \<and>
     m_capacity ba = m_baseSize ba * length (m_nodes ba) \<and>
     m_position ba \<le> m_size ba \<and> m_size ba \<le> m_capacity ba \<and>
     m_cur ba = cursor (m_baseSize ba) (length (m_nodes ba)) (m_position ba)"

definition flat :: "bytearray \<Rightarrow> byte list" where
  "flat ba = concat (m_nodes ba)"

definition content :: "bytearray \<Rightarrow> byte list" where
  "content ba = take (m_size ba) (flat ba)"

definition unread :: "bytearray \<Rightarrow> byte list" where
  "unread ba = drop (m_position ba) (content ba)"

lemma ba_invD:
  assumes "ba_inv ba"
  shows "0 < m_baseSize ba" "m_nodes ba \<noteq> []"
    "\<forall>nd \<in> set (m_nodes ba). length nd = m_baseSize ba"
    "m_capacity ba = m_baseSize ba * length (m_nodes ba)"
    "m_position ba \<le> m_size ba" "m_size ba \<le> m_capacity ba"
    "m_cur ba = cursor (m_baseSize ba) (length (m_nodes ba)) (m_position ba)"
  using assms by (auto simp: ba_inv_def)

lemma length_flat: "ba_inv ba \<Longrightarrow> length (flat ba) = m_capacity ba"
  by (simp add: flat_def ba_invD concat_uniform_length [where b = "m_baseSize ba"])

lemma length_content: "ba_inv ba \<Longrightarrow> length (content ba) = m_size ba"
  using ba_invD(6) [of ba] by (simp add: content_def length_flat)

lemma getReadSize_inv: "ba_inv ba \<Longrightarrow> getReadSize ba = m_size ba - m_position ba"
  by (simp add: getReadSize_def size_t_minus_def ba_invD)

lemma getReadSize_unread: "ba_inv ba \<Longrightarrow> getReadSize ba = length (unread ba)"
  by (simp add: getReadSize_inv unread_def length_content)

lemma getCapacity_inv: "ba_inv ba \<Longrightarrow> getCapacity ba = m_capacity ba - m_position ba"
  using ba_invD(5,6) [of ba] by (simp add: getCapacity_def size_t_minus_def)

lemma cursor_in: "0 < b \<Longrightarrow> npos < b \<Longrightarrow> c < n \<Longrightarrow> cursor b n (b * c + npos) = Some c"
proof -
  assume a: "0 < b" "npos < b" "c < n"
  then have "b * c + npos < b * Suc c" by simp
  also have "\<dots> \<le> b * n" using a by (intro mult_le_mono2) simp
  finally show ?thesis using a by (simp add: cursor_def)
qed

lemma cursor_next: "0 < b \<Longrightarrow> c < n \<Longrightarrow> cursor b n (b * Suc c) = (if Suc c < n then Some (Suc c) else None)"
  by (cases "Suc c = n") (auto simp: cursor_def simp del: mult_Suc_right)

lemma cursor_Some:
  "0 < b \<Longrightarrow> pos < b * n \<Longrightarrow> cursor b n pos = Some (pos div b) \<and> pos div b < n"
  by (simp add: cursor_def less_mult_imp_div_less mult.commute)

lemma next_block: "0 < b \<Longrightarrow> npos < b \<Longrightarrow> b * c + npos + (b - npos) = b * Suc c"
  by simp

lemma one_more_block:
  assumes "0 < b" "npos < b" "b - npos < (k::nat)" "b * c + npos + k \<le> b * n"
  shows "Suc c < n"
proof -
  have "b * Suc c < b * c + npos + k" using assms by simp
  then have "b * Suc c < b * n" using assms(4) by linarith
  then show ?thesis by (simp del: mult_Suc_right)
qed

section \<open>The copy loops\<close>

lemma write_loop_correct:
  assumes "0 < base" "npos < base" "c < length nodes" "\<forall>nd \<in> set nodes. length nd = base"
    and "base * c + npos + length rest \<le> base * length nodes"
  shows "\<exists>nodes'. write_loop nodes (Some c) npos (base - npos) (base * c + npos) rest =
      Inr (nodes', cursor base (length nodes) (base * c + npos + length rest),
           base * c + npos + length rest) \<and>
    concat nodes' = list_put (concat nodes) (base * c + npos) rest \<and>
    length nodes' = length nodes \<and> (\<forall>nd \<in> set nodes'. length nd = base)"
  using assms(2-)
proof (induction "length nodes - c" arbitrary: nodes c npos rest rule: less_induct)
  case less
  have lc: "length (nodes ! c) = base" using less.prems by simp
  show ?case
  proof (cases "rest = []")
    case True
    then show ?thesis
      using less.prems assms(1) by (subst write_loop.simps) (simp add: cursor_in)
  next
    case nonempty: False
    show ?thesis
    proof (cases "length rest \<le> base - npos")
      case True
      let ?nd = "list_put (nodes ! c) npos rest"
      from True less.prems lc have put: "mem_put (nodes ! c) npos rest = Inr ?nd"
        by (simp add: mem_put_def)
      have cur: "(if length (nodes ! c) = npos + length rest then node_next nodes c else Some c) =
          cursor base (length nodes) (base * c + npos + length rest)"
      proof (cases "npos + length rest = base")
        case True
        then have eq: "base * c + npos + length rest = base * Suc c" by simp
        show ?thesis unfolding eq using True lc less.prems assms(1) by (simp add: node_next_def cursor_next del: mult_Suc_right)
      next
        case False
        then show ?thesis
          using True lc less.prems assms(1) cursor_in [of base "npos + length rest" c "length nodes"]
          by (simp add: add.assoc)
      qed
      have blocks: "\<forall>nd \<in> set (nodes[c := ?nd]). length nd = base"
        using True less.prems lc by (intro set_list_update_uniform) auto
      have "concat (nodes[c := ?nd]) = list_put (concat nodes) (base * c + npos) rest"
        using True less.prems by (intro concat_list_update) auto
      with blocks show ?thesis
        using True nonempty less.prems lc put cur
        by (subst write_loop.simps) simp
    next
      case False
      let ?ncap = "base - npos"
      let ?nd = "list_put (nodes ! c) npos (take ?ncap rest)"
      let ?nodes = "nodes[c := ?nd]"
      from False less.prems lc have put: "mem_put (nodes ! c) npos (take ?ncap rest) = Inr ?nd"
        by (simp add: mem_put_def)
      have next_c: "Suc c < length nodes"
        using False less.prems assms(1) by (intro one_more_block [of base npos "length rest"]) auto
      have blocks: "\<forall>nd \<in> set ?nodes. length nd = base"
        using False less.prems lc by (intro set_list_update_uniform) auto
      have pos: "base * c + npos + ?ncap = base * Suc c + 0"
        using less.prems by simp
      have fit: "base * Suc c + 0 + length (drop ?ncap rest) \<le> base * length ?nodes"
        using False less.prems pos by simp
      have "length ?nodes - Suc c < length nodes - c" using less.prems by simp
      from less.hyps [OF this, of 0 "drop ?ncap rest"] next_c blocks fit assms(1)
      obtain nodes' where IH:
        "write_loop ?nodes (Some (Suc c)) 0 base (base * Suc c) (drop ?ncap rest) =
          Inr (nodes', cursor base (length nodes) (base * Suc c + length (drop ?ncap rest)),
            base * Suc c + length (drop ?ncap rest))"
        "concat nodes' = list_put (concat ?nodes) (base * Suc c) (drop ?ncap rest)"
        "length nodes' = length nodes" "\<forall>nd \<in> set nodes'. length nd = base"
        by (auto simp del: mult_Suc_right)
      have total: "base * Suc c + length (drop ?ncap rest) = base * c + npos + length rest"
        using False less.prems by simp
      have "concat nodes' = list_put (list_put (concat nodes) (base * c + npos) (take ?ncap rest))
          (base * c + npos + length (take ?ncap rest)) (drop ?ncap rest)"
        using IH(2) False less.prems lc pos
        by (simp add: concat_list_update [where b = base] add.commute)
      also have "\<dots> = list_put (concat nodes) (base * c + npos) rest"
        using less.prems by (subst list_put_append)
          (simp_all add: concat_uniform_length [where b = base])
      finally have flat': "concat nodes' = list_put (concat nodes) (base * c + npos) rest" .
      have step: "write_loop ?nodes (Some (Suc c)) 0 base (base * c + npos + ?ncap) (drop ?ncap rest) =
          Inr (nodes', cursor base (length nodes) (base * c + npos + length rest),
            base * c + npos + length rest)"
        using IH(1) by (simp only: pos total add_0_right)
      have "length (nodes ! Suc c) = base" using next_c less.prems by simp
      then have "write_loop nodes (Some c) npos ?ncap (base * c + npos) rest =
          Inr (nodes', cursor base (length nodes) (base * c + npos + length rest),
            base * c + npos + length rest)"
        using False nonempty less.prems(2) put next_c step
        by (subst write_loop.simps) (simp add: node_next_def)
      with flat' IH(3,4) show ?thesis by blast
    qed
  qed
qed

lemma read_loop_correct:
  assumes "0 < base" "npos < base" "c < length nodes" "\<forall>nd \<in> set nodes. length nd = base"
    and "base * c + npos + sz \<le> base * length nodes"
  shows "read_loop nodes (Some c) npos (base - npos) (base * c + npos) sz =
    Inr (take sz (drop (base * c + npos) (concat nodes)),
         cursor base (length nodes) (base * c + npos + sz), base * c + npos + sz)"
  using assms(2,3,5)
proof (induction "length nodes - c" arbitrary: c npos sz rule: less_induct)
  case less
  have lc: "length (nodes ! c) = base" using less.prems assms(4) by simp
  have dropc: "drop (base * c + npos) (concat nodes) =
      drop npos (nodes ! c) @ concat (drop (Suc c) nodes)"
    using less.prems assms(4) by (intro drop_concat_uniform) auto
  show ?case
  proof (cases "sz = 0")
    case True
    then show ?thesis
      using less.prems assms(1) by (subst read_loop.simps) (simp add: cursor_in)
  next
    case nonempty: False
    show ?thesis
    proof (cases "sz \<le> base - npos")
      case True
      have cur: "(if length (nodes ! c) = npos + sz then node_next nodes c else Some c) =
          cursor base (length nodes) (base * c + npos + sz)"
      proof (cases "npos + sz = base")
        case True
        then have eq: "base * c + npos + sz = base * Suc c" by simp
        show ?thesis unfolding eq using True lc less.prems assms(1) by (simp add: node_next_def cursor_next del: mult_Suc_right)
      next
        case False
        then show ?thesis
          using True lc less.prems assms(1) cursor_in [of base "npos + sz" c "length nodes"]
          by (simp add: add.assoc)
      qed
      show ?thesis
        using True nonempty less.prems lc cur dropc
        by (subst read_loop.simps) (simp add: mem_get_def)
    next
      case False
      let ?ncap = "base - npos"
      have next_c: "Suc c < length nodes"
        using False less.prems assms(1) by (intro one_more_block [of base npos sz]) auto
      have pos: "base * c + npos + ?ncap = base * Suc c"
        using less.prems by simp
      have total: "base * Suc c + (sz - ?ncap) = base * c + npos + sz"
        using False less.prems by simp
      have IH: "read_loop nodes (Some (Suc c)) 0 base (base * Suc c) (sz - ?ncap) =
          Inr (take (sz - ?ncap) (drop (base * Suc c) (concat nodes)),
            cursor base (length nodes) (base * c + npos + sz), base * c + npos + sz)"
        using less.hyps [of "Suc c" 0 "sz - ?ncap"] next_c less.prems assms(1) total
        by (auto simp: add.assoc simp del: mult_Suc_right)
      have "drop (base * Suc c) (concat nodes) = concat (drop (Suc c) nodes)"
        using drop_concat_uniform [of nodes base "Suc c" 0] next_c assms(4)
        by (simp add: Cons_nth_drop_Suc [symmetric])
      moreover have "length (nodes ! Suc c) = base" using next_c assms(4) by simp
      ultimately show ?thesis
        using False nonempty less.prems lc next_c IH pos dropc
        by (subst read_loop.simps) (simp add: mem_get_def node_next_def del: mult_Suc_right)
    qed
  qed
qed

section \<open>The operations on the invariant\<close>

lemma ByteArray_new_inv: "0 < base \<Longrightarrow> ba_inv (ByteArray_new fresh base)"
  by (simp add: ba_inv_def ByteArray_new_def Node_new_def cursor_def)

lemma node_count_enough:
  assumes "0 < base"
  shows "sz \<le> node_count sz base * base"
proof -
  have "sz + base - 1 = node_count sz base * base + (sz + base - 1) mod base"
    by (simp add: node_count_def)
  moreover have "(sz + base - 1) mod base < base"
    using assms by simp
  ultimately show ?thesis by linarith
qed

lemma node_count_pos: "0 < base \<Longrightarrow> 0 < sz \<Longrightarrow> 0 < node_count sz base"
  by (simp add: node_count_def div_greater_zero_iff)

text \<open>What growing keeps, and the room that it makes.\<close>

definition same_view :: "bytearray \<Rightarrow> bytearray \<Rightarrow> bool" where
  "same_view a b \<longleftrightarrow>
     m_baseSize b = m_baseSize a \<and> m_position b = m_position a \<and> m_size b = m_size a \<and>
     m_endian b = m_endian a \<and> content b = content a"

lemma addCapacity_ok:
  assumes inv: "ba_inv ba"
  shows "\<exists>ba'. addCapacity ba sz = Inr ba' \<and> ba_inv ba' \<and> same_view ba ba' \<and>
    (0 < sz \<longrightarrow> m_position ba + sz \<le> m_capacity ba')"
proof (cases "sz = 0 \<or> sz \<le> getCapacity ba")
  case True
  then have "addCapacity ba sz = Inr ba" by (auto simp: addCapacity_def Let_def)
  moreover have "0 < sz \<longrightarrow> m_position ba + sz \<le> m_capacity ba"
    using True getCapacity_inv [OF inv] ba_invD(5,6) [OF inv] by auto
  ultimately show ?thesis using inv by (auto simp: same_view_def)
next
  case False
  note d = ba_invD [OF inv]
  let ?b = "m_baseSize ba" and ?n = "length (m_nodes ba)" and ?old = "getCapacity ba"
  let ?k = "node_count (sz - ?old) ?b"
  let ?nodes = "m_nodes ba @ map (\<lambda>i. Node_new (m_fresh ba) i ?b) [?n..<?n + ?k]"
  let ?cur = "if ?old = 0 then Some ?n else m_cur ba"
  let ?ba' = "ba\<lparr>m_nodes := ?nodes, m_capacity := m_capacity ba + ?k * ?b, m_cur := ?cur\<rparr>"
  from False have k: "0 < ?k" using d by (intro node_count_pos) auto
  have eq: "addCapacity ba sz = Inr ?ba'"
    using False d k by (auto simp: addCapacity_def Let_def)
  have old: "?old = m_capacity ba - m_position ba" by (rule getCapacity_inv [OF inv])
  have room: "m_position ba + sz \<le> m_capacity ba + ?k * ?b"
    using node_count_enough [OF d(1), of "sz - ?old"] False old d by linarith
  have len: "length ?nodes = ?n + ?k" by simp
  have cur: "?cur = cursor ?b (?n + ?k) (m_position ba)"
  proof (cases "?old = 0")
    case True
    then have "m_position ba = ?b * ?n + 0" using old d by simp
    then show ?thesis using True k d cursor_in [of ?b 0 ?n "?n + ?k"] by simp
  next
    case False
    then have "m_position ba < ?b * ?n" using old d by simp
    then show ?thesis
      using False d k by (auto simp: cursor_def distrib_left)
  qed
  have "ba_inv ?ba'"
    using d cur by (auto simp: ba_inv_def Node_new_def distrib_left mult.commute)
  moreover have "same_view ba ?ba'"
    using d by (auto simp: same_view_def content_def flat_def concat_uniform_length [where b = ?b])
  ultimately show ?thesis using eq room by auto
qed

text \<open>
  The central fact about the buffer: whatever the block size and the fill of fresh memory, a write
  always succeeds, keeps the invariant, and overwrites the byte sequence at the cursor.
\<close>

lemma ba_write_ok:
  assumes inv: "ba_inv ba"
  shows "\<exists>ba'. ba_write ba bs = Inr ba' \<and> ba_inv ba' \<and>
    content ba' = list_put (content ba) (m_position ba) bs \<and>
    m_position ba' = m_position ba + length bs \<and>
    m_size ba' = max (m_size ba) (m_position ba + length bs) \<and>
    m_endian ba' = m_endian ba \<and> m_baseSize ba' = m_baseSize ba"
proof (cases "bs = []")
  case True
  then show ?thesis using inv ba_invD(5) [OF inv] by (simp add: ba_write_def)
next
  case False
  obtain ba1 where ba1: "addCapacity ba (length bs) = Inr ba1" "ba_inv ba1" "same_view ba ba1"
    "m_position ba + length bs \<le> m_capacity ba1"
    using addCapacity_ok [OF inv, of "length bs"] False by auto
  note d = ba_invD [OF ba1(2)]
  note v = ba1(3) [unfolded same_view_def]
  let ?b = "m_baseSize ba1" and ?n = "length (m_nodes ba1)" and ?p = "m_position ba1"
  let ?c = "?p div ?b" and ?o = "?p mod ?b"
  have bound: "?p + length bs \<le> ?b * ?n" using ba1(4) d v by simp
  moreover have "0 < length bs" using False by simp
  ultimately have p: "?p < ?b * ?n" by linarith
  have cur: "m_cur ba1 = Some ?c" and c: "?c < ?n"
    using cursor_Some [OF d(1) p] d(7) by auto
  have split: "?b * ?c + ?o = ?p" by simp
  from write_loop_correct [OF d(1) _ c d(3), of ?o bs] d(1) bound split
  obtain nodes' where w:
    "write_loop (m_nodes ba1) (Some ?c) ?o (?b - ?o) ?p bs =
      Inr (nodes', cursor ?b ?n (?p + length bs), ?p + length bs)"
    "concat nodes' = list_put (flat ba1) ?p bs" "length nodes' = ?n"
    "\<forall>nd \<in> set nodes'. length nd = ?b"
    by (auto simp: flat_def)
  let ?ba' = "ba1\<lparr>m_nodes := nodes', m_cur := cursor ?b ?n (?p + length bs),
    m_position := ?p + length bs, m_size := max (m_size ba1) (?p + length bs)\<rparr>"
  have "ba_write ba bs = Inr ?ba'"
    using False ba1(1) d(1,3) cur c w(1)
    by (simp add: ba_write_def Let_def deref_def max_def)
  moreover have "ba_inv ?ba'"
    using d w bound by (auto simp: ba_inv_def)
  moreover have "content ?ba' = list_put (content ba1) ?p bs"
    using d w(2) length_flat [OF ba1(2)] by (simp add: content_def flat_def [of ?ba'] take_list_put_max)
  ultimately show ?thesis using v by auto
qed

lemma ba_read_ok:
  assumes inv: "ba_inv ba" and n: "0 < n" "n \<le> length (unread ba)"
  shows "\<exists>ba'. ba_read ba n = Inr (take n (unread ba), ba') \<and> ba_inv ba' \<and>
    content ba' = content ba \<and> m_position ba' = m_position ba + n \<and>
    m_size ba' = m_size ba \<and> m_endian ba' = m_endian ba \<and> m_baseSize ba' = m_baseSize ba"
proof -
  note d = ba_invD [OF inv]
  let ?b = "m_baseSize ba" and ?n = "length (m_nodes ba)" and ?p = "m_position ba"
  let ?c = "?p div ?b" and ?o = "?p mod ?b"
  from n inv have bound: "?p + n \<le> m_size ba"
    by (simp add: unread_def length_content)
  then have p: "?p < ?b * ?n" using n d by linarith
  have cur: "m_cur ba = Some ?c" and c: "?c < ?n"
    using cursor_Some [OF d(1) p] d(7) by auto
  have r: "read_loop (m_nodes ba) (Some ?c) ?o (?b - ?o) ?p n =
      Inr (take n (drop ?p (flat ba)), cursor ?b ?n (?p + n), ?p + n)"
    using read_loop_correct [OF d(1) _ c d(3), of ?o n] d bound by (simp add: flat_def)
  let ?ba' = "ba\<lparr>m_cur := cursor ?b ?n (?p + n), m_position := ?p + n\<rparr>"
  have "take n (drop ?p (flat ba)) = take n (unread ba)"
    using bound by (simp add: unread_def content_def drop_take)
  then have "ba_read ba n = Inr (take n (unread ba), ?ba')"
    using n d(1,3) cur c r getReadSize_unread [OF inv] by (simp add: ba_read_def Let_def deref_def)
  moreover have "ba_inv ?ba'" using d bound by (simp add: ba_inv_def)
  ultimately show ?thesis by (auto simp: content_def flat_def)
qed

lemma ba_read_short:
  "ba_inv ba \<Longrightarrow> length (unread ba) < n \<Longrightarrow> ba_read ba n = Inl Out_Of_Range"
  by (simp add: ba_read_def getReadSize_unread)

lemma seek_loop_correct:
  assumes "0 < base" "\<forall>nd \<in> set nodes. length nd = base" "c < length nodes"
    and "v \<le> base * (length nodes - c)"
  shows "\<exists>c' v'. seek_loop nodes (Some c) v = Inr (c', nodes ! c', v') \<and> c' < length nodes \<and>
    v' \<le> base \<and> base * c + v = base * c' + v'"
  using assms(3,4)
proof (induction "length nodes - c" arbitrary: c v rule: less_induct)
  case less
  have lc: "length (nodes ! c) = base" using less.prems assms(2) by simp
  show ?case
  proof (cases "v > base")
    case False
    then show ?thesis using less.prems lc by (subst seek_loop.simps) auto
  next
    case True
    have "Suc c < length nodes"
    proof (rule ccontr)
      assume "\<not> Suc c < length nodes"
      then have "length nodes - c = 1" using less.prems by linarith
      then show False using less.prems True by simp
    qed
    moreover have "v - base \<le> base * (length nodes - Suc c)"
      using less.prems True \<open>Suc c < length nodes\<close>
      by (simp add: diff_mult_distrib2 algebra_simps)
    moreover have "length nodes - Suc c < length nodes - c" using less.prems by simp
    ultimately obtain c' v' where IH: "seek_loop nodes (Some (Suc c)) (v - base) = Inr (c', nodes ! c', v')"
      "c' < length nodes" "v' \<le> base" "base * Suc c + (v - base) = base * c' + v'"
      using less.hyps by blast
    have "seek_loop nodes (Some c) v = seek_loop nodes (Some (Suc c)) (v - base)"
      using True less.prems lc \<open>Suc c < length nodes\<close>
      by (subst seek_loop.simps) (simp add: node_next_def)
    moreover have "base * c + v = base * c' + v'" using IH(4) True by simp
    ultimately show ?thesis using IH by auto
  qed
qed

lemma setPosition_ok:
  assumes inv: "ba_inv ba" and v: "v \<le> m_capacity ba"
  shows "\<exists>ba'. setPosition ba v = Inr ba' \<and> ba_inv ba' \<and> m_position ba' = v \<and>
    m_size ba' = max (m_size ba) v \<and> flat ba' = flat ba \<and>
    m_endian ba' = m_endian ba \<and> m_baseSize ba' = m_baseSize ba"
proof -
  note d = ba_invD [OF inv]
  let ?b = "m_baseSize ba" and ?nodes = "m_nodes ba"
  have "0 < length ?nodes" using d by simp
  from seek_loop_correct [OF d(1,3) this, of v] v d
  obtain c r where s: "seek_loop ?nodes (Some 0) v = Inr (c, ?nodes ! c, r)"
    "c < length ?nodes" "r \<le> ?b" "v = ?b * c + r"
    by auto
  have lc: "length (?nodes ! c) = ?b" using s d by simp
  have cur: "(if r = ?b then node_next ?nodes c else Some c) = cursor ?b (length ?nodes) v"
  proof (cases "r = ?b")
    case True
    then have "v = ?b * Suc c" using s by simp
    then show ?thesis using True s d by (simp add: node_next_def cursor_next del: mult_Suc_right)
  next
    case False
    then show ?thesis using s d by (simp add: cursor_in)
  qed
  let ?ba' = "ba\<lparr>m_position := v, m_size := max (m_size ba) v, m_cur := cursor ?b (length ?nodes) v\<rparr>"
  have "setPosition ba v = Inr ?ba'"
    using v s(1) lc cur by (cases "r = ?b") (auto simp: setPosition_def Let_def max_def)
  moreover have "ba_inv ?ba'" using d v by (simp add: ba_inv_def)
  ultimately show ?thesis by (auto simp: flat_def)
qed

lemma setPosition_content:
  assumes "ba_inv ba" "v \<le> m_size ba"
  shows "\<exists>ba'. setPosition ba v = Inr ba' \<and> ba_inv ba' \<and> m_position ba' = v \<and>
    m_size ba' = m_size ba \<and> content ba' = content ba \<and>
    m_endian ba' = m_endian ba \<and> m_baseSize ba' = m_baseSize ba"
proof -
  from assms ba_invD(6) [OF assms(1)] have "v \<le> m_capacity ba" by simp
  from setPosition_ok [OF assms(1) this] assms(2) show ?thesis
    by (auto simp: content_def max_def)
qed

lemma setPosition_out_of_range: "m_capacity ba < v \<Longrightarrow> setPosition ba v = Inl Out_Of_Range"
  by (simp add: setPosition_def)

lemma ba_clear_ok:
  assumes "ba_inv ba"
  shows "ba_inv (ba_clear ba)" "content (ba_clear ba) = []" "m_position (ba_clear ba) = 0"
proof -
  obtain nd rest where "m_nodes ba = nd # rest"
    using ba_invD(2) [OF assms] by (cases "m_nodes ba") auto
  then show "ba_inv (ba_clear ba)" "content (ba_clear ba) = []" "m_position (ba_clear ba) = 0"
    using ba_invD [OF assms] by (auto simp: ba_inv_def ba_clear_def cursor_def content_def)
qed

end
