(* ===== verification/Byte_Cursor.thy ===== *)
theory Byte_Cursor
  imports HPGS_Prelude
begin

text \<open>
  The interface that the typed readers and writers use: a byte sequence with a cursor, split into the
  bytes before it (\<open>written\<close>) and after it (\<open>unread\<close>), with a sequential write, a sequential read
  and a seek.  The client lemmas are about composing reads and writes; the provider is the
  serialisation buffer.
\<close>

locale byte_cursor =
  fixes inv :: "'s \<Rightarrow> bool"
    and written :: "'s \<Rightarrow> byte list"
    and unread :: "'s \<Rightarrow> byte list"
    and order :: "'s \<Rightarrow> 'o"
    and wr :: "'s \<Rightarrow> byte list \<Rightarrow> 's res"
    and rd :: "'s \<Rightarrow> nat \<Rightarrow> (byte list \<times> 's) res"
    and seek :: "'s \<Rightarrow> nat \<Rightarrow> 's res"
  assumes wr_law: "inv s \<Longrightarrow> \<exists>s'. wr s bs = Inr s' \<and> inv s' \<and> written s' = written s @ bs \<and>
      unread s' = drop (length bs) (unread s) \<and> order s' = order s"
    and rd_law: "inv s \<Longrightarrow> 0 < n \<Longrightarrow> n \<le> length (unread s) \<Longrightarrow>
      \<exists>s'. rd s n = Inr (take n (unread s), s') \<and> inv s' \<and>
        written s' = written s @ take n (unread s) \<and> unread s' = drop n (unread s) \<and>
        order s' = order s"
    and rd_short: "inv s \<Longrightarrow> length (unread s) < n \<Longrightarrow> rd s n = Inl Out_Of_Range"
    and seek_law: "inv s \<Longrightarrow> v \<le> length (written s) + length (unread s) \<Longrightarrow>
      \<exists>s'. seek s v = Inr s' \<and> inv s' \<and> written s' = take v (written s @ unread s) \<and>
        unread s' = drop v (written s @ unread s) \<and> order s' = order s"
begin

text \<open>\<open>step s s' bs\<close>: the cursor has moved over \<open>bs\<close>, which are now the last bytes before it.\<close>

definition step :: "'s \<Rightarrow> 's \<Rightarrow> byte list \<Rightarrow> bool" where
  "step s s' bs \<longleftrightarrow> inv s' \<and> written s' = written s @ bs \<and>
     unread s' = drop (length bs) (unread s) \<and> order s' = order s"

lemma step_refl: "inv s \<Longrightarrow> step s s []"
  by (simp add: step_def)

lemma step_trans: "step s s' xs \<Longrightarrow> step s' s'' ys \<Longrightarrow> step s s'' (xs @ ys)"
  by (simp add: step_def add.commute)

lemma step_inv: "step s s' bs \<Longrightarrow> inv s'"
  by (simp add: step_def)

lemma step_order: "step s s' bs \<Longrightarrow> order s' = order s"
  by (simp add: step_def)

lemma step_unread: "step s s' bs \<Longrightarrow> unread s = bs @ rest \<Longrightarrow> unread s' = rest"
  by (simp add: step_def)

lemma wr_step: "inv s \<Longrightarrow> \<exists>s'. wr s bs = Inr s' \<and> step s s' bs"
  using wr_law [of s bs] by (auto simp: step_def)

lemma rd_step:
  assumes "inv s" "unread s = bs @ rest" "bs \<noteq> []" "length bs = n"
  shows "\<exists>s'. rd s n = Inr (bs, s') \<and> step s s' bs"
  using rd_law [of s n] assms by (auto simp: step_def)

lemma rewind:
  assumes "step s s' bs" "inv s"
  shows "\<exists>s2. seek s' (length (written s)) = Inr s2 \<and> inv s2 \<and> written s2 = written s \<and>
    (\<exists>rest. unread s2 = bs @ rest) \<and> order s2 = order s"
  using seek_law [of s' "length (written s)"] assms by (auto simp: step_def)

lemma write_rewind_read:
  assumes "inv s" "bs \<noteq> []"
  shows "\<exists>s1 s2 s3. wr s bs = Inr s1 \<and> seek s1 (length (written s)) = Inr s2 \<and>
    rd s2 (length bs) = Inr (bs, s3) \<and> inv s3 \<and> written s3 = written s @ bs"
proof -
  obtain s1 where s1: "wr s bs = Inr s1" "step s s1 bs"
    using wr_step [OF assms(1)] by blast
  obtain s2 rest where s2: "seek s1 (length (written s)) = Inr s2" "inv s2"
    "written s2 = written s" "unread s2 = bs @ rest"
    using rewind [OF s1(2) assms(1)] by blast
  obtain s3 where "rd s2 (length bs) = Inr (bs, s3)" "step s2 s3 bs"
    using rd_step [OF s2(2,4) assms(2)] by blast
  with s1 s2 show ?thesis by (auto simp: step_def)
qed

end

end
