(* ===== verification/ByteArray_Codec.thy ===== *)
theory ByteArray_Codec
  imports ByteArray_Inv Byte_Cursor
begin

text \<open>
  The typed readers and writers of \<open>src/network/bytearray.cc\<close>: fixed-width integers in the buffer's
  byte order, zigzag and variable-length integers, floating point numbers as bit patterns, and
  strings with four kinds of length prefix.  \<open>host\<close> is the byte order of the machine
  (\<open>HPGS_BYTE_ORDER\<close>).
\<close>

section \<open>The buffer as a byte cursor\<close>

definition written :: "bytearray \<Rightarrow> byte list" where
  "written ba = take (m_position ba) (content ba)"

lemma length_written: "ba_inv ba \<Longrightarrow> length (written ba) = m_position ba"
  using ba_invD(5) [of ba] by (simp add: written_def length_content)

lemma written_unread: "written ba @ unread ba = content ba"
  by (simp add: written_def unread_def)

lemma length_written_unread: "ba_inv ba \<Longrightarrow> length (written ba) + length (unread ba) = m_size ba"
  by (metis written_unread length_append length_content)

interpretation bc: byte_cursor ba_inv written unread m_endian ba_write ba_read setPosition
proof (unfold_locales, goal_cases)
  case (1 s bs)
  then show ?case
    using ba_write_ok [OF 1, of bs] ba_invD(5) [OF 1] length_content [OF 1]
    by (auto simp: written_def unread_def list_put_def add.commute)
next
  case (2 s n)
  then show ?case
    using ba_read_ok [OF 2] ba_invD(5) [OF 2(1)] length_content [OF 2(1)]
    by (auto simp: written_def unread_def take_add) (simp_all add: add.commute)
next
  case (3 s n)
  then show ?case by (rule ba_read_short)
next
  case (4 s v)
  then show ?case
    using setPosition_content [of s v] length_written_unread [of s]
    by (auto simp: written_unread) (auto simp: written_def unread_def)
qed

section \<open>Fixed-width integers\<close>

definition to_order :: "byte_order \<Rightarrow> bytearray \<Rightarrow> 'a::len word \<Rightarrow> 'a word" where
  "to_order host ba value = (if m_endian ba \<noteq> host then byteswap value else value)"

definition writeFint8 :: "byte_order \<Rightarrow> bytearray \<Rightarrow> 8 word \<Rightarrow> bytearray res" where
  "writeFint8 host ba value = ba_write ba (mem_bytes host value)"

definition writeFuint8 :: "byte_order \<Rightarrow> bytearray \<Rightarrow> 8 word \<Rightarrow> bytearray res" where
  "writeFuint8 host ba value = ba_write ba (mem_bytes host value)"

definition writeFint16 :: "byte_order \<Rightarrow> bytearray \<Rightarrow> u16 \<Rightarrow> bytearray res" where
  "writeFint16 host ba value = ba_write ba (mem_bytes host (to_order host ba value))"

definition writeFuint16 :: "byte_order \<Rightarrow> bytearray \<Rightarrow> u16 \<Rightarrow> bytearray res" where
  "writeFuint16 host ba value = ba_write ba (mem_bytes host (to_order host ba value))"

definition writeFint32 :: "byte_order \<Rightarrow> bytearray \<Rightarrow> u32 \<Rightarrow> bytearray res" where
  "writeFint32 host ba value = ba_write ba (mem_bytes host (to_order host ba value))"

definition writeFuint32 :: "byte_order \<Rightarrow> bytearray \<Rightarrow> u32 \<Rightarrow> bytearray res" where
  "writeFuint32 host ba value = ba_write ba (mem_bytes host (to_order host ba value))"

definition writeFint64 :: "byte_order \<Rightarrow> bytearray \<Rightarrow> u64 \<Rightarrow> bytearray res" where
  "writeFint64 host ba value = ba_write ba (mem_bytes host (to_order host ba value))"

definition writeFuint64 :: "byte_order \<Rightarrow> bytearray \<Rightarrow> u64 \<Rightarrow> bytearray res" where
  "writeFuint64 host ba value = ba_write ba (mem_bytes host (to_order host ba value))"

definition readFint8 :: "byte_order \<Rightarrow> bytearray \<Rightarrow> (8 word \<times> bytearray) res" where
  "readFint8 host ba = rbind (ba_read ba 1) (\<lambda>(bs, ba'). Inr (mem_word host bs, ba'))"

definition readFuint8 :: "byte_order \<Rightarrow> bytearray \<Rightarrow> (8 word \<times> bytearray) res" where
  "readFuint8 host ba = rbind (ba_read ba 1) (\<lambda>(bs, ba'). Inr (mem_word host bs, ba'))"

text \<open>The macro \<open>XX(type)\<close> of the fixed-width readers.\<close>

definition read_XX :: "byte_order \<Rightarrow> bytearray \<Rightarrow> ('a::len word \<times> bytearray) res" where
  "read_XX host ba =
     rbind (ba_read ba (LENGTH('a) div 8)) (\<lambda>(bs, ba').
       let v = mem_word host bs in
       if m_endian ba' = host then Inr (v, ba') else Inr (byteswap v, ba'))"

definition readFint16 :: "byte_order \<Rightarrow> bytearray \<Rightarrow> (u16 \<times> bytearray) res" where
  "readFint16 host ba = read_XX host ba"

definition readFuint16 :: "byte_order \<Rightarrow> bytearray \<Rightarrow> (u16 \<times> bytearray) res" where
  "readFuint16 host ba = read_XX host ba"

definition readFint32 :: "byte_order \<Rightarrow> bytearray \<Rightarrow> (u32 \<times> bytearray) res" where
  "readFint32 host ba = read_XX host ba"

definition readFuint32 :: "byte_order \<Rightarrow> bytearray \<Rightarrow> (u32 \<times> bytearray) res" where
  "readFuint32 host ba = read_XX host ba"

definition readFint64 :: "byte_order \<Rightarrow> bytearray \<Rightarrow> (u64 \<times> bytearray) res" where
  "readFint64 host ba = read_XX host ba"

definition readFuint64 :: "byte_order \<Rightarrow> bytearray \<Rightarrow> (u64 \<times> bytearray) res" where
  "readFuint64 host ba = read_XX host ba"

section \<open>Zigzag and variable-length integers\<close>

text \<open>
  The zigzag encoders on two's complement words.  In C++ \<open>-v\<close> is undefined for the least value and
  \<open>v * 2\<close> on a signed \<open>v\<close> is undefined when it overflows; the model computes what the hardware
  computes, and \<open>zigzag_defined\<close> says where the language defines it.
\<close>

definition EncodeZigzag32 :: "u32 \<Rightarrow> u32" where
  "EncodeZigzag32 v = (if sint v < 0 then (- v) * 2 - 1 else v * 2)"

definition EncodeZigzag64 :: "u64 \<Rightarrow> u64" where
  "EncodeZigzag64 v = (if sint v < 0 then (- v) * 2 - 1 else v * 2)"

definition zigzag_defined :: "'a::len word \<Rightarrow> bool" where
  "zigzag_defined v \<longleftrightarrow>
     (if sint v < 0 then - sint v < 2 ^ (LENGTH('a) - 1) else sint v * 2 < 2 ^ (LENGTH('a) - 1))"

definition DecodeZigzag32 :: "u32 \<Rightarrow> u32" where
  "DecodeZigzag32 v = drop_bit 1 v XOR - (v AND 1)"

definition DecodeZigzag64 :: "u64 \<Rightarrow> u64" where
  "DecodeZigzag64 v = drop_bit 1 v XOR - (v AND 1)"

text \<open>The loop that fills \<open>tmp\<close>, shared by \<open>writeUint32\<close> (\<open>tmp[5]\<close>) and \<open>writeUint64\<close> (\<open>tmp[10]\<close>).\<close>

function varint_bytes :: "'a::len word \<Rightarrow> byte list" where
  "varint_bytes value =
     (if unat value \<ge> 0x80
      then (ucast (value AND 0x7F) OR 0x80) # varint_bytes (drop_bit 7 value)
      else [ucast value])"
  by pat_completeness auto
termination
  by (relation "measure unat") (simp_all add: unat_drop_bit)

declare varint_bytes.simps [simp del]

definition tmp_bytes :: "nat \<Rightarrow> byte list \<Rightarrow> byte list res" where
  "tmp_bytes n bs = (if length bs \<le> n then Inr bs else Inl Bad_Access)"

definition writeUint32 :: "bytearray \<Rightarrow> u32 \<Rightarrow> bytearray res" where
  "writeUint32 ba value = rbind (tmp_bytes 5 (varint_bytes value)) (ba_write ba)"

definition writeUint64 :: "bytearray \<Rightarrow> u64 \<Rightarrow> bytearray res" where
  "writeUint64 ba value = rbind (tmp_bytes 10 (varint_bytes value)) (ba_write ba)"

definition writeInt32 :: "bytearray \<Rightarrow> u32 \<Rightarrow> bytearray res" where
  "writeInt32 ba value = writeUint32 ba (EncodeZigzag32 value)"

definition writeInt64 :: "bytearray \<Rightarrow> u64 \<Rightarrow> bytearray res" where
  "writeInt64 ba value = writeUint64 ba (EncodeZigzag64 value)"

function read_varint :: "byte_order \<Rightarrow> nat \<Rightarrow> 'a::len word \<Rightarrow> bytearray \<Rightarrow> ('a word \<times> bytearray) res" where
  "read_varint host i result ba =
     (if i < LENGTH('a) then
        (case readFint8 host ba of Inl e \<Rightarrow> Inl e
         | Inr (v, ba') \<Rightarrow>
           if unat v < 0x80 then Inr (result OR push_bit i (ucast v), ba')
           else read_varint host (i + 7) (result OR push_bit i (ucast (v AND 0x7F))) ba')
      else Inr (result, ba))"
  by pat_completeness auto
termination
  by (relation "measure (\<lambda>(host, i, result, ba). LENGTH('a) - i)") auto

declare read_varint.simps [simp del]

definition readUint32 :: "byte_order \<Rightarrow> bytearray \<Rightarrow> (u32 \<times> bytearray) res" where
  "readUint32 host ba = read_varint host 0 0 ba"

definition readUint64 :: "byte_order \<Rightarrow> bytearray \<Rightarrow> (u64 \<times> bytearray) res" where
  "readUint64 host ba = read_varint host 0 0 ba"

definition readInt32 :: "byte_order \<Rightarrow> bytearray \<Rightarrow> (u32 \<times> bytearray) res" where
  "readInt32 host ba = rbind (readUint32 host ba) (\<lambda>(v, ba'). Inr (DecodeZigzag32 v, ba'))"

definition readInt64 :: "byte_order \<Rightarrow> bytearray \<Rightarrow> (u64 \<times> bytearray) res" where
  "readInt64 host ba = rbind (readUint64 host ba) (\<lambda>(v, ba'). Inr (DecodeZigzag64 v, ba'))"

section \<open>Floating point numbers and strings\<close>

text \<open>A \<open>float\<close> or a \<open>double\<close> is its bit pattern, which is all that \<open>memcpy\<close> moves.\<close>

type_synonym float_bits = "32 word"
type_synonym double_bits = "64 word"

definition writeFloat :: "byte_order \<Rightarrow> bytearray \<Rightarrow> float_bits \<Rightarrow> bytearray res" where
  "writeFloat host ba value = writeFuint32 host ba value"

definition writeDouble :: "byte_order \<Rightarrow> bytearray \<Rightarrow> double_bits \<Rightarrow> bytearray res" where
  "writeDouble host ba value = writeFuint64 host ba value"

definition readFloat :: "byte_order \<Rightarrow> bytearray \<Rightarrow> (float_bits \<times> bytearray) res" where
  "readFloat host ba = readFuint32 host ba"

definition readDouble :: "byte_order \<Rightarrow> bytearray \<Rightarrow> (double_bits \<times> bytearray) res" where
  "readDouble host ba = readFuint64 host ba"

definition writeStringF16 :: "byte_order \<Rightarrow> bytearray \<Rightarrow> byte list \<Rightarrow> bytearray res" where
  "writeStringF16 host ba value =
     rbind (writeFuint16 host ba (of_nat (length value))) (\<lambda>ba'. ba_write ba' value)"

definition writeStringF32 :: "byte_order \<Rightarrow> bytearray \<Rightarrow> byte list \<Rightarrow> bytearray res" where
  "writeStringF32 host ba value =
     rbind (writeFuint32 host ba (of_nat (length value))) (\<lambda>ba'. ba_write ba' value)"

definition writeStringF64 :: "byte_order \<Rightarrow> bytearray \<Rightarrow> byte list \<Rightarrow> bytearray res" where
  "writeStringF64 host ba value =
     rbind (writeFint64 host ba (of_nat (length value))) (\<lambda>ba'. ba_write ba' value)"

definition writeStringVint :: "bytearray \<Rightarrow> byte list \<Rightarrow> bytearray res" where
  "writeStringVint ba value =
     rbind (writeUint64 ba (of_nat (length value))) (\<lambda>ba'. ba_write ba' value)"

definition writeStringWithoutLength :: "bytearray \<Rightarrow> byte list \<Rightarrow> bytearray res" where
  "writeStringWithoutLength ba value = ba_write ba value"

definition readStringF16 :: "byte_order \<Rightarrow> bytearray \<Rightarrow> (byte list \<times> bytearray) res" where
  "readStringF16 host ba = rbind (readFuint16 host ba) (\<lambda>(len, ba'). ba_read ba' (unat len))"

definition readStringF32 :: "byte_order \<Rightarrow> bytearray \<Rightarrow> (byte list \<times> bytearray) res" where
  "readStringF32 host ba = rbind (readFuint32 host ba) (\<lambda>(len, ba'). ba_read ba' (unat len))"

definition readStringF64 :: "byte_order \<Rightarrow> bytearray \<Rightarrow> (byte list \<times> bytearray) res" where
  "readStringF64 host ba = rbind (readFuint64 host ba) (\<lambda>(len, ba'). ba_read ba' (unat len))"

definition readStringVint :: "byte_order \<Rightarrow> bytearray \<Rightarrow> (byte list \<times> bytearray) res" where
  "readStringVint host ba = rbind (readUint64 host ba) (\<lambda>(len, ba'). ba_read ba' (unat len))"

end
