(* ===== verification/ByteArray_Laws.thy ===== *)
theory ByteArray_Laws
  imports ByteArray_Codec
begin

text \<open>
  Codec laws: each typed writer appends a wire format that does not depend on the host, and the
  matching reader takes exactly that format off the unread bytes.  They are stated with the
  \<open>step\<close> relation of the byte-cursor interface, so that they compose over sequences of fields.
\<close>

named_theorems writer_laws \<open>a writer steps over the wire format of its argument\<close>
named_theorems reader_laws \<open>a reader takes the wire format off the unread bytes\<close>

section \<open>Fixed-width integers\<close>

lemma wire_order: "mem_bytes host (to_order host ba v) = mem_bytes (m_endian ba) v"
  by (cases host; cases "m_endian ba") (simp_all add: to_order_def mem_bytes_def le_bytes_byteswap)

lemma wire_byte: "mem_bytes host (v :: byte) = mem_bytes host' v"
  by (cases host; cases host') (simp_all add: mem_bytes_def le_bytes_def)

lemma mem_bytes_byte: "mem_bytes host (v :: byte) = [v]"
  by (cases host) (simp_all add: mem_bytes_def le_bytes_def)

lemma write_fixed [writer_laws]:
  assumes "ba_inv ba"
  shows "\<exists>ba'. writeFint8 host ba v8 = Inr ba' \<and> bc.step ba ba' [v8]"
    "\<exists>ba'. writeFuint8 host ba v8 = Inr ba' \<and> bc.step ba ba' [v8]"
    "\<exists>ba'. writeFint16 host ba v16 = Inr ba' \<and> bc.step ba ba' (mem_bytes (m_endian ba) v16)"
    "\<exists>ba'. writeFuint16 host ba v16 = Inr ba' \<and> bc.step ba ba' (mem_bytes (m_endian ba) v16)"
    "\<exists>ba'. writeFint32 host ba v32 = Inr ba' \<and> bc.step ba ba' (mem_bytes (m_endian ba) v32)"
    "\<exists>ba'. writeFuint32 host ba v32 = Inr ba' \<and> bc.step ba ba' (mem_bytes (m_endian ba) v32)"
    "\<exists>ba'. writeFint64 host ba v64 = Inr ba' \<and> bc.step ba ba' (mem_bytes (m_endian ba) v64)"
    "\<exists>ba'. writeFuint64 host ba v64 = Inr ba' \<and> bc.step ba ba' (mem_bytes (m_endian ba) v64)"
  using bc.wr_step [OF assms]
  by (simp_all add: writeFint8_def writeFuint8_def writeFint16_def writeFuint16_def writeFint32_def
      writeFuint32_def writeFint64_def writeFuint64_def wire_order mem_bytes_byte)

lemma read_XX_law:
  fixes v :: "'a::len word"
  assumes "ba_inv ba" "unread ba = mem_bytes (m_endian ba) v @ rest" "8 dvd LENGTH('a)"
  shows "\<exists>ba'. read_XX host ba = Inr (v, ba') \<and> bc.step ba ba' (mem_bytes (m_endian ba) v)"
proof -
  have "0 < LENGTH('a) div 8"
    using assms(3) by (metis len_gt_0 dvd_div_eq_0_iff gr0I less_irrefl)
  then have "mem_bytes (m_endian ba) v \<noteq> []"
    by (metis length_mem_bytes less_numeral_extra(3) list.size(3))
  from bc.rd_step [OF assms(1,2) this, of "LENGTH('a) div 8"]
  obtain ba' where ba': "ba_read ba (LENGTH('a) div 8) = Inr (mem_bytes (m_endian ba) v, ba')"
    "bc.step ba ba' (mem_bytes (m_endian ba) v)"
    by auto
  have "m_endian ba' = m_endian ba" using ba'(2) by (rule bc.step_order)
  moreover have "byteswap (mem_word host (mem_bytes host' v)) = v" if "host' \<noteq> host" for host'
    using that assms(3)
    by (cases host; cases host') (simp_all add: mem_word_def mem_bytes_def byteswap_def [symmetric])
  ultimately show ?thesis
    using ba' assms(3) by (auto simp: read_XX_def Let_def)
qed

lemma read_fixed [reader_laws]:
  assumes "ba_inv ba"
  shows "unread ba = [v8] @ rest \<Longrightarrow> \<exists>ba'. readFint8 host ba = Inr (v8, ba') \<and> bc.step ba ba' [v8]"
    "unread ba = [v8] @ rest \<Longrightarrow> \<exists>ba'. readFuint8 host ba = Inr (v8, ba') \<and> bc.step ba ba' [v8]"
    "unread ba = mem_bytes (m_endian ba) v16 @ rest \<Longrightarrow>
      \<exists>ba'. readFint16 host ba = Inr (v16, ba') \<and> bc.step ba ba' (mem_bytes (m_endian ba) v16)"
    "unread ba = mem_bytes (m_endian ba) v16 @ rest \<Longrightarrow>
      \<exists>ba'. readFuint16 host ba = Inr (v16, ba') \<and> bc.step ba ba' (mem_bytes (m_endian ba) v16)"
    "unread ba = mem_bytes (m_endian ba) v32 @ rest \<Longrightarrow>
      \<exists>ba'. readFint32 host ba = Inr (v32, ba') \<and> bc.step ba ba' (mem_bytes (m_endian ba) v32)"
    "unread ba = mem_bytes (m_endian ba) v32 @ rest \<Longrightarrow>
      \<exists>ba'. readFuint32 host ba = Inr (v32, ba') \<and> bc.step ba ba' (mem_bytes (m_endian ba) v32)"
    "unread ba = mem_bytes (m_endian ba) v64 @ rest \<Longrightarrow>
      \<exists>ba'. readFint64 host ba = Inr (v64, ba') \<and> bc.step ba ba' (mem_bytes (m_endian ba) v64)"
    "unread ba = mem_bytes (m_endian ba) v64 @ rest \<Longrightarrow>
      \<exists>ba'. readFuint64 host ba = Inr (v64, ba') \<and> bc.step ba ba' (mem_bytes (m_endian ba) v64)"
proof -
  have one: "mem_word host [v8] = v8"
    using mem_word_mem_bytes [of host v8] by (simp add: mem_bytes_byte)
  show "unread ba = [v8] @ rest \<Longrightarrow> \<exists>ba'. readFint8 host ba = Inr (v8, ba') \<and> bc.step ba ba' [v8]"
    "unread ba = [v8] @ rest \<Longrightarrow> \<exists>ba'. readFuint8 host ba = Inr (v8, ba') \<and> bc.step ba ba' [v8]"
    using bc.rd_step [OF assms, of "[v8]" rest 1] one
    by (auto simp: readFint8_def readFuint8_def)
qed (simp_all add: readFint16_def readFuint16_def readFint32_def readFuint32_def readFint64_def
    readFuint64_def read_XX_law [OF assms])

section \<open>Variable-length integers\<close>

lemma varint_bytes_nonempty [simp]: "varint_bytes v \<noteq> []"
  by (subst varint_bytes.simps) simp

lemma varint_length:
  fixes v :: "'a::len word"
  assumes "unat v < 2 ^ (7 * k)" "0 < k"
  shows "length (varint_bytes v) \<le> k"
  using assms
proof (induction v arbitrary: k rule: varint_bytes.induct)
  case (1 v)
  show ?case
  proof (cases "unat v \<ge> 128")
    case False
    then show ?thesis using "1.prems" by (subst varint_bytes.simps) simp
  next
    case True
    obtain k' where k: "k = Suc k'" using "1.prems" by (cases k) auto
    have "k' \<noteq> 0"
      using True "1.prems" k by (intro notI) simp
    moreover have "unat (drop_bit 7 v) < 2 ^ (7 * k')"
      using "1.prems" k by (simp add: unat_drop_bit less_mult_imp_div_less power_add mult.commute)
    ultimately have "length (varint_bytes (drop_bit 7 v)) \<le> k'"
      using "1.IH" True by simp
    then show ?thesis using True k by (subst varint_bytes.simps) simp
  qed
qed

lemma varint32_length: "length (varint_bytes (v :: u32)) \<le> 5"
  using unat_bound [of v] by (intro varint_length) simp_all

lemma varint64_length: "length (varint_bytes (v :: u64)) \<le> 10"
  using unat_bound [of v] by (intro varint_length) simp_all

lemma mask_7F: "(0x7F :: 'a::len word) = mask 7"
  by (simp add: mask_eq_exp_minus_1)

lemma varint_head:
  fixes v :: "'a::len word"
  assumes "8 \<le> LENGTH('a)"
  shows "\<not> unat (ucast (v AND 0x7F) OR 0x80 :: byte) < 128"
    and "ucast ((ucast (v AND 0x7F) OR 0x80 :: byte) AND 0x7F) = v AND (0x7F :: 'a word)"
proof -
  let ?b = "ucast (v AND 0x7F) OR 0x80 :: byte"
  have "0x80 \<le> uint (ucast (v AND 0x7F) :: byte) OR 0x80"
    by (metis or_greater_eq or.commute unsigned_greater_eq)
  then have "(0x80 :: byte) \<le> ?b"
    by (simp add: word_le_def unsigned_or_eq)
  then show "\<not> unat ?b < 128" by (simp add: word_le_nat_alt)
  show "ucast (?b AND 0x7F) = v AND (0x7F :: 'a word)"
    using assms
    by (intro bit_word_eqI)
      (auto simp: mask_7F bit_simps bit_numeral_word_iff less_Suc_eq numeral_eq_Suc)
qed

lemma varint_last:
  fixes v :: "'a::len word"
  assumes "8 \<le> LENGTH('a)" "unat v < 128"
  shows "unat (ucast v :: byte) = unat v" "ucast (ucast v :: byte) = v"
proof -
  show "unat (ucast v :: byte) = unat v"
    using assms by (simp add: unsigned_ucast_eq take_bit_eq_mod)
  have "take_bit 7 (unat v) = unat v"
    using assms(2) by (simp add: take_bit_nat_eq_self_iff)
  then have "v = take_bit 7 v"
    by (intro word_unat_eq_iff [THEN iffD2]) (simp add: unsigned_take_bit_eq)
  then have "bit v n \<Longrightarrow> n < 7" for n
    by (metis bit_take_bit_iff)
  then show "ucast (ucast v :: byte) = v"
    by (intro bit_word_eqI) (force simp: bit_simps)
qed

lemma varint_join:
  fixes v :: "'a::len word"
  shows "push_bit i (v AND 0x7F) OR push_bit (i + 7) (drop_bit 7 v) = push_bit i v"
proof (rule bit_word_eqI)
  fix n
  assume "n < LENGTH('a)"
  moreover have "\<not> n - i < 7 \<Longrightarrow> 7 + (n - (i + 7)) = n - i" by simp
  ultimately show "bit (push_bit i (v AND 0x7F) OR push_bit (i + 7) (drop_bit 7 v)) n =
    bit (push_bit i v) n"
    by (cases "n - i < 7") (auto simp: bit_simps mask_7F)
qed

lemma read_varint_law:
  fixes v :: "'a::len word"
  assumes "ba_inv ba" "unread ba = varint_bytes v @ rest" "8 \<le> LENGTH('a)" "i < LENGTH('a)"
    "unat v < 2 ^ (LENGTH('a) - i)"
  shows "\<exists>ba'. read_varint host i result ba = Inr (result OR push_bit i v, ba') \<and>
    bc.step ba ba' (varint_bytes v)"
  using assms
proof (induction v arbitrary: ba i result rule: varint_bytes.induct)
  case (1 v)
  show ?case
  proof (cases "unat v < 128")
    case True
    then have bytes: "varint_bytes v = [ucast v]"
      by (subst varint_bytes.simps) simp
    obtain ba' where "readFint8 host ba = Inr (ucast v, ba')" "bc.step ba ba' [ucast v]"
      using read_fixed(1) [OF "1.prems"(1)] "1.prems"(2) bytes by metis
    then show ?thesis
      using "1.prems" True by (subst read_varint.simps) (simp add: bytes varint_last)
  next
    case False
    let ?b = "ucast (v AND 0x7F) OR 0x80 :: byte"
    have bytes: "varint_bytes v = ?b # varint_bytes (drop_bit 7 v)"
      using False by (subst varint_bytes.simps) simp
    obtain ba1 where ba1: "readFint8 host ba = Inr (?b, ba1)" "bc.step ba ba1 [?b]"
      using read_fixed(1) [OF "1.prems"(1), of ?b] "1.prems"(2) bytes by fastforce
    have unread1: "unread ba1 = varint_bytes (drop_bit 7 v) @ rest"
      using bc.step_unread [OF ba1(2)] "1.prems"(2) bytes by simp
    have "(2::nat) ^ 7 < 2 ^ (LENGTH('a) - i)"
      using False "1.prems"(5) by simp
    then have i7: "i + 7 < LENGTH('a)"
      by (simp only: power_strict_increasing_iff)
    have "LENGTH('a) - i = (LENGTH('a) - (i + 7)) + 7"
      using i7 by simp
    then have "unat v < 2 ^ (LENGTH('a) - (i + 7)) * 2 ^ 7"
      using "1.prems"(5) by (metis power_add)
    then have small: "unat (drop_bit 7 v) < 2 ^ (LENGTH('a) - (i + 7))"
      by (simp add: unat_drop_bit less_mult_imp_div_less)
    let ?r = "result OR push_bit i (ucast (?b AND 0x7F))"
    obtain ba2 where "read_varint host (i + 7) ?r ba1 =
        Inr (?r OR push_bit (i + 7) (drop_bit 7 v), ba2)"
      "bc.step ba1 ba2 (varint_bytes (drop_bit 7 v))"
      using "1.IH" [OF _ bc.step_inv [OF ba1(2)] unread1 "1.prems"(3) i7 small] False by auto
    moreover have "?r OR push_bit (i + 7) (drop_bit 7 v) = result OR push_bit i v"
      using varint_head(2) [OF "1.prems"(3)] varint_join [of i v] by (simp add: or.assoc)
    ultimately show ?thesis
      using bc.step_trans [OF ba1(2)] ba1(1) "1.prems"(3,4) varint_head(1) [of v] bytes
      by (subst read_varint.simps) (simp add: varint_head(1))
  qed
qed

lemma write_varint [writer_laws]:
  assumes "ba_inv ba"
  shows "\<exists>ba'. writeUint32 ba v32 = Inr ba' \<and> bc.step ba ba' (varint_bytes v32)"
    "\<exists>ba'. writeUint64 ba v64 = Inr ba' \<and> bc.step ba ba' (varint_bytes v64)"
  using bc.wr_step [OF assms] varint32_length [of v32] varint64_length [of v64]
  by (simp_all add: writeUint32_def writeUint64_def tmp_bytes_def)

lemma read_varint_u32 [reader_laws]:
  "ba_inv ba \<Longrightarrow> unread ba = varint_bytes v @ rest \<Longrightarrow>
    \<exists>ba'. readUint32 host ba = Inr (v, ba') \<and> bc.step ba ba' (varint_bytes v)"
  using read_varint_law [of ba v rest 0 host 0] unat_bound [of v]
  by (simp add: readUint32_def)

lemma read_varint_u64 [reader_laws]:
  "ba_inv ba \<Longrightarrow> unread ba = varint_bytes v @ rest \<Longrightarrow>
    \<exists>ba'. readUint64 host ba = Inr (v, ba') \<and> bc.step ba ba' (varint_bytes v)"
  using read_varint_law [of ba v rest 0 host 0] unat_bound [of v]
  by (simp add: readUint64_def)

section \<open>Zigzag\<close>

lemma zigzag_bits:
  fixes v :: "'a::len word"
  shows "(if sint v < 0 then (- v) * 2 - 1 else v * 2) =
    (if bit v (LENGTH('a) - 1) then NOT (push_bit 1 v) else push_bit 1 v)"
  by (simp add: bit_last_iff not_eq_complement push_bit_eq_mult mult.commute)

lemma zigzag_inverse:
  fixes v :: "'a::len word"
  defines "e \<equiv> (if sint v < 0 then (- v) * 2 - 1 else v * 2)"
  shows "drop_bit 1 e XOR - (e AND 1) = v"
proof (rule bit_word_eqI)
  fix n
  assume n: "n < LENGTH('a)"
  have low: "NOT (push_bit 1 v) AND 1 = (1 :: 'a word)" "push_bit 1 v AND 1 = (0 :: 'a word)"
    by (rule bit_word_eqI; unfold bit_and_iff bit_push_bit_iff bit_1_iff bit_not_iff; auto)+
  have up: "bit (v * 2) (Suc n) \<longleftrightarrow> Suc n < LENGTH('a) \<and> bit v n"
    using bit_push_bit_iff [of 1 v "Suc n"] by (simp add: push_bit_eq_mult)
  have top: "\<not> Suc n < LENGTH('a) \<Longrightarrow> bit v n \<longleftrightarrow> bit v (LENGTH('a) - 1)"
    using n by (metis Suc_lessI diff_Suc_1)
  show "bit (drop_bit 1 e XOR - (e AND 1)) n = bit v n"
    using n top unfolding e_def zigzag_bits
    by (simp only: low bit_xor_iff bit_drop_bit_eq bit_not_iff bit_push_bit_iff
        if_distrib [of "\<lambda>x. bit x _"] split: if_split)
      (auto simp: low up bit_simps)
qed

lemma DecodeZigzag32_Encode: "DecodeZigzag32 (EncodeZigzag32 v) = v"
  using zigzag_inverse [of v] by (simp only: DecodeZigzag32_def EncodeZigzag32_def)

lemma DecodeZigzag64_Encode: "DecodeZigzag64 (EncodeZigzag64 v) = v"
  using zigzag_inverse [of v] by (simp only: DecodeZigzag64_def EncodeZigzag64_def)

lemma write_zigzag [writer_laws]:
  assumes "ba_inv ba"
  shows "\<exists>ba'. writeInt32 ba v32 = Inr ba' \<and> bc.step ba ba' (varint_bytes (EncodeZigzag32 v32))"
    "\<exists>ba'. writeInt64 ba v64 = Inr ba' \<and> bc.step ba ba' (varint_bytes (EncodeZigzag64 v64))"
  by (simp_all add: writeInt32_def writeInt64_def write_varint assms)

lemma read_zigzag32 [reader_laws]:
  assumes "ba_inv ba" "unread ba = varint_bytes (EncodeZigzag32 v) @ rest"
  shows "\<exists>ba'. readInt32 host ba = Inr (v, ba') \<and> bc.step ba ba' (varint_bytes (EncodeZigzag32 v))"
  using read_varint_u32 [OF assms, of host] by (auto simp: readInt32_def DecodeZigzag32_Encode)

lemma read_zigzag64 [reader_laws]:
  assumes "ba_inv ba" "unread ba = varint_bytes (EncodeZigzag64 v) @ rest"
  shows "\<exists>ba'. readInt64 host ba = Inr (v, ba') \<and> bc.step ba ba' (varint_bytes (EncodeZigzag64 v))"
  using read_varint_u64 [OF assms, of host] by (auto simp: readInt64_def DecodeZigzag64_Encode)

end
