(* ===== verification/ByteArray_Props.thy ===== *)
theory ByteArray_Props
  imports ByteArray_Laws
begin

text \<open>
  What the serialisation buffer promises to its users: a whole record of fields written on one
  machine is read back on any other; the buffer behaves like one byte sequence; scatter/gather views
  describe exactly the bytes that a read would return; and the boundary where the code breaks.
\<close>

section \<open>Strings\<close>

lemma step_more:
  assumes "\<exists>ba1. m = Inr ba1 \<and> bc.step ba ba1 xs"
  shows "\<exists>ba'. rbind m (\<lambda>ba1. ba_write ba1 ys) = Inr ba' \<and> bc.step ba ba' (xs @ ys)"
  using assms bc.wr_step bc.step_inv bc.step_trans by fastforce

lemma step_rest:
  assumes "\<exists>ba1. m = Inr (len, ba1) \<and> bc.step ba ba1 xs" "unread ba = xs @ ys @ rest"
    "ys \<noteq> []" "unat len = length ys"
  shows "\<exists>ba'. rbind m (\<lambda>(len, ba1). ba_read ba1 (unat len)) = Inr (ys, ba') \<and>
    bc.step ba ba' (xs @ ys)"
proof -
  obtain ba1 where ba1: "m = Inr (len, ba1)" "bc.step ba ba1 xs"
    using assms(1) by blast
  have "\<exists>ba'. ba_read ba1 (length ys) = Inr (ys, ba') \<and> bc.step ba1 ba' ys"
    using bc.rd_step [OF bc.step_inv [OF ba1(2)] bc.step_unread [OF ba1(2) assms(2)] assms(3)]
    by simp
  then show ?thesis
    using ba1 assms(4) bc.step_trans [OF ba1(2)] by fastforce
qed

lemma write_string [writer_laws]:
  assumes "ba_inv ba"
  shows "\<exists>ba'. writeStringF16 host ba s = Inr ba' \<and>
      bc.step ba ba' (mem_bytes (m_endian ba) (of_nat (length s) :: u16) @ s)"
    "\<exists>ba'. writeStringF32 host ba s = Inr ba' \<and>
      bc.step ba ba' (mem_bytes (m_endian ba) (of_nat (length s) :: u32) @ s)"
    "\<exists>ba'. writeStringF64 host ba s = Inr ba' \<and>
      bc.step ba ba' (mem_bytes (m_endian ba) (of_nat (length s) :: u64) @ s)"
    "\<exists>ba'. writeStringVint ba s = Inr ba' \<and>
      bc.step ba ba' (varint_bytes (of_nat (length s) :: u64) @ s)"
  unfolding writeStringF16_def writeStringF32_def writeStringF64_def writeStringVint_def
  by (intro step_more writer_laws assms)+

lemma unat_of_nat_len: "n < 2 ^ LENGTH('a) \<Longrightarrow> unat (of_nat n :: 'a::len word) = n"
  by (simp add: unat_of_nat)

lemma read_string [reader_laws]:
  assumes "ba_inv ba" "s \<noteq> []"
  shows "unread ba = mem_bytes (m_endian ba) (of_nat (length s) :: u16) @ s @ rest \<Longrightarrow>
      length s < 2 ^ 16 \<Longrightarrow> \<exists>ba'. readStringF16 host ba = Inr (s, ba') \<and>
      bc.step ba ba' (mem_bytes (m_endian ba) (of_nat (length s) :: u16) @ s)"
    "unread ba = mem_bytes (m_endian ba) (of_nat (length s) :: u32) @ s @ rest \<Longrightarrow>
      length s < 2 ^ 32 \<Longrightarrow> \<exists>ba'. readStringF32 host ba = Inr (s, ba') \<and>
      bc.step ba ba' (mem_bytes (m_endian ba) (of_nat (length s) :: u32) @ s)"
    "unread ba = mem_bytes (m_endian ba) (of_nat (length s) :: u64) @ s @ rest \<Longrightarrow>
      length s < 2 ^ 64 \<Longrightarrow> \<exists>ba'. readStringF64 host ba = Inr (s, ba') \<and>
      bc.step ba ba' (mem_bytes (m_endian ba) (of_nat (length s) :: u64) @ s)"
    "unread ba = varint_bytes (of_nat (length s) :: u64) @ s @ rest \<Longrightarrow>
      length s < 2 ^ 64 \<Longrightarrow> \<exists>ba'. readStringVint host ba = Inr (s, ba') \<and>
      bc.step ba ba' (varint_bytes (of_nat (length s) :: u64) @ s)"
  unfolding readStringF16_def readStringF32_def readStringF64_def readStringVint_def
  by (rule step_rest [where rest = rest], rule reader_laws, rule assms(1), assumption,
      assumption, rule assms(2), simp add: unat_of_nat_len)+

section \<open>Records of fields\<close>

text \<open>One field of a message: which typed writer and reader are used, and the value.\<close>

datatype field =
    FInt8 byte | FUint8 byte | FInt16 u16 | FUint16 u16 | FInt32 u32 | FUint32 u32
  | FInt64 u64 | FUint64 u64 | VInt32 u32 | VUint32 u32 | VInt64 u64 | VUint64 u64
  | FloatField u32 | DoubleField u64
  | StrF16 "byte list" | StrF32 "byte list" | StrF64 "byte list" | StrVint "byte list"

primrec put_field :: "byte_order \<Rightarrow> bytearray \<Rightarrow> field \<Rightarrow> bytearray res" where
  "put_field host ba (FInt8 v) = writeFint8 host ba v"
| "put_field host ba (FUint8 v) = writeFuint8 host ba v"
| "put_field host ba (FInt16 v) = writeFint16 host ba v"
| "put_field host ba (FUint16 v) = writeFuint16 host ba v"
| "put_field host ba (FInt32 v) = writeFint32 host ba v"
| "put_field host ba (FUint32 v) = writeFuint32 host ba v"
| "put_field host ba (FInt64 v) = writeFint64 host ba v"
| "put_field host ba (FUint64 v) = writeFuint64 host ba v"
| "put_field host ba (VInt32 v) = writeInt32 ba v"
| "put_field host ba (VUint32 v) = writeUint32 ba v"
| "put_field host ba (VInt64 v) = writeInt64 ba v"
| "put_field host ba (VUint64 v) = writeUint64 ba v"
| "put_field host ba (FloatField v) = writeFloat host ba v"
| "put_field host ba (DoubleField v) = writeDouble host ba v"
| "put_field host ba (StrF16 s) = writeStringF16 host ba s"
| "put_field host ba (StrF32 s) = writeStringF32 host ba s"
| "put_field host ba (StrF64 s) = writeStringF64 host ba s"
| "put_field host ba (StrVint s) = writeStringVint ba s"

definition get_with :: "('a \<Rightarrow> field) \<Rightarrow> ('a \<times> bytearray) res \<Rightarrow> (field \<times> bytearray) res" where
  "get_with c m = rbind m (\<lambda>(v, ba). Inr (c v, ba))"

text \<open>Reading uses only the kind of its field argument, not its value.\<close>

primrec get_field :: "byte_order \<Rightarrow> bytearray \<Rightarrow> field \<Rightarrow> (field \<times> bytearray) res" where
  "get_field host ba (FInt8 _) = get_with FInt8 (readFint8 host ba)"
| "get_field host ba (FUint8 _) = get_with FUint8 (readFuint8 host ba)"
| "get_field host ba (FInt16 _) = get_with FInt16 (readFint16 host ba)"
| "get_field host ba (FUint16 _) = get_with FUint16 (readFuint16 host ba)"
| "get_field host ba (FInt32 _) = get_with FInt32 (readFint32 host ba)"
| "get_field host ba (FUint32 _) = get_with FUint32 (readFuint32 host ba)"
| "get_field host ba (FInt64 _) = get_with FInt64 (readFint64 host ba)"
| "get_field host ba (FUint64 _) = get_with FUint64 (readFuint64 host ba)"
| "get_field host ba (VInt32 _) = get_with VInt32 (readInt32 host ba)"
| "get_field host ba (VUint32 _) = get_with VUint32 (readUint32 host ba)"
| "get_field host ba (VInt64 _) = get_with VInt64 (readInt64 host ba)"
| "get_field host ba (VUint64 _) = get_with VUint64 (readUint64 host ba)"
| "get_field host ba (FloatField _) = get_with FloatField (readFloat host ba)"
| "get_field host ba (DoubleField _) = get_with DoubleField (readDouble host ba)"
| "get_field host ba (StrF16 _) = get_with StrF16 (readStringF16 host ba)"
| "get_field host ba (StrF32 _) = get_with StrF32 (readStringF32 host ba)"
| "get_field host ba (StrF64 _) = get_with StrF64 (readStringF64 host ba)"
| "get_field host ba (StrVint _) = get_with StrVint (readStringVint host ba)"

primrec put_fields :: "byte_order \<Rightarrow> bytearray \<Rightarrow> field list \<Rightarrow> bytearray res" where
  "put_fields host ba [] = Inr ba"
| "put_fields host ba (f # fs) = rbind (put_field host ba f) (\<lambda>ba'. put_fields host ba' fs)"

primrec get_fields :: "byte_order \<Rightarrow> bytearray \<Rightarrow> field list \<Rightarrow> (field list \<times> bytearray) res" where
  "get_fields host ba [] = Inr ([], ba)"
| "get_fields host ba (f # fs) =
     rbind (get_field host ba f) (\<lambda>(v, ba').
     rbind (get_fields host ba' fs) (\<lambda>(vs, ba''). Inr (v # vs, ba'')))"

text \<open>The wire format, a function of the buffer's byte order only.\<close>

primrec wire :: "byte_order \<Rightarrow> field \<Rightarrow> byte list" where
  "wire e (FInt8 v) = [v]"
| "wire e (FUint8 v) = [v]"
| "wire e (FInt16 v) = mem_bytes e v"
| "wire e (FUint16 v) = mem_bytes e v"
| "wire e (FInt32 v) = mem_bytes e v"
| "wire e (FUint32 v) = mem_bytes e v"
| "wire e (FInt64 v) = mem_bytes e v"
| "wire e (FUint64 v) = mem_bytes e v"
| "wire e (VInt32 v) = varint_bytes (EncodeZigzag32 v)"
| "wire e (VUint32 v) = varint_bytes v"
| "wire e (VInt64 v) = varint_bytes (EncodeZigzag64 v)"
| "wire e (VUint64 v) = varint_bytes v"
| "wire e (FloatField v) = mem_bytes e v"
| "wire e (DoubleField v) = mem_bytes e v"
| "wire e (StrF16 s) = mem_bytes e (of_nat (length s) :: u16) @ s"
| "wire e (StrF32 s) = mem_bytes e (of_nat (length s) :: u32) @ s"
| "wire e (StrF64 s) = mem_bytes e (of_nat (length s) :: u64) @ s"
| "wire e (StrVint s) = varint_bytes (of_nat (length s) :: u64) @ s"

text \<open>A string field is readable when it is not empty and its length fits the prefix.\<close>

primrec field_ok :: "field \<Rightarrow> bool" where
  "field_ok (FInt8 _) = True"
| "field_ok (FUint8 _) = True"
| "field_ok (FInt16 _) = True"
| "field_ok (FUint16 _) = True"
| "field_ok (FInt32 _) = True"
| "field_ok (FUint32 _) = True"
| "field_ok (FInt64 _) = True"
| "field_ok (FUint64 _) = True"
| "field_ok (VInt32 _) = True"
| "field_ok (VUint32 _) = True"
| "field_ok (VInt64 _) = True"
| "field_ok (VUint64 _) = True"
| "field_ok (FloatField _) = True"
| "field_ok (DoubleField _) = True"
| "field_ok (StrF16 s) = (s \<noteq> [] \<and> length s < 2 ^ 16)"
| "field_ok (StrF32 s) = (s \<noteq> [] \<and> length s < 2 ^ 32)"
| "field_ok (StrF64 s) = (s \<noteq> [] \<and> length s < 2 ^ 64)"
| "field_ok (StrVint s) = (s \<noteq> [] \<and> length s < 2 ^ 64)"

lemma put_field_step:
  "ba_inv ba \<Longrightarrow> \<exists>ba'. put_field host ba f = Inr ba' \<and> bc.step ba ba' (wire (m_endian ba) f)"
  by (cases f) (simp_all add: writer_laws writeFloat_def writeDouble_def)

lemma get_with_step:
  "\<exists>ba'. m = Inr (v, ba') \<and> P ba' \<Longrightarrow> \<exists>ba'. get_with c m = Inr (c v, ba') \<and> P ba'"
  by (auto simp: get_with_def)

lemma get_field_step:
  assumes "ba_inv ba" "unread ba = wire (m_endian ba) f @ rest" "field_ok f"
  shows "\<exists>ba'. get_field host ba f = Inr (f, ba') \<and> bc.step ba ba' (wire (m_endian ba) f)"
  using assms
  by (cases f)
    (auto simp: readFloat_def readDouble_def intro!: get_with_step reader_laws)

lemma put_fields_step:
  "ba_inv ba \<Longrightarrow> \<exists>ba'. put_fields host ba fs = Inr ba' \<and>
     bc.step ba ba' (concat (map (wire (m_endian ba)) fs))"
proof (induction fs arbitrary: ba)
  case Nil
  then show ?case by (simp add: bc.step_refl)
next
  case (Cons f fs)
  obtain ba1 where ba1: "put_field host ba f = Inr ba1" "bc.step ba ba1 (wire (m_endian ba) f)"
    using put_field_step [OF Cons.prems] by blast
  from Cons.IH [OF bc.step_inv [OF ba1(2)]] bc.step_order [OF ba1(2)] obtain ba2 where
    "put_fields host ba1 fs = Inr ba2" "bc.step ba1 ba2 (concat (map (wire (m_endian ba)) fs))"
    by auto
  with ba1 bc.step_trans [OF ba1(2)] show ?case by auto
qed

lemma get_fields_step:
  "ba_inv ba \<Longrightarrow> unread ba = concat (map (wire (m_endian ba)) fs) @ rest \<Longrightarrow>
   \<forall>f \<in> set fs. field_ok f \<Longrightarrow>
   \<exists>ba'. get_fields host ba fs = Inr (fs, ba') \<and>
     bc.step ba ba' (concat (map (wire (m_endian ba)) fs))"
proof (induction fs arbitrary: ba)
  case Nil
  then show ?case by (simp add: bc.step_refl)
next
  case (Cons f fs)
  have unread: "unread ba = wire (m_endian ba) f @ concat (map (wire (m_endian ba)) fs) @ rest"
    using Cons.prems(2) by simp
  obtain ba1 where ba1: "get_field host ba f = Inr (f, ba1)" "bc.step ba ba1 (wire (m_endian ba) f)"
    using get_field_step [OF Cons.prems(1) unread] Cons.prems(3) by auto
  from Cons.IH [OF bc.step_inv [OF ba1(2)]] bc.step_order [OF ba1(2)]
    bc.step_unread [OF ba1(2) unread] Cons.prems(3)
  obtain ba2 where
    "get_fields host ba1 fs = Inr (fs, ba2)" "bc.step ba1 ba2 (concat (map (wire (m_endian ba)) fs))"
    by auto
  with ba1 bc.step_trans [OF ba1(2)] show ?case by auto
qed

section \<open>Scatter/gather views and files\<close>

definition iov_bytes :: "byte list list \<Rightarrow> iovec \<Rightarrow> byte list" where
  "iov_bytes nodes iov = take (iov_len iov) (drop (iov_off iov) (nodes ! iov_node iov))"

definition gather :: "byte list list \<Rightarrow> iovec list \<Rightarrow> byte list" where
  "gather nodes iovs = concat (map (iov_bytes nodes) iovs)"

lemma buffers_loop_correct:
  assumes "0 < base" "npos < base" "c < length nodes" "\<forall>nd \<in> set nodes. length nd = base"
    and "base * c + npos + len \<le> base * length nodes"
  shows "\<exists>iovs. buffers_loop nodes (Some c) npos (base - npos) len = Inr iovs \<and>
    gather nodes iovs = take len (drop (base * c + npos) (concat nodes))"
  using assms(2,3,5)
proof (induction "length nodes - c" arbitrary: c npos len rule: less_induct)
  case less
  have lc: "length (nodes ! c) = base" using less.prems assms(4) by simp
  have dropc: "drop (base * c + npos) (concat nodes) =
      drop npos (nodes ! c) @ concat (drop (Suc c) nodes)"
    using less.prems assms(4) by (intro drop_concat_uniform) auto
  show ?case
  proof (cases "len \<le> base - npos")
    case True
    then show ?thesis
      using less.prems lc dropc by (subst buffers_loop.simps) (simp add: gather_def iov_bytes_def)
  next
    case False
    let ?ncap = "base - npos"
    have next_c: "Suc c < length nodes"
      using False less.prems assms(1) by (intro one_more_block [of base npos len]) auto
    have "base * Suc c + 0 + (len - ?ncap) \<le> base * length nodes"
      using less.prems False by simp
    moreover have "length nodes - Suc c < length nodes - c"
      using less.prems by simp
    ultimately have "\<exists>iovs. buffers_loop nodes (Some (Suc c)) 0 (base - 0) (len - ?ncap) = Inr iovs \<and>
        gather nodes iovs = take (len - ?ncap) (drop (base * Suc c + 0) (concat nodes))"
      using less.hyps assms(1) next_c by blast
    then obtain iovs where iovs:
      "buffers_loop nodes (Some (Suc c)) 0 base (len - ?ncap) = Inr iovs"
      "gather nodes iovs = take (len - ?ncap) (drop (base * Suc c) (concat nodes))"
      by auto
    have "drop (base * Suc c) (concat nodes) = concat (drop (Suc c) nodes)"
      using drop_concat_uniform [of nodes base "Suc c" 0] next_c assms(4)
      by (simp add: Cons_nth_drop_Suc [symmetric])
    then show ?thesis
      using False less.prems lc next_c iovs dropc assms(4)
      by (subst buffers_loop.simps) (simp add: node_next_def gather_def iov_bytes_def)
  qed
qed

lemma cursor_block:
  assumes "ba_inv ba" "m_position ba + n \<le> m_size ba" "0 < n"
  shows "m_cur ba = Some (m_position ba div m_baseSize ba)"
    "m_position ba div m_baseSize ba < length (m_nodes ba)"
    "length (m_nodes ba ! (m_position ba div m_baseSize ba)) = m_baseSize ba"
proof -
  note d = ba_invD [OF assms(1)]
  have "m_position ba < m_baseSize ba * length (m_nodes ba)"
    using assms(2,3) d by linarith
  from cursor_Some [OF d(1) this] d(7,3)
  show "m_cur ba = Some (m_position ba div m_baseSize ba)"
    "m_position ba div m_baseSize ba < length (m_nodes ba)"
    "length (m_nodes ba ! (m_position ba div m_baseSize ba)) = m_baseSize ba"
    by auto
qed

lemma ba_read_at_cursor:
  assumes "ba_inv ba" "0 < n" "n \<le> length (unread ba)"
  shows "ba_read_at ba n (m_position ba) = Inr (take n (unread ba))"
proof -
  obtain ba' where "ba_read ba n = Inr (take n (unread ba), ba')"
    using ba_read_ok [OF assms] by blast
  then show ?thesis
    by (auto simp: ba_read_def ba_read_at_def getReadSize_def Let_def rbind_def
        split: if_splits sum.splits)
qed

lemma toString_unread: "ba_inv ba \<Longrightarrow> ba_toString ba = Inr (unread ba)"
  using ba_read_at_cursor [of ba "length (unread ba)"]
  by (auto simp: ba_toString_def getReadSize_unread)

lemma rff_loop_correct:
  assumes "ba_inv ba" "base = m_baseSize ba"
  shows "\<exists>ba'. rff_loop base src ba = Inr ba' \<and> bc.step ba ba' src"
  using assms
proof (induction base src ba rule: rff_loop.induct)
  case (1 base src ba)
  note pos = ba_invD(1) [OF "1.prems"(1)]
  show ?case
  proof (cases "length src < base")
    case True
    then show ?thesis
      using pos "1.prems" bc.wr_step by (subst rff_loop.simps) auto
  next
    case False
    obtain ba1 where ba1: "ba_write ba (take base src) = Inr ba1" "bc.step ba ba1 (take base src)"
      using bc.wr_step [OF "1.prems"(1)] by blast
    moreover have "m_baseSize ba1 = m_baseSize ba"
      using ba_write_ok [OF "1.prems"(1), of "take base src"] ba1(1) by auto
    ultimately obtain ba2 where "rff_loop base (drop base src) ba1 = Inr ba2"
      "bc.step ba1 ba2 (drop base src)"
      using "1.IH" [OF _ False ba1(1) bc.step_inv [OF ba1(2)]] "1.prems"(2) pos by auto
    then show ?thesis
      using ba1 bc.step_trans [OF ba1(2)] False pos "1.prems"(2)
      by (subst rff_loop.simps) fastforce
  qed
qed

section \<open>Reachable buffers\<close>

text \<open>What a client can do to a buffer; a call that throws leaves it as it was.\<close>

inductive ba_step :: "bytearray \<Rightarrow> bytearray \<Rightarrow> bool" where
  step_write: "ba_write ba bs = Inr ba' \<Longrightarrow> ba_step ba ba'"
| step_read: "0 < n \<Longrightarrow> ba_read ba n = Inr (bs, ba') \<Longrightarrow> ba_step ba ba'"
| step_seek: "setPosition ba v = Inr ba' \<Longrightarrow> ba_step ba ba'"
| step_clear: "ba_step ba (ba_clear ba)"
| step_order: "ba_step ba (setIsLittleEndian ba b)"
| step_file: "readFromFile ba f = Inr (b, ba') \<Longrightarrow> ba_step ba ba'"

inductive ba_reachable :: "bytearray \<Rightarrow> bool" where
  reach_new: "0 < base \<Longrightarrow> ba_reachable (ByteArray_new fresh base)"
| reach_step: "ba_reachable ba \<Longrightarrow> ba_step ba ba' \<Longrightarrow> ba_reachable ba'"

inductive_cases ba_stepE: "ba_step ba ba'"

lemma setIsLittleEndian_inv: "ba_inv ba \<Longrightarrow> ba_inv (setIsLittleEndian ba b)"
  by (simp add: setIsLittleEndian_def ba_inv_def)

lemma readFromFile_inv:
  assumes "ba_inv ba" "readFromFile ba f = Inr (b, ba')"
  shows "ba_inv ba'"
proof (cases f)
  case None
  then show ?thesis using assms by (simp add: readFromFile_def)
next
  case (Some src)
  then show ?thesis
    using assms(2) rff_loop_correct [OF assms(1) refl, of src]
    by (auto simp: readFromFile_def bc.step_def)
qed

lemma read_state_inv: "ba_inv ba \<Longrightarrow> 0 < n \<Longrightarrow> ba_read ba n = Inr (bs, ba') \<Longrightarrow> ba_inv ba'"
  using ba_read_ok [of ba n] ba_read_short [of ba n] by fastforce

lemma seek_state_inv: "ba_inv ba \<Longrightarrow> setPosition ba v = Inr ba' \<Longrightarrow> ba_inv ba'"
  using setPosition_ok [of ba v] setPosition_out_of_range [of ba v] by fastforce

lemma ba_step_inv: "ba_step ba ba' \<Longrightarrow> ba_inv ba \<Longrightarrow> ba_inv ba'"
proof (erule ba_stepE)
  fix bs
  assume "ba_inv ba" "ba_write ba bs = Inr ba'"
  then show "ba_inv ba'" using ba_write_ok [of ba bs] by auto
qed (auto intro: read_state_inv seek_state_inv readFromFile_inv
    simp: ba_clear_ok setIsLittleEndian_inv)

lemma ba_reachable_inv: "ba_reachable ba \<Longrightarrow> ba_inv ba"
  by (induction rule: ba_reachable.induct) (auto intro: ByteArray_new_inv ba_step_inv)

section \<open>Properties\<close>



text \<open>
  C17: \<open>write\<close> never fails on a reachable buffer, whatever the block size and however many blocks the
  bytes span: the buffer behaves like one byte sequence that is overwritten, and extended, at the
  cursor.
\<close>

theorem write_refines_list_put:
  assumes "ba_reachable ba"
  shows "\<exists>ba'. ba_write ba bs = Inr ba' \<and> ba_reachable ba' \<and>
    content ba' = list_put (content ba) (m_position ba) bs \<and>
    m_position ba' = m_position ba + length bs \<and>
    m_size ba' = max (m_size ba) (m_position ba + length bs)"
  using ba_write_ok [OF ba_reachable_inv [OF assms], of bs] assms
  by (blast intro: reach_step step_write)

lemma write_refines_list_put_witness:
  "\<exists>ba'. ba_write (ByteArray_new (\<lambda>_ _. 7) 2) [1, 2, 3, 4, 5] = Inr ba' \<and> ba_reachable ba' \<and>
    content ba' = list_put (content (ByteArray_new (\<lambda>_ _. 7) 2)) (m_position (ByteArray_new (\<lambda>_ _. 7) 2))
      [1, 2, 3, 4, 5] \<and>
    m_position ba' = m_position (ByteArray_new (\<lambda>_ _. 7) 2) + length [1, 2, 3, 4, 5 :: byte] \<and>
    m_size ba' = max (m_size (ByteArray_new (\<lambda>_ _. 7) 2))
      (m_position (ByteArray_new (\<lambda>_ _. 7) 2) + length [1, 2, 3, 4, 5 :: byte])"
  by (rule write_refines_list_put) (simp add: reach_new)

text \<open>
  C39: on a reachable buffer \<open>read\<close> throws \<open>out_of_range\<close> exactly when fewer bytes are unread than
  asked for, and otherwise returns the next bytes and moves the cursor over them - except that a
  read of 0 bytes with the cursor at the end of the last block dereferences the null \<open>m_cur\<close>.
\<close>

theorem read_total:
  assumes "ba_reachable ba"
  shows "ba_read ba n =
    (if length (unread ba) < n then Inl Out_Of_Range
     else if m_position ba = m_capacity ba then Inl Null_Deref
     else Inr (take n (unread ba),
       ba\<lparr>m_position := m_position ba + n,
          m_cur := cursor (m_baseSize ba) (length (m_nodes ba)) (m_position ba + n)\<rparr>))"
proof -
  note inv = ba_reachable_inv [OF assms]
  note d = ba_invD [OF inv]
  let ?b = "m_baseSize ba" and ?n = "length (m_nodes ba)" and ?p = "m_position ba"
  consider "length (unread ba) < n" | "n \<le> length (unread ba)" "?p = m_capacity ba"
    | "n \<le> length (unread ba)" "?p < ?b * ?n"
    using d by linarith
  then show ?thesis
  proof cases
    case 1
    then show ?thesis using ba_read_short [OF inv] by simp
  next
    case 2
    then have "m_cur ba = None" using d by (simp add: cursor_def)
    then show ?thesis
      using 2 d getReadSize_unread [OF inv] by (simp add: ba_read_def deref_def Let_def)
  next
    case 3
    from cursor_Some [OF d(1) 3(2)] d(7)
    have cur: "m_cur ba = Some (?p div ?b)" "?p div ?b < ?n" by auto
    have bound: "?p + n \<le> m_size ba"
      using 3(1) d(5) length_content [OF inv] by (simp add: unread_def)
    have "read_loop (m_nodes ba) (Some (?p div ?b)) (?p mod ?b) (?b - ?p mod ?b) ?p n =
        Inr (take n (drop ?p (flat ba)), cursor ?b ?n (?p + n), ?p + n)"
      using read_loop_correct [OF d(1) _ cur(2) d(3), of "?p mod ?b" n] d bound
      by (simp add: flat_def)
    moreover have "take n (drop ?p (flat ba)) = take n (unread ba)"
      using bound by (simp add: unread_def content_def drop_take)
    ultimately show ?thesis
      using 3 d(1-6) cur getReadSize_unread [OF inv] by (simp add: ba_read_def Let_def deref_def)
  qed
qed

lemma read_total_witness:
  "ba_read (ByteArray_new (\<lambda>_ _. 0) 4) 1 = Inl Out_Of_Range"
  using read_total [OF reach_new, of 4 "\<lambda>_ _. 0" 1]
  by (simp add: unread_def content_def ByteArray_new_def)

text \<open>
  The scatter/gather view of a reachable buffer is exact: \<open>getReadBuffers\<close> asked for \<open>n\<close> bytes
  returns the number of bytes available up to \<open>n\<close> and entries whose bytes, put together in order, are
  the bytes that a \<open>read\<close> would return.
\<close>

theorem getReadBuffers_exact:
  assumes "ba_reachable ba"
  shows "\<exists>iovs. getReadBuffers ba n = Inr (min n (length (unread ba)), iovs) \<and>
    gather (m_nodes ba) iovs = take n (unread ba)"
proof -
  note inv = ba_reachable_inv [OF assms]
  note d = ba_invD [OF inv]
  let ?len = "min n (length (unread ba))"
  have len: "(if n > getReadSize ba then getReadSize ba else n) = ?len"
    using getReadSize_unread [OF inv] by simp
  show ?thesis
  proof (cases "?len = 0")
    case True
    then have "take n (unread ba) = []" by (cases "unread ba") auto
    then show ?thesis
      using len True by (simp add: getReadBuffers_def Let_def gather_def exI [of _ "[]"])
  next
    case False
    have bound: "m_position ba + ?len \<le> m_size ba"
      using d(5) length_content [OF inv] by (simp add: unread_def)
    note cur = cursor_block [OF inv bound]
    have "m_baseSize ba * (m_position ba div m_baseSize ba) + m_position ba mod m_baseSize ba + ?len
        \<le> m_baseSize ba * length (m_nodes ba)"
      using bound d(4,6) by simp
    from buffers_loop_correct [OF d(1) _ cur(2) d(3) this] d(1) False
    obtain iovs where "buffers_loop (m_nodes ba) (m_cur ba) (m_position ba mod m_baseSize ba)
        (m_baseSize ba - m_position ba mod m_baseSize ba) ?len = Inr iovs"
      "gather (m_nodes ba) iovs = take ?len (drop (m_position ba) (flat ba))"
      using cur(1) by (auto simp: flat_def)
    moreover have "take ?len (drop (m_position ba) (flat ba)) = take n (unread ba)"
    proof -
      have "take ?len (drop (m_position ba) (flat ba)) = take ?len (unread ba)"
        using bound by (simp add: unread_def content_def drop_take)
      then show ?thesis by (simp add: min_def split: if_splits)
    qed
    ultimately show ?thesis
      using False cur d(1) len by (auto simp: getReadBuffers_def Let_def deref_def)
  qed
qed

lemma getReadBuffers_exact_witness:
  "\<exists>iovs. getReadBuffers (ByteArray_new (\<lambda>_ _. 0) 2) 9 =
      Inr (min 9 (length (unread (ByteArray_new (\<lambda>_ _. 0) 2))), iovs) \<and>
    gather (m_nodes (ByteArray_new (\<lambda>_ _. 0) 2)) iovs = take 9 (unread (ByteArray_new (\<lambda>_ _. 0) 2))"
  by (rule getReadBuffers_exact) (simp add: reach_new)

text \<open>
  \<open>setPosition\<close> on a reachable buffer throws exactly beyond the capacity, otherwise moves the
  cursor there without touching the stored bytes, growing the size when it passes the end; and
  \<open>clear\<close> returns the buffer to an empty one.
\<close>

lemma seek_total:
  assumes "ba_reachable ba"
  shows "if m_capacity ba < v then setPosition ba v = Inl Out_Of_Range
    else \<exists>ba'. setPosition ba v = Inr ba' \<and> ba_reachable ba' \<and> flat ba' = flat ba \<and>
      m_position ba' = v \<and> m_size ba' = max (m_size ba) v \<and> content (ba_clear ba') = [] \<and>
      written ba' @ unread ba' = content ba'"
proof (cases "m_capacity ba < v")
  case True
  then show ?thesis by (simp add: setPosition_out_of_range)
next
  case False
  obtain ba' where ba': "setPosition ba v = Inr ba'" "ba_inv ba'" "m_position ba' = v"
    "m_size ba' = max (m_size ba) v" "flat ba' = flat ba"
    using setPosition_ok [OF ba_reachable_inv [OF assms], of v] False by auto
  then show ?thesis
    using False ba_clear_ok(2) reach_step [OF assms step_seek [OF ba'(1)]]
    by (auto simp: written_unread)
qed

lemma seek_total_witness:
  "\<exists>ba'. setPosition (ByteArray_new (\<lambda>_ _. 5) 3) 2 = Inr ba' \<and> m_size ba' = 2"
  using seek_total [OF reach_new [of 3 "\<lambda>_ _. 5"], of 2] by (auto simp: ByteArray_new_def)

text \<open>
  Loading a file appends exactly its bytes at the cursor of a reachable buffer, and \<open>toString\<close>
  after rewinding returns them (followed by whatever lay behind them).
\<close>

lemma readFromFile_toString:
  assumes "ba_reachable ba"
  shows "\<exists>ba1 ba2 rest. readFromFile ba (Some src) = Inr (True, ba1) \<and>
    setPosition ba1 (m_position ba) = Inr ba2 \<and> ba_toString ba2 = Inr (src @ rest) \<and>
    written ba1 = written ba @ src"
proof -
  note inv = ba_reachable_inv [OF assms]
  obtain ba1 where ba1: "rff_loop (m_baseSize ba) src ba = Inr ba1" "bc.step ba ba1 src"
    using rff_loop_correct [OF inv refl] by blast
  obtain ba2 rest where "setPosition ba1 (m_position ba) = Inr ba2" "ba_inv ba2"
    "unread ba2 = src @ rest"
    using bc.rewind [OF ba1(2) inv] length_written [OF inv] by auto
  with ba1 show ?thesis
    by (auto simp: readFromFile_def toString_unread bc.step_def)
qed

lemma readFromFile_toString_witness:
  "\<exists>ba1 ba2 rest. readFromFile (ByteArray_new (\<lambda>_ _. 0) 2) (Some [9, 8, 7]) = Inr (True, ba1) \<and>
    setPosition ba1 (m_position (ByteArray_new (\<lambda>_ _. 0) 2)) = Inr ba2 \<and>
    ba_toString ba2 = Inr ([9, 8, 7] @ rest) \<and>
    written ba1 = written (ByteArray_new (\<lambda>_ _. 0) 2) @ [9, 8, 7]"
  by (rule readFromFile_toString) (simp add: reach_new)



section \<open>Where the code breaks\<close>

text \<open>
  An empty string written at the end of a full block can not be read back: \<open>readStringF16\<close> reads the
  length, which leaves the cursor past the last block, and then dereferences the null \<open>m_cur\<close>.
\<close>

definition empty_string_buffer :: "bytearray res" where
  "empty_string_buffer =
     rbind (writeStringF16 HPGS_LITTLE_ENDIAN (ByteArray_new (\<lambda>_ _. 0) 2) [])
       (\<lambda>ba. setPosition ba 0)"

lemma empty_string_crashes:
  "rbind empty_string_buffer (\<lambda>ba. rbind (readStringF16 HPGS_LITTLE_ENDIAN ba) (\<lambda>(s, _). Inr s)) =
     Inl Null_Deref"
  by code_simp

text \<open>\<open>read(buf, size, position)\<close> starts its walk at \<open>m_cur\<close>, not at the block of \<open>position\<close>.\<close>

lemma read_at_wrong_block:
  "rbind (ba_write (ByteArray_new (\<lambda>_ _. 0) 2) [1, 2, 3]) (\<lambda>ba. ba_read_at ba 1 0) = Inr [3]"
  by code_simp

text \<open>\<open>writeToFile\<close> from a cursor inside a block computes a negative count.\<close>

lemma writeToFile_undefined:
  "rbind (ba_write (ByteArray_new (\<lambda>_ _. 0) 4) [1, 2, 3, 4]) (\<lambda>ba.
     rbind (setPosition ba 3) (\<lambda>ba. writeToFile ba True)) = Inl Undefined"
  by code_simp

text \<open>\<open>toHexString\<close> prints the second byte over and over.\<close>

lemma toHexString_repeats:
  "rbind (ba_write (ByteArray_new (\<lambda>_ _. 0) 4) [1, 2, 3]) (\<lambda>ba.
     rbind (setPosition ba 0) toHexString) = Inr ''02 02 02 ''"
  by code_simp

end
