(* ===== verification/Std_Set.thy ===== *)
theory Std_Set
  imports HPGS_Prelude
begin

text \<open>
  The part of \<open>std::set\<close> with a user comparator that the code uses: the elements are a list in
  iteration order, an iterator is a position in it (the length is \<open>end()\<close>), and two elements are
  equivalent when neither is less than the other.  The locale states what a comparator has to
  satisfy and proves, once, what the operations then do.
\<close>

fun set_insert :: "('a \<Rightarrow> 'a \<Rightarrow> bool) \<Rightarrow> 'a \<Rightarrow> 'a list \<Rightarrow> nat \<times> 'a list" where
  "set_insert lt x [] = (0, [x])"
| "set_insert lt x (y # ys) =
     (if lt x y then (0, x # y # ys)
      else if lt y x then (case set_insert lt x ys of (i, zs) \<Rightarrow> (Suc i, y # zs))
      else (0, y # ys))"

fun set_find :: "('a \<Rightarrow> 'a \<Rightarrow> bool) \<Rightarrow> 'a \<Rightarrow> 'a list \<Rightarrow> nat" where
  "set_find lt x [] = 0"
| "set_find lt x (y # ys) = (if \<not> lt x y \<and> \<not> lt y x then 0 else Suc (set_find lt x ys))"

text \<open>Erasing \<open>end()\<close> is undefined.\<close>

definition set_erase :: "nat \<Rightarrow> 'a list \<Rightarrow> 'a list res" where
  "set_erase i xs = (if i < length xs then Inr (take i xs @ drop (Suc i) xs) else Inl Undefined)"

definition set_lower_bound :: "('a \<Rightarrow> 'a \<Rightarrow> bool) \<Rightarrow> 'a \<Rightarrow> 'a list \<Rightarrow> nat" where
  "set_lower_bound lt x xs = length (takeWhile (\<lambda>y. lt y x) xs)"

locale comparator =
  fixes lt :: "'a \<Rightarrow> 'a \<Rightarrow> bool"
  assumes irrefl: "\<not> lt x x"
    and trans: "lt x y \<Longrightarrow> lt y z \<Longrightarrow> lt x z"
    and total: "x \<noteq> y \<Longrightarrow> lt x y \<or> lt y x"
begin

lemma asym: "lt x y \<Longrightarrow> \<not> lt y x"
  using irrefl trans by blast

text \<open>The order that a set keeps.\<close>

definition ordered :: "'a list \<Rightarrow> bool" where
  "ordered xs \<longleftrightarrow> sorted_wrt lt xs"

lemma ordered_Nil [simp]: "ordered []"
  by (simp add: ordered_def)

lemma ordered_Cons [simp]: "ordered (x # xs) \<longleftrightarrow> (\<forall>y \<in> set xs. lt x y) \<and> ordered xs"
  by (simp add: ordered_def)

lemma ordered_append:
  "ordered (xs @ ys) \<longleftrightarrow> ordered xs \<and> ordered ys \<and> (\<forall>x \<in> set xs. \<forall>y \<in> set ys. lt x y)"
  by (simp add: ordered_def sorted_wrt_append)

lemma ordered_distinct: "ordered xs \<Longrightarrow> distinct xs"
  by (induction xs) (auto simp: irrefl)

lemma ordered_filter: "ordered xs \<Longrightarrow> ordered (filter P xs)"
  by (simp add: ordered_def sorted_wrt_filter)

lemma set_set_insert: "set (snd (set_insert lt x xs)) = insert x (set xs)"
  using total by (induction xs) (auto split: prod.splits)

lemma ordered_set_insert: "ordered xs \<Longrightarrow> ordered (snd (set_insert lt x xs))"
proof (induction xs)
  case (Cons y ys)
  then show ?case
    using set_set_insert [of x ys] trans [of x y] by (auto split: prod.splits)
qed simp

lemma set_insert_front:
  "ordered xs \<Longrightarrow> fst (set_insert lt x xs) = 0 \<longleftrightarrow> (\<forall>y \<in> set xs. y = x \<or> lt x y)"
proof (cases xs)
  case (Cons y ys)
  assume "ordered xs"
  then have ys: "z \<in> set ys \<Longrightarrow> lt y z" for z using Cons by simp
  consider "lt x y" | "lt y x" "\<not> lt x y" | "x = y" using total asym by blast
  then show ?thesis
  proof cases
    case 1
    then show ?thesis using Cons ys trans [OF 1] by auto
  next
    case 2
    then show ?thesis using Cons irrefl by (auto split: prod.splits)
  next
    case 3
    then show ?thesis using Cons ys irrefl by simp
  qed
qed simp

lemma nth_set_insert: "fst (set_insert lt x xs) < length (snd (set_insert lt x xs)) \<and>
    snd (set_insert lt x xs) ! fst (set_insert lt x xs) = x"
  using total by (induction xs) (auto split: prod.splits)

lemma set_find_In:
  "x \<in> set xs \<Longrightarrow> set_find lt x xs < length xs \<and> xs ! set_find lt x xs = x"
  using total irrefl by (induction xs) auto

lemma set_find_notIn: "x \<notin> set xs \<Longrightarrow> set_find lt x xs = length xs"
  using total by (induction xs) auto

lemma set_erase_find:
  assumes "ordered xs" "x \<in> set xs"
  shows "set_erase (set_find lt x xs) xs = Inr (filter (\<lambda>y. y \<noteq> x) xs)"
proof -
  let ?i = "set_find lt x xs"
  have i: "?i < length xs" "xs ! ?i = x" using set_find_In [OF assms(2)] by auto
  have "distinct xs" using assms(1) by (rule ordered_distinct)
  moreover have split: "xs = take ?i xs @ x # drop (Suc ?i) xs"
    using id_take_nth_drop [OF i(1)] i(2) by simp
  ultimately have "x \<notin> set (take ?i xs)" "x \<notin> set (drop (Suc ?i) xs)"
    by (metis distinct.simps(2) distinct_append disjoint_iff list.set_intros(1))+
  then have "\<forall>y \<in> set (take ?i xs) \<union> set (drop (Suc ?i) xs). y \<noteq> x"
    by auto
  then have "filter (\<lambda>y. y \<noteq> x) xs = take ?i xs @ drop (Suc ?i) xs"
    using arg_cong [OF split, of "filter (\<lambda>y. y \<noteq> x)"] by (simp add: filter_True)
  then show ?thesis using i by (simp add: set_erase_def)
qed

lemma take_lower_bound: "take (set_lower_bound lt x xs) xs = takeWhile (\<lambda>y. lt y x) xs"
  by (metis set_lower_bound_def takeWhile_eq_take)

end

end
