(* ===== verification/Timer.thy ===== *)
theory Timer
  imports Std_Set
begin

text \<open>
  Timers and the timer manager (\<open>src/concurrency/timer.cc\<close>).  A \<open>Timer::ptr\<close> is an address in a heap of
  timers, the \<open>std::set\<close> is the list of its elements in iteration order, times are \<open>uint64_t\<close>
  milliseconds and wrap.  The clock (\<open>GetCurrentMs\<close>) and the addresses that \<open>new\<close> returns are
  arguments.  Every operation runs under the manager's write lock, so it is one atomic step; the call
  of the virtual \<open>onTimerInsertAtFront\<close> is part of the result.
\<close>

section \<open>State\<close>

text \<open>A callback is a client's function, or the one that \<open>addConditionTimer\<close> binds.\<close>

datatype callback = Function nat | Bind_OnTimer nat callback

record timer =
  t_recurring :: bool
  t_ms :: u64
  t_next :: u64
  t_cb :: "callback option"

record timer_manager =
  m_heap :: "nat \<Rightarrow> timer"
  m_live :: "nat list"
  m_timers :: "nat list"
  m_tickled :: bool
  m_previousTime :: u64

text \<open>\<open>Timer::Comparator\<close> on possibly null pointers.\<close>

definition Comparator :: "(nat \<Rightarrow> timer) \<Rightarrow> nat option \<Rightarrow> nat option \<Rightarrow> bool" where
  "Comparator heap lhs rhs =
     (case lhs of
        None \<Rightarrow> (case rhs of None \<Rightarrow> False | Some r \<Rightarrow> True)
      | Some l \<Rightarrow>
        (case rhs of None \<Rightarrow> False
         | Some r \<Rightarrow>
           if t_next (heap l) < t_next (heap r) then True
           else if t_next (heap r) < t_next (heap l) then False
           else l < r))"

definition before :: "(nat \<Rightarrow> timer) \<Rightarrow> nat \<Rightarrow> nat \<Rightarrow> bool" where
  "before heap p q = Comparator heap (Some p) (Some q)"

section \<open>Operations\<close>

definition Timer_new :: "u64 \<Rightarrow> u64 \<Rightarrow> callback option \<Rightarrow> bool \<Rightarrow> timer" where
  "Timer_new now ms cb recurring =
     \<lparr>t_recurring = recurring, t_ms = ms, t_next = now + ms, t_cb = cb\<rparr>"

definition Timer_at :: "u64 \<Rightarrow> timer" where
  "Timer_at nxt = \<lparr>t_recurring = False, t_ms = 0, t_next = nxt, t_cb = None\<rparr>"

definition TimerManager_new :: "(nat \<Rightarrow> timer) \<Rightarrow> u64 \<Rightarrow> timer_manager" where
  "TimerManager_new heap now =
     \<lparr>m_heap = heap, m_live = [], m_timers = [], m_tickled = False, m_previousTime = now\<rparr>"

text \<open>The protected \<open>addTimer\<close>: the result says whether \<open>onTimerInsertAtFront\<close> is called.\<close>

definition insertTimer :: "nat \<Rightarrow> timer_manager \<Rightarrow> bool \<times> timer_manager" where
  "insertTimer val tm =
     (let (it, ts) = set_insert (before (m_heap tm)) val (m_timers tm);
          at_front = (it = 0 \<and> \<not> m_tickled tm);
          tm = tm\<lparr>m_timers := ts\<rparr>
      in (at_front, if at_front then tm\<lparr>m_tickled := True\<rparr> else tm))"

definition addTimer ::
  "u64 \<Rightarrow> nat \<Rightarrow> u64 \<Rightarrow> callback option \<Rightarrow> bool \<Rightarrow> timer_manager \<Rightarrow> bool \<times> timer_manager" where
  "addTimer now p ms cb recurring tm =
     insertTimer p (tm\<lparr>m_heap := (m_heap tm)(p := Timer_new now ms cb recurring),
                       m_live := p # m_live tm\<rparr>)"

text \<open>\<open>OnTimer\<close>, run when a bound callback fires: \<open>alive w\<close> is whether \<open>weak_cond.lock()\<close> succeeds.\<close>

definition OnTimer :: "(nat \<Rightarrow> bool) \<Rightarrow> nat \<Rightarrow> nat list \<Rightarrow> nat list" where
  "OnTimer alive weak_cond cb = (if alive weak_cond then cb else [])"

primrec run_callback :: "(nat \<Rightarrow> bool) \<Rightarrow> callback \<Rightarrow> nat list" where
  "run_callback alive (Function f) = [f]"
| "run_callback alive (Bind_OnTimer weak_cond cb) = OnTimer alive weak_cond (run_callback alive cb)"

definition addConditionTimer ::
  "u64 \<Rightarrow> nat \<Rightarrow> u64 \<Rightarrow> callback \<Rightarrow> nat \<Rightarrow> bool \<Rightarrow> timer_manager \<Rightarrow> bool \<times> timer_manager" where
  "addConditionTimer now p ms cb weak_cond recurring tm =
     addTimer now p ms (Some (Bind_OnTimer weak_cond cb)) recurring tm"

definition eraseTimer :: "nat \<Rightarrow> timer_manager \<Rightarrow> timer_manager res" where
  "eraseTimer it tm =
     (case set_erase it (m_timers tm) of Inl e \<Rightarrow> Inl e | Inr ts \<Rightarrow> Inr (tm\<lparr>m_timers := ts\<rparr>))"

definition cancel :: "nat \<Rightarrow> timer_manager \<Rightarrow> (bool \<times> timer_manager) res" where
  "cancel this tm =
     (if t_cb (m_heap tm this) \<noteq> None then
        let tm = tm\<lparr>m_heap := (m_heap tm)(this := (m_heap tm this)\<lparr>t_cb := None\<rparr>)\<rparr>;
            it = set_find (before (m_heap tm)) this (m_timers tm)
        in (case eraseTimer it tm of Inl e \<Rightarrow> Inl e | Inr tm \<Rightarrow> Inr (True, tm))
      else Inr (False, tm))"

definition refresh :: "u64 \<Rightarrow> nat \<Rightarrow> timer_manager \<Rightarrow> (bool \<times> timer_manager) res" where
  "refresh now this tm =
     (if t_cb (m_heap tm this) = None then Inr (False, tm)
      else
        let it = set_find (before (m_heap tm)) this (m_timers tm) in
        if it = length (m_timers tm) then Inr (False, tm)
        else (case eraseTimer it tm of Inl e \<Rightarrow> Inl e
              | Inr tm \<Rightarrow>
                let h = (m_heap tm)(this := (m_heap tm this)\<lparr>t_next := now + t_ms (m_heap tm this)\<rparr>);
                    tm = tm\<lparr>m_heap := h, m_timers := snd (set_insert (before h) this (m_timers tm))\<rparr>
                in Inr (True, tm)))"

text \<open>\<open>reset\<close> returns its result and whether \<open>onTimerInsertAtFront\<close> is called.\<close>

definition reset :: "u64 \<Rightarrow> nat \<Rightarrow> u64 \<Rightarrow> bool \<Rightarrow> timer_manager \<Rightarrow> (bool \<times> bool \<times> timer_manager) res" where
  "reset now this ms from_now tm =
     (if ms = t_ms (m_heap tm this) \<and> \<not> from_now then Inr (True, False, tm)
      else if t_cb (m_heap tm this) = None then Inr (False, False, tm)
      else
        let it = set_find (before (m_heap tm)) this (m_timers tm) in
        if it = length (m_timers tm) then Inr (False, False, tm)
        else (case eraseTimer it tm of Inl e \<Rightarrow> Inl e
              | Inr tm \<Rightarrow>
                let t = m_heap tm this;
                    start = (if from_now then now else t_next t - t_ms t);
                    t = t\<lparr>t_ms := ms, t_next := start + ms\<rparr>
                in Inr (True, insertTimer this (tm\<lparr>m_heap := (m_heap tm)(this := t)\<rparr>))))"

definition getNextTimer :: "u64 \<Rightarrow> timer_manager \<Rightarrow> u64 \<times> timer_manager" where
  "getNextTimer now_ms tm =
     (let tm = tm\<lparr>m_tickled := False\<rparr> in
      (case m_timers tm of [] \<Rightarrow> - 1
       | nxt # _ \<Rightarrow>
         if now_ms \<ge> t_next (m_heap tm nxt) then 0 else t_next (m_heap tm nxt) - now_ms, tm))"

definition detectClockRollover :: "u64 \<Rightarrow> timer_manager \<Rightarrow> bool \<times> timer_manager" where
  "detectClockRollover now_ms tm =
     (now_ms < m_previousTime tm \<and> now_ms < m_previousTime tm - 60 * 60 * 1000,
      tm\<lparr>m_previousTime := now_ms\<rparr>)"

definition hasTimer :: "timer_manager \<Rightarrow> bool" where
  "hasTimer tm \<longleftrightarrow> m_timers tm \<noteq> []"

text \<open>One turn of the loop over the expired timers.\<close>

definition expire_one :: "u64 \<Rightarrow> nat \<Rightarrow> timer_manager \<Rightarrow> callback option \<times> timer_manager" where
  "expire_one now_ms p tm =
     (let t = m_heap tm p in
      (t_cb t,
       if t_recurring t then
         let h = (m_heap tm)(p := t\<lparr>t_next := now_ms + t_ms t\<rparr>) in
         tm\<lparr>m_heap := h, m_timers := snd (set_insert (before h) p (m_timers tm))\<rparr>
       else tm\<lparr>m_heap := (m_heap tm)(p := t\<lparr>t_cb := None\<rparr>)\<rparr>))"

fun expire_all ::
  "u64 \<Rightarrow> nat list \<Rightarrow> timer_manager \<Rightarrow> callback option list \<times> timer_manager" where
  "expire_all now_ms [] tm = ([], tm)"
| "expire_all now_ms (p # ps) tm =
     (let (cb, tm) = expire_one now_ms p tm; (cbs, tm) = expire_all now_ms ps tm
      in (cb # cbs, tm))"

text \<open>
  \<open>listExpiredCb\<close>: the part under the write lock.  \<open>q\<close> is the address of the temporary \<open>now_timer\<close>, which
  the comparator falls back on for timers due right now.  The test under the read lock before it only
  returns early, with nothing changed, when there is no timer.
\<close>

definition listExpiredCb ::
  "u64 \<Rightarrow> nat \<Rightarrow> timer_manager \<Rightarrow> callback option list \<times> timer_manager" where
  "listExpiredCb now_ms q tm =
     (case m_timers tm of [] \<Rightarrow> ([], tm)
      | front # _ \<Rightarrow>
        let (rollover, tm) = detectClockRollover now_ms tm in
        if \<not> rollover \<and> t_next (m_heap tm front) > now_ms then ([], tm)
        else
          let h = (m_heap tm)(q := Timer_at now_ms);
              it = (if rollover then length (m_timers tm)
                    else set_lower_bound (before h) q (m_timers tm));
              it = it + length (takeWhile (\<lambda>p. t_next (m_heap tm p) = now_ms) (drop it (m_timers tm)));
              expired = take it (m_timers tm)
          in expire_all now_ms expired (tm\<lparr>m_timers := drop it (m_timers tm)\<rparr>))"

section \<open>The order of the set\<close>

text \<open>The key that the comparator compares: deadline first, then address.\<close>

datatype timer_key = Timer_Key (key_next: u64) (key_addr: nat)

instantiation timer_key :: linorder
begin

definition less_timer_key :: "timer_key \<Rightarrow> timer_key \<Rightarrow> bool" where
  "less_timer_key k l \<longleftrightarrow>
     key_next k < key_next l \<or> key_next k = key_next l \<and> key_addr k < key_addr l"

definition less_eq_timer_key :: "timer_key \<Rightarrow> timer_key \<Rightarrow> bool" where
  "less_eq_timer_key k l \<longleftrightarrow> k = l \<or> k < l"

instance
  by standard
    (auto simp: less_timer_key_def less_eq_timer_key_def intro: timer_key.expand)

end

definition key :: "(nat \<Rightarrow> timer) \<Rightarrow> nat \<Rightarrow> timer_key" where
  "key heap p = Timer_Key (t_next (heap p)) p"

lemma before_key: "before heap p q \<longleftrightarrow> key heap p < key heap q"
  by (auto simp: before_def Comparator_def key_def less_timer_key_def)

interpretation tc: comparator "before heap" for heap :: "nat \<Rightarrow> timer"
  by unfold_locales (auto simp: before_key key_def less_timer_key_def)

end
