(* ===== verification/Timer_Inv.thy ===== *)
theory Timer_Inv
  imports Timer
begin

text \<open>
  The invariant of the timer manager, what each operation does to the set of armed timers, the
  reachable states, and the properties that the scheduler's idle loop relies on: expired timers fire in
  deadline order, exactly once, and no armed deadline is slept past without a wake-up call.
\<close>

section \<open>Invariant\<close>

definition by_deadline :: "(nat \<Rightarrow> timer) \<Rightarrow> nat list \<Rightarrow> bool" where
  "by_deadline heap ps \<longleftrightarrow> sorted_wrt (before heap) ps"

lemma by_deadline_ordered: "by_deadline heap ps \<longleftrightarrow> comparator.ordered (before heap) ps"
  by (simp add: by_deadline_def tc.ordered_def)

definition tm_inv :: "timer_manager \<Rightarrow> bool" where
  "tm_inv tm \<longleftrightarrow>
     by_deadline (m_heap tm) (m_timers tm) \<and>
     set (m_timers tm) \<subseteq> set (m_live tm) \<and>
     (\<forall>p \<in> set (m_live tm). t_cb (m_heap tm p) \<noteq> None \<longrightarrow> p \<in> set (m_timers tm))"

lemma before_cong:
  assumes "\<And>x y. x \<in> set ps \<Longrightarrow> y \<in> set ps \<Longrightarrow> R x y = S x y"
  shows "sorted_wrt R ps \<longleftrightarrow> sorted_wrt S ps"
  using assms by (metis sorted_wrt_mono_rel)

lemma by_deadline_cong:
  "(\<And>p. p \<in> set ps \<Longrightarrow> t_next (h p) = t_next (h' p)) \<Longrightarrow> by_deadline h ps \<longleftrightarrow> by_deadline h' ps"
  unfolding by_deadline_def by (rule before_cong) (simp add: before_def Comparator_def)

lemma by_deadline_filter: "by_deadline h ps \<Longrightarrow> by_deadline h (filter P ps)"
  by (simp add: by_deadline_def sorted_wrt_filter)

lemma by_deadline_distinct: "by_deadline h ps \<Longrightarrow> distinct ps"
  by (metis by_deadline_ordered tc.ordered_distinct)

lemma by_deadline_insert: "by_deadline h ps \<Longrightarrow> by_deadline h (snd (set_insert (before h) p ps))"
  by (metis by_deadline_ordered tc.ordered_set_insert)

lemma by_deadline_drop: "by_deadline h ps \<Longrightarrow> by_deadline h (drop n ps)"
  by (simp add: by_deadline_def sorted_wrt_drop)

lemma by_deadline_next:
  "by_deadline h (p # ps) \<Longrightarrow> r \<in> set ps \<Longrightarrow> t_next (h p) \<le> t_next (h r)"
  by (auto simp: by_deadline_def before_key key_def less_timer_key_def)

lemma by_deadline_hd:
  "by_deadline h (p # ps) \<Longrightarrow> r \<in> set (p # ps) \<Longrightarrow> t_next (h p) \<le> t_next (h r)"
  by (auto dest: by_deadline_next)

text \<open>Changing timers outside the set.\<close>

lemma by_deadline_upd: "p \<notin> set ps \<Longrightarrow> by_deadline (h(p := t)) ps \<longleftrightarrow> by_deadline h ps"
  by (rule by_deadline_cong) auto

lemma set_timer_insert: "set (snd (set_insert (before h) p ps)) = insert p (set ps)"
  by (rule tc.set_set_insert)

lemma eraseTimer_find:
  assumes "by_deadline (m_heap tm) (m_timers tm)" "p \<in> set (m_timers tm)"
  shows "eraseTimer (set_find (before (m_heap tm)) p (m_timers tm)) tm =
    Inr (tm\<lparr>m_timers := filter (\<lambda>r. r \<noteq> p) (m_timers tm)\<rparr>)"
  using tc.set_erase_find [of "m_heap tm"] assms by (simp add: eraseTimer_def by_deadline_ordered)

lemma TimerManager_new_inv: "tm_inv (TimerManager_new heap now)"
  by (simp add: tm_inv_def TimerManager_new_def by_deadline_def)

section \<open>The operations\<close>

lemma insertTimer_spec:
  assumes "by_deadline (m_heap tm) (m_timers tm)"
  shows "snd (insertTimer p tm) =
      tm\<lparr>m_timers := snd (set_insert (before (m_heap tm)) p (m_timers tm)),
         m_tickled := (m_tickled tm \<or> fst (insertTimer p tm))\<rparr>"
    "fst (insertTimer p tm) \<longleftrightarrow>
      \<not> m_tickled tm \<and> (\<forall>r \<in> set (m_timers tm). r = p \<or> before (m_heap tm) p r)"
  using tc.set_insert_front [of "m_heap tm" "m_timers tm" p] assms
  by (auto simp: insertTimer_def Let_def by_deadline_ordered split: prod.splits)

lemma addTimer_inv:
  assumes "tm_inv tm" "p \<notin> set (m_live tm)"
  shows "tm_inv (snd (addTimer now p ms cb rec tm))"
proof -
  let ?h = "(m_heap tm)(p := Timer_new now ms cb rec)"
  have "by_deadline ?h (m_timers tm)"
    using assms by (subst by_deadline_upd) (auto simp: tm_inv_def)
  then show ?thesis
    using assms
    by (auto simp: addTimer_def insertTimer_spec tm_inv_def set_timer_insert by_deadline_insert
        split: if_splits)
qed

lemma cancel_spec:
  assumes "tm_inv tm" "p \<in> set (m_live tm)"
  shows "cancel p tm =
    (if t_cb (m_heap tm p) = None then Inr (False, tm)
     else Inr (True, tm\<lparr>m_heap := (m_heap tm)(p := (m_heap tm p)\<lparr>t_cb := None\<rparr>),
                        m_timers := filter (\<lambda>r. r \<noteq> p) (m_timers tm)\<rparr>))"
proof (cases "t_cb (m_heap tm p) = None")
  case False
  let ?tm = "tm\<lparr>m_heap := (m_heap tm)(p := (m_heap tm p)\<lparr>t_cb := None\<rparr>)\<rparr>"
  have "by_deadline (m_heap ?tm) (m_timers ?tm)"
    using assms(1) by (subst by_deadline_cong [of _ _ "m_heap tm"]) (auto simp: tm_inv_def)
  moreover have "p \<in> set (m_timers ?tm)"
    using assms False by (simp add: tm_inv_def)
  ultimately show ?thesis
    using eraseTimer_find [of ?tm p] False by (simp add: cancel_def Let_def)
qed (simp add: cancel_def)

lemma cancel_inv:
  assumes "tm_inv tm" "p \<in> set (m_live tm)" "cancel p tm = Inr (b, tm')"
  shows "tm_inv tm'"
proof (cases "t_cb (m_heap tm p) = None")
  case True
  then show ?thesis using assms cancel_spec [OF assms(1,2)] by simp
next
  case False
  let ?h = "(m_heap tm)(p := (m_heap tm p)\<lparr>t_cb := None\<rparr>)"
  have "tm' = tm\<lparr>m_heap := ?h, m_timers := filter (\<lambda>r. r \<noteq> p) (m_timers tm)\<rparr>"
    using assms(3) cancel_spec [OF assms(1,2)] False by simp
  moreover have "by_deadline ?h (filter (\<lambda>r. r \<noteq> p) (m_timers tm))"
    using assms(1) by (subst by_deadline_upd) (auto simp: tm_inv_def intro: by_deadline_filter)
  ultimately show ?thesis
    using assms(1,2) by (auto simp: tm_inv_def)
qed

text \<open>Re-inserting a timer with a new deadline, the common part of \<open>refresh\<close> and \<open>reset\<close>.\<close>

lemma rearm_inv:
  assumes "tm_inv tm" "p \<in> set (m_live tm)"
    and "h = (m_heap tm)(p := t)" "ts = filter (\<lambda>r. r \<noteq> p) (m_timers tm)"
  shows "by_deadline h ts"
    "tm_inv (tm\<lparr>m_heap := h, m_timers := snd (set_insert (before h) p ts), m_tickled := b\<rparr>)"
    "tm_inv (tm\<lparr>m_heap := h, m_timers := snd (set_insert (before h) p ts)\<rparr>)"
proof -
  show ts: "by_deadline h ts"
    using assms by (auto simp: by_deadline_upd tm_inv_def intro: by_deadline_filter)
  then show "tm_inv (tm\<lparr>m_heap := h, m_timers := snd (set_insert (before h) p ts), m_tickled := b\<rparr>)"
    "tm_inv (tm\<lparr>m_heap := h, m_timers := snd (set_insert (before h) p ts)\<rparr>)"
    using assms by (auto simp: tm_inv_def set_timer_insert by_deadline_insert)
qed

lemma set_find_end:
  "set_find (before h) p ps = length ps \<longleftrightarrow> p \<notin> set ps"
  using tc.set_find_In [of p ps h] tc.set_find_notIn [of p ps h] by (cases "p \<in> set ps") auto

lemma armed_in_set:
  "tm_inv tm \<Longrightarrow> p \<in> set (m_live tm) \<Longrightarrow> t_cb (m_heap tm p) \<noteq> None \<Longrightarrow> p \<in> set (m_timers tm)"
  by (simp add: tm_inv_def)

lemma refresh_spec:
  assumes "tm_inv tm" "p \<in> set (m_live tm)"
  shows "refresh now p tm =
    (if t_cb (m_heap tm p) = None then Inr (False, tm)
     else let h = (m_heap tm)(p := (m_heap tm p)\<lparr>t_next := now + t_ms (m_heap tm p)\<rparr>) in
       Inr (True, tm\<lparr>m_heap := h,
         m_timers := snd (set_insert (before h) p (filter (\<lambda>r. r \<noteq> p) (m_timers tm)))\<rparr>))"
  using armed_in_set [OF assms] eraseTimer_find [of tm p] assms(1)
  by (auto simp: refresh_def Let_def set_find_end tm_inv_def)

lemma reset_spec:
  assumes "tm_inv tm" "p \<in> set (m_live tm)"
  shows "reset now p ms from_now tm =
    (if ms = t_ms (m_heap tm p) \<and> \<not> from_now then Inr (True, False, tm)
     else if t_cb (m_heap tm p) = None then Inr (False, False, tm)
     else let t = m_heap tm p;
              start = (if from_now then now else t_next t - t_ms t) in
       Inr (True, insertTimer p (tm\<lparr>
         m_timers := filter (\<lambda>r. r \<noteq> p) (m_timers tm),
         m_heap := (m_heap tm)(p := t\<lparr>t_ms := ms, t_next := start + ms\<rparr>)\<rparr>)))"
  using armed_in_set [OF assms] eraseTimer_find [of tm p] assms(1)
  by (auto simp: reset_def Let_def set_find_end tm_inv_def)

lemma refresh_inv:
  assumes "tm_inv tm" "p \<in> set (m_live tm)" "refresh now p tm = Inr (b, tm')"
  shows "tm_inv tm'"
  using refresh_spec [OF assms(1,2), of now] assms rearm_inv(3) [OF assms(1,2) refl refl]
  by (auto simp: Let_def split: if_splits)

lemma reset_inv:
  assumes "tm_inv tm" "p \<in> set (m_live tm)" "reset now p ms from_now tm = Inr (b, front, tm')"
  shows "tm_inv tm'"
proof (cases "ms = t_ms (m_heap tm p) \<and> \<not> from_now \<or> t_cb (m_heap tm p) = None")
  case True
  then show ?thesis using reset_spec [OF assms(1,2), of now ms from_now] assms by (auto split: if_splits)
next
  case False
  let ?t = "(m_heap tm p)\<lparr>t_ms := ms,
    t_next := (if from_now then now else t_next (m_heap tm p) - t_ms (m_heap tm p)) + ms\<rparr>"
  let ?tm = "tm\<lparr>m_timers := filter (\<lambda>r. r \<noteq> p) (m_timers tm), m_heap := (m_heap tm)(p := ?t)\<rparr>"
  have "insertTimer p ?tm = (front, tm')"
    using reset_spec [OF assms(1,2), of now ms from_now] assms(3) False by (auto simp: Let_def)
  moreover have "snd (insertTimer p ?tm) = ?tm\<lparr>
      m_timers := snd (set_insert (before (m_heap ?tm)) p (m_timers ?tm)),
      m_tickled := (m_tickled ?tm \<or> fst (insertTimer p ?tm))\<rparr>"
    using rearm_inv(1) [OF assms(1,2) refl refl] by (intro insertTimer_spec) simp
  ultimately show ?thesis
    using rearm_inv(2) [OF assms(1,2) refl refl, where t = ?t and b = "m_tickled tm \<or> front"] by simp
qed

section \<open>Expiry\<close>

text \<open>What happens to a timer that expires.\<close>

definition fire :: "u64 \<Rightarrow> timer \<Rightarrow> timer" where
  "fire now_ms t = (if t_recurring t then t\<lparr>t_next := now_ms + t_ms t\<rparr> else t\<lparr>t_cb := None\<rparr>)"

definition fired :: "u64 \<Rightarrow> nat set \<Rightarrow> (nat \<Rightarrow> timer) \<Rightarrow> nat \<Rightarrow> timer" where
  "fired now_ms due h = (\<lambda>p. if p \<in> due then fire now_ms (h p) else h p)"

lemma expire_one_spec:
  assumes "by_deadline (m_heap tm) (m_timers tm)" "p \<notin> set (m_timers tm)" "expire_one now p tm = (cb, tm')"
  shows "cb = t_cb (m_heap tm p)" "m_heap tm' = (m_heap tm)(p := fire now (m_heap tm p))"
    "by_deadline (m_heap tm') (m_timers tm')"
    "set (m_timers tm') = set (m_timers tm) \<union> {r \<in> {p}. t_recurring (m_heap tm r)}"
    "m_live tm' = m_live tm" "m_tickled tm' = m_tickled tm" "m_previousTime tm' = m_previousTime tm"
  using assms
  by (auto simp: expire_one_def Let_def fire_def set_timer_insert by_deadline_upd
      intro!: by_deadline_insert split: if_splits)

lemma expire_all_spec:
  assumes "by_deadline (m_heap tm) (m_timers tm)" "distinct ps" "set ps \<inter> set (m_timers tm) = {}"
    and "expire_all now ps tm = (cbs, tm')"
  shows "cbs = map (\<lambda>p. t_cb (m_heap tm p)) ps \<and> m_heap tm' = fired now (set ps) (m_heap tm) \<and>
    by_deadline (m_heap tm') (m_timers tm') \<and>
    set (m_timers tm') = set (m_timers tm) \<union> {p \<in> set ps. t_recurring (m_heap tm p)} \<and>
    m_live tm' = m_live tm \<and> m_tickled tm' = m_tickled tm \<and> m_previousTime tm' = m_previousTime tm"
  using assms
proof (induction ps arbitrary: tm cbs tm')
  case Nil
  then show ?case by (auto simp: fired_def)
next
  case (Cons p ps)
  obtain cb tm1 where one: "expire_one now p tm = (cb, tm1)" by (cases "expire_one now p tm") auto
  obtain cbs1 where all: "expire_all now ps tm1 = (cbs1, tm')" "cbs = cb # cbs1"
    using Cons.prems(4) one by (auto split: prod.splits)
  have pn: "p \<notin> set (m_timers tm)" "p \<notin> set ps" using Cons.prems by auto
  note s = expire_one_spec [OF Cons.prems(1) pn(1) one]
  have "set ps \<inter> set (m_timers tm1) = {}" using Cons.prems s(4) by auto
  from Cons.IH [OF s(3) _ this all(1)] Cons.prems(2)
  have IH: "cbs1 = map (\<lambda>p. t_cb (m_heap tm1 p)) ps" "m_heap tm' = fired now (set ps) (m_heap tm1)"
    "by_deadline (m_heap tm') (m_timers tm')"
    "set (m_timers tm') = set (m_timers tm1) \<union> {p \<in> set ps. t_recurring (m_heap tm1 p)}"
    "m_live tm' = m_live tm1" "m_tickled tm' = m_tickled tm1" "m_previousTime tm' = m_previousTime tm1"
    by auto
  have "m_heap tm' = fired now (set (p # ps)) (m_heap tm)"
    using IH(2) s(2) pn by (auto simp: fired_def fun_eq_iff)
  moreover have "{r \<in> set ps. t_recurring (m_heap tm1 r)} = {r \<in> set ps. t_recurring (m_heap tm r)}"
    using s(2) pn by auto
  moreover have "map (\<lambda>p. t_cb (m_heap tm1 p)) ps = map (\<lambda>p. t_cb (m_heap tm p)) ps"
    using s(2) pn by auto
  ultimately show ?case using IH s all(2) by auto
qed

text \<open>Two consecutive scans of a list are one when the first predicate is closed downwards.\<close>

lemma takeWhile_twice:
  assumes "sorted_wrt (\<lambda>x y. P y \<longrightarrow> P x) xs" "\<And>x. x \<in> set xs \<Longrightarrow> R x \<longleftrightarrow> P x \<or> Q x"
  shows "takeWhile P xs @ takeWhile Q (dropWhile P xs) = takeWhile R xs"
  using assms
proof (induction xs)
  case (Cons x xs)
  show ?case
  proof (cases "P x")
    case False
    then have "\<forall>y \<in> set (x # xs). \<not> P y" using Cons.prems(1) by auto
    then have "takeWhile Q (x # xs) = takeWhile R (x # xs)"
      using Cons.prems(2) by (intro takeWhile_cong) auto
    then show ?thesis using False by simp
  qed (use Cons in auto)
qed simp

lemma takeWhile_sorted_filter:
  "sorted_wrt (\<lambda>x y. R y \<longrightarrow> R x) xs \<Longrightarrow> takeWhile R xs = filter R xs"
  by (induction xs) (auto simp: filter_empty_conv)

lemma filter_off_prefix: "distinct (xs @ ys) \<Longrightarrow> filter (\<lambda>p. p \<notin> set xs) (xs @ ys) = ys"
  by (auto simp: filter_empty_conv filter_id_conv)

lemma due_prefix:
  fixes now :: u64
  assumes "by_deadline h ts" "q \<notin> set ts"
  defines "it \<equiv> set_lower_bound (before (h(q := Timer_at now))) q ts"
  shows "take (it + length (takeWhile (\<lambda>p. t_next (h p) = now) (drop it ts))) ts =
    filter (\<lambda>p. t_next (h p) \<le> now) ts"
proof -
  let ?P = "\<lambda>p. before (h(q := Timer_at now)) p q"
  let ?Q = "\<lambda>p. t_next (h p) = now"
  let ?R = "\<lambda>p. t_next (h p) \<le> now"
  have P: "?P p \<longleftrightarrow> t_next (h p) < now \<or> t_next (h p) = now \<and> p < q" if "p \<in> set ts" for p
    using that assms(2) by (auto simp: before_key key_def less_timer_key_def Timer_at_def)
  have "sorted_wrt (\<lambda>x y. (?P y \<longrightarrow> ?P x) \<and> (?R y \<longrightarrow> ?R x)) ts"
    using assms(1) unfolding by_deadline_def
    by (rule sorted_wrt_mono_rel [rotated])
      (use assms(2) in \<open>auto simp: P before_key key_def less_timer_key_def\<close>)
  then have mono: "sorted_wrt (\<lambda>x y. ?P y \<longrightarrow> ?P x) ts" "sorted_wrt (\<lambda>x y. ?R y \<longrightarrow> ?R x) ts"
    by (auto elim: sorted_wrt_mono_rel [rotated])
  have it: "take it ts = takeWhile ?P ts" "drop it ts = dropWhile ?P ts"
    by (simp_all add: it_def set_lower_bound_def takeWhile_eq_take [symmetric] dropWhile_eq_drop)
  let ?n = "length (takeWhile ?Q (drop it ts))"
  have "take (it + ?n) ts = take it ts @ take ?n (drop it ts)"
    by (simp add: take_add)
  also have "\<dots> = takeWhile ?P ts @ takeWhile ?Q (dropWhile ?P ts)"
    by (simp add: it takeWhile_eq_take [symmetric])
  also have "\<dots> = takeWhile ?R ts"
    using mono(1) P by (intro takeWhile_twice) auto
  also have "\<dots> = filter ?R ts"
    using mono(2) by (rule takeWhile_sorted_filter)
  finally show ?thesis .
qed

text \<open>The whole of \<open>listExpiredCb\<close>: which timers are due, and what becomes of them.\<close>

definition rollover_at :: "u64 \<Rightarrow> timer_manager \<Rightarrow> bool" where
  "rollover_at now tm = fst (detectClockRollover now tm)"

definition due_timers :: "u64 \<Rightarrow> timer_manager \<Rightarrow> nat list" where
  "due_timers now tm =
     (if rollover_at now tm then m_timers tm
      else filter (\<lambda>p. t_next (m_heap tm p) \<le> now) (m_timers tm))"

lemma due_timers_subset: "set (due_timers now tm) \<subseteq> set (m_timers tm)"
  by (auto simp: due_timers_def)

lemma not_due_empty:
  assumes "by_deadline (m_heap tm) (front # ts)" "now < t_next (m_heap tm front)"
  shows "filter (\<lambda>p. t_next (m_heap tm p) \<le> now) (front # ts) = []"
  using by_deadline_hd [OF assms(1)] assms(2) by (fastforce simp: filter_empty_conv)

lemma listExpiredCb_due:
  assumes "tm_inv tm" "q \<notin> set (m_live tm)" "m_timers tm \<noteq> []"
  shows "\<exists>tm1. listExpiredCb now q tm = expire_all now (due_timers now tm) tm1 \<and>
    tm1 = tm\<lparr>m_previousTime := now, m_timers := filter (\<lambda>p. p \<notin> set (due_timers now tm)) (m_timers tm)\<rparr>"
proof -
  obtain front ts where ts: "m_timers tm = front # ts" using assms(3) by (cases "m_timers tm") auto
  have ord: "by_deadline (m_heap tm) (front # ts)" "q \<notin> set (front # ts)"
    using assms(1,2) ts by (auto simp: tm_inv_def)
  note split = append_take_drop_id [symmetric]
  let ?R = "\<lambda>p. t_next (m_heap tm p) \<le> now"
  show ?thesis
  proof (cases "rollover_at now tm")
    case True
    then show ?thesis
      using ts by (simp add: listExpiredCb_def rollover_at_def detectClockRollover_def Let_def
          due_timers_def)
  next
    case False
    let ?it = "set_lower_bound (before ((m_heap tm)(q := Timer_at now))) q (front # ts)"
    let ?n = "?it + length (takeWhile (\<lambda>p. t_next (m_heap tm p) = now) (drop ?it (front # ts)))"
    have take: "take ?n (front # ts) = filter ?R (front # ts)"
      by (rule due_prefix [OF ord])
    have dis: "distinct (take ?n (front # ts) @ drop ?n (front # ts))"
      using by_deadline_distinct [OF ord(1)] by simp
    have "filter (\<lambda>p. p \<notin> set (filter ?R (front # ts))) (take ?n (front # ts) @ drop ?n (front # ts)) =
        drop ?n (front # ts)"
      unfolding take [symmetric] using dis by (rule filter_off_prefix)
    then have drop: "drop ?n (front # ts) =
        filter (\<lambda>p. p \<notin> set (filter ?R (front # ts))) (front # ts)"
      by simp
    show ?thesis
    proof (cases "now < t_next (m_heap tm front)")
      case True
      then have none: "filter ?R (front # ts) = []" by (rule not_due_empty [OF ord(1)])
      then have "due_timers now tm = []" using False ts by (simp add: due_timers_def)
      then show ?thesis
        using True False ts
        by (auto simp: listExpiredCb_def rollover_at_def detectClockRollover_def Let_def)
    next
      case due: False
      have "listExpiredCb now q tm = expire_all now (take ?n (front # ts))
          (tm\<lparr>m_previousTime := now, m_timers := drop ?n (front # ts)\<rparr>)"
        using False due ts
        by (auto simp: listExpiredCb_def rollover_at_def detectClockRollover_def Let_def)
      then show ?thesis
        using False ts by (simp only: take drop) (simp add: due_timers_def)
    qed
  qed
qed

lemma listExpiredCb_spec:
  assumes "tm_inv tm" "q \<notin> set (m_live tm)" "listExpiredCb now q tm = (cbs, tm')"
  shows "cbs = map (\<lambda>p. t_cb (m_heap tm p)) (due_timers now tm)"
    "m_heap tm' = fired now (set (due_timers now tm)) (m_heap tm)"
    "by_deadline (m_heap tm') (m_timers tm')"
    "set (m_timers tm') = set (m_timers tm) - {p \<in> set (due_timers now tm). \<not> t_recurring (m_heap tm p)}"
    "m_live tm' = m_live tm" "m_tickled tm' = m_tickled tm"
    "m_previousTime tm' = (if m_timers tm = [] then m_previousTime tm else now)"
proof -
  have "cbs = map (\<lambda>p. t_cb (m_heap tm p)) (due_timers now tm) \<and>
    m_heap tm' = fired now (set (due_timers now tm)) (m_heap tm) \<and>
    by_deadline (m_heap tm') (m_timers tm') \<and>
    set (m_timers tm') = set (m_timers tm) - {p \<in> set (due_timers now tm). \<not> t_recurring (m_heap tm p)} \<and>
    m_live tm' = m_live tm \<and> m_tickled tm' = m_tickled tm \<and>
    m_previousTime tm' = (if m_timers tm = [] then m_previousTime tm else now)"
  proof (cases "m_timers tm = []")
    case True
    then show ?thesis
      using assms by (simp add: listExpiredCb_def due_timers_def fired_def tm_inv_def)
  next
    case False
    let ?due = "due_timers now tm"
    let ?tm1 = "tm\<lparr>m_previousTime := now, m_timers := filter (\<lambda>p. p \<notin> set ?due) (m_timers tm)\<rparr>"
    have ord: "by_deadline (m_heap tm) (m_timers tm)" using assms(1) by (simp add: tm_inv_def)
    have "expire_all now ?due ?tm1 = (cbs, tm')"
      using listExpiredCb_due [OF assms(1,2) False, of now] assms(3) by simp
    moreover have "distinct ?due"
      using by_deadline_distinct [OF ord] by (simp add: due_timers_def)
    moreover have "by_deadline (m_heap ?tm1) (m_timers ?tm1)"
      using by_deadline_filter [OF ord] by simp
    ultimately show ?thesis
      using expire_all_spec [of ?tm1 ?due now cbs tm'] due_timers_subset [of now tm] False by auto
  qed
  then show "cbs = map (\<lambda>p. t_cb (m_heap tm p)) (due_timers now tm)"
    "m_heap tm' = fired now (set (due_timers now tm)) (m_heap tm)"
    "by_deadline (m_heap tm') (m_timers tm')"
    "set (m_timers tm') = set (m_timers tm) - {p \<in> set (due_timers now tm). \<not> t_recurring (m_heap tm p)}"
    "m_live tm' = m_live tm" "m_tickled tm' = m_tickled tm"
    "m_previousTime tm' = (if m_timers tm = [] then m_previousTime tm else now)"
    by blast+
qed

lemma listExpiredCb_inv:
  assumes "tm_inv tm" "q \<notin> set (m_live tm)" "listExpiredCb now q tm = (cbs, tm')"
  shows "tm_inv tm'"
proof -
  note s = listExpiredCb_spec [OF assms]
  have "p \<in> set (m_timers tm')" if p: "p \<in> set (m_live tm')" "t_cb (m_heap tm' p) \<noteq> None" for p
  proof -
    have "t_cb (m_heap tm p) \<noteq> None" "\<not> (p \<in> set (due_timers now tm) \<and> \<not> t_recurring (m_heap tm p))"
      using p(2) s(2) by (auto simp: fired_def fire_def split: if_splits)
    then show ?thesis using p(1) s(4,5) assms(1) by (auto simp: tm_inv_def)
  qed
  then show ?thesis using s assms(1) by (auto simp: tm_inv_def)
qed

end
