(* ===== verification/Timer_Props.thy ===== *)
theory Timer_Props
  imports Timer_Inv
begin

text \<open>
  Runs of the timer manager: the operations as data, the states reachable by legal use, the states
  reachable when the clock is well behaved, and the properties of both.
\<close>

section \<open>Runs\<close>

datatype timer_op =
    AddTimer u64 nat u64 "callback option" bool
  | AddConditionTimer u64 nat u64 callback nat bool
  | Cancel nat
  | Refresh u64 nat
  | Reset u64 nat u64 bool
  | NextTimer u64
  | ListExpired u64 nat

text \<open>The new state, and whether \<open>onTimerInsertAtFront\<close> was called.\<close>

fun exec_op :: "timer_op \<Rightarrow> timer_manager \<Rightarrow> (bool \<times> timer_manager) res" where
  "exec_op (AddTimer now p ms cb rec) tm = Inr (addTimer now p ms cb rec tm)"
| "exec_op (AddConditionTimer now p ms cb w rec) tm = Inr (addConditionTimer now p ms cb w rec tm)"
| "exec_op (Cancel p) tm = rbind (cancel p tm) (\<lambda>(_, tm). Inr (False, tm))"
| "exec_op (Refresh now p) tm = rbind (refresh now p tm) (\<lambda>(_, tm). Inr (False, tm))"
| "exec_op (Reset now p ms from_now) tm = rbind (reset now p ms from_now tm) (\<lambda>(_, r). Inr r)"
| "exec_op (NextTimer now) tm = Inr (False, snd (getNextTimer now tm))"
| "exec_op (ListExpired now q) tm = Inr (False, snd (listExpiredCb now q tm))"

text \<open>\<open>new\<close> returns addresses that are not in use; clients hold pointers to timers they created.\<close>

fun legal :: "timer_op \<Rightarrow> timer_manager \<Rightarrow> bool" where
  "legal (AddTimer now p ms cb rec) tm \<longleftrightarrow> p \<notin> set (m_live tm)"
| "legal (AddConditionTimer now p ms cb w rec) tm \<longleftrightarrow> p \<notin> set (m_live tm)"
| "legal (Cancel p) tm \<longleftrightarrow> p \<in> set (m_live tm)"
| "legal (Refresh now p) tm \<longleftrightarrow> p \<in> set (m_live tm)"
| "legal (Reset now p ms from_now) tm \<longleftrightarrow> p \<in> set (m_live tm)"
| "legal (NextTimer now) tm \<longleftrightarrow> True"
| "legal (ListExpired now q) tm \<longleftrightarrow> q \<notin> set (m_live tm)"

inductive timers_reachable :: "timer_manager \<Rightarrow> bool" where
  tr_new: "timers_reachable (TimerManager_new heap now)"
| tr_step: "timers_reachable tm \<Longrightarrow> legal op tm \<Longrightarrow> exec_op op tm = Inr (b, tm') \<Longrightarrow> timers_reachable tm'"

lemma cancel_total:
  assumes "tm_inv tm" "p \<in> set (m_live tm)"
  shows "\<exists>b tm'. cancel p tm = Inr (b, tm') \<and> tm_inv tm'"
proof -
  have "\<exists>b tm'. cancel p tm = Inr (b, tm')"
    unfolding cancel_spec [OF assms] by (cases "t_cb (m_heap tm p) = None") auto
  then show ?thesis using cancel_inv [OF assms] by blast
qed

lemma refresh_total:
  assumes "tm_inv tm" "p \<in> set (m_live tm)"
  shows "\<exists>b tm'. refresh now p tm = Inr (b, tm') \<and> tm_inv tm'"
proof -
  have "\<exists>b tm'. refresh now p tm = Inr (b, tm')"
    unfolding refresh_spec [OF assms] by (cases "t_cb (m_heap tm p) = None") (auto simp: Let_def)
  then show ?thesis using refresh_inv [OF assms] by blast
qed

lemma reset_total:
  assumes "tm_inv tm" "p \<in> set (m_live tm)"
  shows "\<exists>b f tm'. reset now p ms from_now tm = Inr (b, f, tm') \<and> tm_inv tm'"
proof -
  have "\<exists>b r. reset now p ms from_now tm = Inr (b, r)"
    unfolding reset_spec [OF assms] Let_def
    by (cases "ms = t_ms (m_heap tm p) \<and> \<not> from_now"; cases "t_cb (m_heap tm p) = None") auto
  then obtain b f tm' where "reset now p ms from_now tm = Inr (b, f, tm')" by fastforce
  then show ?thesis using reset_inv [OF assms] by blast
qed

lemma exec_op_inv:
  assumes "tm_inv tm" "legal op tm"
  shows "\<exists>b tm'. exec_op op tm = Inr (b, tm') \<and> tm_inv tm'"
proof (cases op)
  case (AddTimer now p ms cb rec)
  then show ?thesis
    using addTimer_inv [OF assms(1), of p now ms cb rec] assms(2)
    by (cases "addTimer now p ms cb rec tm") simp
next
  case (AddConditionTimer now p ms cb w rec)
  then show ?thesis
    using addTimer_inv [OF assms(1), of p now ms "Some (Bind_OnTimer w cb)" rec] assms(2)
    by (cases "addTimer now p ms (Some (Bind_OnTimer w cb)) rec tm") (simp add: addConditionTimer_def)
next
  case (Cancel p)
  then obtain b tm' where "cancel p tm = Inr (b, tm')" "tm_inv tm'"
    using cancel_total [OF assms(1), of p] assms(2) by auto
  then show ?thesis using Cancel by auto
next
  case (Refresh now p)
  then obtain b tm' where "refresh now p tm = Inr (b, tm')" "tm_inv tm'"
    using refresh_total [OF assms(1), of p now] assms(2) by auto
  then show ?thesis using Refresh by auto
next
  case (Reset now p ms from_now)
  then obtain b f tm' where "reset now p ms from_now tm = Inr (b, f, tm')" "tm_inv tm'"
    using reset_total [OF assms(1), of p now ms from_now] assms(2) by auto
  then show ?thesis using Reset by simp
next
  case (NextTimer now)
  then show ?thesis using assms(1) by (auto simp: getNextTimer_def Let_def tm_inv_def)
next
  case (ListExpired now q)
  then show ?thesis
    using listExpiredCb_inv [OF assms(1), of q now] assms(2)
    by (cases "listExpiredCb now q tm") auto
qed

lemma timers_reachable_inv: "timers_reachable tm \<Longrightarrow> tm_inv tm"
proof (induction rule: timers_reachable.induct)
  case (tr_step tm op b tm')
  then show ?case using exec_op_inv [of tm op] by auto
qed (rule TimerManager_new_inv)

section \<open>Runs under a well-behaved clock\<close>

text \<open>
  The clock does not go back and deadlines stay below \<open>2 ^ 64\<close>: every time and every period is below
  \<open>2 ^ 63\<close> milliseconds.
\<close>

fun op_time :: "u64 \<Rightarrow> timer_op \<Rightarrow> u64" where
  "op_time t (AddTimer now p ms cb rec) = now"
| "op_time t (AddConditionTimer now p ms cb w rec) = now"
| "op_time t (Cancel p) = t"
| "op_time t (Refresh now p) = now"
| "op_time t (Reset now p ms from_now) = now"
| "op_time t (NextTimer now) = now"
| "op_time t (ListExpired now q) = now"

fun op_ms :: "timer_op \<Rightarrow> u64" where
  "op_ms (AddTimer now p ms cb rec) = ms"
| "op_ms (AddConditionTimer now p ms cb w rec) = ms"
| "op_ms (Reset now p ms from_now) = ms"
| "op_ms _ = 0"

definition timely :: "u64 \<Rightarrow> timer_op \<Rightarrow> bool" where
  "timely t op \<longleftrightarrow> unat t \<le> unat (op_time t op) \<and> unat (op_time t op) < 2 ^ 63 \<and> unat (op_ms op) < 2 ^ 63"

inductive timely_reachable :: "u64 \<Rightarrow> timer_manager \<Rightarrow> bool" where
  ty_new: "unat t < 2 ^ 63 \<Longrightarrow> timely_reachable t (TimerManager_new heap t)"
| ty_step: "timely_reachable t tm \<Longrightarrow> legal op tm \<Longrightarrow> timely t op \<Longrightarrow> exec_op op tm = Inr (b, tm') \<Longrightarrow>
    timely_reachable (op_time t op) tm'"

text \<open>A deadline is at most one period away from the present.\<close>

definition timer_sane :: "u64 \<Rightarrow> timer \<Rightarrow> bool" where
  "timer_sane t x \<longleftrightarrow> unat (t_ms x) < 2 ^ 63 \<and> unat (t_ms x) \<le> unat (t_next x) \<and>
     unat (t_next x) \<le> unat t + unat (t_ms x)"

definition clock_inv :: "u64 \<Rightarrow> timer_manager \<Rightarrow> bool" where
  "clock_inv t tm \<longleftrightarrow> tm_inv tm \<and> unat t < 2 ^ 63 \<and> unat (m_previousTime tm) \<le> unat t \<and>
     (\<forall>p \<in> set (m_timers tm). timer_sane t (m_heap tm p))"

lemma timer_sane_later: "timer_sane t x \<Longrightarrow> unat t \<le> unat t' \<Longrightarrow> timer_sane t' x"
  by (simp add: timer_sane_def)

lemma unat_plus: "unat (a :: u64) + unat b < 2 ^ 64 \<Longrightarrow> unat (a + b) = unat a + unat b"
  using unat_add_lem [of a b] by simp

lemma unat_minus: "unat b \<le> unat (a :: u64) \<Longrightarrow> unat (a - b) = unat a - unat b"
  by (simp add: unat_sub word_le_nat_alt)

lemma timer_sane_now:
  "unat now < 2 ^ 63 \<Longrightarrow> unat ms < 2 ^ 63 \<Longrightarrow> t_ms x = ms \<Longrightarrow> t_next x = now + ms \<Longrightarrow> timer_sane now x"
  by (simp add: timer_sane_def unat_plus)

lemma no_rollover: "unat (m_previousTime tm) \<le> unat now \<Longrightarrow> \<not> rollover_at now tm"
  by (simp add: rollover_at_def detectClockRollover_def word_less_nat_alt)

text \<open>
  Deadlines bounded from below by what \<open>getNextTimer\<close> last saw (\<open>None\<close>: there was no timer), with no
  pending wake-up.
\<close>

definition bounded :: "u64 option \<Rightarrow> timer_manager \<Rightarrow> bool" where
  "bounded D tm \<longleftrightarrow> \<not> m_tickled tm \<and>
     (\<forall>p \<in> set (m_timers tm). \<exists>d. D = Some d \<and> unat d \<le> unat (t_next (m_heap tm p)))"

lemma insertTimer_clock:
  assumes "by_deadline (m_heap tm) (m_timers tm)" "insertTimer p tm = (b, tm')"
  shows "set (m_timers tm') = insert p (set (m_timers tm))" "m_heap tm' = m_heap tm"
    "m_previousTime tm' = m_previousTime tm" "m_live tm' = m_live tm"
    "\<not> b \<Longrightarrow> p \<notin> set (m_timers tm) \<Longrightarrow> bounded D tm \<Longrightarrow> bounded D tm'"
proof -
  have tm': "tm' = tm\<lparr>m_timers := snd (set_insert (before (m_heap tm)) p (m_timers tm)),
      m_tickled := (m_tickled tm \<or> b)\<rparr>"
    using insertTimer_spec(1) [OF assms(1), of p] assms(2) by simp
  then show "set (m_timers tm') = insert p (set (m_timers tm))" "m_heap tm' = m_heap tm"
    "m_previousTime tm' = m_previousTime tm" "m_live tm' = m_live tm"
    by (simp_all add: set_timer_insert)
  assume b: "\<not> b" "p \<notin> set (m_timers tm)" "bounded D tm"
  then obtain r where r: "r \<in> set (m_timers tm)" "\<not> before (m_heap tm) p r"
    using insertTimer_spec(2) [OF assms(1), of p] assms(2) by (auto simp: bounded_def)
  then have "t_next (m_heap tm r) \<le> t_next (m_heap tm p)"
    by (auto simp: before_key key_def less_timer_key_def not_less)
  moreover obtain d where "D = Some d" "unat d \<le> unat (t_next (m_heap tm r))"
    using b(3) r(1) by (auto simp: bounded_def)
  ultimately show "bounded D tm'"
    using b tm' by (auto simp: bounded_def set_timer_insert word_le_nat_alt)
qed

text \<open>A step keeps the clock invariant and, unless it notifies, the bound.\<close>

definition keeps :: "u64 \<Rightarrow> timer_manager \<Rightarrow> bool \<Rightarrow> timer_manager \<Rightarrow> bool" where
  "keeps now tm b tm' \<longleftrightarrow>
     unat (m_previousTime tm') \<le> unat now \<and>
     (\<forall>p \<in> set (m_timers tm'). timer_sane now (m_heap tm' p)) \<and>
     (\<forall>D. \<not> b \<longrightarrow> bounded D tm \<longrightarrow> bounded D tm')"

lemma insert_keeps:
  assumes inv: "clock_inv t tm" and t: "unat t \<le> unat now"
    and x: "timer_sane now x" and tm0: "m_heap tm0 = (m_heap tm)(p := x)"
      "by_deadline (m_heap tm0) (m_timers tm0)" "p \<notin> set (m_timers tm0)"
      "set (m_timers tm0) \<subseteq> set (m_timers tm)" "m_previousTime tm0 = m_previousTime tm"
      "m_tickled tm0 = m_tickled tm"
    and ins: "insertTimer p tm0 = (b, tm')"
  shows "keeps now tm b tm'"
proof -
  note c = insertTimer_clock [OF tm0(2) ins]
  have "bounded D tm \<Longrightarrow> bounded D tm0" for D
    using tm0 by (auto simp: bounded_def)
  then show ?thesis
    using inv t x tm0 c by (auto simp: keeps_def clock_inv_def dest: timer_sane_later [OF _ t])
qed

lemma add_keeps:
  assumes "clock_inv t tm" "unat t \<le> unat now" "unat now < 2 ^ 63" "unat ms < 2 ^ 63"
    "p \<notin> set (m_live tm)" "addTimer now p ms cb rec tm = (b, tm')"
  shows "keeps now tm b tm'"
proof (rule insert_keeps [OF assms(1,2) _ _ _ _ _ _ _ assms(6) [unfolded addTimer_def]])
  show "timer_sane now (Timer_new now ms cb rec)"
    by (rule timer_sane_now [OF assms(3,4)]) (simp_all add: Timer_new_def)
  have "p \<notin> set (m_timers tm)" "by_deadline (m_heap tm) (m_timers tm)"
    using assms(1,5) by (auto simp: clock_inv_def tm_inv_def)
  then show "by_deadline
     (m_heap (tm\<lparr>m_heap := (m_heap tm)(p := Timer_new now ms cb rec), m_live := p # m_live tm\<rparr>))
     (m_timers (tm\<lparr>m_heap := (m_heap tm)(p := Timer_new now ms cb rec), m_live := p # m_live tm\<rparr>))"
    by (simp add: by_deadline_upd)
qed (use assms(1,5) in \<open>auto simp: clock_inv_def tm_inv_def\<close>)

lemma same_keeps: "clock_inv t tm \<Longrightarrow> unat t \<le> unat now \<Longrightarrow> keeps now tm b tm"
  by (auto simp: keeps_def clock_inv_def intro: timer_sane_later)

lemma cancel_keeps:
  assumes "clock_inv t tm" "p \<in> set (m_live tm)" "cancel p tm = Inr (r, tm')"
  shows "keeps t tm b tm'"
proof -
  have "tm_inv tm" using assms(1) by (simp add: clock_inv_def)
  from cancel_spec [OF this assms(2)] assms(1,3) show ?thesis
    by (cases "t_cb (m_heap tm p) = None") (auto simp: keeps_def clock_inv_def bounded_def)
qed

lemma refresh_keeps:
  assumes "clock_inv t tm" "unat t \<le> unat now" "unat now < 2 ^ 63"
    "p \<in> set (m_live tm)" "refresh now p tm = Inr (r, tm')"
  shows "keeps now tm b tm'"
proof -
  have inv: "tm_inv tm" using assms(1) by (simp add: clock_inv_def)
  let ?x = "m_heap tm p"
  let ?h = "(m_heap tm)(p := ?x\<lparr>t_next := now + t_ms ?x\<rparr>)"
  show ?thesis
  proof (cases "t_cb ?x = None")
    case True
    then show ?thesis
      using refresh_spec [OF inv assms(4), of now] assms same_keeps [OF assms(1,2)] by simp
  next
    case False
    have sane: "timer_sane t ?x"
      using armed_in_set [OF inv assms(4) False] assms(1) by (simp add: clock_inv_def)
    have new: "timer_sane now (?h p)"
      using sane assms(3) by (intro timer_sane_now [where ms = "t_ms ?x"]) (simp_all add: timer_sane_def)
    have "unat (t_next ?x) \<le> unat now + unat (t_ms ?x)"
      using sane assms(2) by (simp add: timer_sane_def)
    then have later: "unat (t_next ?x) \<le> unat (now + t_ms ?x)"
      using sane assms(3) by (simp add: timer_sane_def unat_plus)
    have tm': "tm' = tm\<lparr>m_heap := ?h,
        m_timers := snd (set_insert (before ?h) p (filter (\<lambda>r. r \<noteq> p) (m_timers tm)))\<rparr>"
      using refresh_spec [OF inv assms(4), of now] assms(5) False by (simp add: Let_def)
    have "\<forall>r \<in> set (m_timers tm). timer_sane now (m_heap tm r)"
      using assms(1,2) timer_sane_later by (auto simp: clock_inv_def)
    moreover have "p \<in> set (m_timers tm)"
      by (rule armed_in_set [OF inv assms(4) False])
    ultimately show ?thesis
      using new later assms(1,2)
      by (auto simp: keeps_def tm' set_timer_insert clock_inv_def bounded_def intro: order_trans)
  qed
qed

lemma reset_keeps:
  assumes "clock_inv t tm" "unat t \<le> unat now" "unat now < 2 ^ 63" "unat ms < 2 ^ 63"
    "p \<in> set (m_live tm)" "reset now p ms from_now tm = Inr (r, b, tm')"
  shows "keeps now tm b tm'"
proof -
  have inv: "tm_inv tm" using assms(1) by (simp add: clock_inv_def)
  let ?x = "m_heap tm p"
  let ?start = "if from_now then now else t_next ?x - t_ms ?x"
  let ?y = "?x\<lparr>t_ms := ms, t_next := ?start + ms\<rparr>"
  let ?tm = "tm\<lparr>m_timers := filter (\<lambda>r. r \<noteq> p) (m_timers tm), m_heap := (m_heap tm)(p := ?y)\<rparr>"
  note spec = reset_spec [OF inv assms(5), of now ms from_now]
  show ?thesis
  proof (cases "ms = t_ms ?x \<and> \<not> from_now \<or> t_cb ?x = None")
    case True
    then show ?thesis
      using spec assms same_keeps [OF assms(1,2)] by (auto split: if_splits)
  next
    case False
    have sane: "timer_sane t ?x"
      using armed_in_set [OF inv assms(5)] assms(1) False by (simp add: clock_inv_def)
    have start: "unat ?start \<le> unat now"
      using sane assms(2) by (auto simp: timer_sane_def unat_minus)
    then have "timer_sane now ?y"
      using assms(3,4) by (simp add: timer_sane_def unat_plus)
    moreover have "insertTimer p ?tm = (b, tm')"
      using spec assms(6) False by (auto simp: Let_def)
    moreover have "by_deadline (m_heap ?tm) (m_timers ?tm)"
      using rearm_inv(1) [OF inv assms(5) refl refl] by simp
    ultimately show ?thesis
      by (intro insert_keeps [OF assms(1,2), of ?y ?tm p]) auto
  qed
qed

lemma expired_keeps:
  assumes "clock_inv t tm" "unat t \<le> unat now" "unat now < 2 ^ 63" "q \<notin> set (m_live tm)"
    "listExpiredCb now q tm = (cbs, tm')"
  shows "keeps now tm b tm'"
proof -
  have inv: "tm_inv tm" using assms(1) by (simp add: clock_inv_def)
  note s = listExpiredCb_spec [OF inv assms(4,5)]
  have nr: "\<not> rollover_at now tm"
    using assms(1,2) by (intro no_rollover) (simp add: clock_inv_def)
  have due: "p \<in> set (due_timers now tm) \<longleftrightarrow> p \<in> set (m_timers tm) \<and> t_next (m_heap tm p) \<le> now" for p
    using nr by (auto simp: due_timers_def)
  have sane: "p \<in> set (m_timers tm) \<Longrightarrow> timer_sane now (m_heap tm p)" for p
    using assms(1,2) timer_sane_later by (auto simp: clock_inv_def)
  have new: "timer_sane now (m_heap tm' p) \<and> unat (t_next (m_heap tm p)) \<le> unat (t_next (m_heap tm' p))"
    if p: "p \<in> set (m_timers tm')" for p
  proof (cases "p \<in> set (due_timers now tm)")
    case True
    then have rec: "t_recurring (m_heap tm p)" "p \<in> set (m_timers tm)" using p s(4) by auto
    then have x: "m_heap tm' p = (m_heap tm p)\<lparr>t_next := now + t_ms (m_heap tm p)\<rparr>"
      using s(2) True by (simp add: fired_def fire_def)
    have "unat (t_ms (m_heap tm p)) < 2 ^ 63" using sane [OF rec(2)] by (simp add: timer_sane_def)
    moreover have "unat (t_next (m_heap tm p)) \<le> unat now"
      using True due by (simp add: word_le_nat_alt)
    ultimately show ?thesis
      using assms(3) unfolding x by (simp add: timer_sane_def unat_plus)
  next
    case False
    then show ?thesis using p s(2,4) sane by (simp add: fired_def)
  qed
  have "set (m_timers tm') \<subseteq> set (m_timers tm)" using s(4) by auto
  then have "bounded D tm \<Longrightarrow> bounded D tm'" for D
    using new s(6) unfolding bounded_def by (meson order_trans subsetD)
  moreover have "unat (m_previousTime tm') \<le> unat now"
    using s(7) assms(1,2) by (auto simp: clock_inv_def)
  ultimately show ?thesis using new by (auto simp: keeps_def)
qed

lemma exec_op_keeps:
  assumes "clock_inv t tm" "legal op tm" "timely t op" "exec_op op tm = Inr (b, tm')"
  shows "clock_inv (op_time t op) tm'" "\<not> b \<Longrightarrow> bounded D tm \<Longrightarrow> bounded D tm'"
proof -
  have "keeps (op_time t op) tm b tm'"
  proof (cases op)
    case (AddTimer now p ms cb rec)
    then show ?thesis using add_keeps [OF assms(1), of now ms p cb rec b tm'] assms by (simp add: timely_def)
  next
    case (AddConditionTimer now p ms cb w rec)
    then show ?thesis
      using add_keeps [OF assms(1), of now ms p "Some (Bind_OnTimer w cb)" rec b tm'] assms
      by (simp add: timely_def addConditionTimer_def)
  next
    case (Cancel p)
    then show ?thesis using cancel_keeps [OF assms(1)] assms by (auto simp: rbind_eq_Inr)
  next
    case (Refresh now p)
    then show ?thesis using refresh_keeps [OF assms(1)] assms by (auto simp: rbind_eq_Inr timely_def)
  next
    case (Reset now p ms from_now)
    then show ?thesis using reset_keeps [OF assms(1)] assms by (auto simp: rbind_eq_Inr timely_def)
  next
    case (NextTimer now)
    then have "keeps now tm b tm"
      using assms by (intro same_keeps [OF assms(1)]) (simp add: timely_def)
    then show ?thesis
      using NextTimer assms(4)
      by (auto simp: keeps_def getNextTimer_def Let_def bounded_def)
  next
    case (ListExpired now q)
    then show ?thesis
      using expired_keeps [OF assms(1), of now q "fst (listExpiredCb now q tm)" tm' b] assms
      by (auto simp: timely_def prod_eq_iff)
  qed
  moreover have "tm_inv tm'"
    using exec_op_inv [of tm op] assms(1,2,4) by (auto simp: clock_inv_def)
  ultimately show "clock_inv (op_time t op) tm'" "\<not> b \<Longrightarrow> bounded D tm \<Longrightarrow> bounded D tm'"
    using assms(3) by (auto simp: keeps_def clock_inv_def timely_def)
qed

lemma timely_reachable_clock: "timely_reachable t tm \<Longrightarrow> clock_inv t tm"
proof (induction rule: timely_reachable.induct)
  case (ty_new t heap)
  then show ?case
    using TimerManager_new_inv [of heap t] by (simp add: clock_inv_def TimerManager_new_def)
qed (rule exec_op_keeps(1))

text \<open>The part of a run in which \<open>onTimerInsertAtFront\<close> is not called.\<close>

inductive unnotified :: "u64 \<Rightarrow> timer_manager \<Rightarrow> u64 \<Rightarrow> timer_manager \<Rightarrow> bool" for t tm where
  un_refl: "unnotified t tm t tm"
| un_step: "unnotified t tm t1 tm1 \<Longrightarrow> legal op tm1 \<Longrightarrow> timely t1 op \<Longrightarrow>
    exec_op op tm1 = Inr (False, tm2) \<Longrightarrow> unnotified t tm (op_time t1 op) tm2"

lemma unnotified_bounded:
  assumes "unnotified t tm t' tm'" "clock_inv t tm" "bounded D tm"
  shows "clock_inv t' tm' \<and> bounded D tm'"
  using assms by (induction rule: unnotified.induct) (blast intro: exec_op_keeps)+

text \<open>A manager with one recurring timer, due at 17.\<close>

definition one_timer :: timer_manager where
  "one_timer = snd (addTimer 7 1 10 (Some (Function 3)) True (TimerManager_new (\<lambda>_. Timer_at 0) 5))"

lemma one_timer_eq:
  "m_timers one_timer = [1]" "m_heap one_timer (Suc 0) = Timer_new 7 10 (Some (Function 3)) True"
  "m_live one_timer = [1]" "m_previousTime one_timer = 5" "m_tickled one_timer"
  by (simp_all add: one_timer_def addTimer_def insertTimer_def TimerManager_new_def)

lemma one_timer_timely: "timely_reachable 7 one_timer"
  using ty_step [OF ty_new [of 5 "\<lambda>_. Timer_at 0"],
      of "AddTimer 7 1 10 (Some (Function 3)) True" True one_timer]
  by (simp add: timely_def one_timer_def addTimer_def insertTimer_def TimerManager_new_def)

lemma one_timer_reachable: "timers_reachable one_timer"
  using tr_step [OF tr_new [of "\<lambda>_. Timer_at 0" 5],
      of "AddTimer 7 1 10 (Some (Function 3)) True" True one_timer]
  by (simp add: one_timer_def addTimer_def insertTimer_def TimerManager_new_def)

section \<open>Properties\<close>

text \<open>
  C18: in every state that legal use can reach, the set is strictly ordered by (deadline, address), every
  timer that can still fire is in it, and no operation reaches the undefined \<open>erase(end())\<close>: \<open>cancel\<close>,
  \<open>refresh\<close> and \<open>reset\<close> of any timer, armed or not, return.
\<close>

theorem timers_reachable_safe:
  assumes "timers_reachable tm" "legal op tm"
  shows "tm_inv tm \<and> (\<exists>b tm'. exec_op op tm = Inr (b, tm') \<and> timers_reachable tm')"
  using exec_op_inv [OF timers_reachable_inv [OF assms(1)] assms(2)]
    timers_reachable_inv [OF assms(1)] tr_step [OF assms] by blast

lemma timers_reachable_safe_witness:
  "tm_inv one_timer \<and> (\<exists>b tm'. exec_op (Reset 9 1 3 False) one_timer = Inr (b, tm') \<and> timers_reachable tm')"
  by (rule timers_reachable_safe [OF one_timer_reachable])
    (simp add: one_timer_def addTimer_def insertTimer_def TimerManager_new_def)

text \<open>
  C11: \<open>listExpiredCb\<close> is exact.  It hands out the callbacks of the timers whose deadline has passed (of
  all of them when the clock has gone back by more than an hour), each once and in the order of the
  set; recurring ones are armed again one period from now, the others are disarmed and leave the set,
  and nothing else changes - whatever address the temporary timer of the search gets.
\<close>

theorem listExpired_exact:
  assumes "timers_reachable tm" "q \<notin> set (m_live tm)"
  shows "\<exists>tm'. listExpiredCb now q tm = (map (\<lambda>p. t_cb (m_heap tm p)) (due_timers now tm), tm') \<and>
    m_heap tm' = fired now (set (due_timers now tm)) (m_heap tm) \<and>
    set (m_timers tm') =
      set (m_timers tm) - {p \<in> set (due_timers now tm). \<not> t_recurring (m_heap tm p)} \<and>
    distinct (m_timers tm') \<and> m_live tm' = m_live tm"
proof -
  obtain cbs tm' where e: "listExpiredCb now q tm = (cbs, tm')" by fastforce
  from listExpiredCb_spec [OF timers_reachable_inv [OF assms(1)] assms(2) e] e
  show ?thesis by (auto intro: by_deadline_distinct)
qed

lemma listExpired_exact_witness:
  "\<exists>tm'. listExpiredCb 20 4 one_timer = ([Some (Function 3)], tm') \<and> set (m_timers tm') = {1}"
proof -
  have due: "due_timers 20 one_timer = [1]"
    by (simp add: due_timers_def rollover_at_def detectClockRollover_def one_timer_eq Timer_new_def)
  show ?thesis
    using listExpired_exact [OF one_timer_reachable, of 4 20]
    by (auto simp: due one_timer_eq Timer_new_def)
qed

text \<open>
  C23: the delay that \<open>getNextTimer\<close> returns is exact.  If it is 0 something is due now.  Otherwise
  nothing is due at any time before the delay has passed and, unless there is no timer at all, something
  is due when it has (the clock not having gone back by more than an hour in between).
\<close>

theorem getNextTimer_exact:
  assumes "timers_reachable tm" "getNextTimer now tm = (d, tm1)" "\<not> rollover_at t tm"
  shows "(m_timers tm = [] \<longrightarrow> d = - 1) \<and>
    (m_timers tm \<noteq> [] \<longrightarrow> d = 0 \<longrightarrow> now \<le> t \<longrightarrow> due_timers t tm \<noteq> []) \<and>
    (d \<noteq> 0 \<longrightarrow> unat t < unat now + unat d \<longrightarrow> due_timers t tm = []) \<and>
    (m_timers tm \<noteq> [] \<longrightarrow> d \<noteq> 0 \<longrightarrow> unat now + unat d \<le> unat t \<longrightarrow> due_timers t tm \<noteq> [])"
proof (cases "m_timers tm")
  case Nil
  then show ?thesis using assms(2) by (auto simp: getNextTimer_def Let_def due_timers_def)
next
  case (Cons p ps)
  let ?n = "t_next (m_heap tm p)"
  have front: "t_next (m_heap tm p) \<le> t_next (m_heap tm r)" if "r \<in> set (m_timers tm)" for r
    using by_deadline_hd [of "m_heap tm" p ps r] timers_reachable_inv [OF assms(1)] Cons that
    by (simp add: tm_inv_def)
  have due: "due_timers t tm \<noteq> [] \<longleftrightarrow> ?n \<le> t"
  proof
    assume "due_timers t tm \<noteq> []"
    then obtain r where "r \<in> set (m_timers tm)" "t_next (m_heap tm r) \<le> t"
      using assms(3) by (auto simp: due_timers_def filter_empty_conv)
    then show "?n \<le> t" using front [of r] by simp
  next
    assume "?n \<le> t"
    then show "due_timers t tm \<noteq> []"
      using assms(3) Cons by (simp add: due_timers_def)
  qed
  have d: "d = (if ?n \<le> now then 0 else ?n - now)"
    using assms(2) Cons by (auto simp: getNextTimer_def Let_def)
  show ?thesis
  proof (cases "?n \<le> now")
    case True
    then have "now \<le> t \<longrightarrow> ?n \<le> t" by auto
    then show ?thesis using True d due Cons by simp
  next
    case False
    then have "unat now + unat d = unat ?n"
      using d by (simp add: unat_minus word_le_nat_alt)
    moreover have "d \<noteq> 0" using False d by auto
    ultimately show ?thesis using due Cons by (simp add: word_le_nat_alt not_le) (meson not_le)
  qed
qed

lemma getNextTimer_exact_witness:
  "fst (getNextTimer 9 one_timer) = 8 \<and> due_timers 16 one_timer = [] \<and> due_timers 17 one_timer \<noteq> []"
proof -
  have d: "getNextTimer 9 one_timer = (8, one_timer\<lparr>m_tickled := False\<rparr>)"
    by (simp add: getNextTimer_def one_timer_eq Timer_new_def Let_def)
  have "\<not> rollover_at t one_timer" if "5 \<le> t" for t
    using that by (simp add: rollover_at_def detectClockRollover_def one_timer_eq not_less)
  then show ?thesis
    using getNextTimer_exact [OF one_timer_reachable d, of 16]
      getNextTimer_exact [OF one_timer_reachable d, of 17] d
    by (simp add: one_timer_eq)
qed

text \<open>
  C13: no lost wake-up.  When the idle loop has asked \<open>getNextTimer\<close> how long to sleep and then any
  sequence of operations runs without \<open>onTimerInsertAtFront\<close> being called, no armed timer is due before
  the end of the sleep; with the clock monotone and all times and periods below \<open>2 ^ 63\<close> ms.
\<close>

theorem no_lost_wakeup:
  assumes "timely_reachable t tm" "getNextTimer t tm = (d, tm1)" "unnotified t tm1 t' tm2"
  shows "\<forall>p \<in> set (m_timers tm2). m_timers tm \<noteq> [] \<and>
    (d = 0 \<or> unat t + unat d \<le> unat (t_next (m_heap tm2 p)))"
proof -
  note clock = timely_reachable_clock [OF assms(1)]
  have tm1: "tm1 = tm\<lparr>m_tickled := False\<rparr>"
    using assms(2) by (auto simp: getNextTimer_def Let_def)
  then have clock1: "clock_inv t tm1" using clock by (simp add: clock_inv_def tm_inv_def)
  show ?thesis
  proof (cases "m_timers tm")
    case Nil
    then have "bounded None tm1" by (simp add: bounded_def tm1)
    then show ?thesis
      using unnotified_bounded [OF assms(3) clock1] by (auto simp: bounded_def)
  next
    case (Cons p ps)
    let ?n = "t_next (m_heap tm p)"
    have "by_deadline (m_heap tm) (p # ps)"
      using clock Cons by (simp add: clock_inv_def tm_inv_def)
    then have "bounded (Some ?n) tm1"
      using by_deadline_hd [of "m_heap tm" p ps] Cons
      by (auto simp: bounded_def tm1 word_le_nat_alt)
    then have "bounded (Some ?n) tm2"
      using unnotified_bounded [OF assms(3) clock1] by blast
    moreover have "d = 0 \<or> unat t + unat d = unat ?n"
      using assms(2) Cons by (auto simp: getNextTimer_def Let_def unat_minus word_le_nat_alt)
    ultimately show ?thesis using Cons by (auto simp: bounded_def)
  qed
qed

lemma no_lost_wakeup_witness:
  "\<exists>tm2. unnotified 7 (one_timer\<lparr>m_tickled := False\<rparr>) 9 tm2 \<and> m_timers tm2 = [1] \<and>
    (\<forall>p \<in> set (m_timers tm2). unat (7 :: u64) + unat (10 :: u64) \<le> unat (t_next (m_heap tm2 p)))"
proof -
  let ?tm = "one_timer\<lparr>m_tickled := False\<rparr>"
  have d: "getNextTimer 7 one_timer = (10, ?tm)"
    by (simp add: getNextTimer_def one_timer_eq Timer_new_def Let_def)
  obtain tm2 where tm2: "exec_op (ListExpired 9 4) ?tm = Inr (False, tm2)" "m_timers tm2 = [1]"
    by (simp add: listExpiredCb_def detectClockRollover_def one_timer_eq Timer_new_def Let_def)
  have "unnotified 7 ?tm (op_time 7 (ListExpired 9 4)) tm2"
    by (rule un_step [OF un_refl _ _ tm2(1)]) (simp_all add: timely_def one_timer_eq)
  then have "unnotified 7 ?tm 9 tm2" by simp
  with no_lost_wakeup [OF one_timer_timely d this] tm2(2) show ?thesis by auto
qed

section \<open>Where the code breaks\<close>

text \<open>Before the first hour of the clock, the unsigned subtraction in \<open>detectClockRollover\<close> wraps and the
  smallest step back counts as a rollover: every armed timer fires.\<close>

lemma rollover_underflow: "rollover_at 999 (TimerManager_new heap 1000)"
  by (simp add: rollover_at_def detectClockRollover_def TimerManager_new_def)

end
