(* ===== verification/Stream.thy ===== *)
theory Stream
  imports HPGS_Prelude
begin

text \<open>
  The fixed-size transfers of \<open>src/network/stream.cc\<close>, which call the virtual \<open>read\<close> or \<open>write\<close> of a
  concrete stream until everything is moved.  The virtual functions are parameters: they take the
  stream and a byte count and return the count they report (\<open>int\<close>), what they transferred, and the
  stream afterwards.
\<close>

section \<open>Operations\<close>

text \<open>Conversion of a \<open>size_t\<close> or an \<open>int64_t\<close> to the \<open>int\<close> that the functions return.\<close>

definition to_int :: "int \<Rightarrow> int" where
  "to_int n = signed_take_bit 31 n"

text \<open>\<open>read(void*, size_t)\<close>: \<open>rd s n\<close> returns the count, the bytes stored and the next state.\<close>

type_synonym 's reader = "'s \<Rightarrow> int \<Rightarrow> int \<times> byte list \<times> 's"

function readFix_loop ::
  "'s reader \<Rightarrow> 's \<Rightarrow> byte list \<Rightarrow> nat \<Rightarrow> int \<Rightarrow> int \<Rightarrow> int \<times> byte list \<times> 's" where
  "readFix_loop rd s buffer offset left req =
     (if left > 0 then
        let (len, bs, s') = rd s left in
        if len \<le> 0 then (to_int len, list_put buffer offset bs, s')
        else readFix_loop rd s' (list_put buffer offset bs) (offset + nat len) (left - len) req
      else (to_int req, buffer, s))"
  by pat_completeness auto
termination
  by (relation "measure (\<lambda>(rd, s, buffer, offset, left, req). nat left)") auto

declare readFix_loop.simps [simp del]

definition readFixSize :: "'s reader \<Rightarrow> 's \<Rightarrow> byte list \<Rightarrow> nat \<Rightarrow> int \<times> byte list \<times> 's" where
  "readFixSize rd s buffer len = readFix_loop rd s buffer 0 (int len) (int len)"

text \<open>\<open>write(const void*, size_t)\<close>: \<open>wr s bytes\<close> returns the count and the next state.\<close>

type_synonym 's writer = "'s \<Rightarrow> byte list \<Rightarrow> int \<times> 's"

function writeFix_loop :: "'s writer \<Rightarrow> 's \<Rightarrow> byte list \<Rightarrow> nat \<Rightarrow> int \<Rightarrow> int \<Rightarrow> int \<times> 's" where
  "writeFix_loop wr s buffer offset left req =
     (if left > 0 then
        let (len, s') = wr s (take (nat left) (drop offset buffer)) in
        if len \<le> 0 then (to_int len, s')
        else writeFix_loop wr s' buffer (offset + nat len) (left - len) req
      else (to_int req, s))"
  by pat_completeness auto
termination
  by (relation "measure (\<lambda>(wr, s, buffer, offset, left, req). nat left)") auto

declare writeFix_loop.simps [simp del]

definition writeFixSize :: "'s writer \<Rightarrow> 's \<Rightarrow> byte list \<Rightarrow> nat \<Rightarrow> int \<times> 's" where
  "writeFixSize wr s buffer len = writeFix_loop wr s buffer 0 (int len) (int len)"

text \<open>The overloads on a \<open>ByteArray::ptr\<close>: the virtual function moves bytes between the stream and the
  array, both of which are its state.\<close>

function fix_ba_loop :: "('s \<Rightarrow> int \<Rightarrow> int \<times> 's) \<Rightarrow> 's \<Rightarrow> int \<Rightarrow> int \<Rightarrow> int \<times> 's" where
  "fix_ba_loop io s left req =
     (if left > 0 then
        let (len, s') = io s left in
        if len \<le> 0 then (to_int len, s') else fix_ba_loop io s' (left - len) req
      else (to_int req, s))"
  by pat_completeness auto
termination
  by (relation "measure (\<lambda>(io, s, left, req). nat left)") auto

declare fix_ba_loop.simps [simp del]

definition readFixSize_ba :: "('s \<Rightarrow> int \<Rightarrow> int \<times> 's) \<Rightarrow> 's \<Rightarrow> nat \<Rightarrow> int \<times> 's" where
  "readFixSize_ba rd s len = fix_ba_loop rd s (int len) (int len)"

definition writeFixSize_ba :: "('s \<Rightarrow> int \<Rightarrow> int \<times> 's) \<Rightarrow> 's \<Rightarrow> nat \<Rightarrow> int \<times> 's" where
  "writeFixSize_ba wr s len = fix_ba_loop wr s (int len) (int len)"

section \<open>Streams that keep their contract\<close>

text \<open>
  The documented contract of the virtual functions: a positive count is the number of bytes moved, at
  most the number asked for; otherwise nothing is moved.  \<open>pending s\<close> are the bytes that a source still
  has, \<open>sent s\<close> those that a sink has taken.
\<close>

definition source_ok :: "'s reader \<Rightarrow> ('s \<Rightarrow> byte list) \<Rightarrow> bool" where
  "source_ok rd pending \<longleftrightarrow>
     (\<forall>s n len bs s'. 0 < n \<longrightarrow> rd s n = (len, bs, s') \<longrightarrow>
       len \<le> n \<and> pending s = bs @ pending s' \<and> length bs = nat len)"

definition sink_ok :: "'s writer \<Rightarrow> ('s \<Rightarrow> byte list) \<Rightarrow> bool" where
  "sink_ok wr sent \<longleftrightarrow>
     (\<forall>s bs len s'. wr s bs = (len, s') \<longrightarrow>
       len \<le> int (length bs) \<and> sent s' = sent s @ take (nat len) bs)"

lemma readFix_loop_spec:
  assumes "source_ok rd pending" "readFix_loop rd s buffer offset left req = (r, buffer', s')"
    and "offset + nat left \<le> length buffer"
  shows "\<exists>bs. pending s = bs @ pending s' \<and> buffer' = list_put buffer offset bs \<and>
    (length bs = nat left \<and> r = to_int req \<or> length bs < nat left \<and> (\<exists>len \<le> 0. r = to_int len))"
  using assms(2,3)
proof (induction "nat left" arbitrary: s buffer offset left rule: less_induct)
  case less
  show ?case
  proof (cases "left > 0")
    case False
    then show ?thesis using less.prems readFix_loop.simps [of rd s buffer offset left req] by auto
  next
    case True
    obtain len bs s1 where rd: "rd s left = (len, bs, s1)" by (cases "rd s left") auto
    with assms(1) True have ok: "len \<le> left" "pending s = bs @ pending s1" "length bs = nat len"
      by (auto simp: source_ok_def)
    show ?thesis
    proof (cases "len \<le> 0")
      case stop: True
      then have "r = to_int len" "buffer' = list_put buffer offset bs" "s' = s1"
        using less.prems(1) True rd readFix_loop.simps [of rd s buffer offset left req] by simp_all
      then show ?thesis using ok stop True by auto
    next
      case False
      have "readFix_loop rd s1 (list_put buffer offset bs) (offset + nat len) (left - len) req =
          (r, buffer', s')"
        using less.prems(1) True False rd readFix_loop.simps [of rd s buffer offset left req] by simp
      moreover have "offset + nat len + nat (left - len) \<le> length (list_put buffer offset bs)"
        using less.prems(2) ok(1,3) False by (simp add: length_list_put)
      moreover have "nat (left - len) < nat left" using True False by simp
      ultimately obtain bs2 where bs2: "pending s1 = bs2 @ pending s'"
        "buffer' = list_put (list_put buffer offset bs) (offset + nat len) bs2"
        "length bs2 = nat (left - len) \<and> r = to_int req \<or>
         length bs2 < nat (left - len) \<and> (\<exists>len \<le> 0. r = to_int len)"
        using less.hyps by blast
      have "buffer' = list_put buffer offset (bs @ bs2)"
        using list_put_append [of offset buffer bs bs2] bs2(2) ok(3) less.prems(2) by simp
      then show ?thesis
        using ok bs2 False by (intro exI [of _ "bs @ bs2"]) auto
    qed
  qed
qed

lemma writeFix_loop_spec:
  assumes "sink_ok wr sent" "writeFix_loop wr s buffer offset left req = (r, s')"
    and "offset + nat left \<le> length buffer"
  shows "\<exists>k \<le> nat left. sent s' = sent s @ take k (drop offset buffer) \<and>
    (k = nat left \<and> r = to_int req \<or> k < nat left \<and> (\<exists>len \<le> 0. r = to_int len))"
  using assms(2,3)
proof (induction "nat left" arbitrary: s offset left rule: less_induct)
  case less
  show ?case
  proof (cases "left > 0")
    case False
    then show ?thesis using less.prems writeFix_loop.simps [of wr s buffer offset left req] by auto
  next
    case True
    let ?out = "take (nat left) (drop offset buffer)"
    obtain len s1 where wr: "wr s ?out = (len, s1)" by (cases "wr s ?out") auto
    have out: "length ?out = nat left" using less.prems(2) by simp
    with assms(1) wr have ok: "len \<le> left" "sent s1 = sent s @ take (nat len) ?out"
      using True by (fastforce simp: sink_ok_def)+
    show ?thesis
    proof (cases "len \<le> 0")
      case stop: True
      then have "r = to_int len" "s' = s1"
        using less.prems(1) True wr writeFix_loop.simps [of wr s buffer offset left req] by simp_all
      then show ?thesis using ok stop True by (intro exI [of _ 0]) auto
    next
      case False
      have run: "writeFix_loop wr s1 buffer (offset + nat len) (left - len) req = (r, s')"
        using less.prems(1) True False wr writeFix_loop.simps [of wr s buffer offset left req] by simp
      have bound: "offset + nat len + nat (left - len) \<le> length buffer"
        using less.prems(2) ok(1) False by simp
      have less: "nat (left - len) < nat left" using True False by simp
      from less.hyps [OF less run bound] obtain k where k: "k \<le> nat (left - len)"
        "sent s' = sent s1 @ take k (drop (offset + nat len) buffer)"
        "k = nat (left - len) \<and> r = to_int req \<or> k < nat (left - len) \<and> (\<exists>len \<le> 0. r = to_int len)"
        by blast
      have "take (nat len) ?out = take (nat len) (drop offset buffer)"
        using ok(1) False by (simp add: min_def)
      moreover have "drop (nat len) (drop offset buffer) = drop (offset + nat len) buffer"
        by (simp add: add.commute)
      ultimately have "sent s' = sent s @ take (nat len + k) (drop offset buffer)"
        using ok(2) k(2) by (simp only: take_add append_assoc)
      moreover have "nat left = nat len + nat (left - len)"
        using ok(1) False by simp
      moreover have "(nat len + k = nat left \<and> r = to_int req) \<or>
          (nat len + k < nat left \<and> (\<exists>len \<le> 0. r = to_int len))"
        using k(3) calculation(2) by auto
      moreover have "nat len + k \<le> nat left"
        using k(1) calculation(2) by simp
      ultimately show ?thesis by blast
    qed
  qed
qed

section \<open>Properties\<close>

text \<open>A source that delivers at most \<open>c\<close> bytes at a time, and a sink that takes at most \<open>c\<close>.\<close>

definition chunk_read :: "nat \<Rightarrow> byte list reader" where
  "chunk_read c s n = (let k = min c (min (nat n) (length s)) in (int k, take k s, drop k s))"

definition chunk_write :: "nat \<Rightarrow> byte list writer" where
  "chunk_write c s bs = (let k = min c (length bs) in (int k, s @ take k bs))"

lemma chunk_read_ok: "source_ok (chunk_read c) (\<lambda>s. s)"
  by (auto simp: source_ok_def chunk_read_def Let_def)

lemma chunk_write_ok: "sink_ok (chunk_write c) (\<lambda>s. s)"
  by (auto simp: sink_ok_def chunk_write_def Let_def)

text \<open>
  On a stream that keeps its contract, \<open>readFixSize\<close> either fills the buffer with exactly the next
  \<open>n\<close> bytes, in order, and returns \<open>n\<close>, or stops at the first read that returns no bytes and returns
  that count; bytes are never lost, repeated or put in the wrong place, however the stream splits them.
\<close>

lemma readFixSize_exact:
  assumes "source_ok rd pending" "n \<le> length buffer" "n < 2 ^ 31"
    and "readFixSize rd s buffer n = (r, buffer', s')"
  shows "\<exists>bs. pending s = bs @ pending s' \<and> buffer' = list_put buffer 0 bs \<and>
    (if length bs = n then r = int n else length bs < n \<and> (\<exists>len \<le> 0. r = to_int len))"
proof -
  have "to_int (int n) = int n"
    using assms(3) by (simp add: to_int_def signed_take_bit_int_eq_self_iff)
  then show ?thesis
    using readFix_loop_spec [OF assms(1) assms(4) [unfolded readFixSize_def]] assms(2) by auto
qed

lemma readFixSize_exact_witness:
  "readFixSize (chunk_read 2) [1, 2, 3, 4, 5, 6] [0, 0, 0, 0, 0] 5 = (5, [1, 2, 3, 4, 5], [6])"
proof -
  obtain r b s' where e: "readFixSize (chunk_read 2) [1, 2, 3, 4, 5, 6] [0, 0, 0, 0, 0] 5 = (r, b, s')"
    by (cases "readFixSize (chunk_read 2) [1, 2, 3, 4, 5, 6] [0, 0, 0, 0, 0] 5") auto
  have run: "(r, b, s') = (5, [1, 2, 3, 4, 5], [6])"
    unfolding e [symmetric] by code_simp
  with readFixSize_exact [OF chunk_read_ok _ _ e] e show ?thesis by simp
qed

text \<open>
  On a sink that keeps its contract, \<open>writeFixSize\<close> hands over a prefix of the buffer, in order
  and without gaps, and it is the whole of it exactly when the size is returned.
\<close>

lemma writeFixSize_exact:
  assumes "sink_ok wr sent" "n \<le> length buffer" "n < 2 ^ 31"
    and "writeFixSize wr s buffer n = (r, s')"
  shows "\<exists>k \<le> n. sent s' = sent s @ take k buffer \<and>
    (if k = n then r = int n else \<exists>len \<le> 0. r = to_int len)"
proof -
  have "to_int (int n) = int n"
    using assms(3) by (simp add: to_int_def signed_take_bit_int_eq_self_iff)
  then show ?thesis
    using writeFix_loop_spec [OF assms(1) assms(4) [unfolded writeFixSize_def]] assms(2) by auto
qed

lemma writeFixSize_exact_witness:
  "\<exists>k \<le> 3. snd (writeFixSize (chunk_write 2) [9] [1, 2, 3] 3) = [9] @ take k [1, 2, 3]"
  using writeFixSize_exact [OF chunk_write_ok, of 3 "[1, 2, 3]" 2 "[9]"
      "fst (writeFixSize (chunk_write 2) [9] [1, 2, 3] 3)"
      "snd (writeFixSize (chunk_write 2) [9] [1, 2, 3] 3)"]
  by auto

text \<open>A size of \<open>2 ^ 31\<close> or more does not survive the conversion to the \<open>int\<close> that is returned.\<close>

lemma readFixSize_truncated: "to_int (2 ^ 31) = - (2 ^ 31)"
  by (simp add: to_int_def)

end
