(* ===== verification/Str_Util.thy ===== *)
theory Str_Util
  imports HPGS_Prelude
begin

text \<open>
  The text utilities of \<open>src/util/util.cc\<close>: case conversion, paths, decimal numbers, URL encoding and
  trimming.  A \<open>std::string\<close> is a list of 8-bit characters and \<open>npos\<close> is \<open>None\<close>; the two 256-entry tables
  are copied from the source.
\<close>

section \<open>Searching a string\<close>

fun find_index :: "(char \<Rightarrow> bool) \<Rightarrow> string \<Rightarrow> nat option" where
  "find_index P [] = None"
| "find_index P (c # cs) = (if P c then Some 0 else map_option Suc (find_index P cs))"

definition find_last_index :: "(char \<Rightarrow> bool) \<Rightarrow> string \<Rightarrow> nat option" where
  "find_last_index P s = map_option (\<lambda>i. length s - Suc i) (find_index P (rev s))"

definition find_first_not_of :: "string \<Rightarrow> string \<Rightarrow> nat option" where
  "find_first_not_of s delimit = find_index (\<lambda>c. c \<notin> set delimit) s"

definition find_last_not_of :: "string \<Rightarrow> string \<Rightarrow> nat option" where
  "find_last_not_of s delimit = find_last_index (\<lambda>c. c \<notin> set delimit) s"

definition rfind :: "char \<Rightarrow> string \<Rightarrow> nat option" where
  "rfind c s = find_last_index (\<lambda>x. x = c) s"

definition substr :: "nat \<Rightarrow> nat \<Rightarrow> string \<Rightarrow> string" where
  "substr pos n s = take n (drop pos s)"

section \<open>Case\<close>

definition char_code :: "char \<Rightarrow> nat" where
  "char_code c = of_char c"

definition toupper :: "char \<Rightarrow> char" where
  "toupper c = (if 97 \<le> char_code c \<and> char_code c \<le> 122 then char_of (char_code c - 32) else c)"

definition tolower :: "char \<Rightarrow> char" where
  "tolower c = (if 65 \<le> char_code c \<and> char_code c \<le> 90 then char_of (char_code c + 32) else c)"

definition ToUpper :: "string \<Rightarrow> string" where
  "ToUpper name = map toupper name"

definition ToLower :: "string \<Rightarrow> string" where
  "ToLower name = map tolower name"

section \<open>Paths\<close>

definition Dirname :: "string \<Rightarrow> string" where
  "Dirname filename =
     (if filename = [] then ''.''
      else case rfind CHR ''/'' filename of
        None \<Rightarrow> ''.''
      | Some pos \<Rightarrow> if pos = 0 then ''/'' else substr 0 pos filename)"

definition Basename :: "string \<Rightarrow> string" where
  "Basename filename =
     (if filename = [] then filename
      else case rfind CHR ''/'' filename of
        None \<Rightarrow> filename
      | Some pos \<Rightarrow> drop (pos + 1) filename)"

section \<open>Numbers\<close>

definition isspace :: "char \<Rightarrow> bool" where
  "isspace c \<longleftrightarrow> char_code c = 32 \<or> 9 \<le> char_code c \<and> char_code c \<le> 13"

definition isdigit :: "char \<Rightarrow> bool" where
  "isdigit c \<longleftrightarrow> 48 \<le> char_code c \<and> char_code c \<le> 57"

definition digit_val :: "char \<Rightarrow> nat" where
  "digit_val c = char_code c - 48"

text \<open>\<open>strtoull(str, nullptr, 10)\<close>: blanks, a sign, digits; a number that does not fit gives the
  greatest value, and a minus sign negates modulo \<open>2 ^ 64\<close>.\<close>

definition decimal :: "string \<Rightarrow> nat" where
  "decimal ds = foldl (\<lambda>n c. 10 * n + digit_val c) 0 ds"

definition strtoull :: "string \<Rightarrow> u64" where
  "strtoull str =
     (let s = dropWhile isspace str;
          neg = (s \<noteq> [] \<and> hd s = CHR ''-'');
          s = (if s \<noteq> [] \<and> (hd s = CHR ''-'' \<or> hd s = CHR ''+'') then tl s else s);
          n = decimal (takeWhile isdigit s)
      in if n \<ge> 2 ^ 64 then - 1 else if neg then - of_nat n else of_nat n)"

text \<open>The \<open>int64_t\<close> result is the two's complement reading of the word; an empty string is 0.\<close>

definition Atoi :: "string \<Rightarrow> int" where
  "Atoi str = (if str = [] then 0 else sint (strtoull str))"

definition Atoi_ptr :: "string option \<Rightarrow> int" where
  "Atoi_ptr str = (case str of None \<Rightarrow> 0 | Some s \<Rightarrow> sint (strtoull s))"

definition ToChar :: "string \<Rightarrow> byte" where
  "ToChar str = (if str = [] then 0 else of_nat (char_code (hd str)))"

text \<open>\<open>str[0]\<close> of a C string that is empty is its terminator.\<close>

definition ToChar_ptr :: "string option \<Rightarrow> byte" where
  "ToChar_ptr str =
     (case str of None \<Rightarrow> 0 | Some s \<Rightarrow> if s = [] then 0 else of_nat (char_code (hd s)))"

section \<open>URL encoding\<close>

definition uri_chars :: "nat list" where
  "uri_chars =
    [0, 0, 0, 0, 0, 0, 0, 0, 0, 0, 0, 0, 0, 0, 0, 0,
     0, 0, 0, 0, 0, 0, 0, 0, 0, 0, 0, 0, 0, 0, 0, 0,
     0, 0, 0, 0, 0, 0, 0, 0, 0, 0, 0, 0, 0, 1, 1, 0,
     1, 1, 1, 1, 1, 1, 1, 1, 1, 1, 0, 0, 0, 1, 0, 0,
     0, 1, 1, 1, 1, 1, 1, 1, 1, 1, 1, 1, 1, 1, 1, 1,
     1, 1, 1, 1, 1, 1, 1, 1, 1, 1, 1, 0, 0, 0, 0, 1,
     0, 1, 1, 1, 1, 1, 1, 1, 1, 1, 1, 1, 1, 1, 1, 1,
     1, 1, 1, 1, 1, 1, 1, 1, 1, 1, 1, 0, 0, 0, 1, 0,
     0, 0, 0, 0, 0, 0, 0, 0, 0, 0, 0, 0, 0, 0, 0, 0,
     0, 0, 0, 0, 0, 0, 0, 0, 0, 0, 0, 0, 0, 0, 0, 0,
     0, 0, 0, 0, 0, 0, 0, 0, 0, 0, 0, 0, 0, 0, 0, 0,
     0, 0, 0, 0, 0, 0, 0, 0, 0, 0, 0, 0, 0, 0, 0, 0,
     0, 0, 0, 0, 0, 0, 0, 0, 0, 0, 0, 0, 0, 0, 0, 0,
     0, 0, 0, 0, 0, 0, 0, 0, 0, 0, 0, 0, 0, 0, 0, 0,
     0, 0, 0, 0, 0, 0, 0, 0, 0, 0, 0, 0, 0, 0, 0, 0,
     0, 0, 0, 0, 0, 0, 0, 0, 0, 0, 0, 0, 0, 0, 0, 0]"

definition xdigit_chars :: "nat list" where
  "xdigit_chars =
    [0, 0, 0, 0, 0, 0, 0, 0, 0, 0, 0, 0, 0, 0, 0, 0,
     0, 0, 0, 0, 0, 0, 0, 0, 0, 0, 0, 0, 0, 0, 0, 0,
     0, 0, 0, 0, 0, 0, 0, 0, 0, 0, 0, 0, 0, 0, 0, 0,
     0, 1, 2, 3, 4, 5, 6, 7, 8, 9, 0, 0, 0, 0, 0, 0,
     0, 10, 11, 12, 13, 14, 15, 0, 0, 0, 0, 0, 0, 0, 0, 0,
     0, 0, 0, 0, 0, 0, 0, 0, 0, 0, 0, 0, 0, 0, 0, 0,
     0, 10, 11, 12, 13, 14, 15, 0, 0, 0, 0, 0, 0, 0, 0, 0,
     0, 0, 0, 0, 0, 0, 0, 0, 0, 0, 0, 0, 0, 0, 0, 0,
     0, 0, 0, 0, 0, 0, 0, 0, 0, 0, 0, 0, 0, 0, 0, 0,
     0, 0, 0, 0, 0, 0, 0, 0, 0, 0, 0, 0, 0, 0, 0, 0,
     0, 0, 0, 0, 0, 0, 0, 0, 0, 0, 0, 0, 0, 0, 0, 0,
     0, 0, 0, 0, 0, 0, 0, 0, 0, 0, 0, 0, 0, 0, 0, 0,
     0, 0, 0, 0, 0, 0, 0, 0, 0, 0, 0, 0, 0, 0, 0, 0,
     0, 0, 0, 0, 0, 0, 0, 0, 0, 0, 0, 0, 0, 0, 0, 0,
     0, 0, 0, 0, 0, 0, 0, 0, 0, 0, 0, 0, 0, 0, 0, 0,
     0, 0, 0, 0, 0, 0, 0, 0, 0, 0, 0, 0, 0, 0, 0, 0]"

definition CHAR_IS_UNRESERVED :: "char \<Rightarrow> bool" where
  "CHAR_IS_UNRESERVED c \<longleftrightarrow> uri_chars ! char_code c \<noteq> 0"

definition hexdigits :: "string" where
  "hexdigits = ''0123456789ABCDEF''"

definition isxdigit :: "char \<Rightarrow> bool" where
  "isxdigit c \<longleftrightarrow> isdigit c \<or> 65 \<le> char_code c \<and> char_code c \<le> 70 \<or> 97 \<le> char_code c \<and> char_code c \<le> 102"

text \<open>
  The loops keep the buffer \<open>ss\<close>, created at the first character that changes with a copy of what came
  before it (\<open>pre\<close>); \<open>None\<close> is the null pointer.
\<close>

definition ss_create :: "string \<Rightarrow> string option \<Rightarrow> string" where
  "ss_create pre ss = (case ss of None \<Rightarrow> pre | Some s \<Rightarrow> s)"

fun encode_loop :: "bool \<Rightarrow> string \<Rightarrow> string option \<Rightarrow> string \<Rightarrow> string option" where
  "encode_loop space_as_plus pre ss [] = ss"
| "encode_loop space_as_plus pre ss (c # cs) =
     encode_loop space_as_plus (pre @ [c])
       (if \<not> CHAR_IS_UNRESERVED c then
          Some (ss_create pre ss @
            (if c = CHR '' '' \<and> space_as_plus then ''+''
             else [CHR ''%'', hexdigits ! (char_code c div 16), hexdigits ! (char_code c mod 16)]))
        else map_option (\<lambda>s. s @ [c]) ss)
       cs"

definition UrlEncode :: "string \<Rightarrow> bool \<Rightarrow> string" where
  "UrlEncode str space_as_plus =
     (case encode_loop space_as_plus [] None str of None \<Rightarrow> str | Some ss \<Rightarrow> ss)"

definition xdigit_pair :: "char \<Rightarrow> char \<Rightarrow> char" where
  "xdigit_pair a b = char_of (xdigit_chars ! char_code a * 16 + xdigit_chars ! char_code b)"

fun decode_loop :: "bool \<Rightarrow> string \<Rightarrow> string option \<Rightarrow> string \<Rightarrow> string option" where
  "decode_loop space_as_plus pre ss [] = ss"
| "decode_loop space_as_plus pre ss (c # cs) =
     (if c = CHR ''+'' \<and> space_as_plus then
        decode_loop space_as_plus (pre @ [c]) (Some (ss_create pre ss @ '' '')) cs
      else case cs of
        a # b # cs' \<Rightarrow>
          if c = CHR ''%'' \<and> isxdigit a \<and> isxdigit b then
            decode_loop space_as_plus (pre @ [c, a, b]) (Some (ss_create pre ss @ [xdigit_pair a b])) cs'
          else decode_loop space_as_plus (pre @ [c]) (map_option (\<lambda>s. s @ [c]) ss) cs
      | _ \<Rightarrow> decode_loop space_as_plus (pre @ [c]) (map_option (\<lambda>s. s @ [c]) ss) cs)"

definition UrlDecode :: "string \<Rightarrow> bool \<Rightarrow> string" where
  "UrlDecode str space_as_plus =
     (case decode_loop space_as_plus [] None str of None \<Rightarrow> str | Some ss \<Rightarrow> ss)"

section \<open>Trimming\<close>

definition Trim :: "string \<Rightarrow> string \<Rightarrow> string" where
  "Trim str delimit =
     (case find_first_not_of str delimit of None \<Rightarrow> []
      | Some begin_ \<Rightarrow>
        (case find_last_not_of str delimit of None \<Rightarrow> []
         | Some end_ \<Rightarrow> substr begin_ (end_ - begin_ + 1) str))"

definition TrimLeft :: "string \<Rightarrow> string \<Rightarrow> string" where
  "TrimLeft str delimit =
     (case find_first_not_of str delimit of None \<Rightarrow> [] | Some begin_ \<Rightarrow> drop begin_ str)"

text \<open>The source looks for the first, not the last, character to keep.\<close>

definition TrimRight :: "string \<Rightarrow> string \<Rightarrow> string" where
  "TrimRight str delimit =
     (case find_first_not_of str delimit of None \<Rightarrow> [] | Some end_ \<Rightarrow> substr 0 end_ str)"

section \<open>Facts\<close>

lemma find_index_Some:
  "find_index P s = Some i \<Longrightarrow> i < length s \<and> P (s ! i) \<and> (\<forall>j < i. \<not> P (s ! j))"
proof (induction s arbitrary: i)
  case (Cons c cs)
  then show ?case
    by (auto split: if_splits simp: nth_Cons' less_Suc_eq_0_disj)
qed simp

lemma find_index_None: "find_index P s = None \<longleftrightarrow> (\<forall>c \<in> set s. \<not> P c)"
  by (induction s) auto

lemma find_index_dropWhile:
  "drop (case find_index P s of None \<Rightarrow> length s | Some i \<Rightarrow> i) s = dropWhile (\<lambda>c. \<not> P c) s"
  by (induction s) (auto split: option.splits)

lemma find_last_index_Some:
  assumes "find_last_index P s = Some i"
  shows "i < length s" "P (s ! i)" "\<forall>c \<in> set (drop (Suc i) s). \<not> P c"
proof -
  obtain j where j: "find_index P (rev s) = Some j" "i = length s - Suc j"
    using assms by (auto simp: find_last_index_def)
  note f = find_index_Some [OF j(1)]
  then show "i < length s" using j(2) by auto
  show "P (s ! i)" using f j(2) by (metis length_rev rev_nth)
  show "\<forall>c \<in> set (drop (Suc i) s). \<not> P c"
  proof
    fix c
    assume "c \<in> set (drop (Suc i) s)"
    then obtain k where k: "k < length s - Suc i" "c = s ! (Suc i + k)"
      by (auto simp: in_set_conv_nth)
    let ?m = "length s - Suc (Suc i + k)"
    have "?m < j" "?m < length s" using k(1) j(2) f by auto
    then have "\<not> P (rev s ! ?m)" using f by blast
    then show "\<not> P c" using k f j(2) by (simp add: rev_nth)
  qed
qed

lemma find_last_index_None: "find_last_index P s = None \<longleftrightarrow> (\<forall>c \<in> set s. \<not> P c)"
  by (simp add: find_last_index_def find_index_None)

lemma char_code_less: "char_code c < 256"
  by (simp add: char_code_def)

lemma char_of_code [simp]: "char_of (char_code c) = c"
  by (simp add: char_code_def)

lemma char_code_of [simp]: "n < 256 \<Longrightarrow> char_code (char_of n) = n"
  by (simp add: char_code_def)

end
