(* ===== verification/Str_Props.thy ===== *)
theory Str_Props
  imports Str_Util
begin

text \<open>
  What the text utilities compute: URL encoding is a per-character code that decoding inverts, paths
  split and join again, trimming removes exactly the delimiters, and numbers are parsed exactly.
\<close>

section \<open>URL encoding\<close>

definition enc_char :: "bool \<Rightarrow> char \<Rightarrow> string" where
  "enc_char space_as_plus c =
     (if CHAR_IS_UNRESERVED c then [c]
      else if c = CHR '' '' \<and> space_as_plus then ''+''
      else [CHR ''%'', hexdigits ! (char_code c div 16), hexdigits ! (char_code c mod 16)])"

fun dec :: "bool \<Rightarrow> string \<Rightarrow> string" where
  "dec space_as_plus [] = []"
| "dec space_as_plus (c # cs) =
     (if c = CHR ''+'' \<and> space_as_plus then CHR '' '' # dec space_as_plus cs
      else case cs of
        a # b # cs' \<Rightarrow>
          if c = CHR ''%'' \<and> isxdigit a \<and> isxdigit b then xdigit_pair a b # dec space_as_plus cs'
          else c # dec space_as_plus cs
      | _ \<Rightarrow> c # dec space_as_plus cs)"

lemma encode_loop_spec:
  "ss_create (pre @ s) (encode_loop sp pre ss s) = ss_create pre ss @ concat (map (enc_char sp) s)"
proof (induction s arbitrary: pre ss)
  case Nil
  then show ?case by simp
next
  case (Cons c cs)
  have "ss_create (pre @ c # cs) (encode_loop sp pre ss (c # cs)) =
      ss_create (pre @ [c])
        (if \<not> CHAR_IS_UNRESERVED c then Some (ss_create pre ss @ enc_char sp c)
         else map_option (\<lambda>s. s @ [c]) ss) @ concat (map (enc_char sp) cs)"
    using Cons.IH [of "pre @ [c]"] by (simp add: enc_char_def [of sp c])
  then show ?case by (cases ss) (auto simp: ss_create_def enc_char_def [of sp c])
qed

lemma UrlEncode_concat: "UrlEncode s sp = concat (map (enc_char sp) s)"
  using encode_loop_spec [of "[]" s sp None] by (simp add: UrlEncode_def ss_create_def split: option.splits)

lemma ss_create_snoc: "ss_create (pre @ [c]) (map_option (\<lambda>s. s @ [c]) ss) = ss_create pre ss @ [c]"
  by (cases ss) (simp_all add: ss_create_def)

lemma ss_create_Some [simp]: "ss_create pre (Some s) = s"
  by (simp add: ss_create_def)

declare decode_loop.simps(2) [simp del] dec.simps(2) [simp del]

definition escape_at :: "string \<Rightarrow> bool" where
  "escape_at s = (case s of c # a # b # _ \<Rightarrow> c = CHR ''%'' \<and> isxdigit a \<and> isxdigit b | _ \<Rightarrow> False)"

lemma decode_step:
  "c = CHR ''+'' \<and> sp \<Longrightarrow>
    decode_loop sp pre ss (c # cs) = decode_loop sp (pre @ [c]) (Some (ss_create pre ss @ '' '')) cs"
  "\<not> (c = CHR ''+'' \<and> sp) \<Longrightarrow> escape_at (c # a # b # cs) \<Longrightarrow>
    decode_loop sp pre ss (c # a # b # cs) =
      decode_loop sp (pre @ [c, a, b]) (Some (ss_create pre ss @ [xdigit_pair a b])) cs"
  "\<not> (c = CHR ''+'' \<and> sp) \<Longrightarrow> \<not> escape_at (c # cs) \<Longrightarrow>
    decode_loop sp pre ss (c # cs) = decode_loop sp (pre @ [c]) (map_option (\<lambda>s. s @ [c]) ss) cs"
  by (subst decode_loop.simps(2); auto simp: escape_at_def split: list.split)+

lemma dec_step:
  "c = CHR ''+'' \<and> sp \<Longrightarrow> dec sp (c # cs) = CHR '' '' # dec sp cs"
  "\<not> (c = CHR ''+'' \<and> sp) \<Longrightarrow> escape_at (c # a # b # cs) \<Longrightarrow>
    dec sp (c # a # b # cs) = xdigit_pair a b # dec sp cs"
  "\<not> (c = CHR ''+'' \<and> sp) \<Longrightarrow> \<not> escape_at (c # cs) \<Longrightarrow> dec sp (c # cs) = c # dec sp cs"
  by (subst dec.simps(2); auto simp: escape_at_def split: list.split)+

lemma decode_loop_spec:
  "ss_create (pre @ s) (decode_loop sp pre ss s) = ss_create pre ss @ dec sp s"
proof (induction "length s" arbitrary: pre ss s rule: less_induct)
  case less
  show ?case
  proof (cases s)
    case (Cons c cs)
    consider "c = CHR ''+'' \<and> sp" | "\<not> (c = CHR ''+'' \<and> sp)" "escape_at s"
      | "\<not> (c = CHR ''+'' \<and> sp)" "\<not> escape_at s" by blast
    then show ?thesis
    proof cases
      case 1
      then show ?thesis
        using less.hyps [of cs "pre @ [c]"] Cons by (simp add: decode_step(1) dec_step(1))
    next
      case 2
      then obtain a b cs' where "cs = a # b # cs'"
        using Cons by (auto simp: escape_at_def split: list.splits)
      then show ?thesis
        using 2 less.hyps [of cs' "pre @ [c, a, b]"] Cons by (simp add: decode_step(2) dec_step(2))
    next
      case 3
      then show ?thesis
        using less.hyps [of cs "pre @ [c]"] Cons
        by (simp add: decode_step(3) dec_step(3) ss_create_snoc)
    qed
  qed simp
qed

lemma UrlDecode_dec: "UrlDecode s sp = dec sp s"
  using decode_loop_spec [of "[]" s sp None] by (simp add: UrlDecode_def ss_create_def split: option.splits)

lemma hexdigits_ok:
  assumes "n < 16"
  shows "isxdigit (hexdigits ! n) \<and> xdigit_chars ! char_code (hexdigits ! n) = n \<and>
    CHAR_IS_UNRESERVED (hexdigits ! n)"
proof -
  have "list_all (\<lambda>n. isxdigit (hexdigits ! n) \<and> xdigit_chars ! char_code (hexdigits ! n) = n \<and>
      CHAR_IS_UNRESERVED (hexdigits ! n)) [0..<16]"
    by code_simp
  then show ?thesis using assms by (simp add: list_all_iff)
qed

lemma xdigit_pair_code:
  "xdigit_pair (hexdigits ! (char_code c div 16)) (hexdigits ! (char_code c mod 16)) = c"
proof -
  have "char_code c div 16 < 16" "char_code c mod 16 < 16"
    using char_code_less [of c] by auto
  then have "xdigit_pair (hexdigits ! (char_code c div 16)) (hexdigits ! (char_code c mod 16)) =
      char_of (char_code c div 16 * 16 + char_code c mod 16)"
    by (simp add: xdigit_pair_def hexdigits_ok)
  also have "\<dots> = c" by simp
  finally show ?thesis .
qed

lemma reserved_marks:
  "\<not> CHAR_IS_UNRESERVED CHR ''%''" "\<not> CHAR_IS_UNRESERVED CHR ''+''" "\<not> CHAR_IS_UNRESERVED CHR '' ''"
  by code_simp+

lemma dec_plain: "c \<noteq> CHR ''+'' \<Longrightarrow> c \<noteq> CHR ''%'' \<Longrightarrow> dec sp (c # cs) = c # dec sp cs"
  by (rule dec_step(3)) (auto simp: escape_at_def split: list.split)

lemma dec_enc_char: "dec sp (enc_char sp c @ r) = c # dec sp r"
proof (cases "CHAR_IS_UNRESERVED c")
  case True
  then show ?thesis
    using reserved_marks by (auto simp: enc_char_def intro!: dec_plain)
next
  case False
  let ?h = "hexdigits ! (char_code c div 16)" and ?l = "hexdigits ! (char_code c mod 16)"
  have "char_code c div 16 < 16" "char_code c mod 16 < 16"
    using char_code_less [of c] by auto
  then have "escape_at (CHR ''%'' # ?h # ?l # r)"
    by (simp add: escape_at_def hexdigits_ok)
  then have "dec sp (CHR ''%'' # ?h # ?l # r) = xdigit_pair ?h ?l # dec sp r"
    by (intro dec_step(2)) simp_all
  then show ?thesis
    using False by (simp add: enc_char_def xdigit_pair_code dec_step(1))
qed

lemma dec_enc: "dec sp (concat (map (enc_char sp) s)) = s"
  by (induction s) (simp_all add: dec_enc_char)

text \<open>The characters that encoding leaves alone are letters, digits and \<open>- . _ ~ =\<close>.\<close>

definition url_safe :: "nat \<Rightarrow> bool" where
  "url_safe n \<longleftrightarrow>
     48 \<le> n \<and> n \<le> 57 \<or> 65 \<le> n \<and> n \<le> 90 \<or> 97 \<le> n \<and> n \<le> 122 \<or> n \<in> {45, 46, 61, 95, 126}"

lemma uri_chars_table: "uri_chars = map (\<lambda>n. if url_safe n then 1 else 0) [0..<256]"
  by code_simp

lemma unreserved_iff: "CHAR_IS_UNRESERVED c \<longleftrightarrow> url_safe (char_code c)"
  using char_code_less [of c] by (simp add: CHAR_IS_UNRESERVED_def uri_chars_table)

section \<open>Paths\<close>

lemma rfind_split:
  assumes "rfind c s = Some pos"
  shows "s = substr 0 pos s @ c # drop (pos + 1) s" "c \<notin> set (drop (pos + 1) s)"
proof -
  note f = find_last_index_Some [OF assms [unfolded rfind_def]]
  show "s = substr 0 pos s @ c # drop (pos + 1) s"
    using f by (simp add: substr_def id_take_nth_drop [symmetric] flip: f(2))
  show "c \<notin> set (drop (pos + 1) s)"
    using f(3) by auto
qed

lemma rfind_None: "rfind c s = None \<longleftrightarrow> c \<notin> set s"
  by (auto simp: rfind_def find_last_index_None)

section \<open>Trimming\<close>

lemma TrimLeft_dropWhile: "TrimLeft s d = dropWhile (\<lambda>c. c \<in> set d) s"
proof (cases "find_index (\<lambda>c. c \<notin> set d) s")
  case None
  then have "\<forall>c \<in> set s. c \<in> set d" by (simp add: find_index_None)
  then have "dropWhile (\<lambda>c. c \<in> set d) s = []" by (simp add: dropWhile_eq_Nil_conv)
  with None show ?thesis unfolding TrimLeft_def find_first_not_of_def by (metis option.simps(4))
next
  case (Some i)
  then show ?thesis
    using find_index_dropWhile [where P = "\<lambda>c. c \<notin> set d" and s = s]
    by (simp add: TrimLeft_def find_first_not_of_def)
qed

text \<open>\<open>Trim\<close> strips the delimiters from both ends.\<close>

definition strip :: "string \<Rightarrow> string \<Rightarrow> string" where
  "strip d s = rev (dropWhile (\<lambda>c. c \<in> set d) (rev (dropWhile (\<lambda>c. c \<in> set d) s)))"

lemma Trim_strip: "Trim s d = strip d s"
proof (cases "find_index (\<lambda>c. c \<notin> set d) s")
  case None
  then have "dropWhile (\<lambda>c. c \<in> set d) s = []" by (auto simp: find_index_None)
  with None show ?thesis unfolding Trim_def find_first_not_of_def strip_def
    by (metis option.simps(4) dropWhile.simps(1) rev.simps(1))
next
  case (Some b)
  then obtain e where e: "find_last_index (\<lambda>c. c \<notin> set d) s = Some e"
    by (metis find_index_None find_last_index_None not_None_eq)
  note fb = find_index_Some [OF Some] and fe = find_last_index_Some [OF e]
  have be: "b \<le> e" using fb fe by (meson not_le)
  have left: "dropWhile (\<lambda>c. c \<in> set d) s = drop b s"
    using find_index_dropWhile [where P = "\<lambda>c. c \<notin> set d" and s = s] Some by simp
  have "rev (drop b s) = rev (drop (Suc e) s) @ rev (take (e - b + 1) (drop b s))"
  proof -
    have "drop b s = take (e - b + 1) (drop b s) @ drop (Suc e) s"
      using be append_take_drop_id [of "e - b + 1" "drop b s"] by simp
    then show ?thesis by (metis rev_append)
  qed
  moreover have "take (e - b + 1) (drop b s) \<noteq> [] \<and> last (take (e - b + 1) (drop b s)) = s ! e"
  proof -
    have "take (e - b + 1) (drop b s) = take (e - b) (drop b s) @ [s ! e]"
      using be fe(1) by (simp add: take_Suc_conv_app_nth)
    then show ?thesis by simp
  qed
  then have "dropWhile (\<lambda>c. c \<in> set d) (rev (drop (Suc e) s) @ rev (take (e - b + 1) (drop b s))) =
      rev (take (e - b + 1) (drop b s))"
    using fe(2,3) by (subst dropWhile_append2) (auto simp: hd_rev dropWhile_eq_self_iff)
  ultimately show ?thesis
    using Some e by (simp add: Trim_def find_first_not_of_def find_last_not_of_def substr_def strip_def left)
qed

section \<open>Numbers\<close>

lemma decimal_snoc: "decimal (ds @ [c]) = 10 * decimal ds + digit_val c"
  by (simp add: decimal_def)

text \<open>The decimal notation of a number.\<close>

fun show_nat :: "nat \<Rightarrow> string" where
  "show_nat n = (if n < 10 then [char_of (48 + n)] else show_nat (n div 10) @ [char_of (48 + n mod 10)])"

declare show_nat.simps [simp del]

lemma show_nat_digits: "decimal (show_nat n) = n \<and> (\<forall>c \<in> set (show_nat n). isdigit c) \<and> show_nat n \<noteq> []"
proof (induction n rule: show_nat.induct)
  case (1 n)
  show ?case
  proof (cases "n < 10")
    case True
    then show ?thesis
      by (subst show_nat.simps) (simp add: show_nat.simps decimal_def digit_val_def isdigit_def)
  next
    case False
    have "show_nat n = show_nat (n div 10) @ [char_of (48 + n mod 10)]"
      using False by (subst show_nat.simps) simp
    then show ?thesis
      using 1 False by (simp add: decimal_snoc) (simp add: digit_val_def isdigit_def)
  qed
qed

lemma digit_not_blank: "isdigit c \<Longrightarrow> \<not> isspace c \<and> c \<noteq> CHR ''-'' \<and> c \<noteq> CHR ''+''"
  by (auto simp: isdigit_def isspace_def char_code_def)

lemma strtoull_digits:
  assumes "ds \<noteq> []" "\<forall>c \<in> set ds. isdigit c"
  shows "strtoull ds = (if decimal ds \<ge> 2 ^ 64 then - 1 else of_nat (decimal ds))"
    "strtoull (CHR ''-'' # ds) = (if decimal ds \<ge> 2 ^ 64 then - 1 else - of_nat (decimal ds))"
proof -
  obtain c cs where ds: "ds = c # cs" using assms(1) by (cases ds) auto
  have tw: "takeWhile isdigit ds = ds" using assms(2) by (simp add: takeWhile_eq_all_conv)
  have "dropWhile isspace ds = ds" "hd ds \<noteq> CHR ''-''" "hd ds \<noteq> CHR ''+''"
    using assms(2) ds digit_not_blank [of c] by auto
  moreover have "\<not> isspace CHR ''-''" by code_simp
  ultimately show "strtoull ds = (if decimal ds \<ge> 2 ^ 64 then - 1 else of_nat (decimal ds))"
    "strtoull (CHR ''-'' # ds) = (if decimal ds \<ge> 2 ^ 64 then - 1 else - of_nat (decimal ds))"
    using assms(1) by (simp_all add: strtoull_def Let_def tw)
qed

section \<open>Properties\<close>

text \<open>
  C34: decoding undoes encoding for every byte string and either treatment of spaces, and the encoded
  form consists of letters, digits, \<open>- . _ ~ =\<close>, and the escape characters \<open>%\<close> and \<open>+\<close> only.
\<close>

theorem url_roundtrip:
  "UrlDecode (UrlEncode s sp) sp = s \<and>
   (\<forall>c \<in> set (UrlEncode s sp). url_safe (char_code c) \<or> c = CHR ''%'' \<or> c = CHR ''+'')"
proof -
  have "url_safe (char_code x) \<or> x = CHR ''%'' \<or> x = CHR ''+''" if "x \<in> set (enc_char sp c)" for c x
  proof -
    have "char_code c div 16 < 16" "char_code c mod 16 < 16"
      using char_code_less [of c] by auto
    then show ?thesis
      using that hexdigits_ok [of "char_code c div 16"] hexdigits_ok [of "char_code c mod 16"]
      by (auto simp: enc_char_def unreserved_iff split: if_splits)
  qed
  then show ?thesis
    by (auto simp: UrlDecode_dec UrlEncode_concat dec_enc)
qed

lemma url_roundtrip_witness: "UrlDecode (UrlEncode ''a b+c%'' True) True = ''a b+c%''"
  using url_roundtrip [of "''a b+c%''" True] by blast

text \<open>
  the directory and the file name of a path put together give the path again, and the file name
  has no separator.
\<close>

theorem dirname_basename:
  "CHR ''/'' \<notin> set (Basename p) \<and>
   (if CHR ''/'' \<notin> set p then Dirname p = ''.'' \<and> Basename p = p
    else if rfind CHR ''/'' p = Some 0 then Dirname p = ''/'' \<and> p = Dirname p @ Basename p
    else p = Dirname p @ ''/'' @ Basename p)"
proof (cases "rfind CHR ''/'' p")
  case None
  then show ?thesis using rfind_None [of "CHR ''/''" p] by (auto simp: Dirname_def Basename_def)
next
  case (Some pos)
  then have "CHR ''/'' \<in> set p" using rfind_None [of "CHR ''/''" p] by auto
  moreover have "p \<noteq> []" using calculation by auto
  ultimately show ?thesis
    using rfind_split [OF Some] Some by (auto simp: Dirname_def Basename_def substr_def)
qed


text \<open>
  \<open>Trim\<close> strips exactly the delimiters at both ends and \<open>TrimLeft\<close> exactly those in front; both are
  idempotent, and what they return neither begins nor (for \<open>Trim\<close>) ends with a delimiter.
\<close>

theorem trim_exact:
  "Trim s d = strip d s \<and> TrimLeft s d = dropWhile (\<lambda>c. c \<in> set d) s \<and>
   (Trim s d = [] \<or> hd (Trim s d) \<notin> set d \<and> last (Trim s d) \<notin> set d) \<and>
   (TrimLeft s d = [] \<or> hd (TrimLeft s d) \<notin> set d)"
proof -
  let ?l = "dropWhile (\<lambda>c. c \<in> set d) s"
  have "?l = [] \<or> hd ?l \<notin> set d" using hd_dropWhile [of "\<lambda>c. c \<in> set d" s] by blast
  moreover have "strip d s = [] \<or> hd (strip d s) \<notin> set d \<and> last (strip d s) \<notin> set d"
  proof (cases "strip d s = []")
    case False
    let ?r = "dropWhile (\<lambda>c. c \<in> set d) (rev ?l)"
    have ne: "?r \<noteq> []" using False by (simp add: strip_def)
    then have "hd ?r \<notin> set d" using hd_dropWhile [of "\<lambda>c. c \<in> set d" "rev ?l"] by blast
    moreover have "rev ?l = takeWhile (\<lambda>c. c \<in> set d) (rev ?l) @ ?r" by simp
    then have "last ?r = last (rev ?l)" using ne by (metis last_appendR)
    then have "last ?r = hd ?l" using ne by (metis last_rev dropWhile.simps(1) rev.simps(1))
    moreover have "?l \<noteq> []" using ne by (metis dropWhile.simps(1) rev.simps(1))
    ultimately show ?thesis
      using \<open>?l = [] \<or> hd ?l \<notin> set d\<close> ne by (auto simp: strip_def hd_rev last_rev)
  qed simp
  ultimately show ?thesis by (simp add: Trim_strip TrimLeft_dropWhile)
qed

lemma trim_exact_witness:
  "Trim ''  a b '' '' '' = ''a b'' \<and> TrimLeft ''  a b '' '' '' = ''a b ''"
  using trim_exact [of "''  a b ''" "'' ''"] by (simp add: strip_def)


text \<open>
  C40: \<open>Atoi\<close> is exact on the decimal notation of every 64-bit signed value and saturates: a number of
  \<open>2 ^ 64\<close> or more reads as -1, whatever its sign.
\<close>

theorem Atoi_exact:
  "Atoi (show_nat n) = (if n < 2 ^ 64 then sint (of_nat n :: u64) else - 1) \<and>
   Atoi (CHR ''-'' # show_nat n) = (if n < 2 ^ 64 then sint (- of_nat n :: u64) else - 1) \<and>
   (n < 2 ^ 63 \<longrightarrow> Atoi (show_nat n) = int n \<and> Atoi (CHR ''-'' # show_nat n) = - int n)"
proof -
  have s: "Atoi (show_nat n) = (if n < 2 ^ 64 then sint (of_nat n :: u64) else - 1)"
    "Atoi (CHR ''-'' # show_nat n) = (if n < 2 ^ 64 then sint (- of_nat n :: u64) else - 1)"
    using strtoull_digits [of "show_nat n"] show_nat_digits [of n] by (auto simp: Atoi_def)
  have "sint (of_nat n :: u64) = int n \<and> sint (- of_nat n :: u64) = - int n" if "n < 2 ^ 63"
  proof -
    have "signed_take_bit 63 (int n) = int n" "signed_take_bit 63 (- int n) = - int n"
      using that by (auto simp: signed_take_bit_int_eq_self_iff)
    then show ?thesis
      using sint_sbintrunc' [of "int n", where 'a = 64] sint_sbintrunc' [of "- int n", where 'a = 64]
      by simp
  qed
  then show ?thesis using s by auto
qed

lemma Atoi_exact_witness: "Atoi (show_nat 42) = 42"
  using Atoi_exact [of 42] by simp

section \<open>Where the code breaks\<close>

text \<open>\<open>TrimRight\<close> keeps the leading delimiters and drops the text.\<close>

lemma TrimRight_drops_text: "TrimRight ''  x '' '' '' = ''  '' \<and> TrimRight ''x '' '' '' = []"
  by code_simp

text \<open>The comment before \<open>UrlEncode\<close> lists the unreserved characters without \<open>=\<close>.\<close>

lemma equals_unreserved: "UrlEncode ''a=b'' True = ''a=b''"
  by code_simp

end
