(* ===== verification/Util_Algo.thy ===== *)
theory Util_Algo
  imports HPGS_Prelude
begin

text \<open>
  The templates of \<open>include/util/util.h\<close>: binary search, slicing, joining, parameter lookup, fixed-size
  transfers on \<open>std::iostream\<close>, and the wrappers of the atomic builtins.
\<close>

section \<open>Binary search\<close>

text \<open>Indices are \<open>int\<close>: their sum overflows, which is undefined, from \<open>2 ^ 31\<close> on.\<close>

function search_loop :: "'a::linorder list \<Rightarrow> 'a \<Rightarrow> int \<Rightarrow> int \<Rightarrow> int res" where
  "search_loop arr v b e =
     (if b \<le> e then
        if b + e \<ge> 2 ^ 31 then Inl Undefined
        else
          let m = (b + e) div 2 in
          if m < 0 \<or> int (length arr) \<le> m then Inl Bad_Access
          else if v < arr ! nat m then search_loop arr v b (m - 1)
          else if arr ! nat m < v then search_loop arr v (m + 1) e
          else Inr m
      else Inr (- b - 1))"
  by pat_completeness auto
termination
  by (relation "measure (\<lambda>(arr, v, b, e). nat (e - b + 1))") auto

declare search_loop.simps [simp del]

definition BinarySearch :: "'a::linorder list \<Rightarrow> int \<Rightarrow> 'a \<Rightarrow> int res" where
  "BinarySearch arr len v = search_loop arr v 0 (len - 1)"

section \<open>Slicing and joining\<close>

text \<open>With a slice size of 0 the loop pushes empty slices for ever.\<close>

function slice_loop :: "'a list \<Rightarrow> nat \<Rightarrow> 'a list list res" where
  "slice_loop src sz =
     (if length src > sz then
        if sz = 0 then Inl Diverge
        else (case slice_loop (drop sz src) sz of Inl e \<Rightarrow> Inl e | Inr ts \<Rightarrow> Inr (take sz src # ts))
      else if src \<noteq> [] then Inr [src] else Inr [])"
  by pat_completeness auto
termination
  by (relation "measure (\<lambda>(src, sz). length src)") auto

declare slice_loop.simps [simp del]

definition Slice :: "'a list list \<Rightarrow> 'a list \<Rightarrow> nat \<Rightarrow> 'a list list res" where
  "Slice dst src sz = rbind (slice_loop src sz) (\<lambda>ts. Inr (dst @ ts))"

text \<open>\<open>put\<close> is the stream output of an element.\<close>

fun Join :: "('a \<Rightarrow> string) \<Rightarrow> 'a list \<Rightarrow> string \<Rightarrow> string" where
  "Join put [] tag = []"
| "Join put (x # xs) tag = put x @ concat (map (\<lambda>y. tag @ put y) xs)"

section \<open>Parameters\<close>

text \<open>\<open>boost::lexical_cast\<close> is a parameter: \<open>None\<close> when it throws.\<close>

definition GetParamValue :: "('s \<Rightarrow> 'v option) \<Rightarrow> ('k \<rightharpoonup> 's) \<Rightarrow> 'k \<Rightarrow> 'v \<Rightarrow> 'v" where
  "GetParamValue lexical_cast m k def =
     (case m k of None \<Rightarrow> def
      | Some x \<Rightarrow> (case lexical_cast x of None \<Rightarrow> def | Some v \<Rightarrow> v))"

definition CheckGetParamValue :: "('s \<Rightarrow> 'v option) \<Rightarrow> ('k \<rightharpoonup> 's) \<Rightarrow> 'k \<Rightarrow> 'v \<Rightarrow> bool \<times> 'v" where
  "CheckGetParamValue lexical_cast m k v =
     (case m k of None \<Rightarrow> (False, v)
      | Some x \<Rightarrow> (case lexical_cast x of None \<Rightarrow> (False, v) | Some v' \<Rightarrow> (True, v')))"

section \<open>Fixed-size transfers on standard streams\<close>

record istream =
  is_data :: "byte list"
  is_good :: bool

definition is_read :: "istream \<Rightarrow> nat \<Rightarrow> byte list \<times> istream" where
  "is_read is n =
     (if is_good is
      then (take n (is_data is),
            \<lparr>is_data = drop n (is_data is), is_good = (n \<le> length (is_data is))\<rparr>)
      else ([], is))"

function rffs_loop :: "istream \<Rightarrow> byte list \<Rightarrow> nat \<Rightarrow> nat \<Rightarrow> nat \<times> byte list \<times> istream" where
  "rffs_loop is data pos sz =
     (if is_good is \<and> pos < sz then
        let (bs, is') = is_read is (sz - pos) in
        rffs_loop is' (list_put data pos bs) (pos + length bs) sz
      else (pos, data, is))"
  by pat_completeness auto
termination
  by (relation "measures [\<lambda>(is, data, pos, sz). sz - pos, \<lambda>(is, data, pos, sz). if is_good is then 1 else 0]")
    (auto simp: is_read_def split: if_splits)

declare rffs_loop.simps [simp del]

definition ReadFixFromStream :: "istream \<Rightarrow> byte list \<Rightarrow> nat \<Rightarrow> bool \<times> byte list \<times> istream" where
  "ReadFixFromStream is data sz = (case rffs_loop is data 0 sz of (pos, data', is') \<Rightarrow> (pos = sz, data', is'))"

text \<open>\<open>os_write\<close> is \<open>std::ostream::write\<close> of a stream that is good: the stream afterwards and whether it still is.\<close>

definition WriteToStream :: "('o \<Rightarrow> byte list \<Rightarrow> bool \<times> 'o) \<Rightarrow> bool \<Rightarrow> 'o \<Rightarrow> byte list \<Rightarrow> bool \<times> 'o" where
  "WriteToStream os_write good os bytes = (if \<not> good then (False, os) else os_write os bytes)"

text \<open>The transfers of single values and of vectors: a value is its object representation, a vector that of its elements one
  after the other.  \<open>&v[0]\<close> of an empty vector is undefined.\<close>

definition ReadFromStream :: "istream \<Rightarrow> byte list \<Rightarrow> bool \<times> byte list \<times> istream" where
  "ReadFromStream is v = ReadFixFromStream is v (length v)"

definition ReadFromStream_vector :: "istream \<Rightarrow> byte list \<Rightarrow> (bool \<times> byte list \<times> istream) res" where
  "ReadFromStream_vector is v = (if v = [] then Inl Undefined else Inr (ReadFixFromStream is v (length v)))"

definition WriteToStream_vector :: "('o \<Rightarrow> byte list \<Rightarrow> bool \<times> 'o) \<Rightarrow> bool \<Rightarrow> 'o \<Rightarrow> byte list \<Rightarrow> (bool \<times> 'o) res" where
  "WriteToStream_vector os_write good os v =
     (if \<not> good then Inr (False, os) else if v = [] then Inl Undefined else Inr (os_write os v))"

text \<open>\<open>WriteFixToStreamWithSpeed\<close> and \<open>ReadFixFromStreamWithSpeed\<close> are declared only: \<open>wfix\<close> and \<open>rfix\<close>.  The reading ones take the
  destination by a reference to \<open>const\<close> and write to it all the same.\<close>

definition WriteToStreamWithSpeed ::
  "('o \<Rightarrow> byte list \<Rightarrow> u64 \<Rightarrow> bool \<times> 'o) \<Rightarrow> bool \<Rightarrow> 'o \<Rightarrow> byte list \<Rightarrow> u64 \<Rightarrow> bool \<times> 'o" where
  "WriteToStreamWithSpeed wfix good os v speed = (if good then wfix os v speed else (False, os))"

definition WriteToStreamWithSpeed_vector ::
  "('o \<Rightarrow> byte list \<Rightarrow> u64 \<Rightarrow> bool \<times> 'o) \<Rightarrow> bool \<Rightarrow> 'o \<Rightarrow> byte list \<Rightarrow> u64 \<Rightarrow> u64 \<Rightarrow> (bool \<times> 'o) res" where
  "WriteToStreamWithSpeed_vector wfix good os v speed min_duration_ms =
     (if good then (if v = [] then Inl Undefined else Inr (wfix os v speed)) else Inr (False, os))"

definition ReadFromStreamWithSpeed ::
  "(istream \<Rightarrow> byte list \<Rightarrow> nat \<Rightarrow> u64 \<Rightarrow> bool \<times> byte list \<times> istream) \<Rightarrow> istream \<Rightarrow> byte list \<Rightarrow> u64 \<Rightarrow> bool \<times> byte list \<times> istream" where
  "ReadFromStreamWithSpeed rfix is v speed = (if is_good is then rfix is v (length v) speed else (False, v, is))"

definition ReadFromStreamWithSpeed_vector ::
  "(istream \<Rightarrow> byte list \<Rightarrow> nat \<Rightarrow> u64 \<Rightarrow> bool \<times> byte list \<times> istream) \<Rightarrow> istream \<Rightarrow> byte list \<Rightarrow> u64 \<Rightarrow>
   (bool \<times> byte list \<times> istream) res" where
  "ReadFromStreamWithSpeed_vector rfix is v speed =
     (if is_good is then (if v = [] then Inl Undefined else Inr (rfix is v (length v) speed)) else Inr (False, v, is))"

section \<open>Atomic builtins\<close>

text \<open>Each returns the result and the new value of the variable.\<close>

type_synonym 'a atomic = "'a word \<times> 'a word"

definition addFetch :: "'a::len word \<Rightarrow> 'a word \<Rightarrow> 'a atomic" where "addFetch t v = (t + v, t + v)"

definition subFetch :: "'a::len word \<Rightarrow> 'a word \<Rightarrow> 'a atomic" where "subFetch t v = (t - v, t - v)"

definition orFetch :: "'a::len word \<Rightarrow> 'a word \<Rightarrow> 'a atomic" where "orFetch t v = (t OR v, t OR v)"

definition andFetch :: "'a::len word \<Rightarrow> 'a word \<Rightarrow> 'a atomic" where "andFetch t v = (t AND v, t AND v)"

definition xorFetch :: "'a::len word \<Rightarrow> 'a word \<Rightarrow> 'a atomic" where "xorFetch t v = (t XOR v, t XOR v)"

definition nandFetch :: "'a::len word \<Rightarrow> 'a word \<Rightarrow> 'a atomic" where
  "nandFetch t v = (NOT (t AND v), NOT (t AND v))"

definition fetchAdd :: "'a::len word \<Rightarrow> 'a word \<Rightarrow> 'a atomic" where "fetchAdd t v = (t, t + v)"

definition fetchSub :: "'a::len word \<Rightarrow> 'a word \<Rightarrow> 'a atomic" where "fetchSub t v = (t, t - v)"

definition fetchOr :: "'a::len word \<Rightarrow> 'a word \<Rightarrow> 'a atomic" where "fetchOr t v = (t, t OR v)"

definition fetchAnd :: "'a::len word \<Rightarrow> 'a word \<Rightarrow> 'a atomic" where "fetchAnd t v = (t, t AND v)"

definition fetchXor :: "'a::len word \<Rightarrow> 'a word \<Rightarrow> 'a atomic" where "fetchXor t v = (t, t XOR v)"

definition fetchNand :: "'a::len word \<Rightarrow> 'a word \<Rightarrow> 'a atomic" where "fetchNand t v = (t, NOT (t AND v))"

definition compareAndSwap :: "'a::len word \<Rightarrow> 'a word \<Rightarrow> 'a word \<Rightarrow> 'a atomic" where
  "compareAndSwap t old_val new_val = (t, if t = old_val then new_val else t)"

definition compareAndSwapBool :: "'a::len word \<Rightarrow> 'a word \<Rightarrow> 'a word \<Rightarrow> bool \<times> 'a word" where
  "compareAndSwapBool t old_val new_val = (t = old_val, if t = old_val then new_val else t)"

section \<open>Lemmas\<close>

text \<open>What the search returns: the index of the value, or the place where it would have to go.\<close>

definition search_result :: "'a::linorder list \<Rightarrow> 'a \<Rightarrow> int \<Rightarrow> bool" where
  "search_result arr v r \<longleftrightarrow>
     (if r \<ge> 0 then nat r < length arr \<and> arr ! nat r = v
      else nat (- r - 1) \<le> length arr \<and>
        (\<forall>x \<in> set (take (nat (- r - 1)) arr). x < v) \<and> (\<forall>x \<in> set (drop (nat (- r - 1)) arr). v < x))"

lemma sorted_le_nth: "sorted arr \<Longrightarrow> i \<le> j \<Longrightarrow> j < length arr \<Longrightarrow> arr ! i \<le> arr ! j"
  by (rule sorted_nth_mono)

lemma search_loop_correct:
  assumes "sorted arr" "length arr \<le> 2 ^ 30"
    and "0 \<le> b" "e < int (length arr)" "b \<le> e + 1"
    and "\<forall>i < nat b. arr ! i < v" "\<forall>i. nat (e + 1) \<le> i \<and> i < length arr \<longrightarrow> v < arr ! i"
  shows "\<exists>r. search_loop arr v b e = Inr r \<and> search_result arr v r"
  using assms(3-)
proof (induction "nat (e - b + 1)" arbitrary: b e rule: less_induct)
  case less
  show ?case
  proof (cases "b \<le> e")
    case False
    then have e: "e + 1 = b" using less.prems by simp
    have "\<forall>x \<in> set (take (nat b) arr). x < v"
      using less.prems(4) by (auto simp: in_set_conv_nth)
    moreover have "\<forall>x \<in> set (drop (nat b) arr). v < x"
      using less.prems(5) e by (auto simp: in_set_conv_nth)
    moreover have "nat b \<le> length arr" using less.prems(2) e by simp
    ultimately have "search_result arr v (- b - 1)"
      using less.prems(1) by (simp add: search_result_def)
    then show ?thesis using False by (subst search_loop.simps) simp
  next
    case True
    define m where "m = (b + e) div 2"
    have m: "b \<le> m" "m \<le> e" using True by (auto simp: m_def)
    have sum: "b + e < 2 ^ 31" using less.prems assms(2) by simp
    have lt: "nat m < length arr" using m less.prems by simp
    have step: "search_loop arr v b e =
        (if v < arr ! nat m then search_loop arr v b (m - 1)
         else if arr ! nat m < v then search_loop arr v (m + 1) e else Inr m)"
      using True sum m less.prems by (subst search_loop.simps) (simp add: m_def [symmetric] Let_def)
    consider "v < arr ! nat m" | "arr ! nat m < v" | "arr ! nat m = v" by force
    then show ?thesis
    proof cases
      case 1
      have "v < arr ! i" if "nat m \<le> i" "i < length arr" for i
        using sorted_le_nth [OF assms(1) that] 1 by simp
      then have "\<exists>r. search_loop arr v b (m - 1) = Inr r \<and> search_result arr v r"
        using less.prems m by (intro less.hyps) auto
      then show ?thesis using 1 step by simp
    next
      case 2
      have "arr ! i < v" if "i < nat (m + 1)" for i
      proof -
        have "i \<le> nat m" using that m less.prems(1) by linarith
        then show ?thesis using sorted_le_nth [OF assms(1) _ lt] 2 by (meson le_less_trans)
      qed
      then have "\<exists>r. search_loop arr v (m + 1) e = Inr r \<and> search_result arr v r"
        using less.prems m by (intro less.hyps) auto
      then show ?thesis using 2 step by auto
    next
      case 3
      then show ?thesis using step m less.prems(1) lt by (auto simp: search_result_def)
    qed
  qed
qed

lemma slice_loop_correct:
  assumes "0 < sz"
  shows "\<exists>ts. slice_loop src sz = Inr ts \<and> concat ts = src \<and> (\<forall>t \<in> set ts. t \<noteq> [] \<and> length t \<le> sz) \<and>
    (\<forall>t \<in> set (butlast ts). length t = sz)"
proof (induction "length src" arbitrary: src rule: less_induct)
  case less
  show ?case
  proof (cases "length src > sz")
    case True
    then obtain ts where ts: "slice_loop (drop sz src) sz = Inr ts" "concat ts = drop sz src"
      "\<forall>t \<in> set ts. t \<noteq> [] \<and> length t \<le> sz" "\<forall>t \<in> set (butlast ts). length t = sz"
      using less [of "drop sz src"] assms True by (metis diff_less length_drop length_greater_0_conv list.size(3) not_less_zero)
    have run: "slice_loop src sz = Inr (take sz src # ts)"
      using True assms ts(1) by (subst slice_loop.simps) simp
    show ?thesis
      unfolding run using True assms ts by (auto split: if_splits)
  next
    case False
    then show ?thesis by (subst slice_loop.simps) (cases src; simp)
  qed
qed

lemma rffs_good:
  assumes "is_good is" "pos \<le> sz"
  shows "rffs_loop is data pos sz =
    (min sz (pos + length (is_data is)), list_put data pos (take (sz - pos) (is_data is)),
     \<lparr>is_data = drop (sz - pos) (is_data is), is_good = (sz - pos \<le> length (is_data is))\<rparr>)"
proof (cases "pos < sz")
  case False
  then have "pos = sz" using assms(2) by simp
  then show ?thesis using assms(1) by (subst rffs_loop.simps) simp
next
  case True
  let ?is = "\<lparr>is_data = drop (sz - pos) (is_data is), is_good = (sz - pos \<le> length (is_data is))\<rparr>"
  have "rffs_loop is data pos sz =
      rffs_loop ?is (list_put data pos (take (sz - pos) (is_data is)))
        (pos + length (take (sz - pos) (is_data is))) sz"
    using True assms by (subst rffs_loop.simps) (simp add: is_read_def)
  also have "\<dots> = (pos + length (take (sz - pos) (is_data is)),
      list_put data pos (take (sz - pos) (is_data is)), ?is)"
    by (subst rffs_loop.simps) auto
  finally show ?thesis using True by (auto simp: min_def)
qed

section \<open>Properties\<close>

text \<open>
  on a sorted array of at most \<open>2 ^ 30\<close> elements \<open>BinarySearch\<close> ends without an access outside the
  array or an overflow, and returns the index of the value, or \<open>-i - 1\<close> where \<open>i\<close> is the place that keeps
  the array sorted.
\<close>

theorem BinarySearch_correct:
  assumes "sorted arr" "length arr \<le> 2 ^ 30"
  shows "\<exists>r. BinarySearch arr (int (length arr)) v = Inr r \<and> search_result arr v r"
  unfolding BinarySearch_def using assms by (intro search_loop_correct) auto

lemma BinarySearch_correct_witness:
  "\<exists>r. BinarySearch [2, 4, 6, 8 :: int] (int (length [2, 4, 6, 8 :: int])) 5 = Inr r \<and>
    search_result [2, 4, 6, 8 :: int] 5 r"
  by (rule BinarySearch_correct) simp_all

text \<open>
  \<open>Slice\<close> with a positive size appends slices that together are the source, none empty, all of the
  given size except perhaps the last; with size 0 and a source that is not empty it never returns.
\<close>

theorem Slice_exact:
  "(if sz = 0 \<and> src \<noteq> [] then Slice dst src sz = Inl Diverge
    else \<exists>ts. Slice dst src sz = Inr (dst @ ts) \<and> concat ts = src \<and>
      list_all (\<lambda>t. t \<noteq> [] \<and> length t \<le> sz) ts \<and> list_all (\<lambda>t. length t = sz) (butlast ts))"
proof (cases "sz = 0")
  case True
  then show ?thesis by (cases src) (simp_all add: Slice_def slice_loop.simps)
next
  case False
  then show ?thesis
    using slice_loop_correct [of sz src] by (auto simp: Slice_def list_all_iff)
qed

text \<open>
  \<open>ReadFixFromStream\<close> on a good stream fills the buffer with exactly the next bytes and reports
  success exactly when the stream has enough of them.
\<close>

theorem ReadFixFromStream_exact:
  assumes "is_good is"
  shows "\<exists>is'. ReadFixFromStream is data sz =
    (sz \<le> length (is_data is), list_put data 0 (take sz (is_data is)), is') \<and>
    is_data is' = drop sz (is_data is)"
  using rffs_good [OF assms, of 0 sz data] by (auto simp: ReadFixFromStream_def min_def)

lemma ReadFixFromStream_exact_witness:
  "\<exists>is'. ReadFixFromStream \<lparr>is_data = [1, 2, 3], is_good = True\<rparr> [0, 0] 2 = (True, [1, 2], is')"
  using ReadFixFromStream_exact [of "\<lparr>is_data = [1, 2, 3], is_good = True\<rparr>" "[0, 0]" 2]
  by (auto simp: list_put_def)

text \<open>What one value writes another of the same size reads back, and the rest of the stream is left.\<close>

lemma value_stream_roundtrip:
  assumes "length v = length v'"
  shows "\<exists>is'. ReadFromStream \<lparr>is_data = snd (WriteToStream (\<lambda>os bs. (True, os @ bs)) True [] v) @ rest, is_good = True\<rparr> v' =
    (True, v, is') \<and> is_data is' = rest"
  using rffs_good [of "\<lparr>is_data = v @ rest, is_good = True\<rparr>" 0 "length v'" v'] assms
  by (auto simp: ReadFromStream_def ReadFixFromStream_def WriteToStream_def list_put_0_all)

section \<open>Where the code breaks\<close>

text \<open>The comment promises a positive result for a value that exists; the first element gives 0.\<close>

lemma BinarySearch_first: "BinarySearch [7 :: int] 1 7 = Inr 0"
  by code_simp

end
