(* ===== verification/Fs_Util.thy ===== *)
theory Fs_Util
  imports Str_Util
begin

text \<open>
  The file utilities of \<open>src/util/util.cc\<close> (\<open>FSUtil\<close>).  The file system is a parameter: a record of the
  system calls that the code makes, each a function of the state \<open>'w\<close> of the file system.  A \<open>bool\<close>
  result is whether the call returned success.
\<close>

section \<open>System calls\<close>

datatype d_type = DT_DIR | DT_REG | DT_OTHER

record 'w fs_ops =
  fs_lstat :: "'w \<Rightarrow> string \<Rightarrow> u32 option"
  fs_access :: "'w \<Rightarrow> string \<Rightarrow> bool"
  fs_opendir :: "'w \<Rightarrow> string \<Rightarrow> (string \<times> d_type) list option"
  fs_mkdir :: "'w \<Rightarrow> string \<Rightarrow> bool \<times> 'w"
  fs_unlink :: "'w \<Rightarrow> string \<Rightarrow> bool \<times> 'w"
  fs_rmdir :: "'w \<Rightarrow> string \<Rightarrow> bool \<times> 'w"
  fs_rename :: "'w \<Rightarrow> string \<Rightarrow> string \<Rightarrow> bool \<times> 'w"
  fs_symlink :: "'w \<Rightarrow> string \<Rightarrow> string \<Rightarrow> bool \<times> 'w"
  fs_realpath :: "'w \<Rightarrow> string \<Rightarrow> string option"
  fs_first_line :: "'w \<Rightarrow> string \<Rightarrow> string option"
  fs_open_write :: "'w \<Rightarrow> string \<Rightarrow> bool \<times> 'w"

definition S_IFDIR :: u32 where "S_IFDIR = 0x4000"

definition dot_entry :: "string \<Rightarrow> bool" where
  "dot_entry d_name \<longleftrightarrow> d_name = ''.'' \<or> d_name = ''..''"

section \<open>Operations\<close>

text \<open>The test on one regular file of \<open>ListAllFile\<close>.\<close>

definition has_subfix :: "string \<Rightarrow> string \<Rightarrow> bool" where
  "has_subfix subfix filename \<longleftrightarrow>
     subfix = [] \<or> length subfix \<le> length filename \<and> drop (length filename - length subfix) filename = subfix"

text \<open>\<open>ListAllFile\<close> with a bound on the depth of the directory tree; \<open>None\<close> when it is too small.\<close>

fun list_entries ::
  "(string \<Rightarrow> string list option) \<Rightarrow> string \<Rightarrow> string \<Rightarrow> (string \<times> d_type) list \<Rightarrow> string list option" where
  "list_entries sub path subfix [] = Some []"
| "list_entries sub path subfix ((d_name, ty) # es) =
     (case list_entries sub path subfix es of None \<Rightarrow> None
      | Some rest \<Rightarrow>
        (case ty of
           DT_DIR \<Rightarrow>
             if dot_entry d_name then Some rest
             else (case sub (path @ ''/'' @ d_name) of None \<Rightarrow> None | Some fs \<Rightarrow> Some (fs @ rest))
         | DT_REG \<Rightarrow> if has_subfix subfix d_name then Some ((path @ ''/'' @ d_name) # rest) else Some rest
         | DT_OTHER \<Rightarrow> Some rest))"

fun ListAllFile :: "nat \<Rightarrow> 'w fs_ops \<Rightarrow> 'w \<Rightarrow> string \<Rightarrow> string \<Rightarrow> string list option" where
  "ListAllFile 0 fs w path subfix = None"
| "ListAllFile (Suc depth) fs w path subfix =
     (if \<not> fs_access fs w path then Some []
      else case fs_opendir fs w path of None \<Rightarrow> Some []
      | Some es \<Rightarrow> list_entries (\<lambda>p. ListAllFile depth fs w p subfix) path subfix es)"

definition mkdir_if_missing :: "'w fs_ops \<Rightarrow> 'w \<Rightarrow> string \<Rightarrow> bool \<times> 'w" where
  "mkdir_if_missing fs w dirname = (if fs_access fs w dirname then (True, w) else fs_mkdir fs w dirname)"

text \<open>The prefixes that the loop of \<open>Mkdir\<close> cuts at a \<open>/\<close>, from the second character on.\<close>

definition slash_prefixes :: "string \<Rightarrow> string list" where
  "slash_prefixes path = map (\<lambda>i. take i path) (filter (\<lambda>i. path ! i = CHR ''/'') [1..<length path])"

fun mkdir_loop :: "'w fs_ops \<Rightarrow> 'w \<Rightarrow> string list \<Rightarrow> bool \<times> 'w" where
  "mkdir_loop fs w [] = (True, w)"
| "mkdir_loop fs w (p # ps) =
     (case mkdir_if_missing fs w p of (False, w') \<Rightarrow> (False, w') | (True, w') \<Rightarrow> mkdir_loop fs w' ps)"

text \<open>The search for the first \<open>/\<close> starts one character in, behind the end of an empty path.\<close>

definition Mkdir :: "'w fs_ops \<Rightarrow> 'w \<Rightarrow> string \<Rightarrow> (bool \<times> 'w) res" where
  "Mkdir fs w dirname =
     (if fs_lstat fs w dirname \<noteq> None then Inr (True, w)
      else if dirname = [] then Inl Bad_Access
      else Inr (mkdir_loop fs w (slash_prefixes dirname @ [dirname])))"

text \<open>\<open>atoi\<close> of the C library; \<open>pid_t\<close> is 32 bits wide.\<close>

definition IsRunningPidfile :: "(string \<Rightarrow> int) \<Rightarrow> 'w fs_ops \<Rightarrow> 'w \<Rightarrow> string \<Rightarrow> bool" where
  "IsRunningPidfile atoi fs w pidfile =
     (if fs_lstat fs w pidfile = None then False
      else case fs_first_line fs w pidfile of None \<Rightarrow> False
      | Some line \<Rightarrow> if line = [] then False else \<not> (atoi line \<le> 1))"

definition Unlink :: "'w fs_ops \<Rightarrow> 'w \<Rightarrow> string \<Rightarrow> bool \<Rightarrow> bool \<times> 'w" where
  "Unlink fs w filename exist =
     (if \<not> exist \<and> fs_lstat fs w filename = None then (True, w) else fs_unlink fs w filename)"

text \<open>\<open>Rm\<close>, with a bound on the depth of the tree.  Every entry overwrites \<open>ret\<close>.\<close>

fun rm_entries ::
  "('w \<Rightarrow> string \<Rightarrow> (bool \<times> 'w) option) \<Rightarrow> 'w \<Rightarrow> string \<Rightarrow> bool \<Rightarrow> (string \<times> d_type) list \<Rightarrow> (bool \<times> 'w) option" where
  "rm_entries sub w path ret [] = Some (ret, w)"
| "rm_entries sub w path ret ((d_name, ty) # es) =
     (if dot_entry d_name then rm_entries sub w path ret es
      else case sub w (path @ ''/'' @ d_name) of None \<Rightarrow> None
      | Some (ret', w') \<Rightarrow> rm_entries sub w' path ret' es)"

fun Rm :: "nat \<Rightarrow> 'w fs_ops \<Rightarrow> 'w \<Rightarrow> string \<Rightarrow> (bool \<times> 'w) option" where
  "Rm 0 fs w path = None"
| "Rm (Suc depth) fs w path =
     (case fs_lstat fs w path of
        None \<Rightarrow> Some (True, w)
      | Some st_mode \<Rightarrow>
        if st_mode AND S_IFDIR = 0 then Some (Unlink fs w path False)
        else case fs_opendir fs w path of
          None \<Rightarrow> Some (False, w)
        | Some es \<Rightarrow>
          (case rm_entries (Rm depth fs) w path True es of
             None \<Rightarrow> None
           | Some (ret, w') \<Rightarrow>
             (case fs_rmdir fs w' path of (ok, w'') \<Rightarrow> Some (if ok then ret else False, w''))))"

definition Mv :: "nat \<Rightarrow> 'w fs_ops \<Rightarrow> 'w \<Rightarrow> string \<Rightarrow> string \<Rightarrow> (bool \<times> 'w) option" where
  "Mv depth fs w from to =
     (case Rm depth fs w to of None \<Rightarrow> None
      | Some (ok, w') \<Rightarrow> if \<not> ok then Some (False, w') else Some (fs_rename fs w' from to))"

definition Realpath :: "'w fs_ops \<Rightarrow> 'w \<Rightarrow> string \<Rightarrow> string \<Rightarrow> bool \<times> string" where
  "Realpath fs w path rpath =
     (if fs_lstat fs w path = None then (False, rpath)
      else case fs_realpath fs w path of None \<Rightarrow> (False, rpath) | Some p \<Rightarrow> (True, p))"

definition Symlink :: "nat \<Rightarrow> 'w fs_ops \<Rightarrow> 'w \<Rightarrow> string \<Rightarrow> string \<Rightarrow> (bool \<times> 'w) option" where
  "Symlink depth fs w from to =
     (case Rm depth fs w to of None \<Rightarrow> None
      | Some (ok, w') \<Rightarrow> if \<not> ok then Some (False, w') else Some (fs_symlink fs w' from to))"

definition OpenForRead :: "('w \<Rightarrow> string \<Rightarrow> bool \<times> 'w) \<Rightarrow> 'w \<Rightarrow> string \<Rightarrow> bool \<times> 'w" where
  "OpenForRead ifs_open w filename = ifs_open w filename"

definition OpenForWrite :: "'w fs_ops \<Rightarrow> 'w \<Rightarrow> string \<Rightarrow> (bool \<times> 'w) res" where
  "OpenForWrite fs w filename =
     (case fs_open_write fs w filename of
        (True, w') \<Rightarrow> Inr (True, w')
      | (False, w') \<Rightarrow>
        rbind (Mkdir fs w' (Dirname filename)) (\<lambda>(_, w''). Inr (fs_open_write fs w'' filename)))"

section \<open>File systems that keep directories\<close>

text \<open>
  Documented behaviour of \<open>mkdir(2)\<close> that \<open>Mkdir\<close> relies on: after success the directory is accessible,
  and nothing that was accessible stops being so.
\<close>

definition mkdir_ok :: "'w fs_ops \<Rightarrow> bool" where
  "mkdir_ok fs \<longleftrightarrow>
     (\<forall>w p w'. fs_mkdir fs w p = (True, w') \<longrightarrow> fs_access fs w' p) \<and>
     (\<forall>w p b w' q. fs_mkdir fs w p = (b, w') \<longrightarrow> fs_access fs w q \<longrightarrow> fs_access fs w' q)"

lemma mkdir_if_missing_ok:
  assumes "mkdir_ok fs" "mkdir_if_missing fs w p = (b, w')"
  shows "b \<Longrightarrow> fs_access fs w' p" "fs_access fs w q \<Longrightarrow> fs_access fs w' q"
  using assms by (auto simp: mkdir_if_missing_def mkdir_ok_def split: if_splits)

lemma mkdir_loop_ok:
  assumes "mkdir_ok fs" "mkdir_loop fs w ps = (b, w')"
  shows "(b \<longrightarrow> (\<forall>p \<in> set ps. fs_access fs w' p)) \<and> (\<forall>q. fs_access fs w q \<longrightarrow> fs_access fs w' q)"
  using assms(2)
proof (induction ps arbitrary: w)
  case (Cons p ps)
  obtain b1 w1 where one: "mkdir_if_missing fs w p = (b1, w1)" by fastforce
  note ok = mkdir_if_missing_ok [OF assms(1) one]
  show ?case
  proof (cases b1)
    case True
    then have "mkdir_loop fs w1 ps = (b, w')" using Cons.prems one by simp
    from Cons.IH [OF this] ok True show ?thesis by auto
  next
    case False
    then show ?thesis using Cons.prems one ok by auto
  qed
qed simp

lemma list_entries_files:
  assumes "\<And>p fs. sub p = Some fs \<Longrightarrow> \<forall>f \<in> set fs. \<exists>dir name. f = dir @ ''/'' @ name \<and> has_subfix subfix name"
    and "list_entries sub path subfix es = Some fs"
  shows "\<forall>f \<in> set fs. \<exists>dir name. f = dir @ ''/'' @ name \<and> has_subfix subfix name"
  using assms(2)
proof (induction es arbitrary: fs)
  case (Cons e es)
  obtain d_name ty where e: "e = (d_name, ty)" by fastforce
  obtain rest where rest: "list_entries sub path subfix es = Some rest"
    using Cons.prems e by (auto split: option.splits)
  note IH = Cons.IH [OF rest]
  show ?case
  proof (cases ty)
    case DT_DIR
    then show ?thesis
      using Cons.prems e rest IH assms(1) by (auto split: if_splits option.splits)
  next
    case DT_REG
    then show ?thesis
      using Cons.prems e rest IH by (auto split: if_splits) metis
  qed (use Cons.prems e rest IH in auto)
qed simp

lemma ListAllFile_files:
  "ListAllFile depth fs w path subfix = Some files \<Longrightarrow>
   \<forall>f \<in> set files. \<exists>dir name. f = dir @ ''/'' @ name \<and> has_subfix subfix name"
proof (induction depth arbitrary: path files)
  case (Suc depth)
  then show ?case
    by (auto split: if_splits option.splits dest!: list_entries_files [rotated])
qed simp

section \<open>Properties\<close>

text \<open>A file system that holds a list of directories and can make any other.\<close>

definition dirs_fs :: "string list fs_ops" where
  "dirs_fs = \<lparr>fs_lstat = (\<lambda>w p. if p \<in> set w then Some S_IFDIR else None),
     fs_access = (\<lambda>w p. p \<in> set w),
     fs_opendir = (\<lambda>w p. if p \<in> set w then Some [] else None),
     fs_mkdir = (\<lambda>w p. (True, p # w)), fs_unlink = (\<lambda>w p. (False, w)),
     fs_rmdir = (\<lambda>w p. (p \<in> set w, removeAll p w)), fs_rename = (\<lambda>w a b. (False, w)),
     fs_symlink = (\<lambda>w a b. (False, w)), fs_realpath = (\<lambda>w p. None),
     fs_first_line = (\<lambda>w p. None), fs_open_write = (\<lambda>w p. (False, w))\<rparr>"

lemma dirs_fs_ok: "mkdir_ok dirs_fs"
  by (simp add: mkdir_ok_def dirs_fs_def)

text \<open>
  when \<open>Mkdir\<close> of a missing path succeeds, the directory and every directory above it is accessible,
  and everything that was accessible before still is.
\<close>

theorem Mkdir_makes_parents:
  assumes "mkdir_ok fs" "fs_lstat fs w dirname = None" "Mkdir fs w dirname = Inr (True, w')"
  shows "fs_access fs w' dirname \<and> (\<forall>p \<in> set (slash_prefixes dirname). fs_access fs w' p) \<and>
    (\<forall>q. fs_access fs w q \<longrightarrow> fs_access fs w' q)"
proof -
  have "mkdir_loop fs w (slash_prefixes dirname @ [dirname]) = (True, w')"
    using assms(2,3) by (auto simp: Mkdir_def split: if_splits)
  from mkdir_loop_ok [OF assms(1) this] show ?thesis by auto
qed

lemma Mkdir_makes_parents_witness:
  "fs_access dirs_fs [''/a/b'', ''/a''] ''/a/b''"
proof -
  have "fs_lstat dirs_fs [] ''/a/b'' = None" by (simp add: dirs_fs_def)
  moreover have "Mkdir dirs_fs [] ''/a/b'' = Inr (True, [''/a/b'', ''/a''])" by code_simp
  ultimately show ?thesis using Mkdir_makes_parents [OF dirs_fs_ok] by blast
qed

section \<open>Where the code breaks\<close>

text \<open>\<open>Rm\<close> keeps only the result of the last entry.\<close>

lemma rm_entries_overwrites:
  assumes "sub w (path @ ''/a'') = Some (False, w1)" "sub w1 (path @ ''/b'') = Some (True, w2)"
  shows "rm_entries sub w path True [(''a'', DT_REG), (''b'', DT_REG)] = Some (True, w2)"
  using assms by (simp add: dot_entry_def)

text \<open>The mode of a socket has the bit of a directory: \<open>Rm\<close> tries to open it as one.\<close>

lemma socket_mode_is_dir: "(0xC000 :: u32) AND S_IFDIR \<noteq> 0"
  by (simp add: S_IFDIR_def)

lemma Mkdir_empty: "fs_lstat fs w [] = None \<Longrightarrow> Mkdir fs w [] = Inl Bad_Access"
  by (simp add: Mkdir_def)

end
