(* ===== verification/Json_Util.thy ===== *)
theory Json_Util
  imports HPGS_Prelude
begin

text \<open>
  \<open>src/util/json_util.cc\<close>: escaping of strings, and lookups with a default over the JSON library, whose
  value type and accessors are parameters.
\<close>

section \<open>Escaping\<close>

definition escaped :: "char \<Rightarrow> string option" where
  "escaped c =
     (if c = CHR 0x0C then Some [CHR 0x5C, CHR ''f'']
      else if c = CHR 0x09 then Some [CHR 0x5C, CHR ''t'']
      else if c = CHR 0x0A then Some [CHR 0x5C, CHR ''n'']
      else if c = CHR 0x0D then Some [CHR 0x5C, CHR ''r'']
      else if c = CHR 0x08 then Some [CHR 0x5C, CHR ''b'']
      else if c = CHR 0x22 then Some [CHR 0x5C, CHR 0x22]
      else if c = CHR 0x5C then Some [CHR 0x5C, CHR 0x5C]
      else None)"

fun NeedEscape :: "string \<Rightarrow> bool" where
  "NeedEscape [] = False"
| "NeedEscape (c # cs) = (if escaped c \<noteq> None then True else NeedEscape cs)"

text \<open>The first loop computes the size; \<open>rt.resize(size)\<close> fills the string with NULs, and the second
  loop appends behind them.\<close>

fun escape_size :: "string \<Rightarrow> nat" where
  "escape_size [] = 0"
| "escape_size (c # cs) = (if escaped c \<noteq> None then 2 else 1) + escape_size cs"

fun escape_append :: "string \<Rightarrow> string \<Rightarrow> string" where
  "escape_append rt [] = rt"
| "escape_append rt (c # cs) =
     escape_append (rt @ (case escaped c of Some e \<Rightarrow> e | None \<Rightarrow> [c])) cs"

definition Escape :: "string \<Rightarrow> string" where
  "Escape v =
     (if escape_size v = length v then v
      else escape_append (replicate (escape_size v) (CHR 0x00)) v)"

section \<open>Lookups\<close>

text \<open>The accessors of the JSON library that the lookups use.\<close>

record 'j json_api =
  isMember :: "'j \<Rightarrow> string \<Rightarrow> bool"
  member :: "'j \<Rightarrow> string \<Rightarrow> 'j"
  asString :: "'j \<Rightarrow> string option"
  asDouble :: "'j \<Rightarrow> u64 option"
  asInt :: "'j \<Rightarrow> u32 option"
  asUInt :: "'j \<Rightarrow> u32 option"
  asInt64 :: "'j \<Rightarrow> u64 option"
  asUInt64 :: "'j \<Rightarrow> u64 option"

text \<open>The common shape of the lookups: the member if there is one of the right kind, or the default.\<close>

definition json_get :: "('j json_api \<Rightarrow> 'j \<Rightarrow> 'a option) \<Rightarrow> 'j json_api \<Rightarrow> 'j \<Rightarrow> string \<Rightarrow> 'a \<Rightarrow> 'a" where
  "json_get as api json name default_value =
     (if \<not> isMember api json name then default_value
      else case as api (member api json name) of Some v \<Rightarrow> v | None \<Rightarrow> default_value)"

definition GetString :: "'j json_api \<Rightarrow> 'j \<Rightarrow> string \<Rightarrow> string \<Rightarrow> string" where
  "GetString api json name default_value = json_get asString api json name default_value"

definition GetDouble :: "'j json_api \<Rightarrow> 'j \<Rightarrow> string \<Rightarrow> u64 \<Rightarrow> u64" where
  "GetDouble api json name default_value = json_get asDouble api json name default_value"

definition GetInt32 :: "'j json_api \<Rightarrow> 'j \<Rightarrow> string \<Rightarrow> u32 \<Rightarrow> u32" where
  "GetInt32 api json name default_value = json_get asInt api json name default_value"

definition GetUInt32 :: "'j json_api \<Rightarrow> 'j \<Rightarrow> string \<Rightarrow> u32 \<Rightarrow> u32" where
  "GetUInt32 api json name default_value = json_get asUInt api json name default_value"

definition GetInt64 :: "'j json_api \<Rightarrow> 'j \<Rightarrow> string \<Rightarrow> u64 \<Rightarrow> u64" where
  "GetInt64 api json name default_value = json_get asInt64 api json name default_value"

definition GetUInt64 :: "'j json_api \<Rightarrow> 'j \<Rightarrow> string \<Rightarrow> u64 \<Rightarrow> u64" where
  "GetUInt64 api json name default_value = json_get asUInt64 api json name default_value"

section \<open>Facts\<close>

definition escape_char :: "char \<Rightarrow> string" where
  "escape_char c = (case escaped c of Some e \<Rightarrow> e | None \<Rightarrow> [c])"

lemma escape_append_concat: "escape_append rt v = rt @ concat (map escape_char v)"
  by (induction v arbitrary: rt) (simp_all add: escape_char_def)

lemma length_escape_char: "length (escape_char c) = (if escaped c \<noteq> None then 2 else 1)"
  by (auto simp: escape_char_def escaped_def)

lemma escape_size_length: "escape_size v = length (concat (map escape_char v))"
  by (induction v) (simp_all add: length_escape_char)

lemma escape_size_ge: "length v \<le> escape_size v"
  by (induction v) auto

lemma NeedEscape_size: "NeedEscape v \<longleftrightarrow> escape_size v \<noteq> length v"
proof (induction v)
  case (Cons c cs)
  then show ?case using escape_size_ge [of cs] by auto
qed simp

text \<open>
  What \<open>Escape\<close> returns: the text itself when nothing needs escaping; otherwise the escaped text behind
  as many NUL characters as it is long.
\<close>

lemma Escape_exact:
  "Escape v =
     (if NeedEscape v
      then replicate (length (concat (map escape_char v))) (CHR 0x00) @ concat (map escape_char v)
      else v)"
  by (simp add: Escape_def NeedEscape_size escape_append_concat escape_size_length)

text \<open>The reader and the writer of the library are parameters; a reader that fails may have changed the value.\<close>

definition FromString :: "(string \<Rightarrow> 'j \<Rightarrow> bool \<times> 'j) \<Rightarrow> 'j \<Rightarrow> string \<Rightarrow> bool \<times> 'j" where
  "FromString reader_parse json v = reader_parse v json"

definition ToString :: "('j \<Rightarrow> string) \<Rightarrow> 'j \<Rightarrow> string" where
  "ToString fast_write json = fast_write json"

end
