(* ===== verification/Env.thy ===== *)
theory Env
  imports Str_Util
begin

text \<open>
  The program environment (\<open>src/system/env.cc\<close>): command line arguments, help texts and paths.  The link
  that \<open>/proc\<close> gives for the executable, and \<open>setenv\<close>, are arguments.
\<close>

section \<open>State and operations\<close>

record env =
  m_args :: "string \<rightharpoonup> string"
  m_helps :: "(string \<times> string) list"
  m_program :: string
  m_exe :: string
  m_cwd :: string

definition env_add :: "string \<Rightarrow> string \<Rightarrow> env \<Rightarrow> env" where
  "env_add key val e = e\<lparr>m_args := (m_args e)(key \<mapsto> val)\<rparr>"

definition env_has :: "string \<Rightarrow> env \<Rightarrow> bool" where
  "env_has key e \<longleftrightarrow> m_args e key \<noteq> None"

definition env_del :: "string \<Rightarrow> env \<Rightarrow> env" where
  "env_del key e = e\<lparr>m_args := (m_args e)(key := None)\<rparr>"

definition env_get :: "string \<Rightarrow> string \<Rightarrow> env \<Rightarrow> string" where
  "env_get key default_value e = (case m_args e key of Some v \<Rightarrow> v | None \<Rightarrow> default_value)"

text \<open>\<open>argv[i][0]\<close> of an empty argument is its terminator, which is not \<open>-\<close>.\<close>

fun init_loop :: "string option \<Rightarrow> string list \<Rightarrow> env \<Rightarrow> bool \<times> env" where
  "init_loop now_key [] e =
     (True, case now_key of Some k \<Rightarrow> env_add k [] e | None \<Rightarrow> e)"
| "init_loop now_key (a # as) e =
     (if a \<noteq> [] \<and> hd a = CHR ''-'' then
        if length a > 1 then
          init_loop (Some (tl a)) as (case now_key of Some k \<Rightarrow> env_add k [] e | None \<Rightarrow> e)
        else (False, e)
      else (False, e))"

definition env_init :: "string option \<Rightarrow> string list \<Rightarrow> env \<Rightarrow> (bool \<times> env) res" where
  "env_init link argv e =
     (case link of None \<Rightarrow> Inr (False, e)
      | Some path \<Rightarrow>
        (case argv of [] \<Rightarrow> Inl Null_Deref
         | a0 # _ \<Rightarrow>
           let cwd = (case rfind CHR ''/'' path of Some pos \<Rightarrow> substr 0 pos path | None \<Rightarrow> path) @ ''/''
           in Inr (init_loop None argv (e\<lparr>m_exe := path, m_cwd := cwd, m_program := a0\<rparr>))))"

definition removeHelp :: "string \<Rightarrow> env \<Rightarrow> env" where
  "removeHelp key e = e\<lparr>m_helps := filter (\<lambda>h. fst h \<noteq> key) (m_helps e)\<rparr>"

definition addHelp :: "string \<Rightarrow> string \<Rightarrow> env \<Rightarrow> env" where
  "addHelp key desc e = (let e = removeHelp key e in e\<lparr>m_helps := m_helps e @ [(key, desc)]\<rparr>)"

text \<open>\<open>setw(5)\<close> pads the next output, the \<open>-\<close>, with blanks on the left.\<close>

definition printHelp :: "env \<Rightarrow> string" where
  "printHelp e =
     ''Usage: '' @ m_program e @ '' [option]'' @ [CHR 10] @
     concat (map (\<lambda>(k, d). ''    -'' @ k @ '':'' @ d @ [CHR 10]) (m_helps e))"

definition setEnv :: "('w \<Rightarrow> string \<Rightarrow> string \<Rightarrow> int \<times> 'w) \<Rightarrow> string \<Rightarrow> string \<Rightarrow> 'w \<Rightarrow> bool \<times> 'w" where
  "setEnv setenv key val w = (case setenv w key val of (r, w') \<Rightarrow> (r = 0, w'))"

definition getAbsolutePath :: "string \<Rightarrow> env \<Rightarrow> string" where
  "getAbsolutePath path e =
     (if path = [] then ''/'' else if hd path = CHR ''/'' then path else m_cwd e @ path)"

text \<open>\<open>server.work_path\<close> is looked up in the configuration; \<open>None\<close> when it is not registered, in which
  case the code dereferences a null pointer.\<close>

definition getAbsoluteWorkPath :: "string option \<Rightarrow> string \<Rightarrow> string res" where
  "getAbsoluteWorkPath work_path path =
     (if path = [] then Inr ''/''
      else if hd path = CHR ''/'' then Inr path
      else case work_path of None \<Rightarrow> Inl Null_Deref | Some wp \<Rightarrow> Inr (wp @ ''/'' @ path))"

definition getConfigPath :: "env \<Rightarrow> string" where
  "getConfigPath e = getAbsolutePath (env_get ''c'' ''conf'' e) e"

section \<open>Facts\<close>

definition is_flag :: "string \<Rightarrow> bool" where
  "is_flag a \<longleftrightarrow> a \<noteq> [] \<and> hd a = CHR ''-'' \<and> length a > 1"

lemma init_loop_ok:
  "\<forall>a \<in> set as. is_flag a \<Longrightarrow> fst (init_loop k as e) \<and>
   m_args (snd (init_loop k as e)) =
     (\<lambda>x. if x \<in> tl ` set as \<or> k = Some x then Some [] else m_args e x)"
proof (induction as arbitrary: k e)
  case Nil
  then show ?case by (auto simp: env_add_def fun_eq_iff split: option.splits)
next
  case (Cons a as)
  then show ?case
    using Cons.IH [of "Some (tl a)"]
    by (auto simp: is_flag_def env_add_def fun_eq_iff split: option.splits)
qed

lemma init_loop_bad: "\<exists>a \<in> set as. \<not> is_flag a \<Longrightarrow> \<not> fst (init_loop k as e)"
  by (induction as arbitrary: k e) (auto simp: is_flag_def)

section \<open>Properties\<close>

text \<open>
  \<open>Env::init\<close> succeeds exactly when every argument, the program name included, is a flag \<open>-name\<close>; then
  the flags, without their dash, are the arguments that \<open>has\<close> finds (with empty values) besides those
  added before.  A program started under an ordinary name therefore always gets \<open>false\<close>.
\<close>

theorem env_init_exact:
  assumes "argv \<noteq> []"
  shows "\<exists>ok e'. env_init (Some path) argv e = Inr (ok, e') \<and> (ok \<longleftrightarrow> list_all is_flag argv) \<and>
    m_program e' = hd argv \<and>
    (if ok then \<forall>k. env_has k e' \<longleftrightarrow> k \<in> tl ` set argv \<or> env_has k e else \<not> list_all is_flag argv)"
proof -
  let ?cwd = "(case rfind CHR ''/'' path of Some pos \<Rightarrow> substr 0 pos path | None \<Rightarrow> path) @ ''/''"
  let ?e = "e\<lparr>m_exe := path, m_cwd := ?cwd, m_program := hd argv\<rparr>"
  have keep: "m_program (snd (init_loop k as e)) = m_program e" for k as e
    by (induction k as e rule: init_loop.induct) (auto simp: env_add_def split: option.splits)
  have run: "env_init (Some path) argv e = Inr (init_loop None argv ?e)"
    using assms by (auto simp: env_init_def Let_def split: list.splits)
  obtain ok e' where r: "init_loop None argv ?e = (ok, e')" by fastforce
  show ?thesis
  proof (cases "list_all is_flag argv")
    case True
    then show ?thesis
      using run r init_loop_ok [of argv None ?e] keep [of None argv ?e]
      by (auto simp: list_all_iff env_has_def)
  next
    case False
    then show ?thesis
      using run r init_loop_bad [of argv None ?e] keep [of None argv ?e]
      by (auto simp: list_all_iff)
  qed
qed

lemma env_init_exact_witness:
  "\<exists>e'. env_init (Some ''/bin/server'') [''./server'', ''-d''] \<lparr>m_args = Map.empty, m_helps = [],
     m_program = [], m_exe = [], m_cwd = []\<rparr> = Inr (False, e')"
  using env_init_exact [of "[''./server'', ''-d'']" "''/bin/server''" "\<lparr>m_args = Map.empty, m_helps = [],
     m_program = [], m_exe = [], m_cwd = []\<rparr>"]
  by (auto simp: is_flag_def)

end
