(* ===== verification/Config.thy ===== *)
theory Config
  imports Str_Util "HOL-Library.AList"
begin

text \<open>
  The configuration system (\<open>include/system/config.h\<close>, \<open>src/system/config.cc\<close>): typed variables with
  change listeners, their registry, and loading from YAML.  The values of all types are one type \<open>'v\<close> and a
  variable carries the name of its type; parsing and printing of a type (\<open>FromStr\<close>, \<open>ToStr\<close>), and the
  printing and loading of YAML documents, are parameters.  Listeners are numbers and a call of one is an
  event of the result.
\<close>

section \<open>Variables\<close>

record 'v config_var =
  cv_name :: string
  cv_description :: string
  cv_type :: string
  cv_val :: 'v
  cv_cbs :: "(nat \<times> nat) list"

text \<open>A call of a listener: the listener, the old and the new value.\<close>

type_synonym 'v change = "nat \<times> 'v \<times> 'v"

definition ConfigVar_new :: "string \<Rightarrow> string \<Rightarrow> 'v \<Rightarrow> string \<Rightarrow> 'v config_var" where
  "ConfigVar_new ty name default_value description =
     \<lparr>cv_name = ToLower name, cv_description = description, cv_type = ty, cv_val = default_value,
      cv_cbs = []\<rparr>"

text \<open>The parsers and printers, by type name; \<open>None\<close> is a \<open>std::exception\<close>.\<close>

record 'v casts =
  FromStr :: "string \<Rightarrow> string \<Rightarrow> 'v option"
  ToStr :: "string \<Rightarrow> 'v \<Rightarrow> string option"

definition setValue :: "'v \<Rightarrow> 'v config_var \<Rightarrow> 'v config_var \<times> 'v change list" where
  "setValue v cv =
     (if v = cv_val cv then (cv, [])
      else (cv\<lparr>cv_val := v\<rparr>, map (\<lambda>(key, cb). (cb, cv_val cv, v)) (cv_cbs cv)))"

definition cv_toString :: "'v casts \<Rightarrow> 'v config_var \<Rightarrow> string" where
  "cv_toString casts cv = (case ToStr casts (cv_type cv) (cv_val cv) of Some s \<Rightarrow> s | None \<Rightarrow> [])"

definition cv_fromString ::
  "'v casts \<Rightarrow> string \<Rightarrow> 'v config_var \<Rightarrow> bool \<times> 'v config_var \<times> 'v change list" where
  "cv_fromString casts val cv =
     (case FromStr casts (cv_type cv) val of
        None \<Rightarrow> (False, cv, [])
      | Some v \<Rightarrow> (True, setValue v cv))"

text \<open>The map of listeners is ordered by key; the keys are handed out by a counter (\<open>s_fun_id\<close>, one for
  each type), so a new key is greater than all before.\<close>

definition addListener :: "nat \<Rightarrow> nat \<Rightarrow> 'v config_var \<Rightarrow> nat \<times> nat \<times> 'v config_var" where
  "addListener s_fun_id cb cv =
     (let s_fun_id = s_fun_id + 1
      in (s_fun_id, s_fun_id, cv\<lparr>cv_cbs := AList.update s_fun_id cb (cv_cbs cv)\<rparr>))"

definition delListener :: "nat \<Rightarrow> 'v config_var \<Rightarrow> 'v config_var" where
  "delListener key cv = cv\<lparr>cv_cbs := AList.delete key (cv_cbs cv)\<rparr>"

definition getListener :: "nat \<Rightarrow> 'v config_var \<Rightarrow> nat option" where
  "getListener key cv = map_of (cv_cbs cv) key"

definition clearListener :: "'v config_var \<Rightarrow> 'v config_var" where
  "clearListener cv = cv\<lparr>cv_cbs := []\<rparr>"

section \<open>YAML documents and container casts\<close>

datatype yaml = YNull | YScalar string | YSeq "yaml list" | YMap "(yaml \<times> yaml) list"

text \<open>\<open>Node::Scalar()\<close> of anything but a scalar is empty; \<open>Node::size()\<close> counts the entries.\<close>

fun Scalar :: "yaml \<Rightarrow> string" where
  "Scalar (YScalar s) = s"
| "Scalar _ = []"

fun node_size :: "yaml \<Rightarrow> nat" where
  "node_size (YSeq ns) = length ns"
| "node_size (YMap es) = length es"
| "node_size _ = 0"

record yaml_lib =
  yaml_load :: "string \<Rightarrow> yaml option"
  yaml_emit :: "yaml \<Rightarrow> string"
  yaml_index :: "yaml \<Rightarrow> nat \<Rightarrow> yaml"

fun those_map :: "('a \<Rightarrow> 'b option) \<Rightarrow> 'a list \<Rightarrow> 'b list option" where
  "those_map f [] = Some []"
| "those_map f (x # xs) =
     (case f x of None \<Rightarrow> None | Some y \<Rightarrow> map_option (Cons y) (those_map f xs))"

text \<open>\<open>LexicalCast\<close> from a string to a \<open>vector\<close> and back, and the same for a \<open>list\<close>, given the cast of the elements.\<close>

definition cast_to_seq :: "yaml_lib \<Rightarrow> (string \<Rightarrow> 'a option) \<Rightarrow> string \<Rightarrow> 'a list option" where
  "cast_to_seq yl elem v =
     (case yaml_load yl v of None \<Rightarrow> None
      | Some node \<Rightarrow> those_map (\<lambda>i. elem (yaml_emit yl (yaml_index yl node i))) [0..<node_size node])"

definition cast_from_seq :: "yaml_lib \<Rightarrow> ('a \<Rightarrow> string option) \<Rightarrow> 'a list \<Rightarrow> string option" where
  "cast_from_seq yl elem v =
     (case those_map (\<lambda>i. case elem i of None \<Rightarrow> None | Some s \<Rightarrow> yaml_load yl s) v of
        None \<Rightarrow> None | Some ns \<Rightarrow> Some (yaml_emit yl (YSeq ns)))"

definition cast_to_list :: "yaml_lib \<Rightarrow> (string \<Rightarrow> 'a option) \<Rightarrow> string \<Rightarrow> 'a list option" where
  "cast_to_list yl elem v =
     (case yaml_load yl v of None \<Rightarrow> None
      | Some node \<Rightarrow> those_map (\<lambda>i. elem (yaml_emit yl (yaml_index yl node i))) [0..<node_size node])"

definition cast_from_list :: "yaml_lib \<Rightarrow> ('a \<Rightarrow> string option) \<Rightarrow> 'a list \<Rightarrow> string option" where
  "cast_from_list yl elem v =
     (case those_map (\<lambda>i. case elem i of None \<Rightarrow> None | Some s \<Rightarrow> yaml_load yl s) v of
        None \<Rightarrow> None | Some ns \<Rightarrow> Some (yaml_emit yl (YSeq ns)))"

text \<open>A \<open>std::set\<close> is visited in its order.  (The cast to a set declares a \<open>std::list\<close> as its result and cannot be instantiated.)\<close>

definition cast_from_set :: "yaml_lib \<Rightarrow> ('a::linorder \<Rightarrow> string option) \<Rightarrow> 'a set \<Rightarrow> string option" where
  "cast_from_set yl elem v =
     (case those_map (\<lambda>i. case elem i of None \<Rightarrow> None | Some s \<Rightarrow> yaml_load yl s) (sorted_list_of_set v) of
        None \<Rightarrow> None | Some ns \<Rightarrow> Some (yaml_emit yl (YSeq ns)))"

text \<open>From a string to a \<open>map\<close>: \<open>insert\<close> keeps the first value of a key.\<close>

fun map_entries :: "yaml \<Rightarrow> (yaml \<times> yaml) list" where
  "map_entries (YMap es) = es"
| "map_entries _ = []"

definition insert_new :: "('k \<times> 'a) list \<Rightarrow> 'k \<times> 'a \<Rightarrow> ('k \<times> 'a) list" where
  "insert_new m kv = (if map_of m (fst kv) = None then m @ [kv] else m)"

definition cast_to_map :: "yaml_lib \<Rightarrow> (string \<Rightarrow> 'a option) \<Rightarrow> string \<Rightarrow> (string \<times> 'a) list option" where
  "cast_to_map yl elem v =
     (case yaml_load yl v of None \<Rightarrow> None
      | Some node \<Rightarrow>
        map_option (foldl insert_new [])
          (those_map (\<lambda>(k, n). map_option (Pair (Scalar k)) (elem (yaml_emit yl n))) (map_entries node)))"

definition cast_from_map :: "yaml_lib \<Rightarrow> ('a \<Rightarrow> string option) \<Rightarrow> (string \<times> 'a) list \<Rightarrow> string option" where
  "cast_from_map yl elem v =
     (case those_map (\<lambda>(k, x). case elem x of None \<Rightarrow> None
        | Some s \<Rightarrow> map_option (Pair (YScalar k)) (yaml_load yl s)) v of
        None \<Rightarrow> None | Some es \<Rightarrow> Some (yaml_emit yl (YMap es)))"

section \<open>The registry\<close>

type_synonym 'v datas = "string \<rightharpoonup> 'v config_var"

definition LookupBase :: "'v datas \<Rightarrow> string \<Rightarrow> 'v config_var option" where
  "LookupBase ds name = ds name"

definition lookup_chars :: string where
  "lookup_chars = ''abcdefghijklmnopqrstuvwxyzABCDEFGHIJKLMNOPQRSTUVWXYZ._0123456789''"

definition member_chars :: string where
  "member_chars = ''abcdefghijklmnopqrstuvwxyz._0123456789''"

text \<open>\<open>Lookup\<close> with a default: the variable (\<open>None\<close> is the null pointer) and the registry.\<close>

definition Lookup_default ::
  "string \<Rightarrow> string \<Rightarrow> 'v \<Rightarrow> string \<Rightarrow> 'v datas \<Rightarrow> ('v config_var option \<times> 'v datas) res" where
  "Lookup_default ty name default_value description ds =
     (case ds name of
        Some cv \<Rightarrow> if cv_type cv = ty then Inr (Some cv, ds) else Inr (None, ds)
      | None \<Rightarrow>
        if find_first_not_of name lookup_chars \<noteq> None then Inl Invalid_Argument
        else
          let v = ConfigVar_new ty name default_value description
          in Inr (Some v, ds(name \<mapsto> v)))"

definition Lookup :: "string \<Rightarrow> string \<Rightarrow> 'v datas \<Rightarrow> 'v config_var option" where
  "Lookup ty name ds =
     (case ds name of None \<Rightarrow> None | Some cv \<Rightarrow> if cv_type cv = ty then Some cv else None)"

section \<open>Loading\<close>

fun ListAllMember :: "string \<Rightarrow> yaml \<Rightarrow> (string \<times> yaml) list"
  and ListMembers :: "string \<Rightarrow> (yaml \<times> yaml) list \<Rightarrow> (string \<times> yaml) list" where
  "ListAllMember prefix node =
     (if find_first_not_of prefix member_chars \<noteq> None then []
      else (prefix, node) # (case node of YMap es \<Rightarrow> ListMembers prefix es | _ \<Rightarrow> []))"
| "ListMembers prefix [] = []"
| "ListMembers prefix ((k, n) # es) =
     ListAllMember (if prefix = [] then Scalar k else prefix @ ''.'' @ Scalar k) n @ ListMembers prefix es"

declare ListAllMember.simps [simp del]

definition load_one ::
  "'v casts \<Rightarrow> (yaml \<Rightarrow> string) \<Rightarrow> string \<times> yaml \<Rightarrow> 'v datas \<Rightarrow> 'v datas \<times> (string \<times> 'v change) list" where
  "load_one casts emit i ds =
     (if fst i = [] then (ds, [])
      else
        let key = ToLower (fst i) in
        (case LookupBase ds key of None \<Rightarrow> (ds, [])
         | Some cv \<Rightarrow>
           let val = (case snd i of YScalar s \<Rightarrow> s | node \<Rightarrow> emit node);
               (ok, cv', evs) = cv_fromString casts val cv
           in (ds(key \<mapsto> cv'), map (Pair key) evs)))"

fun load_all ::
  "'v casts \<Rightarrow> (yaml \<Rightarrow> string) \<Rightarrow> (string \<times> yaml) list \<Rightarrow> 'v datas \<Rightarrow>
   'v datas \<times> (string \<times> 'v change) list" where
  "load_all casts emit [] ds = (ds, [])"
| "load_all casts emit (i # is) ds =
     (let (ds1, evs1) = load_one casts emit i ds; (ds2, evs2) = load_all casts emit is ds1
      in (ds2, evs1 @ evs2))"

definition LoadFromYaml ::
  "'v casts \<Rightarrow> (yaml \<Rightarrow> string) \<Rightarrow> yaml \<Rightarrow> 'v datas \<Rightarrow> 'v datas \<times> (string \<times> 'v change) list" where
  "LoadFromYaml casts emit root ds = load_all casts emit (ListAllMember [] root) ds"

text \<open>
  \<open>LoadFromConfDir\<close>: \<open>mtime\<close> and \<open>load_file\<close> stand for \<open>lstat\<close> and \<open>YAML::LoadFile\<close> (\<open>None\<close> when it throws);
  \<open>seen\<close> is \<open>s_file2modifytime\<close>.  The call that would list the files is commented out in the source, so
  the caller's directory has no influence and no file is ever read.
\<close>

fun load_files ::
  "'v casts \<Rightarrow> (yaml \<Rightarrow> string) \<Rightarrow> (string \<Rightarrow> nat) \<Rightarrow> (string \<Rightarrow> yaml option) \<Rightarrow> bool \<Rightarrow> string list \<Rightarrow>
   (string \<rightharpoonup> nat) \<Rightarrow> 'v datas \<Rightarrow> (string \<rightharpoonup> nat) \<times> 'v datas" where
  "load_files casts emit mtime load_file force [] seen ds = (seen, ds)"
| "load_files casts emit mtime load_file force (i # is) seen ds =
     (if \<not> force \<and> (case seen i of Some t \<Rightarrow> t | None \<Rightarrow> 0) = mtime i
      then load_files casts emit mtime load_file force is (seen(i \<mapsto> (case seen i of Some t \<Rightarrow> t | None \<Rightarrow> 0))) ds
      else load_files casts emit mtime load_file force is (seen(i \<mapsto> mtime i))
        (case load_file i of None \<Rightarrow> ds | Some root \<Rightarrow> fst (LoadFromYaml casts emit root ds)))"

definition LoadFromConfDir ::
  "'v casts \<Rightarrow> (yaml \<Rightarrow> string) \<Rightarrow> (string \<Rightarrow> nat) \<Rightarrow> (string \<Rightarrow> yaml option) \<Rightarrow> string \<Rightarrow> bool \<Rightarrow>
   (string \<rightharpoonup> nat) \<Rightarrow> 'v datas \<Rightarrow> (string \<rightharpoonup> nat) \<times> 'v datas" where
  "LoadFromConfDir casts emit mtime load_file path force seen ds =
     load_files casts emit mtime load_file force [] seen ds"

text \<open>\<open>Visit\<close>; \<open>names\<close> are the keys of the map in their order.\<close>

definition Visit :: "('v config_var \<Rightarrow> 'w \<Rightarrow> 'w) \<Rightarrow> string list \<Rightarrow> 'v datas \<Rightarrow> 'w \<Rightarrow> 'w" where
  "Visit cb names ds w = fold (\<lambda>name w. case ds name of None \<Rightarrow> w | Some var \<Rightarrow> cb var w) names w"

end
