(* ===== verification/Config_Props.thy ===== *)
theory Config_Props
  imports Config
begin

text \<open>
  What loading a configuration does to the registered variables and their listeners, and what the
  registry promises.
\<close>

section \<open>Changes of one variable\<close>

text \<open>A sequence of changes that starts at one value, ends at another, and never leaves a value as it is.\<close>

fun chain :: "'v \<Rightarrow> ('v \<times> 'v) list \<Rightarrow> 'v \<Rightarrow> bool" where
  "chain a [] b \<longleftrightarrow> a = b"
| "chain a ((old, new) # cs) b \<longleftrightarrow> old = a \<and> old \<noteq> new \<and> chain new cs b"

lemma chain_append: "chain a cs b \<Longrightarrow> chain b ds c \<Longrightarrow> chain a (cs @ ds) c"
  by (induction a cs b rule: chain.induct) auto

text \<open>What the listeners of a variable hear of a sequence of changes.\<close>

definition heard :: "'v config_var \<Rightarrow> ('v \<times> 'v) list \<Rightarrow> 'v change list" where
  "heard cv cs = concat (map (\<lambda>(old, new). map (\<lambda>(key, cb). (cb, old, new)) (cv_cbs cv)) cs)"

lemma heard_append: "heard cv (cs @ ds) = heard cv cs @ heard cv ds"
  by (simp add: heard_def)

definition events_of :: "string \<Rightarrow> (string \<times> 'v change) list \<Rightarrow> 'v change list" where
  "events_of k evs = map snd (filter (\<lambda>e. fst e = k) evs)"

lemma events_of_append: "events_of k (xs @ ys) = events_of k xs @ events_of k ys"
  by (simp add: events_of_def)

lemma events_of_Pair: "events_of k (map (Pair j) xs) = (if j = k then xs else [])"
  by (induction xs) (auto simp: events_of_def)

text \<open>Nothing but the value changes, along a chain that the listeners hear.\<close>

definition updates :: "'v config_var \<Rightarrow> 'v change list \<Rightarrow> 'v config_var \<Rightarrow> bool" where
  "updates cv evs cv' \<longleftrightarrow> cv' = cv\<lparr>cv_val := cv_val cv'\<rparr> \<and>
     (\<exists>cs. chain (cv_val cv) cs (cv_val cv') \<and> evs = heard cv cs)"

lemma updates_refl: "updates cv [] cv"
  by (auto simp: updates_def heard_def intro!: exI [of _ "[]"])

lemma updates_trans:
  assumes "updates cv xs cv1" "updates cv1 ys cv2"
  shows "updates cv (xs @ ys) cv2"
proof -
  obtain cs where cs: "cv1 = cv\<lparr>cv_val := cv_val cv1\<rparr>" "chain (cv_val cv) cs (cv_val cv1)" "xs = heard cv cs"
    using assms(1) by (auto simp: updates_def)
  obtain ds where ds: "cv2 = cv1\<lparr>cv_val := cv_val cv2\<rparr>" "chain (cv_val cv1) ds (cv_val cv2)" "ys = heard cv1 ds"
    using assms(2) by (auto simp: updates_def)
  have "cv_cbs cv1 = cv_cbs cv" using cs(1) by (metis config_var.select_convs(5) config_var.surjective config_var.update_convs(4))
  then have "ys = heard cv ds" using ds(3) by (simp add: heard_def)
  moreover have "cv2 = cv\<lparr>cv_val := cv_val cv2\<rparr>" using cs(1) ds(1) by (metis config_var.surjective config_var.update_convs(4))
  ultimately show ?thesis
    using cs ds chain_append [OF cs(2) ds(2)] by (auto simp: updates_def heard_append intro!: exI [of _ "cs @ ds"])
qed

lemma setValue_updates: "setValue v cv = (cv', evs) \<Longrightarrow> updates cv evs cv' \<and> cv_val cv' = v"
proof (cases "v = cv_val cv")
  case True
  then show "setValue v cv = (cv', evs) \<Longrightarrow> ?thesis" by (auto simp: setValue_def updates_refl)
next
  case False
  then show "setValue v cv = (cv', evs) \<Longrightarrow> ?thesis"
    by (auto simp: setValue_def updates_def heard_def intro!: exI [of _ "[(cv_val cv, v)]"])
qed

lemma fromString_updates:
  "cv_fromString casts val cv = (ok, cv', evs) \<Longrightarrow> updates cv evs cv' \<and>
   (FromStr casts (cv_type cv) val = Some v \<longrightarrow> cv_val cv' = v)"
  using setValue_updates [of _ cv cv' evs]
  by (fastforce simp: cv_fromString_def updates_refl split: option.splits)

section \<open>Loading\<close>

definition node_text :: "(yaml \<Rightarrow> string) \<Rightarrow> yaml \<Rightarrow> string" where
  "node_text emit node = (case node of YScalar s \<Rightarrow> s | n \<Rightarrow> emit n)"

lemma load_one_other:
  assumes "load_one casts emit i ds = (ds', evs)" "fst i = [] \<or> ToLower (fst i) \<noteq> k"
  shows "ds' k = ds k" "events_of k evs = []"
  using assms
  by (auto simp: load_one_def Let_def LookupBase_def events_of_Pair events_of_def split: if_splits option.splits prod.splits)

lemma load_one_key:
  assumes "load_one casts emit i ds = (ds', evs)" "ds k = Some cv" "fst i \<noteq> []" "ToLower (fst i) = k"
  shows "\<exists>cv'. ds' k = Some cv' \<and> updates cv (events_of k evs) cv' \<and>
    (\<forall>v. FromStr casts (cv_type cv) (node_text emit (snd i)) = Some v \<longrightarrow> cv_val cv' = v)"
proof -
  obtain ok cv' es where f: "cv_fromString casts (node_text emit (snd i)) cv = (ok, cv', es)"
    by (cases "cv_fromString casts (node_text emit (snd i)) cv") auto
  have "ds' = ds(k \<mapsto> cv')" "evs = map (Pair k) es"
    using assms f by (auto simp: load_one_def Let_def LookupBase_def node_text_def)
  then show ?thesis using fromString_updates [OF f] by (auto simp: events_of_Pair)
qed

lemma load_all_key:
  assumes "load_all casts emit is ds = (ds', evs)" "ds k = Some cv"
  shows "\<exists>cv'. ds' k = Some cv' \<and> updates cv (events_of k evs) cv'"
  using assms
proof (induction "is" arbitrary: ds cv evs)
  case Nil
  then show ?case by (auto simp: updates_refl events_of_def)
next
  case (Cons i "is")
  obtain ds1 evs1 where one: "load_one casts emit i ds = (ds1, evs1)" by fastforce
  obtain evs2 where rest: "load_all casts emit is ds1 = (ds', evs2)" "evs = evs1 @ evs2"
    using Cons.prems(1) one by (auto split: prod.splits)
  obtain cv1 where cv1: "ds1 k = Some cv1" "updates cv (events_of k evs1) cv1"
  proof (cases "fst i = [] \<or> ToLower (fst i) \<noteq> k")
    case True
    then show ?thesis using load_one_other [OF one True] Cons.prems(2) that updates_refl by metis
  next
    case False
    then show ?thesis using load_one_key [OF one Cons.prems(2)] that by blast
  qed
  from Cons.IH [OF rest(1) cv1(1)] updates_trans [OF cv1(2)] rest(2) show ?case
    by (auto simp: events_of_append)
qed

lemma load_all_other:
  assumes "load_all casts emit is ds = (ds', evs)" "\<forall>i \<in> set is. fst i = [] \<or> ToLower (fst i) \<noteq> k"
  shows "ds' k = ds k"
  using assms
proof (induction "is" arbitrary: ds evs)
  case (Cons i "is")
  obtain ds1 evs1 where one: "load_one casts emit i ds = (ds1, evs1)" by fastforce
  obtain evs2 where "load_all casts emit is ds1 = (ds', evs2)"
    using Cons.prems(1) one by (auto split: prod.splits)
  then show ?case using Cons load_one_other(1) [OF one, of k] by auto
qed auto

lemma load_all_append:
  "load_all casts emit (is @ js) ds =
    (let (ds1, evs1) = load_all casts emit is ds; (ds2, evs2) = load_all casts emit js ds1
     in (ds2, evs1 @ evs2))"
  by (induction "is" arbitrary: ds) (auto simp: Let_def split: prod.splits)

lemma updates_type: "updates cv evs cv' \<Longrightarrow> cv_type cv' = cv_type cv"
  unfolding updates_def by (metis config_var.select_convs(3) config_var.surjective config_var.update_convs(4))

lemma tolower_lower: "tolower (tolower c) = tolower c"
  by (auto simp: tolower_def)

lemma upper_not_lower: "65 \<le> char_code c \<Longrightarrow> char_code c \<le> 90 \<Longrightarrow> tolower c \<noteq> c"
  by (auto simp: tolower_def dest!: arg_cong [of _ _ char_code])

section \<open>Properties\<close>


text \<open>A registry with one variable of a type whose values are strings.\<close>

definition string_casts :: "string casts" where
  "string_casts = \<lparr>FromStr = (\<lambda>ty s. Some s), ToStr = (\<lambda>ty s. Some s)\<rparr>"

definition one_var :: "string datas" where
  "one_var = [''log.level'' \<mapsto> \<lparr>cv_name = ''log.level'', cv_description = [], cv_type = ''s'',
     cv_val = ''info'', cv_cbs = [(1, 7)]\<rparr>]"

definition one_doc :: yaml where
  "one_doc = YMap [(YScalar ''log'', YMap [(YScalar ''level'', YScalar ''debug'')])]"

lemma one_doc_members:
  "ListAllMember [] one_doc =
    [([], one_doc), (''log'', YMap [(YScalar ''level'', YScalar ''debug'')]), (''log.level'', YScalar ''debug'')]"
  by code_simp


text \<open>
  the last entry of a document for a variable decides.  If the members of the document list a name
  whose lower case is the key of a registered variable, with a text that its type accepts, and no
  later member has that name, the variable has that value afterwards.
\<close>

theorem load_last_wins:
  assumes "ListAllMember [] root = xs @ (p, node) # ys" "p \<noteq> []" "ds (ToLower p) = Some cv"
    and "\<forall>i \<in> set ys. ToLower (fst i) \<noteq> ToLower p"
    and "FromStr casts (cv_type cv) (node_text emit node) = Some v"
  shows "\<exists>cv'. fst (LoadFromYaml casts emit root ds) (ToLower p) = Some cv' \<and> cv_val cv' = v"
proof -
  let ?k = "ToLower p"
  obtain ds1 evs1 where l1: "load_all casts emit xs ds = (ds1, evs1)" by fastforce
  obtain cv1 where cv1: "ds1 ?k = Some cv1" "updates cv (events_of ?k evs1) cv1"
    using load_all_key [OF l1 assms(3)] by blast
  obtain ds2 evs2 where l2: "load_one casts emit (p, node) ds1 = (ds2, evs2)" by fastforce
  obtain cv2 where cv2: "ds2 ?k = Some cv2" "cv_val cv2 = v"
    using load_one_key [OF l2 cv1(1)] assms(2,5) updates_type [OF cv1(2)] by auto
  obtain ds3 evs3 where l3: "load_all casts emit ys ds2 = (ds3, evs3)" by fastforce
  have "ds3 ?k = ds2 ?k" using load_all_other [OF l3, of ?k] assms(4) by auto
  moreover have "fst (LoadFromYaml casts emit root ds) = ds3"
    by (simp add: LoadFromYaml_def assms(1) load_all_append l1 l2 l3)
  ultimately show ?thesis using cv2 by auto
qed

lemma load_last_wins_witness:
  "\<exists>cv'. fst (LoadFromYaml string_casts Scalar one_doc one_var) (ToLower ''log.level'') = Some cv' \<and>
    cv_val cv' = ''debug''"
proof (rule load_last_wins [of one_doc
      "[([], one_doc), (''log'', YMap [(YScalar ''level'', YScalar ''debug'')])]" _ "YScalar ''debug''" "[]"])
  have lower: "ToLower ''log.level'' = ''log.level''" by code_simp
  show "one_var (ToLower ''log.level'') = Some \<lparr>cv_name = ''log.level'', cv_description = [],
      cv_type = ''s'', cv_val = ''info'', cv_cbs = [(1, 7)]\<rparr>"
    by (simp add: one_var_def lower)
qed (simp_all add: one_doc_members string_casts_def node_text_def)

text \<open>
  The registry.  \<open>Lookup\<close> with a default either returns the variable registered under the name, or
  null (changing nothing) when its type differs, or throws \<open>invalid_argument\<close> (changing nothing) when the
  name is new and has a character outside \<open>[0-9a-zA-Z._]\<close>, or registers a new variable with the default,
  which every later \<open>Lookup\<close> of that name and type returns.
\<close>

lemma lookup_registry:
  "case Lookup_default ty name dv desc ds of
     Inl e \<Rightarrow> e = Invalid_Argument \<and> ds name = None \<and> \<not> set name \<subseteq> set lookup_chars
   | Inr (None, ds') \<Rightarrow> ds' = ds \<and> (\<exists>cv. ds name = Some cv \<and> cv_type cv \<noteq> ty)
   | Inr (Some cv, ds') \<Rightarrow>
       Lookup ty name ds' = Some cv \<and> (\<forall>n. n \<noteq> name \<longrightarrow> ds' n = ds n) \<and>
       (if ds name = None then set name \<subseteq> set lookup_chars \<and> cv_val cv = dv \<and> cv_cbs cv = [] else ds' = ds)"
proof (cases "ds name")
  case None
  have "find_first_not_of name lookup_chars = None \<longleftrightarrow> set name \<subseteq> set lookup_chars"
    by (auto simp: find_first_not_of_def find_index_None)
  then show ?thesis
    using None by (auto simp: Lookup_default_def Lookup_def Let_def ConfigVar_new_def)
next
  case (Some cv)
  then show ?thesis by (auto simp: Lookup_default_def Lookup_def)
qed

lemma lookup_registry_witness:
  "Lookup_default ''i'' ''a b'' (0 :: int) [] Map.empty = Inl Invalid_Argument"
proof -
  have "\<not> set ''a b'' \<subseteq> set lookup_chars" by (simp add: lookup_chars_def)
  then show ?thesis
    using lookup_registry [where ty = "''i''" and name = "''a b''" and dv = "0 :: int" and desc = "[]" and ds = Map.empty]
    by (auto split: sum.splits option.splits prod.splits)
qed

section \<open>Where the code breaks\<close>

text \<open>\<open>Lookup\<close> accepts upper-case names, but loading looks for lower-case keys only: a variable
  registered under a name with an upper-case letter keeps its value whatever document is loaded.\<close>

lemma upper_case_never_loaded:
  assumes "\<exists>c \<in> set k. 65 \<le> char_code c \<and> char_code c \<le> 90"
  shows "fst (LoadFromYaml casts emit root ds) k = ds k"
proof -
  have "ToLower p \<noteq> k" for p
  proof
    assume "ToLower p = k"
    then have "\<forall>c \<in> set k. tolower c = c"
      by (auto simp: ToLower_def tolower_lower)
    then show False using assms upper_not_lower by blast
  qed
  then show ?thesis
    using load_all_other [of casts emit "ListAllMember [] root" ds _ _ k]
    by (cases "load_all casts emit (ListAllMember [] root) ds") (auto simp: LoadFromYaml_def)
qed

text \<open>No directory is ever loaded.\<close>

lemma conf_dir_ignored: "LoadFromConfDir casts emit mtime load_file path force seen ds = (seen, ds)"
  by (simp add: LoadFromConfDir_def)

end
