(* ===== verification/Log_Format.thy ===== *)
theory Log_Format
  imports Str_Props
begin

text \<open>
  Log levels, events and the pattern formatter (\<open>src/system/log.cc\<close>).  The parser of \<open>LogFormatter::init\<close>
  walks over the pattern; here its position is the rest of the pattern, and the strings it cuts out with
  \<open>substr\<close> are accumulated on the way.
\<close>

section \<open>Levels\<close>

datatype level = UNKNOW | DEBUG | INFO | WARNING | ERROR | FATAL

primrec level_num :: "level \<Rightarrow> nat" where
  "level_num UNKNOW = 0"
| "level_num DEBUG = 1"
| "level_num INFO = 2"
| "level_num WARNING = 3"
| "level_num ERROR = 4"
| "level_num FATAL = 5"

instantiation level :: linorder
begin

definition less_eq_level :: "level \<Rightarrow> level \<Rightarrow> bool" where
  "less_eq_level a b \<longleftrightarrow> level_num a \<le> level_num b"

definition less_level :: "level \<Rightarrow> level \<Rightarrow> bool" where
  "less_level a b \<longleftrightarrow> level_num a < level_num b"

instance
proof
  fix a b :: level
  show "a \<le> b \<Longrightarrow> b \<le> a \<Longrightarrow> a = b"
    by (cases a; cases b) (simp_all add: less_eq_level_def)
qed (auto simp: less_eq_level_def less_level_def)

end

primrec LogLevel_ToString :: "level \<Rightarrow> string" where
  "LogLevel_ToString DEBUG = ''DEBUG''"
| "LogLevel_ToString INFO = ''INFO''"
| "LogLevel_ToString WARNING = ''WARNING''"
| "LogLevel_ToString ERROR = ''ERROR''"
| "LogLevel_ToString FATAL = ''FATAL''"
| "LogLevel_ToString UNKNOW = ''UNKNOW''"

definition LogLevel_FromString :: "string \<Rightarrow> level" where
  "LogLevel_FromString str =
     (if str = ''debug'' then DEBUG else if str = ''info'' then INFO
      else if str = ''warning'' then WARNING else if str = ''error'' then ERROR
      else if str = ''fatal'' then FATAL
      else if str = ''DEBUG'' then DEBUG else if str = ''INFO'' then INFO
      else if str = ''WARNING'' then WARNING else if str = ''ERROR'' then ERROR
      else if str = ''FATAL'' then FATAL else UNKNOW)"

section \<open>Events\<close>

text \<open>\<open>ev_ss\<close> is what has been streamed into the event; \<open>getContent\<close> reads it, \<open>setContent\<close> sets another
  member that nothing reads.\<close>

record log_event =
  ev_file :: string
  ev_line :: int
  ev_elapse :: u32
  ev_threadId :: u32
  ev_fibreId :: u32
  ev_time :: u64
  ev_threadName :: string
  ev_content :: string
  ev_level :: level
  ev_ss :: string

definition LogEvent_new ::
  "level \<Rightarrow> string \<Rightarrow> int \<Rightarrow> u32 \<Rightarrow> u32 \<Rightarrow> u32 \<Rightarrow> u64 \<Rightarrow> string \<Rightarrow> log_event" where
  "LogEvent_new level fname line elapse thread_id fibre_id time thread_name =
     \<lparr>ev_file = fname, ev_line = line, ev_elapse = elapse, ev_threadId = thread_id,
      ev_fibreId = fibre_id, ev_time = time, ev_threadName = thread_name, ev_content = [],
      ev_level = level, ev_ss = []\<rparr>"

definition getContent :: "log_event \<Rightarrow> string" where
  "getContent ev = ev_ss ev"

definition setContent :: "string \<Rightarrow> log_event \<Rightarrow> log_event" where
  "setContent str ev = ev\<lparr>ev_content := str\<rparr>"

text \<open>\<open>LogEvent::format\<close>: \<open>vasprintf\<close> is a parameter, \<open>None\<close> when it fails.\<close>

definition LogEvent_format :: "string option \<Rightarrow> log_event \<Rightarrow> log_event" where
  "LogEvent_format vasprintf ev =
     (case vasprintf of None \<Rightarrow> ev | Some buf \<Rightarrow> ev\<lparr>ev_ss := ev_ss ev @ buf\<rparr>)"

section \<open>Format items\<close>

datatype format_item =
    MessageFormatItem | LevelFormatItem | ElapseFormatItem | NameFormatItem | ThreadIdFormatItem
  | FibreIdFormatItem | ThreadNameFormatItem | DateTimeFormatItem string | FileNameFormatItem
  | LineFormatItem | NewLineFormatItem | StringFormatItem string | TabFormatItem

definition show_int :: "int \<Rightarrow> string" where
  "show_int i = (if i < 0 then CHR ''-'' # show_nat (nat (- i)) else show_nat (nat i))"

text \<open>\<open>strftime\<close> applied to a format and a local time is a parameter.\<close>

fun item_format ::
  "(string \<Rightarrow> u64 \<Rightarrow> string) \<Rightarrow> format_item \<Rightarrow> string \<Rightarrow> level \<Rightarrow> log_event \<Rightarrow> string" where
  "item_format strftime MessageFormatItem logger_name level event = getContent event"
| "item_format strftime LevelFormatItem logger_name level event = LogLevel_ToString level"
| "item_format strftime ElapseFormatItem logger_name level event = show_nat (unat (ev_elapse event))"
| "item_format strftime NameFormatItem logger_name level event = logger_name"
| "item_format strftime ThreadIdFormatItem logger_name level event = show_nat (unat (ev_threadId event))"
| "item_format strftime FibreIdFormatItem logger_name level event = show_nat (unat (ev_fibreId event))"
| "item_format strftime ThreadNameFormatItem logger_name level event = ev_threadName event"
| "item_format strftime (DateTimeFormatItem m_format) logger_name level event =
     strftime m_format (ev_time event)"
| "item_format strftime FileNameFormatItem logger_name level event = ev_file event"
| "item_format strftime LineFormatItem logger_name level event = show_int (ev_line event)"
| "item_format strftime NewLineFormatItem logger_name level event = [CHR 10]"
| "item_format strftime (StringFormatItem m_string) logger_name level event = m_string"
| "item_format strftime TabFormatItem logger_name level event = [CHR 9]"

definition DateTime_new :: "string \<Rightarrow> format_item" where
  "DateTime_new fmt = DateTimeFormatItem (if fmt = [] then ''%Y-%m-%d %H:%M:%S'' else fmt)"

definition s_format_items :: "string \<Rightarrow> (string \<Rightarrow> format_item) option" where
  "s_format_items str =
     (if str = ''m'' then Some (\<lambda>fmt. MessageFormatItem)
      else if str = ''p'' then Some (\<lambda>fmt. LevelFormatItem)
      else if str = ''r'' then Some (\<lambda>fmt. ElapseFormatItem)
      else if str = ''c'' then Some (\<lambda>fmt. NameFormatItem)
      else if str = ''t'' then Some (\<lambda>fmt. ThreadIdFormatItem)
      else if str = ''n'' then Some (\<lambda>fmt. NewLineFormatItem)
      else if str = ''d'' then Some DateTime_new
      else if str = ''f'' then Some (\<lambda>fmt. FileNameFormatItem)
      else if str = ''l'' then Some (\<lambda>fmt. LineFormatItem)
      else if str = ''T'' then Some (\<lambda>fmt. TabFormatItem)
      else if str = ''F'' then Some (\<lambda>fmt. FibreIdFormatItem)
      else if str = ''N'' then Some (\<lambda>fmt. ThreadNameFormatItem)
      else None)"

section \<open>The pattern parser\<close>

definition isalpha :: "char \<Rightarrow> bool" where
  "isalpha c \<longleftrightarrow> 65 \<le> char_code c \<and> char_code c \<le> 90 \<or> 97 \<le> char_code c \<and> char_code c \<le> 122"

text \<open>
  The inner loop, from the character behind a \<open>%\<close>: \<open>st\<close> is \<open>fmt_status\<close>, \<open>seen\<close> the text from behind the \<open>%\<close>
  to here (\<open>substr(i + 1, n - i - 1)\<close>), \<open>fb\<close> the text from behind the \<open>{\<close>.  The result is the status, \<open>str\<close>,
  \<open>fmt\<close> and the rest of the pattern.
\<close>

fun item_scan :: "bool \<Rightarrow> string \<Rightarrow> string \<Rightarrow> string \<Rightarrow> string \<Rightarrow> bool \<times> string \<times> string \<times> string" where
  "item_scan st seen fb str [] = (st, str, [], [])"
| "item_scan st seen fb str (c # cs) =
     (if \<not> st \<and> \<not> isalpha c \<and> c \<noteq> CHR ''{'' \<and> c \<noteq> CHR ''}'' then (False, seen, [], c # cs)
      else if \<not> st \<and> c = CHR ''{'' then item_scan True (seen @ [c]) [] seen cs
      else if st \<and> c = CHR ''}'' then (False, str, fb, cs)
      else if cs = [] then (st, if str = [] then seen @ [c] else str, [], [])
      else item_scan st (seen @ [c]) (fb @ [c]) str cs)"

lemma item_scan_rest: "length (snd (snd (snd (item_scan st seen fb str cs)))) \<le> length cs"
proof (induction st seen fb str cs rule: item_scan.induct)
  case (2 st seen fb str c cs)
  then show ?case by auto
qed simp

lemma item_scan_shrinks: "(b, s, f, rest) = item_scan st seen fb str cs \<Longrightarrow> length rest \<le> length cs"
  using item_scan_rest [of st seen fb str cs] by (metis snd_conv)

type_synonym pattern_part = "string \<times> string \<times> nat"

definition flush_text :: "string \<Rightarrow> pattern_part list" where
  "flush_text nstr = (if nstr \<noteq> [] then [(nstr, [], 0)] else [])"

text \<open>The outer loop: the parts in order, and whether a \<open>{\<close> was left open.\<close>

function init_scan :: "string \<Rightarrow> string \<Rightarrow> pattern_part list \<times> bool" where
  "init_scan nstr [] = (flush_text nstr, False)"
| "init_scan nstr (c # cs) =
     (if c \<noteq> CHR ''%'' then init_scan (nstr @ [c]) cs
      else if cs \<noteq> [] \<and> hd cs = CHR ''%'' then init_scan (nstr @ ''%'') cs
      else case item_scan False [] [] [] cs of
        (False, str, fmt, rest) \<Rightarrow>
          (case init_scan [] rest of (vec, err) \<Rightarrow> (flush_text nstr @ (str, fmt, 1) # vec, err))
      | (True, str, fmt, rest) \<Rightarrow>
          (case init_scan nstr cs of (vec, err) \<Rightarrow> ((''<Pattern Error>'', fmt, 0) # vec, True)))"
  by pat_completeness auto
termination
  by (relation "measure (\<lambda>(nstr, cs). length cs)") (auto simp: less_Suc_eq_le dest: item_scan_shrinks)

declare init_scan.simps(2) [simp del]

text \<open>The second half of \<open>init\<close>: each part becomes an item.\<close>

definition part_item :: "pattern_part \<Rightarrow> format_item \<times> bool" where
  "part_item p =
     (case p of (str, fmt, k) \<Rightarrow>
        if k = 0 then (StringFormatItem str, False)
        else case s_format_items str of
          None \<Rightarrow> (StringFormatItem (''<<error_format %'' @ str @ ''>>''), True)
        | Some mk \<Rightarrow> (mk fmt, False))"

record formatter =
  fm_pattern :: string
  fm_items :: "format_item list"
  fm_error :: bool

text \<open>\<open>m_error\<close> has no initial value: \<open>garbage\<close> is what the memory held.\<close>

definition LogFormatter_new :: "bool \<Rightarrow> string \<Rightarrow> formatter" where
  "LogFormatter_new garbage pattern =
     (case init_scan [] pattern of (vec, err) \<Rightarrow>
        \<lparr>fm_pattern = pattern, fm_items = map (fst \<circ> part_item) vec,
         fm_error = (garbage \<or> err \<or> list_ex (snd \<circ> part_item) vec)\<rparr>)"

definition LogFormatter_format ::
  "(string \<Rightarrow> u64 \<Rightarrow> string) \<Rightarrow> formatter \<Rightarrow> string \<Rightarrow> level \<Rightarrow> log_event \<Rightarrow> string" where
  "LogFormatter_format strftime fm logger_name level event =
     concat (map (\<lambda>i. item_format strftime i logger_name level event) (fm_items fm))"

end
