(* ===== verification/Logger.thy ===== *)
theory Logger
  imports Log_Format
begin

text \<open>
  Loggers, appenders and the logger manager (\<open>src/system/log.cc\<close>).  Loggers and appenders are objects
  with an identity: numbers into two heaps.  What is written is a list of outputs: to the standard
  output, to a file, and the (re)opening of a file, which truncates it.  \<open>env\<close> holds what the outside
  decides: \<open>strftime\<close>, whether a file can be opened, and the bytes of uninitialised members.
\<close>

section \<open>State\<close>

datatype log_output = Stdout string | Reopen string | File_Write string string

record log_env =
  le_strftime :: "string \<Rightarrow> u64 \<Rightarrow> string"
  le_can_open :: "string \<Rightarrow> bool"
  le_garbage :: bool

text \<open>\<open>ap_file\<close> is \<open>None\<close> for a \<open>StdOutLogAppender\<close>; \<open>ap_good\<close> is the state of the file stream.\<close>

record appender =
  ap_level :: level
  ap_hasFormatter :: bool
  ap_formatter :: "formatter option"
  ap_file :: "string option"
  ap_good :: bool
  ap_lastTime :: u64

record logger =
  lg_name :: string
  lg_level :: level
  lg_appenders :: "nat list"
  lg_formatter :: "formatter option"
  lg_root :: "nat option"

record log_system =
  ls_loggers :: "nat \<rightharpoonup> logger"
  ls_appenders :: "nat \<rightharpoonup> appender"
  ls_names :: "string \<rightharpoonup> nat"
  ls_root :: nat
  ls_next :: nat

section \<open>Appenders\<close>

text \<open>\<open>m_level\<close> of an appender has no initial value either: the creator's argument.\<close>

definition StdOutLogAppender_new :: "level \<Rightarrow> appender" where
  "StdOutLogAppender_new garbage_level =
     \<lparr>ap_level = garbage_level, ap_hasFormatter = False, ap_formatter = None, ap_file = None,
      ap_good = True, ap_lastTime = 0\<rparr>"

definition FileLogAppender_reopen :: "log_env \<Rightarrow> string \<Rightarrow> appender \<Rightarrow> log_output list \<times> appender" where
  "FileLogAppender_reopen env filename ap =
     (if le_can_open env filename then ([Reopen filename], ap\<lparr>ap_good := True\<rparr>)
      else ([], ap\<lparr>ap_good := False\<rparr>))"

definition FileLogAppender_new :: "log_env \<Rightarrow> level \<Rightarrow> string \<Rightarrow> log_output list \<times> appender" where
  "FileLogAppender_new env garbage_level filename =
     FileLogAppender_reopen env filename
       \<lparr>ap_level = garbage_level, ap_hasFormatter = False, ap_formatter = None,
        ap_file = Some filename, ap_good = True, ap_lastTime = 0\<rparr>"

definition appender_setFormatter :: "formatter option \<Rightarrow> appender \<Rightarrow> appender" where
  "appender_setFormatter val ap = ap\<lparr>ap_formatter := val, ap_hasFormatter := (val \<noteq> None)\<rparr>"

definition StdOutLogAppender_log ::
  "log_env \<Rightarrow> string \<Rightarrow> level \<Rightarrow> log_event \<Rightarrow> appender \<Rightarrow> (log_output list \<times> appender) res" where
  "StdOutLogAppender_log env logger_name level event ap =
     (if level \<ge> ap_level ap then
        case ap_formatter ap of None \<Rightarrow> Inl Null_Deref
        | Some fm \<Rightarrow> Inr ([Stdout (LogFormatter_format (le_strftime env) fm logger_name level event)], ap)
      else Inr ([], ap))"

definition FileLogAppender_log ::
  "log_env \<Rightarrow> string \<Rightarrow> string \<Rightarrow> level \<Rightarrow> log_event \<Rightarrow> appender \<Rightarrow> (log_output list \<times> appender) res" where
  "FileLogAppender_log env filename logger_name level event ap =
     (if level \<ge> ap_level ap then
        let now = ev_time event;
            (outs, ap) =
              (if now \<ge> ap_lastTime ap + 3
               then case FileLogAppender_reopen env filename ap of (outs, ap') \<Rightarrow> (outs, ap'\<lparr>ap_lastTime := now\<rparr>)
               else ([], ap))
        in (case ap_formatter ap of None \<Rightarrow> Inl Null_Deref
            | Some fm \<Rightarrow>
              if ap_good ap
              then Inr (outs @ [File_Write filename (LogFormatter_format (le_strftime env) fm logger_name level event)], ap)
              else Inr (outs @ [Stdout (''File outout error'' @ [CHR 10])], ap))
      else Inr ([], ap))"

definition appender_log ::
  "log_env \<Rightarrow> string \<Rightarrow> level \<Rightarrow> log_event \<Rightarrow> appender \<Rightarrow> (log_output list \<times> appender) res" where
  "appender_log env logger_name level event ap =
     (case ap_file ap of None \<Rightarrow> StdOutLogAppender_log env logger_name level event ap
      | Some filename \<Rightarrow> FileLogAppender_log env filename logger_name level event ap)"

section \<open>Loggers\<close>

definition default_pattern :: string where
  "default_pattern = ''%d{[(%Y-%m-%d %H:%M:%S)]}%T%t%T%N%T%F%T[%p]%T[%c]%T%f:%l%T%m%n''"

definition Logger_new :: "log_env \<Rightarrow> string \<Rightarrow> logger" where
  "Logger_new env name =
     \<lparr>lg_name = name, lg_level = DEBUG, lg_appenders = [],
      lg_formatter = Some (LogFormatter_new (le_garbage env) default_pattern), lg_root = None\<rparr>"

definition upd_logger :: "nat \<Rightarrow> (logger \<Rightarrow> logger) \<Rightarrow> log_system \<Rightarrow> log_system" where
  "upd_logger l f ls = ls\<lparr>ls_loggers := (ls_loggers ls)(l := map_option f (ls_loggers ls l))\<rparr>"

definition upd_appender :: "nat \<Rightarrow> (appender \<Rightarrow> appender) \<Rightarrow> log_system \<Rightarrow> log_system" where
  "upd_appender a f ls = ls\<lparr>ls_appenders := (ls_appenders ls)(a := map_option f (ls_appenders ls a))\<rparr>"

definition Logger_setLevel :: "nat \<Rightarrow> level \<Rightarrow> log_system \<Rightarrow> log_system" where
  "Logger_setLevel l val ls = upd_logger l (\<lambda>lg. lg\<lparr>lg_level := val\<rparr>) ls"

text \<open>\<open>setFormatter\<close>: the appenders without one of their own follow.\<close>

definition Logger_setFormatter :: "nat \<Rightarrow> formatter option \<Rightarrow> log_system \<Rightarrow> log_system" where
  "Logger_setFormatter l val ls =
     (case ls_loggers ls l of None \<Rightarrow> ls
      | Some lg \<Rightarrow>
        foldl (\<lambda>ls a. upd_appender a (\<lambda>ap. if ap_hasFormatter ap then ap else ap\<lparr>ap_formatter := val\<rparr>) ls)
          (upd_logger l (\<lambda>lg. lg\<lparr>lg_formatter := val\<rparr>) ls) (lg_appenders lg))"

definition Logger_setFormatter_string :: "log_env \<Rightarrow> nat \<Rightarrow> string \<Rightarrow> log_system \<Rightarrow> log_system" where
  "Logger_setFormatter_string env l val ls =
     (let new_val = LogFormatter_new (le_garbage env) val
      in if fm_error new_val then ls else Logger_setFormatter l (Some new_val) ls)"

definition Logger_addAppender :: "nat \<Rightarrow> nat \<Rightarrow> log_system \<Rightarrow> log_system" where
  "Logger_addAppender l a ls =
     (case ls_loggers ls l of None \<Rightarrow> ls
      | Some lg \<Rightarrow>
        upd_logger l (\<lambda>lg. lg\<lparr>lg_appenders := lg_appenders lg @ [a]\<rparr>)
          (upd_appender a (\<lambda>ap. if ap_formatter ap = None then ap\<lparr>ap_formatter := lg_formatter lg\<rparr> else ap) ls))"

definition Logger_delAppender :: "nat \<Rightarrow> nat \<Rightarrow> log_system \<Rightarrow> log_system" where
  "Logger_delAppender l a ls = upd_logger l (\<lambda>lg. lg\<lparr>lg_appenders := remove1 a (lg_appenders lg)\<rparr>) ls"

fun log_appenders ::
  "log_env \<Rightarrow> string \<Rightarrow> level \<Rightarrow> log_event \<Rightarrow> nat list \<Rightarrow> log_system \<Rightarrow> (log_output list \<times> log_system) res" where
  "log_appenders env name level event [] ls = Inr ([], ls)"
| "log_appenders env name level event (a # as) ls =
     (case ls_appenders ls a of None \<Rightarrow> Inl Null_Deref
      | Some ap \<Rightarrow>
        rbind (appender_log env name level event ap) (\<lambda>(outs, ap').
        rbind (log_appenders env name level event as
                 (ls\<lparr>ls_appenders := (ls_appenders ls)(a \<mapsto> ap')\<rparr>)) (\<lambda>(outs', ls').
        Inr (outs @ outs', ls'))))"

text \<open>\<open>Logger::log\<close>: a logger without appenders hands the event to its root; \<open>fuel\<close> bounds the hops.\<close>

fun Logger_log ::
  "nat \<Rightarrow> log_env \<Rightarrow> nat \<Rightarrow> level \<Rightarrow> log_event \<Rightarrow> log_system \<Rightarrow> (log_output list \<times> log_system) res" where
  "Logger_log 0 env l level event ls = Inl Diverge"
| "Logger_log (Suc fuel) env l level event ls =
     (case ls_loggers ls l of None \<Rightarrow> Inl Null_Deref
      | Some lg \<Rightarrow>
        if level \<ge> lg_level lg then
          if lg_appenders lg \<noteq> [] then log_appenders env (lg_name lg) level event (lg_appenders lg) ls
          else (case lg_root lg of None \<Rightarrow> Inr ([], ls)
                | Some r \<Rightarrow> Logger_log fuel env r level event ls)
        else Inr ([], ls))"

text \<open>The macro \<open>HPGS_LOG_LEVEL\<close>: the event is made only if the level of the logger allows it, and logged
  when the wrapper is destroyed.\<close>

definition HPGS_LOG_LEVEL ::
  "nat \<Rightarrow> log_env \<Rightarrow> nat \<Rightarrow> level \<Rightarrow> log_event \<Rightarrow> log_system \<Rightarrow> (log_output list \<times> log_system) res" where
  "HPGS_LOG_LEVEL fuel env l level event ls =
     (case ls_loggers ls l of None \<Rightarrow> Inl Null_Deref
      | Some lg \<Rightarrow> if lg_level lg \<le> level then Logger_log fuel env l (ev_level event) event ls else Inr ([], ls))"

text \<open>The macros for the levels, and the one that logs an event that is there, with a message.  (The macros with a format name
  \<open>HPGS::THREAD\<close> and \<open>__VA_ARGS\<close>, which do not exist.)\<close>

definition HPGS_LOG_DEBUG :: "nat \<Rightarrow> log_env \<Rightarrow> nat \<Rightarrow> log_event \<Rightarrow> log_system \<Rightarrow> (log_output list \<times> log_system) res" where
  "HPGS_LOG_DEBUG fuel env logger event ls = HPGS_LOG_LEVEL fuel env logger DEBUG event ls"

definition HPGS_LOG_INFO :: "nat \<Rightarrow> log_env \<Rightarrow> nat \<Rightarrow> log_event \<Rightarrow> log_system \<Rightarrow> (log_output list \<times> log_system) res" where
  "HPGS_LOG_INFO fuel env logger event ls = HPGS_LOG_LEVEL fuel env logger INFO event ls"

definition HPGS_LOG_WARNING :: "nat \<Rightarrow> log_env \<Rightarrow> nat \<Rightarrow> log_event \<Rightarrow> log_system \<Rightarrow> (log_output list \<times> log_system) res" where
  "HPGS_LOG_WARNING fuel env logger event ls = HPGS_LOG_LEVEL fuel env logger WARNING event ls"

definition HPGS_LOG_ERROR :: "nat \<Rightarrow> log_env \<Rightarrow> nat \<Rightarrow> log_event \<Rightarrow> log_system \<Rightarrow> (log_output list \<times> log_system) res" where
  "HPGS_LOG_ERROR fuel env logger event ls = HPGS_LOG_LEVEL fuel env logger ERROR event ls"

definition HPGS_LOG_FATAL :: "nat \<Rightarrow> log_env \<Rightarrow> nat \<Rightarrow> log_event \<Rightarrow> log_system \<Rightarrow> (log_output list \<times> log_system) res" where
  "HPGS_LOG_FATAL fuel env logger event ls = HPGS_LOG_LEVEL fuel env logger FATAL event ls"

definition HPGS_WRITE_LOG :: "nat \<Rightarrow> log_env \<Rightarrow> nat \<Rightarrow> log_event \<Rightarrow> string \<Rightarrow> log_system \<Rightarrow> (log_output list \<times> log_system) res" where
  "HPGS_WRITE_LOG fuel env l event message ls =
     (case ls_loggers ls l of None \<Rightarrow> Inl Null_Deref
      | Some lg \<Rightarrow>
          if lg_level lg \<le> ev_level event
          then (let event = setContent message event in Logger_log fuel env l (ev_level event) event ls)
          else Inr ([], ls))"

text \<open>The destructor of the wrapper, and the members that log at one level.\<close>

definition LogEventWrap_delete :: "nat \<Rightarrow> log_env \<Rightarrow> nat \<Rightarrow> log_event \<Rightarrow> log_system \<Rightarrow> (log_output list \<times> log_system) res" where
  "LogEventWrap_delete fuel env l event ls = Logger_log fuel env l (ev_level event) event ls"

definition Logger_debug :: "nat \<Rightarrow> log_env \<Rightarrow> nat \<Rightarrow> log_event \<Rightarrow> log_system \<Rightarrow> (log_output list \<times> log_system) res" where
  "Logger_debug fuel env l event ls = Logger_log fuel env l DEBUG event ls"

definition Logger_info :: "nat \<Rightarrow> log_env \<Rightarrow> nat \<Rightarrow> log_event \<Rightarrow> log_system \<Rightarrow> (log_output list \<times> log_system) res" where
  "Logger_info fuel env l event ls = Logger_log fuel env l INFO event ls"

definition Logger_warning :: "nat \<Rightarrow> log_env \<Rightarrow> nat \<Rightarrow> log_event \<Rightarrow> log_system \<Rightarrow> (log_output list \<times> log_system) res" where
  "Logger_warning fuel env l event ls = Logger_log fuel env l WARNING event ls"

definition Logger_error :: "nat \<Rightarrow> log_env \<Rightarrow> nat \<Rightarrow> log_event \<Rightarrow> log_system \<Rightarrow> (log_output list \<times> log_system) res" where
  "Logger_error fuel env l event ls = Logger_log fuel env l ERROR event ls"

definition Logger_fatal :: "nat \<Rightarrow> log_env \<Rightarrow> nat \<Rightarrow> log_event \<Rightarrow> log_system \<Rightarrow> (log_output list \<times> log_system) res" where
  "Logger_fatal fuel env l event ls = Logger_log fuel env l FATAL event ls"

section \<open>The manager\<close>

definition getLogger :: "log_env \<Rightarrow> string \<Rightarrow> log_system \<Rightarrow> nat \<times> log_system" where
  "getLogger env name ls =
     (case ls_names ls name of Some l \<Rightarrow> (l, ls)
      | None \<Rightarrow>
        let l = ls_next ls; lg = (Logger_new env name)\<lparr>lg_root := Some (ls_root ls)\<rparr>
        in (l, ls\<lparr>ls_loggers := (ls_loggers ls)(l \<mapsto> lg), ls_names := (ls_names ls)(name \<mapsto> l),
                  ls_next := Suc l\<rparr>))"

definition LoggerManager_new :: "log_env \<Rightarrow> level \<Rightarrow> log_system" where
  "LoggerManager_new env garbage_level =
     Logger_addAppender 0 0
       \<lparr>ls_loggers = [0 \<mapsto> Logger_new env ''root''],
        ls_appenders = [0 \<mapsto> StdOutLogAppender_new garbage_level],
        ls_names = [''root'' \<mapsto> 0], ls_root = 0, ls_next = 1\<rparr>"

section \<open>Definitions from the configuration\<close>

record log_appender_define =
  lad_type :: int
  lad_level :: level
  lad_formatter :: string
  lad_file :: string

definition LogAppenderDefine_eq :: "log_appender_define \<Rightarrow> log_appender_define \<Rightarrow> bool" where
  "LogAppenderDefine_eq a oth \<longleftrightarrow>
     lad_type a = lad_type oth \<and> lad_level a = lad_level oth \<and>
     lad_formatter a = lad_formatter oth \<and> lad_file a = lad_formatter oth"

record log_define =
  ld_name :: string
  ld_level :: level
  ld_formatter :: string
  ld_appenders :: "log_appender_define list"

definition LogDefine_eq :: "log_define \<Rightarrow> log_define \<Rightarrow> bool" where
  "LogDefine_eq a oth \<longleftrightarrow>
     ld_name a = ld_name oth \<and> ld_level a = ld_level oth \<and> ld_formatter a = ld_formatter oth \<and>
     list_all2 LogAppenderDefine_eq (ld_appenders a) (ld_appenders oth)"

definition LogDefine_isValid :: "log_define \<Rightarrow> bool" where
  "LogDefine_isValid a \<longleftrightarrow> ld_name a \<noteq> []"

end
