(* ===== verification/Log_Props.thy ===== *)
theory Log_Props
  imports Logger
begin

text \<open>
  The pattern language round trip, delivery of events in every reachable log system, and the places where
  the code does not do what it means to.
\<close>

section \<open>Patterns\<close>

text \<open>Well-formed patterns as data: text, \<open>%c\<close>, and \<open>%c{fmt}\<close>.\<close>

datatype seg = Text string | Item char | Item_Fmt char string

primrec seg_text :: "seg \<Rightarrow> string" where
  "seg_text (Text t) = t"
| "seg_text (Item c) = [CHR ''%'', c]"
| "seg_text (Item_Fmt c f) = [CHR ''%'', c, CHR ''{''] @ f @ ''}''"

primrec seg_part :: "seg \<Rightarrow> pattern_part" where
  "seg_part (Text t) = (t, [], 0)"
| "seg_part (Item c) = ([c], [], 1)"
| "seg_part (Item_Fmt c f) = ([c], f, 1)"

primrec seg_item :: "seg \<Rightarrow> format_item" where
  "seg_item (Text t) = StringFormatItem t"
| "seg_item (Item c) = the (s_format_items [c]) []"
| "seg_item (Item_Fmt c f) = the (s_format_items [c]) f"

definition known :: "char \<Rightarrow> bool" where
  "known c \<longleftrightarrow> c \<in> set ''mprctndflTFN''"

definition ends_name :: "string \<Rightarrow> bool" where
  "ends_name s \<longleftrightarrow> s = [] \<or> \<not> isalpha (hd s) \<and> hd s \<noteq> CHR ''{'' \<and> hd s \<noteq> CHR ''}''"

definition starts_text :: "seg list \<Rightarrow> bool" where
  "starts_text ss = (case ss of Text t # _ \<Rightarrow> True | _ \<Rightarrow> False)"

fun segs_ok :: "seg list \<Rightarrow> bool" where
  "segs_ok [] = True"
| "segs_ok (Text t # ss) = (t \<noteq> [] \<and> CHR ''%'' \<notin> set t \<and> \<not> starts_text ss \<and> segs_ok ss)"
| "segs_ok (Item c # ss) = (known c \<and> ends_name (concat (map seg_text ss)) \<and> segs_ok ss)"
| "segs_ok (Item_Fmt c f # ss) = (known c \<and> CHR ''}'' \<notin> set f \<and> segs_ok ss)"

lemma known_letter: "known c \<Longrightarrow> isalpha c \<and> c \<noteq> CHR ''%'' \<and> c \<noteq> CHR ''{'' \<and> c \<noteq> CHR ''}''"
  by (auto simp: known_def isalpha_def char_code_def)

lemma known_item: "known c \<Longrightarrow> s_format_items [c] \<noteq> None"
  by (auto simp: known_def s_format_items_def)

lemma init_scan_text: "CHR ''%'' \<notin> set t \<Longrightarrow> init_scan nstr (t @ rest) = init_scan (nstr @ t) rest"
  by (induction t arbitrary: nstr) (auto simp: init_scan.simps(2))

lemma item_scan_name:
  assumes "known c" "ends_name rest"
  shows "item_scan False [] [] [] (c # rest) = (False, [c], [], rest)"
  using assms known_letter [of c] by (cases rest) (auto simp: ends_name_def)

lemma item_scan_fmt:
  "CHR ''}'' \<notin> set f \<Longrightarrow> item_scan True seen fb str (f @ CHR ''}'' # rest) = (False, str, fb @ f, rest)"
  by (induction f arbitrary: seen fb) auto

lemma item_scan_name_fmt:
  assumes "known c" "CHR ''}'' \<notin> set f"
  shows "item_scan False [] [] [] (c # CHR ''{'' # f @ CHR ''}'' # rest) = (False, [c], f, rest)"
  using assms known_letter [of c] item_scan_fmt [of f "[c, CHR ''{'']" "[]" "[c]" rest]
  by (simp add: isalpha_def char_code_def)

lemma init_scan_item:
  assumes "item_scan False [] [] [] (c # cs) = (False, str, fmt, rest)" "c \<noteq> CHR ''%''"
  shows "init_scan nstr (CHR ''%'' # c # cs) =
    (flush_text nstr @ (str, fmt, 1) # fst (init_scan [] rest), snd (init_scan [] rest))"
  using assms by (subst init_scan.simps) (simp split: prod.split del: item_scan.simps)

lemma init_scan_segs:
  "segs_ok ss \<Longrightarrow> nstr = [] \<or> \<not> starts_text ss \<Longrightarrow>
   init_scan nstr (concat (map seg_text ss)) = (flush_text nstr @ map seg_part ss, False)"
proof (induction ss arbitrary: nstr)
  case (Cons s ss)
  show ?case
  proof (cases s)
    case (Text t)
    then have "nstr = []" using Cons.prems by (simp add: starts_text_def)
    then show ?thesis
      using Cons Text init_scan_text [of t "[]"] by (auto simp: flush_text_def)
  next
    case (Item c)
    then show ?thesis
      using Cons known_letter [of c] item_scan_name [of c "concat (map seg_text ss)"]
      by (simp add: init_scan_item flush_text_def del: item_scan.simps)
  next
    case (Item_Fmt c f)
    then show ?thesis
      using Cons known_letter [of c] item_scan_name_fmt [of c f "concat (map seg_text ss)"]
      by (simp add: init_scan_item flush_text_def del: item_scan.simps)
  qed
qed simp

lemma segs_ok_each: "segs_ok ss \<Longrightarrow> s \<in> set ss \<Longrightarrow> part_item (seg_part s) = (seg_item s, False)"
proof (induction ss)
  case (Cons t ss)
  then show ?case
    by (cases t) (auto simp: part_item_def dest!: known_item)
qed simp

section \<open>Reachable log systems\<close>

definition logger_ok :: "log_system \<Rightarrow> logger \<Rightarrow> bool" where
  "logger_ok ls lg \<longleftrightarrow>
     (lg_root lg = None \<or> lg_root lg = Some (ls_root ls)) \<and> lg_formatter lg \<noteq> None \<and>
     (\<forall>a \<in> set (lg_appenders lg). \<exists>ap. ls_appenders ls a = Some ap \<and> ap_formatter ap \<noteq> None)"

definition ls_ok :: "log_system \<Rightarrow> bool" where
  "ls_ok ls \<longleftrightarrow>
     (\<exists>lg. ls_loggers ls (ls_root ls) = Some lg \<and> lg_root lg = None) \<and>
     (\<forall>l lg. ls_loggers ls l = Some lg \<longrightarrow> l < ls_next ls \<and> logger_ok ls lg) \<and>
     (\<forall>n l. ls_names ls n = Some l \<longrightarrow> (\<exists>lg. ls_loggers ls l = Some lg \<and> lg_name lg = n))"

lemma ls_okI:
  assumes "\<And>l lg. ls_loggers ls l = Some lg \<Longrightarrow> l < ls_next ls \<and> logger_ok ls lg"
    and "ls_loggers ls (ls_root ls) = Some r" "lg_root r = None"
    and "\<And>n l. ls_names ls n = Some l \<Longrightarrow> \<exists>lg. ls_loggers ls l = Some lg \<and> lg_name lg = n"
  shows "ls_ok ls"
  using assms unfolding ls_ok_def by blast

lemma ls_okD:
  assumes "ls_ok ls"
  shows "ls_loggers ls l = Some lg \<Longrightarrow> l < ls_next ls" "ls_loggers ls l = Some lg \<Longrightarrow> logger_ok ls lg"
    "\<exists>r. ls_loggers ls (ls_root ls) = Some r \<and> lg_root r = None"
    "ls_names ls n = Some l \<Longrightarrow> \<exists>lg. ls_loggers ls l = Some lg \<and> lg_name lg = n"
  using assms unfolding ls_ok_def by blast+

text \<open>Appenders only gain formatters.\<close>

definition appenders_kept :: "log_system \<Rightarrow> log_system \<Rightarrow> bool" where
  "appenders_kept ls ls' \<longleftrightarrow>
     (\<forall>a ap. ls_appenders ls a = Some ap \<longrightarrow>
       (\<exists>ap'. ls_appenders ls' a = Some ap' \<and> (ap_formatter ap \<noteq> None \<longrightarrow> ap_formatter ap' \<noteq> None)))"

lemma appenders_kept_refl: "appenders_kept ls ls"
  by (simp add: appenders_kept_def)

lemma appenders_kept_trans: "appenders_kept a b \<Longrightarrow> appenders_kept b c \<Longrightarrow> appenders_kept a c"
  by (fastforce simp: appenders_kept_def)

lemma logger_ok_kept:
  assumes "logger_ok ls lg" "appenders_kept ls ls'" "ls_root ls' = ls_root ls"
  shows "logger_ok ls' lg"
  using assms unfolding logger_ok_def appenders_kept_def by (metis (no_types, lifting))

text \<open>A step that only touches appenders, and one that changes a logger in a harmless way.\<close>

lemma ls_ok_appenders:
  assumes "ls_ok ls" "appenders_kept ls ls'" "ls_loggers ls' = ls_loggers ls" "ls_root ls' = ls_root ls"
    "ls_names ls' = ls_names ls" "ls_next ls' = ls_next ls"
  shows "ls_ok ls'"
  using assms logger_ok_kept [OF _ assms(2,4)] unfolding ls_ok_def by auto

lemma ls_ok_logger:
  assumes "ls_ok ls"
    and "\<And>lg. ls_loggers ls l = Some lg \<Longrightarrow> logger_ok ls lg \<Longrightarrow> logger_ok ls (f lg)"
    and f: "\<And>lg. lg_root (f lg) = lg_root lg" "\<And>lg. lg_name (f lg) = lg_name lg"
  shows "ls_ok (upd_logger l f ls)"
proof -
  have ok: "logger_ok (upd_logger l f ls) lg = logger_ok ls lg" for lg
    by (simp add: logger_ok_def upd_logger_def)
  have lookup: "ls_loggers (upd_logger l f ls) k = (if k = l then map_option f (ls_loggers ls l) else ls_loggers ls k)" for k
    by (simp add: upd_logger_def)
  have same: "ls_root (upd_logger l f ls) = ls_root ls" "ls_names (upd_logger l f ls) = ls_names ls"
    "ls_next (upd_logger l f ls) = ls_next ls"
    by (simp_all add: upd_logger_def)
  obtain r where r: "ls_loggers ls (ls_root ls) = Some r" "lg_root r = None"
    using ls_okD(3) [OF assms(1)] by blast
  show ?thesis
  proof (rule ls_okI [where r = "if ls_root ls = l then f r else r"], goal_cases)
    case (1 k lg)
    then show ?case
      using ls_okD(1,2) [OF assms(1)] assms(2) by (auto simp: lookup same ok split: if_splits)
  next
    case (4 n k)
    then obtain lg where "ls_loggers ls k = Some lg" "lg_name lg = n"
      using ls_okD(4) [OF assms(1)] by (auto simp: same)
    then show ?case by (auto simp: lookup f)
  qed (use r f in \<open>auto simp: lookup same\<close>)
qed

lemma upd_appender_kept:
  "(\<And>ap. ap_formatter ap \<noteq> None \<Longrightarrow> ap_formatter (f ap) \<noteq> None) \<Longrightarrow> appenders_kept ls (upd_appender a f ls)"
  by (auto simp: appenders_kept_def upd_appender_def)

lemma upd_appender_same [simp]:
  "ls_loggers (upd_appender a f ls) = ls_loggers ls" "ls_root (upd_appender a f ls) = ls_root ls"
  "ls_names (upd_appender a f ls) = ls_names ls" "ls_next (upd_appender a f ls) = ls_next ls"
  by (simp_all add: upd_appender_def)

lemma getLogger_ok:
  assumes "ls_ok ls"
  shows "ls_ok (snd (getLogger env name ls))"
proof (cases "ls_names ls name")
  case (Some l)
  then show ?thesis using assms by (simp add: getLogger_def)
next
  case None
  let ?l = "ls_next ls" and ?lg = "(Logger_new env name)\<lparr>lg_root := Some (ls_root ls)\<rparr>"
  let ?ls = "ls\<lparr>ls_loggers := (ls_loggers ls)(?l \<mapsto> ?lg), ls_names := (ls_names ls)(name \<mapsto> ?l), ls_next := Suc ?l\<rparr>"
  have new: "ls_loggers ls ?l = None"
    using assms unfolding ls_ok_def by (metis less_irrefl not_None_eq)
  have "logger_ok ?ls lg" if "logger_ok ls lg" for lg
    using that by (simp add: logger_ok_def)
  moreover have "logger_ok ?ls ?lg" by (simp add: logger_ok_def Logger_new_def)
  moreover obtain r where r: "ls_loggers ls (ls_root ls) = Some r" "lg_root r = None"
    using ls_okD(3) [OF assms] by blast
  moreover have "ls_root ls \<noteq> ?l" using r new by auto
  ultimately have "ls_ok ?ls"
  proof (intro ls_okI [where r = r], goal_cases)
    case (1 k lg)
    then show ?case using ls_okD(1,2) [OF assms, of k lg] by (auto split: if_splits)
  next
    case (4 n k)
    then show ?case
      using ls_okD(4) [OF assms, of n k] new by (auto simp: Logger_new_def split: if_splits)
  qed auto
  then show ?thesis using None by (simp add: getLogger_def Let_def)
qed

lemma foldl_upd_appender_kept:
  assumes "\<And>ap. ap_formatter ap \<noteq> None \<Longrightarrow> ap_formatter (f ap) \<noteq> None"
  shows "appenders_kept ls (foldl (\<lambda>ls a. upd_appender a f ls) ls as) \<and>
    ls_loggers (foldl (\<lambda>ls a. upd_appender a f ls) ls as) = ls_loggers ls \<and>
    ls_root (foldl (\<lambda>ls a. upd_appender a f ls) ls as) = ls_root ls \<and>
    ls_names (foldl (\<lambda>ls a. upd_appender a f ls) ls as) = ls_names ls \<and>
    ls_next (foldl (\<lambda>ls a. upd_appender a f ls) ls as) = ls_next ls"
proof (induction as arbitrary: ls)
  case Nil
  then show ?case by (simp add: appenders_kept_refl)
next
  case (Cons a as)
  show ?case
    using Cons [of "upd_appender a f ls"] upd_appender_kept [of f ls a] assms
      appenders_kept_trans [of ls "upd_appender a f ls"] by simp
qed

lemma setFormatter_ok:
  assumes "ls_ok ls"
  shows "ls_ok (Logger_setFormatter l (Some fm) ls)"
proof (cases "ls_loggers ls l")
  case (Some lg)
  let ?ls = "upd_logger l (\<lambda>lg. lg\<lparr>lg_formatter := Some fm\<rparr>) ls"
  have "ls_ok ?ls" by (rule ls_ok_logger [OF assms]) (auto simp: logger_ok_def)
  then show ?thesis
    unfolding Logger_setFormatter_def Some option.case
    by (rule ls_ok_appenders)
      (use foldl_upd_appender_kept [of "\<lambda>ap. if ap_hasFormatter ap then ap else ap\<lparr>ap_formatter := Some fm\<rparr>"
          ?ls "lg_appenders lg"] in \<open>auto split: if_splits\<close>)
qed (use assms in \<open>simp add: Logger_setFormatter_def\<close>)

lemma addAppender_ok:
  assumes "ls_ok ls" "ls_appenders ls a \<noteq> None"
  shows "ls_ok (Logger_addAppender l a ls)"
proof (cases "ls_loggers ls l")
  case (Some lg)
  let ?f = "\<lambda>ap. if ap_formatter ap = None then ap\<lparr>ap_formatter := lg_formatter lg\<rparr> else ap"
  let ?ls = "upd_appender a ?f ls"
  have fm: "lg_formatter lg \<noteq> None" using assms(1) Some unfolding ls_ok_def logger_ok_def by blast
  have "ls_ok ?ls"
    by (rule ls_ok_appenders [OF assms(1)]) (auto intro!: upd_appender_kept)
  moreover have "\<exists>ap. ls_appenders ?ls a = Some ap \<and> ap_formatter ap \<noteq> None"
    using assms(2) fm by (cases "ls_appenders ls a") (simp_all add: upd_appender_def)
  ultimately show ?thesis
    unfolding Logger_addAppender_def Some option.case
    by (intro ls_ok_logger) (auto simp: logger_ok_def)
qed (use assms in \<open>simp add: Logger_addAppender_def\<close>)

text \<open>Logging never fails on appenders that have a formatter.\<close>

lemma appender_log_ok:
  assumes "ap_formatter ap \<noteq> None"
  shows "\<exists>outs ap'. appender_log env name level ev ap = Inr (outs, ap') \<and> ap_formatter ap' = ap_formatter ap"
  using assms
  by (auto simp: appender_log_def StdOutLogAppender_log_def FileLogAppender_log_def FileLogAppender_reopen_def
      Let_def split: option.splits)

lemma log_appenders_ok:
  "\<forall>a \<in> set as. \<exists>ap. ls_appenders ls a = Some ap \<and> ap_formatter ap \<noteq> None \<Longrightarrow>
   \<exists>outs ls'. log_appenders env name level ev as ls = Inr (outs, ls') \<and> appenders_kept ls ls' \<and>
     ls_loggers ls' = ls_loggers ls \<and> ls_root ls' = ls_root ls \<and> ls_names ls' = ls_names ls \<and>
     ls_next ls' = ls_next ls"
proof (induction as arbitrary: ls)
  case Nil
  then show ?case by (simp add: appenders_kept_refl)
next
  case (Cons a as)
  obtain ap where ap: "ls_appenders ls a = Some ap" "ap_formatter ap \<noteq> None" using Cons.prems by auto
  obtain outs ap' where one: "appender_log env name level ev ap = Inr (outs, ap')"
    "ap_formatter ap' = ap_formatter ap"
    using appender_log_ok [OF ap(2)] by blast
  let ?ls = "ls\<lparr>ls_appenders := (ls_appenders ls)(a \<mapsto> ap')\<rparr>"
  have kept: "appenders_kept ls ?ls" using ap one(2) by (auto simp: appenders_kept_def)
  have "\<forall>b \<in> set as. \<exists>ap. ls_appenders ?ls b = Some ap \<and> ap_formatter ap \<noteq> None"
    using Cons.prems ap one(2) by auto
  from Cons.IH [OF this] obtain outs' ls' where
    "log_appenders env name level ev as ?ls = Inr (outs', ls')" "appenders_kept ?ls ls'"
    "ls_loggers ls' = ls_loggers ls" "ls_root ls' = ls_root ls" "ls_names ls' = ls_names ls"
    "ls_next ls' = ls_next ls"
    by auto
  then show ?case using ap one appenders_kept_trans [OF kept] by auto
qed

text \<open>The logger whose appenders an event reaches, if any: its name and the appenders.\<close>

definition sinks :: "log_system \<Rightarrow> nat \<Rightarrow> level \<Rightarrow> string \<times> nat list" where
  "sinks ls l level =
     (case ls_loggers ls l of None \<Rightarrow> ([], [])
      | Some lg \<Rightarrow>
        if level < lg_level lg then (lg_name lg, [])
        else if lg_appenders lg \<noteq> [] \<or> lg_root lg = None then (lg_name lg, lg_appenders lg)
        else case ls_loggers ls (ls_root ls) of None \<Rightarrow> ([], [])
        | Some r \<Rightarrow> (lg_name r, if level < lg_level r then [] else lg_appenders r))"

lemma Logger_log_sinks:
  assumes "ls_ok ls" "ls_loggers ls l = Some lg"
  shows "Logger_log 2 env l level ev ls =
    (case sinks ls l level of (name, as) \<Rightarrow> log_appenders env name level ev as ls)"
proof -
  obtain r where r: "ls_loggers ls (ls_root ls) = Some r" "lg_root r = None"
    using ls_okD(3) [OF assms(1)] by blast
  have "lg_root lg = None \<or> lg_root lg = Some (ls_root ls)"
    using ls_okD(2) [OF assms] by (simp add: logger_ok_def)
  then show ?thesis
    using assms(2) r by (auto simp: numeral_2_eq_2 sinks_def not_less not_le)
qed

lemma sinks_formatters:
  assumes "ls_ok ls" "a \<in> set (snd (sinks ls l level))"
  shows "\<exists>ap. ls_appenders ls a = Some ap \<and> ap_formatter ap \<noteq> None"
  using assms(2) ls_okD(2) [OF assms(1)]
  by (fastforce simp: sinks_def logger_ok_def split: option.splits if_splits)

inductive log_reachable :: "log_env \<Rightarrow> log_system \<Rightarrow> bool" for env where
  lr_new: "log_reachable env (LoggerManager_new env g)"
| lr_get: "log_reachable env ls \<Longrightarrow> log_reachable env (snd (getLogger env name ls))"
| lr_level: "log_reachable env ls \<Longrightarrow> log_reachable env (Logger_setLevel l v ls)"
| lr_fmt: "log_reachable env ls \<Longrightarrow> log_reachable env (Logger_setFormatter l (Some fm) ls)"
| lr_fmt_string: "log_reachable env ls \<Longrightarrow> log_reachable env (Logger_setFormatter_string env l val ls)"
| lr_new_ap: "log_reachable env ls \<Longrightarrow> ls_appenders ls a = None \<Longrightarrow>
    log_reachable env (ls\<lparr>ls_appenders := (ls_appenders ls)(a \<mapsto> ap)\<rparr>)"
| lr_ap_fmt: "log_reachable env ls \<Longrightarrow>
    log_reachable env (upd_appender a (appender_setFormatter (Some fm)) ls)"
| lr_add: "log_reachable env ls \<Longrightarrow> ls_appenders ls a \<noteq> None \<Longrightarrow> log_reachable env (Logger_addAppender l a ls)"
| lr_del: "log_reachable env ls \<Longrightarrow> log_reachable env (Logger_delAppender l a ls)"
| lr_log: "log_reachable env ls \<Longrightarrow> Logger_log n env l level ev ls = Inr (outs, ls') \<Longrightarrow> log_reachable env ls'"

lemma LoggerManager_new_ok: "ls_ok (LoggerManager_new env g)"
proof -
  let ?ls = "\<lparr>ls_loggers = [0 \<mapsto> Logger_new env ''root''], ls_appenders = [0 \<mapsto> StdOutLogAppender_new g],
      ls_names = [''root'' \<mapsto> 0], ls_root = 0, ls_next = 1\<rparr>"
  have "ls_ok ?ls"
    by (rule ls_okI [where r = "Logger_new env ''root''"])
      (auto simp: logger_ok_def Logger_new_def split: if_splits)
  then show ?thesis unfolding LoggerManager_new_def by (rule addAppender_ok) simp
qed

lemma Logger_log_kept:
  "ls_ok ls \<Longrightarrow> Logger_log n env l level ev ls = Inr (outs, ls') \<Longrightarrow> ls_ok ls'"
proof (induction n arbitrary: l)
  case (Suc n)
  obtain lg where lg: "ls_loggers ls l = Some lg" using Suc.prems by (auto split: option.splits)
  show ?case
  proof (cases "level \<ge> lg_level lg \<and> lg_appenders lg \<noteq> []")
    case True
    have "\<forall>a \<in> set (lg_appenders lg). \<exists>ap. ls_appenders ls a = Some ap \<and> ap_formatter ap \<noteq> None"
      using ls_okD(2) [OF Suc.prems(1) lg] by (simp add: logger_ok_def)
    from log_appenders_ok [OF this, of env "lg_name lg" level ev] Suc.prems lg True
    have "appenders_kept ls ls'" "ls_loggers ls' = ls_loggers ls" "ls_root ls' = ls_root ls"
      "ls_names ls' = ls_names ls" "ls_next ls' = ls_next ls"
      by auto
    then show ?thesis by (rule ls_ok_appenders [OF Suc.prems(1)])
  next
    case False
    then show ?thesis using Suc lg by (auto split: if_splits option.splits)
  qed
qed simp

lemma log_reachable_ok: "log_reachable env ls \<Longrightarrow> ls_ok ls"
proof (induction rule: log_reachable.induct)
  case (lr_new_ap ls a ap)
  show ?case
    by (rule ls_ok_appenders [OF lr_new_ap.IH]) (use lr_new_ap.hyps in \<open>auto simp: appenders_kept_def\<close>)
next
  case (lr_ap_fmt ls a fm)
  show ?case
    by (rule ls_ok_appenders [OF lr_ap_fmt.IH])
      (auto intro!: upd_appender_kept simp: appender_setFormatter_def)
next
  case (lr_level ls l v)
  then show ?case
    unfolding Logger_setLevel_def by (intro ls_ok_logger) (auto simp: logger_ok_def)
next
  case (lr_del ls l a)
  then show ?case
    unfolding Logger_delAppender_def
    by (intro ls_ok_logger) (auto simp: logger_ok_def dest: set_remove1_subset [THEN subsetD])
next
  case (lr_log ls n l level ev outs ls')
  then show ?case by (blast intro: Logger_log_kept)
qed (auto simp: LoggerManager_new_ok getLogger_ok setFormatter_ok addAppender_ok
    Logger_setFormatter_string_def Let_def)

section \<open>Properties\<close>

text \<open>
  C33: the pattern language.  The text of every sequence of literal text, \<open>%c\<close> and \<open>%c{fmt}\<close> items with
  known letters parses to exactly those items, in order, and the error flag is then what the
  uninitialised member held.  (Literal text must not contain \<open>%\<close>, and text behind a bare item must not
  begin with a letter or a brace.)
\<close>

theorem pattern_roundtrip:
  assumes "segs_ok ss"
  shows "fm_items (LogFormatter_new g (concat (map seg_text ss))) = map seg_item ss \<and>
    fm_error (LogFormatter_new g (concat (map seg_text ss))) = g"
  using init_scan_segs [OF assms, of "[]"] segs_ok_each [OF assms]
  by (simp add: LogFormatter_new_def flush_text_def list_ex_iff)

lemma pattern_roundtrip_witness:
  "fm_items (LogFormatter_new False default_pattern) =
    [DateTimeFormatItem ''[(%Y-%m-%d %H:%M:%S)]'', TabFormatItem, ThreadIdFormatItem, TabFormatItem,
     ThreadNameFormatItem, TabFormatItem, FibreIdFormatItem, TabFormatItem, StringFormatItem ''['',
     LevelFormatItem, StringFormatItem '']'', TabFormatItem, StringFormatItem ''['', NameFormatItem,
     StringFormatItem '']'', TabFormatItem, FileNameFormatItem, StringFormatItem '':'', LineFormatItem,
     TabFormatItem, MessageFormatItem, NewLineFormatItem]"
proof -
  let ?ss = "[Item_Fmt CHR ''d'' ''[(%Y-%m-%d %H:%M:%S)]'', Item CHR ''T'', Item CHR ''t'', Item CHR ''T'',
     Item CHR ''N'', Item CHR ''T'', Item CHR ''F'', Item CHR ''T'', Text ''['', Item CHR ''p'', Text '']'',
     Item CHR ''T'', Text ''['', Item CHR ''c'', Text '']'', Item CHR ''T'', Item CHR ''f'', Text '':'',
     Item CHR ''l'', Item CHR ''T'', Item CHR ''m'', Item CHR ''n'']"
  have ok: "segs_ok ?ss"
    by (simp add: known_def ends_name_def starts_text_def isalpha_def char_code_def)
  have "concat (map seg_text ?ss) = default_pattern"
    by (simp add: default_pattern_def)
  then show ?thesis
    using pattern_roundtrip [OF ok, of False] by (simp add: s_format_items_def DateTime_new_def)
qed

text \<open>
  C32: in every log system that use of the manager and of formatters that are not null can reach, an
  event logged on any logger is delivered: two hops suffice, no null pointer is met, and what is
  written is what the appenders of the logger write in order - or those of the root logger when it
  has none, under the root's level and the root's name; below the level of the logger nothing is.
\<close>

theorem log_delivers:
  assumes "log_reachable env ls" "ls_loggers ls l = Some lg"
  shows "\<exists>outs ls'. Logger_log 2 env l level ev ls = Inr (outs, ls') \<and> log_reachable env ls' \<and>
    log_appenders env (fst (sinks ls l level)) level ev (snd (sinks ls l level)) ls = Inr (outs, ls') \<and>
    (level < lg_level lg \<longrightarrow> outs = [] \<and> ls' = ls)"
proof -
  note ok = log_reachable_ok [OF assms(1)]
  obtain outs ls' where "log_appenders env (fst (sinks ls l level)) level ev (snd (sinks ls l level)) ls =
      Inr (outs, ls')"
    using log_appenders_ok [of "snd (sinks ls l level)" ls] sinks_formatters [OF ok] by blast
  moreover from this have "Logger_log 2 env l level ev ls = Inr (outs, ls')"
    using Logger_log_sinks [OF ok assms(2), of env level ev] by (simp add: case_prod_unfold)
  moreover have "level < lg_level lg \<longrightarrow> snd (sinks ls l level) = []"
    using assms(2) by (simp add: sinks_def)
  ultimately show ?thesis using lr_log [OF assms(1)] by fastforce
qed

definition demo_env :: log_env where
  "demo_env = \<lparr>le_strftime = (\<lambda>f t. f), le_can_open = (\<lambda>f. True), le_garbage = False\<rparr>"

lemma log_delivers_witness:
  "\<exists>outs ls'. Logger_log 2 demo_env 0 ERROR
      (LogEvent_new ERROR ''a.cc'' 7 0 1 0 9 ''main'') (LoggerManager_new demo_env UNKNOW) = Inr (outs, ls')"
proof -
  obtain lg where "ls_loggers (LoggerManager_new demo_env UNKNOW) 0 = Some lg"
    by (simp add: LoggerManager_new_def Logger_addAppender_def upd_logger_def upd_appender_def)
  from log_delivers [OF lr_new this] show ?thesis by blast
qed

section \<open>Where the code breaks\<close>

text \<open>\<open>%%\<close> does not skip its second \<open>%\<close>, which then starts an item.\<close>

lemma percent_percent_m: "init_scan [] ''%%m'' = ([(''%'', [], 0), (''m'', [], 1)], False)"
  by code_simp

text \<open>A file appender that logs after three seconds of silence reopens, and so truncates, its file.\<close>

fun file_content :: "string \<Rightarrow> string \<Rightarrow> log_output list \<Rightarrow> string" where
  "file_content f s [] = s"
| "file_content f s (Reopen g # os) = file_content f (if g = f then [] else s) os"
| "file_content f s (File_Write g t # os) = file_content f (if g = f then s @ t else s) os"
| "file_content f s (Stdout t # os) = file_content f s os"

lemma reopen_truncates:
  assumes "le_can_open env f" "ap_formatter ap = Some fm" "ap_level ap \<le> level"
    and "ap_lastTime ap + 3 \<le> ev_time ev"
    and "FileLogAppender_log env f name level ev ap = Inr (outs, ap')"
  shows "file_content f old outs = LogFormatter_format (le_strftime env) fm name level ev"
  using assms by (auto simp: FileLogAppender_log_def FileLogAppender_reopen_def Let_def)

text \<open>What \<open>HPGS_WRITE_LOG\<close> sets with \<open>setContent\<close> is not what the message item prints.\<close>

lemma setContent_ignored: "getContent (setContent s ev) = getContent ev"
  by (simp add: getContent_def setContent_def)

text \<open>Equality of appender definitions compares a file name with a formatter: it is not reflexive.\<close>

lemma LogAppenderDefine_not_refl:
  "\<not> LogAppenderDefine_eq \<lparr>lad_type = 1, lad_level = INFO, lad_formatter = [], lad_file = ''a.log''\<rparr>
     \<lparr>lad_type = 1, lad_level = INFO, lad_formatter = [], lad_file = ''a.log''\<rparr>"
  by (simp add: LogAppenderDefine_eq_def)

end
