(* ===== verification/Address.thy ===== *)
theory Address
  imports Endian Str_Props Std_Set
begin

text \<open>
  Network addresses (\<open>src/network/address.cc\<close>, \<open>include/network/myaddress.h\<close>).  The socket
  address structures are records whose fields hold the words as they stand in memory, so port and
  address are in network order; the byte image of a structure is what \<open>getAddr\<close> points to and what
  \<open>Address_Create\<close> reads.  \<open>getaddrinfo\<close>, \<open>getifaddrs\<close> and \<open>inet_pton\<close> are arguments.
\<close>

section \<open>Masks and bit counts\<close>

text \<open>
  \<open>(1 << (sizeof(T) * 8 - bits)) - 1\<close>: the shift count is a 64-bit unsigned number and \<open>1\<close> is a
  32-bit \<open>int\<close>, so a count of 32 or more is undefined, and with 31 the subtraction overflows.
\<close>

definition CreateMask :: "u32 \<Rightarrow> 'a::len word res" where
  "CreateMask bits =
     (let k = unat (of_nat LENGTH('a) - ucast bits :: u64)
      in if k < 31 then Inr (word_of_int (2 ^ k - 1)) else Inl Undefined)"

lemma and_minus_one_less: "value \<noteq> 0 \<Longrightarrow> unat (value AND (value - 1) :: 'a::len word) < unat value"
proof -
  assume "value \<noteq> 0"
  then have "unat (value - 1) < unat value" by (simp add: unat_minus_one unat_gt_0)
  moreover have "unat (value AND (value - 1)) \<le> unat (value - 1)"
    by (metis word_and_le1 word_le_nat_alt)
  ultimately show ?thesis by linarith
qed

function count_loop :: "'a::len word \<Rightarrow> u32 \<Rightarrow> u32" where
  "count_loop value result =
     (if value \<noteq> 0 then count_loop (value AND (value - 1)) (result + 1) else result)"
  by auto
termination
  by (relation "measure (\<lambda>(v, _). unat v)") (auto intro: and_minus_one_less)

declare count_loop.simps [simp del]

definition CountBytes :: "'a::len word \<Rightarrow> u32" where
  "CountBytes value = count_loop value 0"

section \<open>Socket address structures\<close>

record sockaddr_in =
  sin_family :: u16
  sin_port :: u16
  s_addr :: u32
  sin_zero :: "byte list"

record sockaddr_in6 =
  sin6_family :: u16
  sin6_port :: u16
  sin6_flowinfo :: u32
  s6_addr :: "byte list"
  sin6_scope_id :: u32

record sockaddr_un =
  sun_family :: u16
  sun_path :: "byte list"

record sockaddr =
  sa_family :: u16
  sa_data :: "byte list"

definition AF_UNSPEC :: int where "AF_UNSPEC = 0"
definition AF_UNIX :: int where "AF_UNIX = 1"
definition AF_INET :: int where "AF_INET = 2"
definition AF_INET6 :: int where "AF_INET6 = 10"

text \<open>The subclasses of \<open>Address\<close> with their members; a Unix address also keeps \<open>m_length\<close>.\<close>

datatype address =
    IPv4Address sockaddr_in
  | IPv6Address sockaddr_in6
  | UnixAddress sockaddr_un u32
  | UnknownAddress sockaddr

subsection \<open>Their images in memory\<close>

definition in_bytes :: "byte_order \<Rightarrow> sockaddr_in \<Rightarrow> byte list" where
  "in_bytes host a =
     mem_bytes host (sin_family a) @ mem_bytes host (sin_port a) @ mem_bytes host (s_addr a) @ sin_zero a"

definition in6_bytes :: "byte_order \<Rightarrow> sockaddr_in6 \<Rightarrow> byte list" where
  "in6_bytes host a =
     mem_bytes host (sin6_family a) @ mem_bytes host (sin6_port a) @ mem_bytes host (sin6_flowinfo a) @
     s6_addr a @ mem_bytes host (sin6_scope_id a)"

definition get_family :: "byte_order \<Rightarrow> byte list \<Rightarrow> u16 res" where
  "get_family host m = (if length m < 2 then Inl Bad_Access else Inr (mem_word host (take 2 m)))"

definition get_in :: "byte_order \<Rightarrow> byte list \<Rightarrow> sockaddr_in res" where
  "get_in host m =
     (if length m < 16 then Inl Bad_Access
      else Inr \<lparr>sin_family = mem_word host (take 2 m), sin_port = mem_word host (take 2 (drop 2 m)),
                s_addr = mem_word host (take 4 (drop 4 m)), sin_zero = take 8 (drop 8 m)\<rparr>)"

definition get_in6 :: "byte_order \<Rightarrow> byte list \<Rightarrow> sockaddr_in6 res" where
  "get_in6 host m =
     (if length m < 28 then Inl Bad_Access
      else Inr \<lparr>sin6_family = mem_word host (take 2 m), sin6_port = mem_word host (take 2 (drop 2 m)),
                sin6_flowinfo = mem_word host (take 4 (drop 4 m)), s6_addr = take 16 (drop 8 m),
                sin6_scope_id = mem_word host (take 4 (drop 24 m))\<rparr>)"

section \<open>The common interface\<close>

definition getAddr :: "byte_order \<Rightarrow> address \<Rightarrow> byte list" where
  "getAddr host a =
     (case a of
        IPv4Address m \<Rightarrow> in_bytes host m
      | IPv6Address m \<Rightarrow> in6_bytes host m
      | UnixAddress m _ \<Rightarrow> mem_bytes host (sun_family m) @ sun_path m
      | UnknownAddress m \<Rightarrow> mem_bytes host (sa_family m) @ sa_data m)"

definition getAddrlen :: "address \<Rightarrow> u32" where
  "getAddrlen a =
     (case a of IPv4Address _ \<Rightarrow> 16 | IPv6Address _ \<Rightarrow> 28 | UnixAddress _ l \<Rightarrow> l | UnknownAddress _ \<Rightarrow> 16)"

definition getFamily :: "address \<Rightarrow> int" where
  "getFamily a =
     (case a of IPv4Address m \<Rightarrow> uint (sin_family m) | IPv6Address m \<Rightarrow> uint (sin6_family m)
      | UnixAddress m _ \<Rightarrow> uint (sun_family m) | UnknownAddress m \<Rightarrow> uint (sa_family m))"

text \<open>\<open>Address_Create\<close> looks at the family only; the length it is given is not used.\<close>

definition Address_Create :: "byte_order \<Rightarrow> byte list option \<Rightarrow> u32 \<Rightarrow> address option res" where
  "Address_Create host addr addrlen =
     (case addr of
        None \<Rightarrow> Inr None
      | Some m \<Rightarrow>
          rbind (get_family host m) (\<lambda>f.
            if uint f = AF_INET then rbind (get_in host m) (\<lambda>a. Inr (Some (IPv4Address a)))
            else if uint f = AF_INET6 then rbind (get_in6 host m) (\<lambda>a. Inr (Some (IPv6Address a)))
            else Inr None))"

fun memcmp :: "byte list \<Rightarrow> byte list \<Rightarrow> int" where
  "memcmp (x # xs) (y # ys) = (if x < y then - 1 else if y < x then 1 else memcmp xs ys)"
| "memcmp _ _ = 0"

definition memcmp_n :: "byte list \<Rightarrow> byte list \<Rightarrow> nat \<Rightarrow> int res" where
  "memcmp_n a b n =
     (if length a < n \<or> length b < n then Inl Bad_Access else Inr (memcmp (take n a) (take n b)))"

definition address_less :: "byte_order \<Rightarrow> address \<Rightarrow> address \<Rightarrow> bool res" where
  "address_less host a rhs =
     (let minlen = min (getAddrlen a) (getAddrlen rhs)
      in rbind (memcmp_n (getAddr host a) (getAddr host rhs) (unat minlen)) (\<lambda>result.
           Inr (if result < 0 then True
                else if result > 0 then False
                else if getAddrlen a < getAddrlen rhs then True
                else False)))"

definition address_eq :: "byte_order \<Rightarrow> address \<Rightarrow> address \<Rightarrow> bool res" where
  "address_eq host a rhs =
     (if getAddrlen a = getAddrlen rhs
      then rbind (memcmp_n (getAddr host a) (getAddr host rhs) (unat (getAddrlen a))) (\<lambda>r. Inr (r = 0))
      else Inr False)"

definition address_neq :: "byte_order \<Rightarrow> address \<Rightarrow> address \<Rightarrow> bool res" where
  "address_neq host a rhs = rbind (address_eq host a rhs) (\<lambda>b. Inr (\<not> b))"

section \<open>IPv4\<close>

definition new_IPv4 :: "byte_order \<Rightarrow> u32 \<Rightarrow> u16 \<Rightarrow> sockaddr_in" where
  "new_IPv4 host address port =
     \<lparr>sin_family = of_int AF_INET, sin_port = byteswapOnLittleEndian host port,
      s_addr = byteswapOnLittleEndian host address, sin_zero = replicate 8 0\<rparr>"

text \<open>\<open>inet_pton(AF_INET, ..)\<close>: \<open>Some\<close> is a return of 1 with the word it stores.\<close>

definition IPv4_Create :: "byte_order \<Rightarrow> (string \<Rightarrow> u32 option) \<Rightarrow> string \<Rightarrow> u16 \<Rightarrow> sockaddr_in option" where
  "IPv4_Create host inet_pton address port =
     (let rt = (new_IPv4 host 0 0)\<lparr>sin_port := byteswapOnLittleEndian host port\<rparr>
      in case inet_pton address of None \<Rightarrow> None | Some w \<Rightarrow> Some (rt\<lparr>s_addr := w\<rparr>))"

definition insert_v4 :: "byte_order \<Rightarrow> sockaddr_in \<Rightarrow> string" where
  "insert_v4 host m =
     (let addr = byteswapOnLittleEndian host (s_addr m)
      in show_nat (unat (drop_bit 24 addr AND 0xff)) @ ''.'' @
         show_nat (unat (drop_bit 16 addr AND 0xff)) @ ''.'' @
         show_nat (unat (drop_bit 8 addr AND 0xff)) @ ''.'' @
         show_nat (unat (addr AND 0xff)) @
         '':'' @ show_nat (unat (byteswapOnLittleEndian host (sin_port m))))"

definition broadcastAddress_v4 :: "byte_order \<Rightarrow> sockaddr_in \<Rightarrow> u32 \<Rightarrow> sockaddr_in option res" where
  "broadcastAddress_v4 host m prefix_len =
     (if prefix_len > 32 then Inr None
      else rbind (CreateMask prefix_len) (\<lambda>mask.
        Inr (Some (m\<lparr>s_addr := s_addr m OR byteswapOnLittleEndian host mask\<rparr>))))"

definition networkAddress_v4 :: "byte_order \<Rightarrow> sockaddr_in \<Rightarrow> u32 \<Rightarrow> sockaddr_in option res" where
  "networkAddress_v4 host m prefix_len =
     (if prefix_len > 32 then Inr None
      else rbind (CreateMask prefix_len) (\<lambda>mask.
        Inr (Some (m\<lparr>s_addr := s_addr m AND byteswapOnLittleEndian host mask\<rparr>))))"

definition subnetMask_v4 :: "byte_order \<Rightarrow> u32 \<Rightarrow> sockaddr_in res" where
  "subnetMask_v4 host prefix_len =
     rbind (CreateMask prefix_len) (\<lambda>mask.
       Inr \<lparr>sin_family = of_int AF_INET, sin_port = 0,
            s_addr = NOT (byteswapOnLittleEndian host mask), sin_zero = replicate 8 0\<rparr>)"

definition getPort_v4 :: "byte_order \<Rightarrow> sockaddr_in \<Rightarrow> u32" where
  "getPort_v4 host m = ucast (byteswapOnLittleEndian host (sin_port m))"

definition setPort_v4 :: "byte_order \<Rightarrow> u16 \<Rightarrow> sockaddr_in \<Rightarrow> sockaddr_in" where
  "setPort_v4 host v m = m\<lparr>sin_port := byteswapOnLittleEndian host v\<rparr>"

section \<open>IPv6\<close>

definition new_IPv6 :: sockaddr_in6 where
  "new_IPv6 = \<lparr>sin6_family = of_int AF_INET6, sin6_port = 0, sin6_flowinfo = 0,
               s6_addr = replicate 16 0, sin6_scope_id = 0\<rparr>"

definition new_IPv6_from :: "byte_order \<Rightarrow> byte list \<Rightarrow> u16 \<Rightarrow> sockaddr_in6 res" where
  "new_IPv6_from host address port =
     rbind (mem_get address 0 16) (\<lambda>a.
       Inr (new_IPv6\<lparr>sin6_port := byteswapOnLittleEndian host port, s6_addr := a\<rparr>))"

definition IPv6_Create :: "byte_order \<Rightarrow> (string \<Rightarrow> byte list option) \<Rightarrow> string \<Rightarrow> u16 \<Rightarrow> sockaddr_in6 option" where
  "IPv6_Create host inet_pton address port =
     (let rt = new_IPv6\<lparr>sin6_port := byteswapOnLittleEndian host port\<rparr>
      in case inet_pton address of None \<Rightarrow> None | Some w \<Rightarrow> Some (rt\<lparr>s6_addr := w\<rparr>))"

definition hex_lower :: "nat \<Rightarrow> char" where
  "hex_lower d = ''0123456789abcdef'' ! d"

fun show_hex :: "nat \<Rightarrow> string" where
  "show_hex n = (if n < 16 then [hex_lower n] else show_hex (n div 16) @ [hex_lower (n mod 16)])"

declare show_hex.simps [simp del]

text \<open>\<open>addr[i]\<close>: the 16-byte array read as eight words of the host.\<close>

definition v6_word :: "byte_order \<Rightarrow> byte list \<Rightarrow> nat \<Rightarrow> u16" where
  "v6_word host bs i = mem_word host (take 2 (drop (2 * i) bs))"

text \<open>The loop over the eight words, and the zero run at the end.\<close>

fun insert_loop :: "byte_order \<Rightarrow> (nat \<Rightarrow> u16) \<Rightarrow> nat list \<Rightarrow> string \<Rightarrow> bool \<Rightarrow> string \<times> bool" where
  "insert_loop host addr [] os used_zeros = (os, used_zeros)"
| "insert_loop host addr (i # is) os used_zeros =
     (if addr i = 0 \<and> \<not> used_zeros then insert_loop host addr is os used_zeros
      else
        let skip = (i \<noteq> 0 \<and> addr (i - 1) = 0 \<and> \<not> used_zeros);
            os = (if skip then os @ '':'' else os);
            used_zeros = (skip \<or> used_zeros);
            os = (if i \<noteq> 0 then os @ '':'' else os);
            os = os @ show_hex (unat (byteswapOnLittleEndian host (addr i)))
        in insert_loop host addr is os used_zeros)"

definition insert_v6 :: "byte_order \<Rightarrow> sockaddr_in6 \<Rightarrow> string" where
  "insert_v6 host m =
     (let addr = v6_word host (s6_addr m);
          (os, used_zeros) = insert_loop host addr [0..<8] ''['' False;
          os = (if \<not> used_zeros \<and> addr 7 = 0 then os @ ''::'' else os)
      in os @ '']:'' @ show_nat (unat (byteswapOnLittleEndian host (sin6_port m))))"

text \<open>An index of 16 or more into \<open>s6_addr\<close> is outside the array.\<close>

definition broadcastAddress_v6 :: "sockaddr_in6 \<Rightarrow> u32 \<Rightarrow> sockaddr_in6 res" where
  "broadcastAddress_v6 m prefix_len =
     (let q = unat (prefix_len div 8)
      in rbind (CreateMask (prefix_len mod 8)) (\<lambda>mask.
           if q < 16
           then Inr (m\<lparr>s6_addr := map (\<lambda>i. if i = q then s6_addr m ! i OR mask
                                       else if i > q then 0xff else s6_addr m ! i) [0..<16]\<rparr>)
           else Inl Bad_Access))"

definition networkAddress_v6 :: "sockaddr_in6 \<Rightarrow> u32 \<Rightarrow> sockaddr_in6 res" where
  "networkAddress_v6 m prefix_len =
     (let q = unat (prefix_len div 8)
      in rbind (CreateMask (prefix_len mod 8)) (\<lambda>mask.
           if q < 16
           then Inr (m\<lparr>s6_addr := map (\<lambda>i. if i = q then s6_addr m ! i AND mask
                                       else if i > q then 0 else s6_addr m ! i) [0..<16]\<rparr>)
           else Inl Bad_Access))"

definition subnetMask_v6 :: "u32 \<Rightarrow> sockaddr_in6 res" where
  "subnetMask_v6 prefix_len =
     (let q = unat (prefix_len div 8)
      in rbind (CreateMask (prefix_len mod 8)) (\<lambda>mask.
           if q < 16
           then Inr (new_IPv6\<lparr>s6_addr := map (\<lambda>i. if i = q then NOT mask
                                               else if i < q then 0xff else 0) [0..<16]\<rparr>)
           else Inl Bad_Access))"

definition getPort_v6 :: "byte_order \<Rightarrow> sockaddr_in6 \<Rightarrow> u32" where
  "getPort_v6 host m = ucast (byteswapOnLittleEndian host (sin6_port m))"

definition setPort_v6 :: "byte_order \<Rightarrow> u16 \<Rightarrow> sockaddr_in6 \<Rightarrow> sockaddr_in6" where
  "setPort_v6 host v m = m\<lparr>sin6_port := byteswapOnLittleEndian host v\<rparr>"

section \<open>Unix and unknown addresses\<close>

text \<open>\<open>offsetof(sockaddr_un, sun_path)\<close> is 2 and \<open>sun_path\<close> has 108 bytes.\<close>

definition MAX_PATH_LEN :: nat where
  "MAX_PATH_LEN = 108 - 1"

definition new_Unix_default :: address where
  "new_Unix_default =
     UnixAddress \<lparr>sun_family = of_int AF_UNIX, sun_path = replicate 108 0\<rparr> (2 + of_nat MAX_PATH_LEN)"

definition str_bytes :: "string \<Rightarrow> byte list" where
  "str_bytes s = map (\<lambda>c. of_nat (char_code c)) s"

definition bytes_str :: "byte list \<Rightarrow> string" where
  "bytes_str bs = map (\<lambda>b. char_of (unat b)) bs"

definition new_Unix :: "string \<Rightarrow> address res" where
  "new_Unix path =
     (let m_length = of_nat (length path) + 1 :: u32;
          m_length = (if path \<noteq> [] \<and> char_code (hd path) = 0 then m_length - 1 else m_length)
      in if m_length > 108 then Inl Logic_Error
         else Inr (UnixAddress
                \<lparr>sun_family = of_int AF_UNIX,
                 sun_path = list_put (replicate 108 0) 0 (take (unat m_length) (str_bytes path @ [0]))\<rparr>
                (m_length + 2)))"

definition setAddrlen :: "u32 \<Rightarrow> sockaddr_un \<times> u32 \<Rightarrow> sockaddr_un \<times> u32" where
  "setAddrlen v a = (fst a, v)"

text \<open>
  A path that starts with a zero byte is printed with its length; any other up to its terminator,
  and beyond the array when there is none.
\<close>

definition getPath :: "sockaddr_un \<Rightarrow> u32 \<Rightarrow> string res" where
  "getPath m m_length =
     (if m_length > 2 \<and> hd (sun_path m) = 0
      then rbind (mem_get (sun_path m) 1 (unat (m_length - 2 - 1))) (\<lambda>bs. Inr (CHR 0x5C # ''0'' @ bytes_str bs))
      else if 0 \<in> set (sun_path m) then Inr (bytes_str (takeWhile (\<lambda>b. b \<noteq> 0) (sun_path m)))
      else Inl Bad_Access)"

definition insert_un :: "sockaddr_un \<Rightarrow> u32 \<Rightarrow> string res" where
  "insert_un m m_length =
     (if m_length > 2 \<and> hd (sun_path m) = 0
      then rbind (mem_get (sun_path m) 1 (unat (m_length - 2 - 1))) (\<lambda>bs. Inr (CHR 0x5C # ''0'' @ bytes_str bs))
      else if 0 \<in> set (sun_path m) then Inr (bytes_str (takeWhile (\<lambda>b. b \<noteq> 0) (sun_path m)))
      else Inl Bad_Access)"

definition new_Unknown :: "int \<Rightarrow> sockaddr" where
  "new_Unknown family = \<lparr>sa_family = word_of_int family, sa_data = replicate 14 0\<rparr>"

definition insert_unknown :: "sockaddr \<Rightarrow> string" where
  "insert_unknown m = ''[UnknownAddress family='' @ show_nat (unat (sa_family m)) @ '']''"

definition toString :: "byte_order \<Rightarrow> address \<Rightarrow> string res" where
  "toString host a =
     (case a of
        IPv4Address m \<Rightarrow> Inr (insert_v4 host m)
      | IPv6Address m \<Rightarrow> Inr (insert_v6 host m)
      | UnixAddress m l \<Rightarrow> insert_un m l
      | UnknownAddress m \<Rightarrow> Inr (insert_unknown m))"

section \<open>Address_Lookup\<close>

text \<open>The pointer \<open>service\<close> is a suffix of \<open>host\<close>, as is what \<open>memchr\<close> finds.\<close>

definition memchr :: "char \<Rightarrow> string \<Rightarrow> string option" where
  "memchr c s = (let t = dropWhile (\<lambda>x. x \<noteq> c) s in if t = [] then None else Some t)"

definition parse_bracket :: "string \<Rightarrow> string \<times> string option" where
  "parse_bracket host =
     (if host \<noteq> [] \<and> hd host = CHR ''['' then
        (case memchr CHR '']'' (tl host) of
           None \<Rightarrow> ('''', None)
         | Some endipv6 \<Rightarrow>
             (takeWhile (\<lambda>c. c \<noteq> CHR '']'') (tl host),
              if tl endipv6 \<noteq> [] \<and> hd (tl endipv6) = CHR '':'' then Some (drop 2 endipv6) else None))
      else ('''', None))"

definition parse_node :: "string \<Rightarrow> string \<times> string option" where
  "parse_node host =
     (let (node, service) = parse_bracket host;
          (node, service) =
            (if node = [] then
               (case memchr CHR '':'' host of
                  None \<Rightarrow> (node, None)
                | Some svc \<Rightarrow>
                    if memchr CHR '':'' (tl svc) = None
                    then (takeWhile (\<lambda>c. c \<noteq> CHR '':'') host, Some (tl svc))
                    else (node, Some svc))
             else (node, service))
      in (if node = [] then host else node, service))"

definition c_str :: "string \<Rightarrow> string" where
  "c_str s = takeWhile (\<lambda>c. char_code c \<noteq> 0) s"

record hints =
  ai_flags :: int
  ai_family :: int
  ai_socktype :: int
  ai_protocol :: int

type_synonym resolver = "string \<Rightarrow> string option \<Rightarrow> hints \<Rightarrow> int + (byte list option \<times> u32) list"

fun create_all :: "byte_order \<Rightarrow> (byte list option \<times> u32) list \<Rightarrow> address option list \<Rightarrow> address option list res" where
  "create_all host [] result = Inr result"
| "create_all host ((addr, len) # next) result =
     rbind (Address_Create host addr len) (\<lambda>a. create_all host next (result @ [a]))"

definition Address_Lookup ::
  "byte_order \<Rightarrow> resolver \<Rightarrow> address option list \<Rightarrow> string \<Rightarrow> int \<Rightarrow> int \<Rightarrow> int \<Rightarrow> (bool \<times> address option list) res" where
  "Address_Lookup host getaddrinfo result name family type protocol =
     (let (node, service) = parse_node name
      in case getaddrinfo (c_str node) (map_option c_str service)
                \<lparr>ai_flags = 0, ai_family = family, ai_socktype = type, ai_protocol = protocol\<rparr> of
           Inl error \<Rightarrow> Inr (False, result)
         | Inr results \<Rightarrow> rbind (create_all host results result) (\<lambda>rs. Inr (rs \<noteq> [], rs)))"

definition LookupAny :: "byte_order \<Rightarrow> resolver \<Rightarrow> string \<Rightarrow> int \<Rightarrow> int \<Rightarrow> int \<Rightarrow> address option res" where
  "LookupAny host getaddrinfo name family type protocol =
     rbind (Address_Lookup host getaddrinfo [] name family type protocol) (\<lambda>(ok, result).
       Inr (if ok then hd result else None))"

definition to_IPAddress :: "address option \<Rightarrow> address option" where
  "to_IPAddress a =
     (case a of Some (IPv4Address m) \<Rightarrow> Some (IPv4Address m) | Some (IPv6Address m) \<Rightarrow> Some (IPv6Address m) | _ \<Rightarrow> None)"

fun first_IP :: "address option list \<Rightarrow> address option" where
  "first_IP [] = None"
| "first_IP (i # is) = (case to_IPAddress i of Some v \<Rightarrow> Some v | None \<Rightarrow> first_IP is)"

definition LookupAnyIPAddress :: "byte_order \<Rightarrow> resolver \<Rightarrow> string \<Rightarrow> int \<Rightarrow> int \<Rightarrow> int \<Rightarrow> address option res" where
  "LookupAnyIPAddress host getaddrinfo name family type protocol =
     rbind (Address_Lookup host getaddrinfo [] name family type protocol) (\<lambda>(ok, result).
       Inr (if ok then first_IP result else None))"

definition AI_NUMERICHOST :: int where "AI_NUMERICHOST = 4"

definition IP_Create :: "byte_order \<Rightarrow> resolver \<Rightarrow> string \<Rightarrow> u16 \<Rightarrow> address option res" where
  "IP_Create host getaddrinfo address port =
     (case getaddrinfo address None
             \<lparr>ai_flags = AI_NUMERICHOST, ai_family = AF_UNSPEC, ai_socktype = 0, ai_protocol = 0\<rparr> of
        Inl error \<Rightarrow> Inr None
      | Inr [] \<Rightarrow> Inl Null_Deref
      | Inr ((addr, len) # _) \<Rightarrow>
          rbind (Address_Create host addr len) (\<lambda>a.
            Inr (case to_IPAddress a of
                   Some (IPv4Address m) \<Rightarrow> Some (IPv4Address (setPort_v4 host port m))
                 | Some (IPv6Address m) \<Rightarrow> Some (IPv6Address (setPort_v6 host port m))
                 | _ \<Rightarrow> None)))"

section \<open>Interfaces\<close>

record ifaddrs =
  ifa_name :: string
  ifa_addr :: "byte list option"
  ifa_netmask :: "byte list option"

type_synonym if_map = "(string \<times> address \<times> u32) list"

text \<open>\<open>std::multimap::insert\<close> puts a pair after those with the same key.\<close>

fun multimap_insert :: "('k \<Rightarrow> 'k \<Rightarrow> bool) \<Rightarrow> 'k \<times> 'v \<Rightarrow> ('k \<times> 'v) list \<Rightarrow> ('k \<times> 'v) list" where
  "multimap_insert lt p [] = [p]"
| "multimap_insert lt p (q # qs) = (if lt (fst p) (fst q) then p # q # qs else q # multimap_insert lt p qs)"

definition string_less :: "string \<Rightarrow> string \<Rightarrow> bool" where
  "string_less s t \<longleftrightarrow> ord.lexordp (\<lambda>a b. char_code a < char_code b) s t"

definition not_null :: "'a option \<Rightarrow> 'a res" where
  "not_null p = (case p of None \<Rightarrow> Inl Null_Deref | Some x \<Rightarrow> Inr x)"

fun count_prefix :: "byte list \<Rightarrow> u32 \<Rightarrow> u32" where
  "count_prefix [] prefix_len = prefix_len"
| "count_prefix (b # bs) prefix_len = count_prefix bs (prefix_len + CountBytes b)"

text \<open>One interface: nothing when it is filtered out or of another family.\<close>

definition iface_address :: "byte_order \<Rightarrow> int \<Rightarrow> ifaddrs \<Rightarrow> (address option \<times> u32) res" where
  "iface_address host family next =
     rbind (if family \<noteq> AF_UNSPEC
            then rbind (not_null (ifa_addr next)) (\<lambda>m. rbind (get_family host m) (\<lambda>f. Inr (family \<noteq> uint f)))
            else Inr False) (\<lambda>skip.
       if skip then Inr (None, - 1)
       else rbind (not_null (ifa_addr next)) (\<lambda>m. rbind (get_family host m) (\<lambda>f.
         if uint f = AF_INET then
           rbind (Address_Create host (Some m) 16) (\<lambda>addr.
           rbind (not_null (ifa_netmask next)) (\<lambda>nm. rbind (get_in host nm) (\<lambda>netmask.
             Inr (addr, CountBytes (s_addr netmask)))))
         else if uint f = AF_INET6 then
           rbind (Address_Create host (Some m) 28) (\<lambda>addr.
           rbind (not_null (ifa_netmask next)) (\<lambda>nm. rbind (get_in6 host nm) (\<lambda>netmask.
             Inr (addr, count_prefix (s6_addr netmask) 0))))
         else Inr (None, - 1))))"

fun iface_loop :: "byte_order \<Rightarrow> int \<Rightarrow> ifaddrs list \<Rightarrow> if_map \<Rightarrow> if_map res" where
  "iface_loop host family [] result = Inr result"
| "iface_loop host family (n # ns) result =
     rbind (iface_address host family n) (\<lambda>(addr, prefix_len).
       iface_loop host family ns
         (case addr of None \<Rightarrow> result
          | Some a \<Rightarrow> multimap_insert string_less (ifa_name n, a, prefix_len) result))"

text \<open>\<open>getifaddrs\<close> is \<open>None\<close> when the call fails.\<close>

definition GetInterfaceAddresses_all ::
  "byte_order \<Rightarrow> ifaddrs list option \<Rightarrow> if_map \<Rightarrow> int \<Rightarrow> (bool \<times> if_map) res" where
  "GetInterfaceAddresses_all host getifaddrs result family =
     (case getifaddrs of
        None \<Rightarrow> Inr (False, result)
      | Some results \<Rightarrow> rbind (iface_loop host family results result) (\<lambda>r. Inr (r \<noteq> [], r)))"

definition equal_range :: "('k \<Rightarrow> 'k \<Rightarrow> bool) \<Rightarrow> 'k \<Rightarrow> ('k \<times> 'v) list \<Rightarrow> ('k \<times> 'v) list" where
  "equal_range lt k m = filter (\<lambda>p. \<not> lt k (fst p) \<and> \<not> lt (fst p) k) m"

definition GetInterfaceAddresses ::
  "byte_order \<Rightarrow> ifaddrs list option \<Rightarrow> (address \<times> u32) list \<Rightarrow> string \<Rightarrow> int \<Rightarrow> (bool \<times> (address \<times> u32) list) res" where
  "GetInterfaceAddresses host getifaddrs result iface family =
     (if iface = [] \<or> iface = ''*'' then
        let result = (if family = AF_INET \<or> family = AF_UNSPEC
                      then result @ [(IPv4Address (new_IPv4 host 0 0), 0)] else result);
            result = (if family = AF_INET6 \<or> family = AF_UNSPEC
                      then result @ [(IPv6Address new_IPv6, 0)] else result)
        in Inr (True, result)
      else
        rbind (GetInterfaceAddresses_all host getifaddrs [] family) (\<lambda>(ok, results).
          if \<not> ok then Inr (False, result)
          else let result = result @ map snd (equal_range string_less iface results)
               in Inr (result \<noteq> [], result)))"

end
