(* ===== verification/Address_Props.thy ===== *)
theory Address_Props
  imports Address
begin

text \<open>
  What the address component promises: bit counts, the order on addresses, the arithmetic of
  prefixes for both families, the text of an IPv6 address, and the round trips through
  \<open>sockaddr\<close> and through Unix paths.
\<close>

section \<open>Bit counts\<close>

definition popcount :: "'a::len word \<Rightarrow> nat" where
  "popcount w = card {n. bit w n}"

lemma finite_bits [simp]: "finite {n. bit (w :: 'a::len word) n}"
  by (rule finite_subset [of _ "{..<LENGTH('a)}"]) (auto dest: bit_imp_le_length)

lemma card_bit_double: "card {k. bit (2 * n :: nat) k} = card {k. bit n k}"
proof -
  have "{k. bit (2 * n) k} = Suc ` {k. bit n k}"
    by (auto simp: bit_double_iff image_iff) (metis Suc_pred not_gr_zero)
  then show ?thesis by (simp add: card_image)
qed

lemma finite_nat_bits [simp]: "finite {k. bit (n :: nat) k}"
proof (rule finite_subset)
  show "{k. bit n k} \<subseteq> {..<n}"
    using bit_nat_iff less_exp by (auto simp: bit_iff_odd) (metis div_less even_zero leI less_exp order.strict_trans1)
qed simp

lemma card_bit_Suc_double: "card {k. bit (Suc (2 * n)) k} = Suc (card {k. bit n k})"
proof -
  have "{k. bit (Suc (2 * n)) k} = insert 0 (Suc ` {k. bit n k})"
  proof (intro set_eqI iffI)
    fix k assume "k \<in> {k. bit (Suc (2 * n)) k}"
    then show "k \<in> insert 0 (Suc ` {k. bit n k})" by (cases k) (auto simp: bit_Suc)
  qed (auto simp: bit_Suc bit_0)
  then show ?thesis by (simp add: card_image)
qed

lemma nat_clear_lowest: "0 < n \<Longrightarrow> Suc (card {k. bit (n AND (n - 1) :: nat) k}) = card {k. bit n k}"
proof (induction n rule: less_induct)
  case (less n)
  show ?case
  proof (cases "even n")
    case True
    then obtain m where m: "n = 2 * m" by auto
    with less.prems have m0: "0 < m" by simp
    have "2 * m AND (2 * m - 1) = 2 * (m AND (m - 1))"
    proof -
      have "(2 * m - 1) div 2 = m - 1" using m0 by simp
      then show ?thesis by (subst and_nat_rec) simp
    qed
    with less.IH [of m] m m0 show ?thesis by (simp add: card_bit_double)
  next
    case False
    then obtain m where m: "n = Suc (2 * m)" using oddE by fastforce
    have "Suc (2 * m) AND 2 * m = 2 * m" by (subst and_nat_rec) simp
    with m show ?thesis by (simp add: card_bit_double card_bit_Suc_double)
  qed
qed

lemma bit_unat: "bit (unat w) n \<longleftrightarrow> bit (w :: 'a::len word) n"
  by transfer (simp add: bit_take_bit_iff nat_take_bit_eq [symmetric] bit_nat_iff)

lemma popcount_clear_lowest:
  assumes "(w :: 'a::len word) \<noteq> 0"
  shows "popcount w = Suc (popcount (w AND (w - 1)))"
proof -
  have "0 < unat w" using assms by (simp add: unat_gt_0)
  moreover have "bit (unat w AND (unat w - 1)) n \<longleftrightarrow> bit (w AND (w - 1)) n" for n
    using bit_unat [of "w - 1" n] bit_unat [of w n] assms by (simp add: bit_and_iff unat_minus_one)
  ultimately show ?thesis using nat_clear_lowest [of "unat w"] by (simp add: popcount_def bit_unat)
qed

lemma count_loop_popcount: "count_loop w r = r + of_nat (popcount w)"
proof (induction w r rule: count_loop.induct)
  case (1 w r)
  show ?case
  proof (cases "w = 0")
    case True
    then show ?thesis by (simp add: count_loop.simps popcount_def)
  next
    case False
    have "count_loop w r = count_loop (w AND (w - 1)) (r + 1)"
      using False by (subst count_loop.simps) simp
    also have "\<dots> = r + of_nat (popcount w)"
      using 1 [OF False] popcount_clear_lowest [OF False] by simp
    finally show ?thesis .
  qed
qed

lemma CountBytes_popcount: "CountBytes w = of_nat (popcount w)"
  by (simp add: CountBytes_def count_loop_popcount)

section \<open>Byte swapping and bits\<close>

lemma bit_byteswap:
  "8 dvd LENGTH('a) \<Longrightarrow> bit (byteswap (w :: 'a::len word)) n \<longleftrightarrow>
     n < LENGTH('a) \<and> bit w (8 * (LENGTH('a) div 8 - 1 - n div 8) + n mod 8)"
  apply (simp add: byteswap_def bit_le_word)
  apply (auto simp: rev_nth le_bytes_def bit_ucast_iff bit_drop_bit_eq less_mult_imp_div_less)
  done

lemma byteswap_or: "8 dvd LENGTH('a) \<Longrightarrow> byteswap (v OR w) = byteswap v OR byteswap (w :: 'a::len word)"
  by (rule bit_eqI) (auto simp: bit_byteswap bit_or_iff)

lemma byteswap_and: "8 dvd LENGTH('a) \<Longrightarrow> byteswap (v AND w) = byteswap v AND byteswap (w :: 'a::len word)"
  by (rule bit_eqI) (auto simp: bit_byteswap bit_and_iff)

lemma swap_index_less: "8 dvd (l::nat) \<Longrightarrow> n < l \<Longrightarrow> 8 * (l div 8 - 1 - n div 8) + n mod 8 < l"
proof -
  assume "8 dvd l" "n < l"
  then obtain k where k: "l = 8 * k" by auto
  have "n div 8 < k" using \<open>n < l\<close> k by (simp add: less_mult_imp_div_less)
  then have "8 * (k - 1 - n div 8) \<le> 8 * (k - 1)" "0 < k" by simp_all
  moreover have "n mod 8 < 8" by simp
  ultimately show ?thesis using k by simp
qed

lemma byteswap_not: "8 dvd LENGTH('a) \<Longrightarrow> byteswap (NOT w) = NOT (byteswap (w :: 'a::len word))"
  by (rule bit_eqI) (auto simp: bit_byteswap bit_not_iff swap_index_less dest: bit_imp_le_length)

lemma popcount_byteswap32: "popcount (byteswap w) = popcount (w :: u32)"
proof -
  let ?f = "\<lambda>n::nat. 8 * (3 - n div 8) + n mod 8"
  have inv: "?f (?f n) = n" if "n < 32" for n
  proof -
    have "n div 8 \<le> 3" using that by simp
    then have "(8 * (3 - n div 8) + n mod 8) div 8 = 3 - n div 8" by simp
    then show ?thesis using \<open>n div 8 \<le> 3\<close> by simp
  qed
  have lt: "?f n < 32" if "n < 32" for n
    using swap_index_less [of 32 n] that by simp
  have b: "bit (byteswap w) n \<longleftrightarrow> n < 32 \<and> bit w (?f n)" for n
    by (simp add: bit_byteswap)
  have w: "n < 32" if "bit w n" for n using bit_imp_le_length [OF that] by simp
  have "bij_betw ?f {n. bit (byteswap w) n} {n. bit w n}"
  proof (rule bij_betw_byWitness [where f' = ?f])
    show "?f ` {n. bit w n} \<subseteq> {n. bit (byteswap w) n}"
      unfolding b using w lt inv by (auto simp only: mem_Collect_eq image_subset_iff)
  qed (use b inv w in blast)+
  then show ?thesis unfolding popcount_def by (rule bij_betw_same_card)
qed

lemmas ntoh_bits = byteswap_or byteswap_and byteswap_not byteswapOnLittleEndian_def

lemma ntoh_or: "8 dvd LENGTH('a) \<Longrightarrow>
    byteswapOnLittleEndian host (v OR w) = byteswapOnLittleEndian host v OR byteswapOnLittleEndian host (w :: 'a::len word)"
  by (simp add: ntoh_bits split: byte_order.split)

lemma ntoh_and: "8 dvd LENGTH('a) \<Longrightarrow>
    byteswapOnLittleEndian host (v AND w) = byteswapOnLittleEndian host v AND byteswapOnLittleEndian host (w :: 'a::len word)"
  by (simp add: ntoh_bits split: byte_order.split)

lemma ntoh_not: "8 dvd LENGTH('a) \<Longrightarrow>
    byteswapOnLittleEndian host (NOT w) = NOT (byteswapOnLittleEndian host (w :: 'a::len word))"
  by (simp add: ntoh_bits split: byte_order.split)

lemma popcount_ntoh: "popcount (byteswapOnLittleEndian host w) = popcount (w :: u32)"
  by (simp add: byteswapOnLittleEndian_def popcount_byteswap32 split: byte_order.split)

section \<open>Masks\<close>

lemma unat_less_u32: "unat (p :: u32) < 2 ^ 32"
  using unsigned_less [of p, where 'a = nat] by simp

lemma unat_diff_u64: "unat (of_nat n - ucast (p :: u32) :: u64) =
    (if unat p \<le> n then n - unat p else n + 2 ^ 64 - unat p)" if "n < 2 ^ 32"
proof -
  have p: "unat (ucast p :: u64) = unat p"
    using unat_less_u32 [of p] by (simp add: unsigned_ucast_eq take_bit_nat_eq_self)
  have n: "unat (of_nat n :: u64) = n" using that by (simp add: unsigned_of_nat take_bit_nat_eq_self)
  show ?thesis by (simp add: unat_sub_if' p n)
qed

lemma CreateMask_u32: "2 \<le> p \<Longrightarrow> p \<le> 32 \<Longrightarrow> CreateMask p = Inr (mask (32 - unat p) :: u32)"
  using unat_diff_u64 [of 32 p]
  by (auto simp: CreateMask_def Let_def mask_eq_exp_minus_1 word_le_nat_alt)

lemma CreateMask_u32_undefined: "p < 2 \<or> p > 32 \<Longrightarrow> (CreateMask p :: u32 res) = Inl Undefined"
  using unat_diff_u64 [of 32 p] unat_less_u32 [of p]
  by (auto simp: CreateMask_def Let_def word_less_nat_alt)

lemma CreateMask_u8: "p < 8 \<Longrightarrow> CreateMask p = Inr (mask (8 - unat p) :: byte)"
  using unat_diff_u64 [of 8 p]
  by (auto simp: CreateMask_def Let_def mask_eq_exp_minus_1 word_less_nat_alt)

section \<open>IPv4 prefixes\<close>

text \<open>The address as a number, most significant byte first in memory.\<close>

definition v4_value :: "byte_order \<Rightarrow> sockaddr_in \<Rightarrow> u32" where
  "v4_value host m = byteswapOnLittleEndian host (s_addr m)"

lemma popcount_not_mask: "k \<le> 32 \<Longrightarrow> popcount (NOT (mask k) :: u32) = 32 - k"
proof -
  assume "k \<le> 32"
  have "{n. bit (NOT (mask k) :: u32) n} = {k..<32}" using \<open>k \<le> 32\<close> by (auto simp: bit_not_iff bit_mask_iff)
  then show ?thesis by (simp add: popcount_def)
qed

text \<open>C38: For a prefix of 2 to 32 bits, \<open>subnetMask\<close> has exactly the leading \<open>prefix_len\<close> bits set,
  counting its bits gives the prefix length back, and \<open>broadcastAddress\<close> keeps the network bits, sets
  every host bit and keeps the port; longer prefixes give a null broadcast address, and prefixes 0
  and 1 run into an undefined shift.\<close>

theorem ipv4_prefix:
  "if 2 \<le> p \<and> p \<le> 32 then
     \<exists>s b. subnetMask_v4 host p = Inr s \<and> broadcastAddress_v4 host m p = Inr (Some b) \<and>
       v4_value host s = NOT (mask (32 - unat p)) \<and> CountBytes (s_addr s) = p \<and>
       v4_value host b = v4_value host m OR NOT (v4_value host s) \<and>
       getPort_v4 host b = getPort_v4 host m
   else broadcastAddress_v4 host m p = (if p > 32 then Inr None else Inl Undefined) \<and>
        subnetMask_v4 host p = Inl Undefined"
proof (cases "2 \<le> p \<and> p \<le> 32")
  case True
  then have p: "CreateMask p = Inr (mask (32 - unat p) :: u32)" "\<not> p > 32"
    using CreateMask_u32 by auto
  have "unat p \<le> 32" using True by (simp add: word_le_nat_alt)
  then have c: "popcount (NOT (mask (32 - unat p)) :: u32) = unat p" by (simp add: popcount_not_mask)
  let ?h = "byteswapOnLittleEndian host (mask (32 - unat p)) :: u32"
  have "popcount (NOT ?h) = unat p"
    using c popcount_ntoh [of host "NOT (mask (32 - unat p))"] by (simp add: ntoh_not)
  then have "CountBytes (NOT ?h) = p" by (simp add: CountBytes_popcount)
  then show ?thesis
    using True p by (simp add: subnetMask_v4_def broadcastAddress_v4_def v4_value_def ntoh_or ntoh_not getPort_v4_def)
next
  case False
  then have "p < 2 \<or> p > 32" by auto
  from CreateMask_u32_undefined [OF this] False show ?thesis
    by (auto simp: subnetMask_v4_def broadcastAddress_v4_def)
qed

lemma ipv4_prefix_witness:
  "\<exists>s. subnetMask_v4 HPGS_LITTLE_ENDIAN 24 = Inr s \<and> CountBytes (s_addr s) = 24"
  using ipv4_prefix [of 24 HPGS_LITTLE_ENDIAN "new_IPv4 HPGS_LITTLE_ENDIAN 0x0a000001 80"] by auto

text \<open>The network address is not the network part: the host bits are kept and the network bits are
  cleared.\<close>

lemma network_v4_is_host_part:
  "2 \<le> p \<Longrightarrow> p \<le> 32 \<Longrightarrow>
   \<exists>n. networkAddress_v4 host m p = Inr (Some n) \<and> v4_value host n = v4_value host m AND mask (32 - unat p)"
  by (auto simp: networkAddress_v4_def CreateMask_u32 v4_value_def ntoh_and)

lemma port_v4: "getPort_v4 host (setPort_v4 host v m) = ucast v"
  by (simp add: getPort_v4_def setPort_v4_def)

lemma port_v6: "getPort_v6 host (setPort_v6 host v m') = ucast v"
  by (simp add: getPort_v6_def setPort_v6_def)

section \<open>IPv6 prefixes\<close>

lemma unat_div8_mod8: "unat (p div 8 :: u32) = unat p div 8" "unat (p mod 8 :: u32) = unat p mod 8"
  by (simp_all add: unat_div unat_mod)

lemma CreateMask_mod8: "CreateMask (p mod 8) = Inr (mask (8 - unat p mod 8) :: byte)"
proof -
  have "p mod 8 < 8" by (simp add: word_less_nat_alt unat_mod)
  from CreateMask_u8 [OF this] show ?thesis by (simp add: unat_div8_mod8)
qed

text \<open>The number of bit \<open>b\<close> of byte \<open>i\<close> of an address, counted from the most significant.\<close>

definition v6_pos :: "nat \<Rightarrow> nat \<Rightarrow> nat" where
  "v6_pos i b = 8 * i + (7 - b)"

lemma bit_position: "b < 8 \<Longrightarrow> v6_pos i b < p \<longleftrightarrow> i < p div 8 \<or> i = p div 8 \<and> 8 - p mod 8 \<le> (b::nat)"
proof -
  assume "b < 8"
  have p: "p = 8 * (p div 8) + p mod 8" "p mod 8 < 8" by simp_all
  obtain q r where qr: "q = p div 8" "r = p mod 8" by simp
  with p have "p = 8 * q + r" "r < 8" by simp_all
  then show ?thesis using \<open>b < 8\<close> unfolding qr [symmetric] v6_pos_def by auto
qed

lemma count_prefix_append: "count_prefix (xs @ ys) r = count_prefix ys (count_prefix xs r)"
  by (induction xs arbitrary: r) simp_all

lemma ff_byte: "(0xff :: byte) = mask 8"
  by (simp add: mask_eq_exp_minus_1)

lemma CountBytes_values: "CountBytes (0 :: byte) = 0" "CountBytes (0xff :: byte) = 8"
proof -
  have "{n. bit (mask 8 :: byte) n} = {..<8}" by (auto simp: bit_mask_iff)
  then show "CountBytes (0xff :: byte) = 8" by (simp add: CountBytes_popcount popcount_def ff_byte)
qed (simp add: CountBytes_popcount popcount_def)

lemma CountBytes_not_mask: "r < 8 \<Longrightarrow> CountBytes (NOT (mask (8 - r)) :: byte) = of_nat r"
proof -
  assume "r < 8"
  then have "{n. bit (NOT (mask (8 - r)) :: byte) n} = {8 - r..<8}" by (auto simp: bit_not_iff bit_mask_iff)
  then show ?thesis using \<open>r < 8\<close> by (simp add: CountBytes_popcount popcount_def)
qed

lemma count_prefix_replicate: "count_prefix (replicate n b) r = r + of_nat n * CountBytes b"
  by (induction n arbitrary: r) (simp_all add: algebra_simps)

lemma subnet_bytes:
  "q < 16 \<Longrightarrow> map (\<lambda>i. if i = q then x else if i < q then y else z) [0..<16] =
     replicate q y @ [x] @ replicate (15 - q) z"
  by (rule nth_equalityI) (auto simp: nth_append nth_Cons')

text \<open>For a prefix below 128 bits, \<open>subnetMask\<close> sets exactly the bits before the prefix length,
  the bits counted over its bytes give the prefix length back, and \<open>broadcastAddress\<close> keeps the bits
  before the prefix length and sets all the others; from 128 on both write outside the array.\<close>

theorem ipv6_prefix:
  "if p < 128 then
     \<exists>s b. subnetMask_v6 p = Inr s \<and> broadcastAddress_v6 m p = Inr b \<and>
       count_prefix (s6_addr s) 0 = p \<and> length (s6_addr s) = 16 \<and> length (s6_addr b) = 16 \<and>
       list_all (\<lambda>(i, k). bit (s6_addr s ! i) k = (v6_pos i k < unat p) \<and>
         bit (s6_addr b ! i) k = (bit (s6_addr m ! i) k \<or> \<not> v6_pos i k < unat p))
         (List.product [0..<16] [0..<8])
   else subnetMask_v6 p = Inl Bad_Access \<and> broadcastAddress_v6 m p = Inl Bad_Access"
proof (cases "p < 128")
  case True
  define q where "q = unat p div 8"
  have q: "q < 16" using True by (simp add: q_def word_less_nat_alt)
  let ?s = "map (\<lambda>i. if i = q then NOT (mask (8 - unat p mod 8)) else if i < q then 0xff else 0) [0..<16] :: byte list"
  have "count_prefix ?s 0 = of_nat q * 8 + of_nat (unat p mod 8)"
    using q by (simp add: subnet_bytes count_prefix_append count_prefix_replicate CountBytes_values CountBytes_not_mask del: upt_Suc)
  also have "\<dots> = of_nat (unat p)" unfolding q_def by (metis div_mult_mod_eq of_nat_add of_nat_mult of_nat_numeral)
  finally have c: "count_prefix ?s 0 = p" by simp
  show ?thesis
    using True q c
    by (auto simp: subnetMask_v6_def broadcastAddress_v6_def unat_div8_mod8 CreateMask_mod8 Let_def
        list_all_iff bit_position bit_not_iff bit_or_iff bit_mask_iff ff_byte simp flip: q_def)
next
  case False
  then have "16 \<le> unat p div 8" by (simp add: word_less_nat_alt)
  then show ?thesis
    using False by (simp add: subnetMask_v6_def broadcastAddress_v6_def unat_div8_mod8 CreateMask_mod8 Let_def)
qed

lemma ipv6_prefix_witness: "\<exists>s. subnetMask_v6 64 = Inr s \<and> count_prefix (s6_addr s) 0 = 64"
  using ipv6_prefix [of 64 new_IPv6] by auto

lemma network_v6_is_host_part:
  "p < 128 \<Longrightarrow> \<exists>n. networkAddress_v6 m p = Inr n \<and>
     s6_addr n ! (unat p div 8) = s6_addr m ! (unat p div 8) AND mask (8 - unat p mod 8)"
  by (auto simp: networkAddress_v6_def CreateMask_mod8 unat_div8_mod8 Let_def word_less_nat_alt)

section \<open>The order on addresses\<close>

text \<open>What a comparison looks at: the first \<open>getAddrlen\<close> bytes, which have to lie in the object.\<close>

definition addr_ok :: "byte_order \<Rightarrow> address \<Rightarrow> bool" where
  "addr_ok host a \<longleftrightarrow> unat (getAddrlen a) \<le> length (getAddr host a)"

definition addr_view :: "byte_order \<Rightarrow> address \<Rightarrow> byte list" where
  "addr_view host a = take (unat (getAddrlen a)) (getAddr host a)"

definition bytes_less :: "byte list \<Rightarrow> byte list \<Rightarrow> bool" where
  "bytes_less xs ys \<longleftrightarrow> memcmp xs ys < 0 \<or> memcmp xs ys = 0 \<and> length xs < length ys"

lemma bytes_less_Cons [simp]:
  "bytes_less (x # xs) (y # ys) \<longleftrightarrow> x < y \<or> x = y \<and> bytes_less xs ys"
  "bytes_less [] (y # ys)" "\<not> bytes_less xs []"
  by (auto simp: bytes_less_def)

lemma bytes_less_lexordp: "bytes_less xs ys \<longleftrightarrow> ord_class.lexordp xs ys"
  by (induction xs ys rule: memcmp.induct) (auto simp: neq_Nil_conv bytes_less_def)

lemma memcmp_eq_0: "length xs = length ys \<Longrightarrow> memcmp xs ys = 0 \<longleftrightarrow> xs = ys"
  by (induction xs ys rule: memcmp.induct) (auto simp: not_less_iff_gr_or_eq)

lemma memcmp_take: "memcmp (take n xs) (take n ys) = memcmp xs ys" if "min (length xs) (length ys) \<le> n"
  using that by (induction xs ys arbitrary: n rule: memcmp.induct) (auto simp: take_Cons' split: if_splits)

text \<open>The bytes are ordered linearly, so a \<open>std::set\<close> or \<open>std::map\<close> of addresses works.\<close>

interpretation ac: comparator bytes_less
  unfolding bytes_less_lexordp
  by unfold_locales (use lexordp_irreflexive' lexordp_trans lexordp_linear in blast)+

lemma length_addr_view: "addr_ok host a \<Longrightarrow> length (addr_view host a) = unat (getAddrlen a)"
  by (simp add: addr_ok_def addr_view_def)

lemma unat_min: "unat (min v w) = min (unat v) (unat (w :: 'a::len word))"
  by (simp add: min_def word_le_nat_alt)

lemma address_less_view:
  assumes "addr_ok host a" "addr_ok host b"
  shows "address_less host a b = Inr (bytes_less (addr_view host a) (addr_view host b))"
proof -
  let ?n = "min (unat (getAddrlen a)) (unat (getAddrlen b))"
  have "memcmp (take ?n (getAddr host a)) (take ?n (getAddr host b)) = memcmp (addr_view host a) (addr_view host b)"
    using memcmp_take [of "addr_view host a" "addr_view host b" ?n] assms
    by (simp add: length_addr_view) (simp add: addr_view_def min.commute)
  then show ?thesis
    using assms length_addr_view [OF assms(1)] length_addr_view [OF assms(2)]
    by (auto simp: address_less_def Let_def memcmp_n_def unat_min addr_ok_def bytes_less_def word_less_nat_alt)
qed

lemma address_eq_view:
  assumes "addr_ok host a" "addr_ok host b"
  shows "address_eq host a b = Inr (addr_view host a = addr_view host b)"
proof (cases "getAddrlen a = getAddrlen b")
  case True
  then show ?thesis
    using assms memcmp_eq_0 [of "addr_view host a" "addr_view host b"]
    by (simp add: length_addr_view) (simp add: address_eq_def memcmp_n_def addr_ok_def addr_view_def)
next
  case False
  then have "length (addr_view host a) \<noteq> length (addr_view host b)"
    using assms by (simp add: length_addr_view word_unat_eq_iff)
  then have "addr_view host a \<noteq> addr_view host b" by metis
  with False show ?thesis by (simp add: address_eq_def)
qed

text \<open>On addresses whose length lies in the object, \<open>operator<\<close> is a strict order that is total up to
  \<open>operator==\<close>, and \<open>operator!=\<close> is its negation.\<close>

theorem address_order:
  "addr_ok host a \<Longrightarrow> addr_ok host b \<Longrightarrow> addr_ok host c \<Longrightarrow>
   address_less host a a = Inr False \<and>
   (address_less host a b = Inr True \<and> address_less host b c = Inr True \<longrightarrow> address_less host a c = Inr True) \<and>
   (\<exists>l e g. address_less host a b = Inr l \<and> address_eq host a b = Inr e \<and> address_less host b a = Inr g \<and>
      (l, e, g) \<in> {(True, False, False), (False, True, False), (False, False, True)} \<and>
      address_neq host a b = Inr (\<not> e))"
  using ac.irrefl [of "addr_view host a"] ac.trans [of "addr_view host a" "addr_view host b" "addr_view host c"]
    ac.total [of "addr_view host a" "addr_view host b"] ac.asym [of "addr_view host a" "addr_view host b"]
  by (auto simp: address_less_view address_eq_view address_neq_def)

lemma address_order_witness:
  "address_less HPGS_LITTLE_ENDIAN (IPv4Address (new_IPv4 HPGS_LITTLE_ENDIAN 1 80)) (IPv4Address (new_IPv4 HPGS_LITTLE_ENDIAN 1 80)) = Inr False"
proof -
  let ?a = "IPv4Address (new_IPv4 HPGS_LITTLE_ENDIAN 1 80)"
  have "addr_ok HPGS_LITTLE_ENDIAN ?a" by (simp add: addr_ok_def getAddrlen_def getAddr_def in_bytes_def new_IPv4_def)
  from address_order [OF this this this] show ?thesis by blast
qed

lemma addr_ok_create: "Address_Create host (Some m) l = Inr (Some a) \<Longrightarrow> addr_ok host a"
  by (auto simp: Address_Create_def res_simps get_in_def get_in6_def addr_ok_def getAddrlen_def getAddr_def
      in_bytes_def in6_bytes_def split: if_splits)

section \<open>Round trips\<close>

lemma create_getAddr_v4:
  "sin_family m = 2 \<Longrightarrow> length (sin_zero m) = 8 \<Longrightarrow>
   Address_Create host (Some (getAddr host (IPv4Address m))) l = Inr (Some (IPv4Address m))"
  by (simp add: Address_Create_def getAddr_def in_bytes_def get_family_def get_in_def AF_INET_def)

lemma create_getAddr_v6:
  "sin6_family m = 10 \<Longrightarrow> length (s6_addr m) = 16 \<Longrightarrow>
   Address_Create host (Some (getAddr host (IPv6Address m))) l = Inr (Some (IPv6Address m))"
  by (simp add: Address_Create_def getAddr_def in6_bytes_def get_family_def get_in6_def AF_INET_def AF_INET6_def)

section \<open>Unix paths\<close>

lemma bytes_str_bytes [simp]: "bytes_str (str_bytes s) = s"
  by (induction s) (simp_all add: bytes_str_def str_bytes_def unsigned_of_nat take_bit_nat_eq_self char_code_less)

lemma str_bytes_nonzero: "of_nat (char_code c) = (0 :: byte) \<longleftrightarrow> char_code c = 0"
  using char_code_less [of c] by (auto simp: word_of_nat_eq_0_iff dest: dvd_imp_le)

lemma length_str_bytes [simp]: "length (str_bytes s) = length s"
  by (simp add: str_bytes_def)

lemma unat_Suc_u32: "n < 2 ^ 32 - 1 \<Longrightarrow> unat (of_nat n + 1 :: u32) = n + 1"
proof -
  assume "n < 2 ^ 32 - 1"
  then have "unat (of_nat (n + 1) :: u32) = n + 1" unfolding unsigned_of_nat by (simp add: take_bit_nat_eq_self)
  then show ?thesis by (simp add: add.commute)
qed

lemma unix_path_too_long:
  "108 \<le> length path \<Longrightarrow> length path < 2 ^ 32 - 1 \<Longrightarrow> char_code (hd path) \<noteq> 0 \<Longrightarrow>
   new_Unix path = Inl Logic_Error"
  using unat_Suc_u32 [of "length path"] by (auto simp: new_Unix_def Let_def word_less_nat_alt)

lemma unix_path_roundtrip:
  assumes "path \<noteq> []" "length path \<le> MAX_PATH_LEN" "list_all (\<lambda>c. char_code c \<noteq> 0) path"
  shows "\<exists>m l. new_Unix path = Inr (UnixAddress m l) \<and> getPath m l = Inr path"
proof -
  define l where "l = (of_nat (length path) + 1 :: u32)"
  have l: "unat l = length path + 1" using assms(2) unat_Suc_u32 [of "length path"] by (simp add: l_def MAX_PATH_LEN_def)
  have h: "char_code (hd path) \<noteq> 0" using assms(1,3) by (cases path) auto
  let ?p = "str_bytes path @ replicate (108 - length path) 0"
  have put: "list_put (replicate 108 0) 0 (take (unat l) (str_bytes path @ [0])) = ?p"
    using assms(2) by (intro nth_equalityI) (auto simp: l list_put_def MAX_PATH_LEN_def nth_append nth_Cons')
  have new: "new_Unix path = Inr (UnixAddress \<lparr>sun_family = of_int AF_UNIX, sun_path = ?p\<rparr> (l + 2))"
    using assms h put by (simp add: new_Unix_def Let_def word_less_nat_alt l MAX_PATH_LEN_def flip: l_def)
  have hd: "hd ?p \<noteq> 0" using assms(1) h by (cases path) (simp_all add: str_bytes_def str_bytes_nonzero)
  have "takeWhile (\<lambda>b. b \<noteq> 0) ?p = str_bytes path"
    using assms(2,3) by (subst takeWhile_append2)
      (auto simp: str_bytes_def str_bytes_nonzero list_all_iff MAX_PATH_LEN_def takeWhile_eq_Nil_iff Suc_diff_le)
  moreover have "0 \<in> set ?p" using assms(2) by (simp add: MAX_PATH_LEN_def)
  ultimately show ?thesis using new hd by (auto simp: getPath_def)
qed

text \<open>The empty path is taken for an abstract one.\<close>

lemma unix_empty_path: "\<exists>m l. new_Unix [] = Inr (UnixAddress m l) \<and> getPath m l = Inr [CHR 0x5C, CHR ''0'']"
  by (simp add: new_Unix_def Let_def getPath_def list_put_def str_bytes_def mem_get_def bytes_str_def)

section \<open>The text of an IPv6 address\<close>

text \<open>The reference: groups in hexadecimal separated by colons, where the first run of zero groups,
  if there is one, is written as a double colon.\<close>

fun colon_hex :: "u16 list \<Rightarrow> string" where
  "colon_hex [] = []"
| "colon_hex [g] = show_hex (unat g)"
| "colon_hex (g # gs) = show_hex (unat g) @ '':'' @ colon_hex gs"

definition v6_text :: "u16 list \<Rightarrow> string" where
  "v6_text gs =
     (let pre = takeWhile (\<lambda>g. g \<noteq> 0) gs; rest = dropWhile (\<lambda>g. g \<noteq> 0) gs
      in if rest = [] then colon_hex pre
         else colon_hex pre @ ''::'' @ colon_hex (dropWhile (\<lambda>g. g = 0) rest))"

definition v6_groups :: "byte_order \<Rightarrow> sockaddr_in6 \<Rightarrow> u16 list" where
  "v6_groups host m = map (\<lambda>i. byteswapOnLittleEndian host (v6_word host (s6_addr m) i)) [0..<8]"

lemma byteswap_zero [simp]: "byteswapOnLittleEndian host (w :: u16) = 0 \<longleftrightarrow> w = 0"
proof -
  have "byteswapOnLittleEndian host 0 = (0 :: u16)"
    by (auto simp: byteswapOnLittleEndian_def bit_eq_iff bit_byteswap split: byte_order.split)
  moreover have "byteswapOnLittleEndian host (byteswapOnLittleEndian host w) = w" by simp
  ultimately show ?thesis by metis
qed

lemma insert_loop_append:
  "insert_loop host addr (is @ js) os u =
     (case insert_loop host addr is os u of (os', u') \<Rightarrow> insert_loop host addr js os' u')"
  by (induction host addr "is" os u rule: insert_loop.induct) (simp_all add: Let_def)

text \<open>The three phases of the loop: before the zeros, inside them, and after them.\<close>

definition grp :: "byte_order \<Rightarrow> (nat \<Rightarrow> u16) \<Rightarrow> nat \<Rightarrow> u16" where
  "grp host addr i = byteswapOnLittleEndian host (addr i)"

lemma colon_hex_snoc:
  "colon_hex (gs @ [g]) = (if gs = [] then show_hex (unat g) else colon_hex gs @ '':'' @ show_hex (unat g))"
  by (induction gs rule: colon_hex.induct) simp_all

lemma loop_prefix:
  "\<forall>i<z. addr i \<noteq> 0 \<Longrightarrow> insert_loop host addr [0..<z] os False = (os @ colon_hex (map (grp host addr) [0..<z]), False)"
  by (induction z) (simp_all add: insert_loop_append colon_hex_snoc grp_def Let_def)

lemma loop_zeros: "\<forall>i\<in>set is. addr i = 0 \<Longrightarrow> insert_loop host addr is os False = (os, False)"
  by (induction "is") simp_all

lemma colon_hex_Cons: "colon_hex (g # gs) = show_hex (unat g) @ (if gs = [] then [] else '':'' @ colon_hex gs)"
  by (cases gs) simp_all

lemma loop_after:
  "0 \<notin> set is \<Longrightarrow> insert_loop host addr is os True = (os @ (if is = [] then [] else '':'' @ colon_hex (map (grp host addr) is)), True)"
proof (induction "is" arbitrary: os)
  case (Cons i js)
  then show ?case by (cases js) (simp_all add: grp_def)
qed simp

lemma unat_ucast_u16: "unat (ucast (w :: u16) :: u32) = unat w"
  using unsigned_less [of w, where 'a = nat] by (simp add: unsigned_ucast_eq take_bit_nat_eq_self)

lemma first_index: "\<exists>z\<le>n. (\<forall>i<z. \<not> P i) \<and> (z = n \<or> P (z::nat))"
proof (induction n)
  case (Suc n)
  then show ?case by (metis less_Suc_eq order.refl le_SucI)
qed simp

lemma v6_text_no_zero: "\<forall>g\<in>set gs. g \<noteq> 0 \<Longrightarrow> v6_text gs = colon_hex gs"
  by (simp add: v6_text_def Let_def takeWhile_eq_all_conv [THEN iffD2])

lemma v6_text_split:
  assumes "\<forall>g\<in>set pre. g \<noteq> 0" "zs \<noteq> []" "\<forall>g\<in>set zs. g = 0" "post = [] \<or> hd post \<noteq> 0"
  shows "v6_text (pre @ zs @ post) = colon_hex pre @ ''::'' @ colon_hex post"
proof -
  obtain zs' where zs: "zs = 0 # zs'" using assms(2,3) by (cases zs) auto
  have "dropWhile (\<lambda>g. g = 0) (zs @ post) = post"
    using assms(3,4) by (cases post) (auto simp: dropWhile_append2)
  moreover have "takeWhile (\<lambda>g. g \<noteq> 0) (pre @ zs @ post) = pre" "dropWhile (\<lambda>g. g \<noteq> 0) (pre @ zs @ post) = zs @ post"
    using assms(1) by (simp_all add: zs takeWhile_append2 dropWhile_append2)
  ultimately show ?thesis using assms(2) by (simp add: v6_text_def Let_def)
qed

lemma upt_split3: "z \<le> e \<Longrightarrow> e \<le> n \<Longrightarrow> [0..<n] = [0..<z] @ [z..<e] @ [e..<n]"
  by (metis le_trans upt_add_eq_append zero_le le_add_diff_inverse)

lemma insert_loop_text:
  fixes addr :: "nat \<Rightarrow> u16" and host os
  defines "r \<equiv> insert_loop host addr [0..<8] os False"
  shows "(if \<not> snd r \<and> addr 7 = 0 then fst r @ ''::'' else fst r) = os @ v6_text (map (grp host addr) [0..<8])"
proof (cases "\<forall>i<8. addr i \<noteq> 0")
  case True
  then have "\<forall>g\<in>set (map (grp host addr) [0..<8]). g \<noteq> 0" by (auto simp: grp_def)
  from v6_text_no_zero [OF this] True loop_prefix [of 8 addr host os] show ?thesis by (simp add: r_def del: upt_rec_numeral)
next
  case False
  obtain z where z: "z \<le> 8" "\<forall>i<z. addr i \<noteq> 0" "z = 8 \<or> addr z = 0"
    using first_index [of 8 "\<lambda>i. addr i = 0"] by blast
  note pre = z(2)
  have z: "z < 8" "addr z = 0" using False z by (auto simp: le_less)
  obtain e where e: "e \<le> 8" "\<forall>i<e. \<not> (z \<le> i \<and> addr i \<noteq> 0)" "e = 8 \<or> z \<le> e \<and> addr e \<noteq> 0"
    using first_index [of 8 "\<lambda>i. z \<le> i \<and> addr i \<noteq> 0"] by blast
  have zs: "\<forall>i\<in>set [z..<e]. addr i = 0" using e(2) by auto
  have e: "z \<le> e" "e = 8 \<or> addr e \<noteq> 0" "e \<le> 8" using e z by auto
  have ze: "z < e" using e z by (cases "z = e") auto
  have sp: "[0..<8] = [0..<z] @ [z..<e] @ [e..<8]" using upt_split3 e by simp
  let ?p = "map (grp host addr) [0..<z]" and ?q = "map (grp host addr) [e..<8]"
  have vt: "v6_text (map (grp host addr) [0..<8]) = colon_hex ?p @ ''::'' @ colon_hex ?q"
    unfolding sp map_append using pre zs ze e
    by (intro v6_text_split) (auto simp: grp_def upt_conv_Cons)
  have r: "r = insert_loop host addr [e..<8] (os @ colon_hex ?p) False"
    unfolding r_def sp insert_loop_append loop_prefix [OF pre] by (simp add: loop_zeros [OF zs])
  show ?thesis
  proof (cases "e = 8")
    case True
    then have "addr 7 = 0" using zs ze by simp
    with True r vt show ?thesis by simp
  next
    case False
    then have e8: "e < 8" and "addr e \<noteq> 0" using e by simp_all
    moreover have "addr (e - 1) = 0" using zs ze by simp
    ultimately have "r = (os @ colon_hex ?p @ ''::'' @ colon_hex ?q, True)"
      using ze r by (simp add: upt_conv_Cons loop_after Let_def grp_def colon_hex_Cons del: upt_rec_numeral)
    with vt show ?thesis by simp
  qed
qed

text \<open>C37: \<open>IPv6Address::insert\<close> prints the address in brackets with the first run of zero groups
  compressed to a double colon, and the port.\<close>

theorem insert_v6_exact:
  "insert_v6 host m = ''['' @ v6_text (v6_groups host m) @ '']:'' @ show_nat (unat (getPort_v6 host m))"
proof -
  let ?addr = "v6_word host (s6_addr m)"
  obtain os u where r: "insert_loop host ?addr [0..<8] ''['' False = (os, u)" by fastforce
  have "(if \<not> u \<and> ?addr 7 = 0 then os @ ''::'' else os) = ''['' @ v6_text (v6_groups host m)"
    using insert_loop_text [of host ?addr "''[''"] unfolding r v6_groups_def grp_def [abs_def] fst_conv snd_conv .
  then show ?thesis
    using r by (simp add: insert_v6_def Let_def getPort_v6_def unat_ucast_u16 del: upt_rec_numeral)
qed

section \<open>Address_Lookup\<close>

lemma memchr_append: "c \<notin> set a \<Longrightarrow> memchr c (a @ b) = memchr c b"
proof -
  assume "c \<notin> set a"
  then have "dropWhile (\<lambda>x. x \<noteq> c) (a @ b) = dropWhile (\<lambda>x. x \<noteq> c) b" by (intro dropWhile_append2) auto
  then show ?thesis by (simp add: memchr_def)
qed

lemma memchr_hit [simp]: "memchr c (c # s) = Some (c # s)"
  by (simp add: memchr_def)

lemma memchr_none: "c \<notin> set s \<Longrightarrow> memchr c s = None"
  using memchr_append [of c s "[]"] by (simp add: memchr_def)

lemma parse_host_port:
  assumes "h \<noteq> []" "hd h \<noteq> CHR ''[''" "CHR '':'' \<notin> set h" "CHR '':'' \<notin> set p"
  shows "parse_node (h @ '':'' @ p) = (h, Some p)"
proof -
  have "takeWhile (\<lambda>c. c \<noteq> CHR '':'') (h @ '':'' @ p) = h" using assms(3) by (subst takeWhile_append2) auto
  then show ?thesis using assms by (simp add: parse_node_def parse_bracket_def memchr_append memchr_none)
qed

lemma parse_bracketed:
  assumes "a \<noteq> []" "CHR '']'' \<notin> set a"
  shows "parse_node (''['' @ a @ '']:'' @ p) = (a, Some p)" "parse_node (''['' @ a @ '']'') = (a, None)"
proof -
  have "takeWhile (\<lambda>c. c \<noteq> CHR '']'') (a @ CHR '']'' # t) = a" for t using assms(2) by (subst takeWhile_append2) auto
  then show "parse_node (''['' @ a @ '']:'' @ p) = (a, Some p)" "parse_node (''['' @ a @ '']'') = (a, None)"
    using assms by (simp_all add: parse_node_def parse_bracket_def memchr_append)
qed

text \<open>An IPv6 address without brackets is looked up with a service that starts at its first colon.\<close>

lemma parse_plain_ipv6: "parse_node ''fe80::1'' = (''fe80::1'', Some ''::1'')"
  by (simp add: parse_node_def parse_bracket_def memchr_def)

section \<open>Interfaces\<close>

lemma string_less_lexordp: "string_less s t \<longleftrightarrow> ord_class.lexordp (map char_code s) (map char_code t)"
  unfolding string_less_def
  by (induction s arbitrary: t; case_tac t) (simp_all add: ord.lexordp_simps)

lemma map_char_code_inj: "map char_code s = map char_code t \<longleftrightarrow> s = t"
  by (metis char_of_code inj_def inj_map_eq_map)

interpretation sc: comparator string_less
proof
  fix x y z :: string
  show "\<not> string_less x x" using lexordp_irreflexive' by (simp add: string_less_lexordp)
  show "string_less x y \<Longrightarrow> string_less y z \<Longrightarrow> string_less x z"
    using lexordp_trans by (auto simp: string_less_lexordp)
  show "x \<noteq> y \<Longrightarrow> string_less x y \<or> string_less y x"
    using lexordp_linear [of "map char_code x" "map char_code y"] by (auto simp: string_less_lexordp map_char_code_inj)
qed

text \<open>A multimap keeps its keys in order, and pairs with one key in the order of their insertion.\<close>

definition key_sorted :: "(string \<times> 'v) list \<Rightarrow> bool" where
  "key_sorted m \<longleftrightarrow> sorted_wrt (\<lambda>p q. \<not> string_less (fst q) (fst p)) m"

lemma multimap_insert_set: "set (multimap_insert lt p m) = insert p (set m)"
  by (induction m) auto

lemma multimap_insert_sorted: "key_sorted m \<Longrightarrow> key_sorted (multimap_insert string_less p m)"
proof (induction m)
  case (Cons q m)
  show ?case
  proof (cases "string_less (fst p) (fst q)")
    case True
    then have "\<not> string_less (fst x) (fst p)" if "x \<in> set (q # m)" for x
      using Cons.prems that sc.trans [of "fst x" "fst p" "fst q"] sc.irrefl by (auto simp: key_sorted_def)
    with True Cons.prems show ?thesis by (auto simp: key_sorted_def)
  next
    case False
    with Cons show ?thesis by (auto simp: key_sorted_def multimap_insert_set)
  qed
qed (simp add: key_sorted_def)

lemma equal_range_eq: "equal_range string_less k m = filter (\<lambda>p. fst p = k) m"
proof -
  have "(\<not> string_less k s \<and> \<not> string_less s k) = (s = k)" for s
    using sc.total [of s k] sc.irrefl [of k] by auto
  then show ?thesis by (simp add: equal_range_def)
qed

lemma equal_range_insert:
  "key_sorted m \<Longrightarrow> equal_range string_less k (multimap_insert string_less p m) =
     equal_range string_less k m @ (if fst p = k then [p] else [])"
proof (induction m)
  case (Cons q m)
  have "filter (\<lambda>x. fst x = fst p) (q # m) = []" if "string_less (fst p) (fst q)"
    using Cons.prems that sc.irrefl by (auto simp: key_sorted_def filter_empty_conv)
  then show ?case using Cons by (auto simp: equal_range_eq key_sorted_def)
qed (simp add: equal_range_eq)

lemma iface_loop_range:
  "key_sorted m \<Longrightarrow> iface_loop host family ifs m = Inr m' \<Longrightarrow>
   key_sorted m' \<and> map snd (equal_range string_less k m') = map snd (equal_range string_less k m) @
     concat (map (\<lambda>n. case iface_address host family n of Inr (Some a, l) \<Rightarrow> [(a, l)] | _ \<Rightarrow> [])
       (filter (\<lambda>n. ifa_name n = k) ifs))"
proof (induction ifs arbitrary: m)
  case (Cons n ns)
  then obtain a l where n: "iface_address host family n = Inr (a, l)"
    and l: "iface_loop host family ns
      (case a of None \<Rightarrow> m | Some a \<Rightarrow> multimap_insert string_less (ifa_name n, a, l) m) = Inr m'"
    by (auto simp: res_simps)
  show ?case
  proof (cases a)
    case None
    with Cons.IH [of m] Cons.prems(1) n l show ?thesis by simp
  next
    case (Some b)
    with Cons.IH [OF multimap_insert_sorted [OF Cons.prems(1)], of "(ifa_name n, b, l)"] Cons.prems(1) n l
    show ?thesis by (simp add: equal_range_insert)
  qed
qed simp

text \<open>The addresses of one interface are those that the system lists for it, in that order.\<close>

lemma GetInterfaceAddresses_exact:
  assumes "iface \<noteq> []" "iface \<noteq> ''*''" "GetInterfaceAddresses host (Some ifs) [] iface family = Inr (ok, result)"
  shows "result = concat (map (\<lambda>n. case iface_address host family n of Inr (Some a, l) \<Rightarrow> [(a, l)] | _ \<Rightarrow> [])
           (filter (\<lambda>n. ifa_name n = iface) ifs)) \<and> ok = (result \<noteq> [])"
proof -
  obtain m where m: "iface_loop host family ifs [] = Inr m"
    and r: "if m = [] then result = [] \<and> \<not> ok
            else result = map snd (equal_range string_less iface m) \<and> ok = (result \<noteq> [])"
    using assms by (auto simp: GetInterfaceAddresses_def GetInterfaceAddresses_all_def res_simps Let_def split: if_splits)
  have "key_sorted ([] :: if_map)" by (simp add: key_sorted_def)
  from iface_loop_range [OF this m, of iface] r show ?thesis by (auto simp: equal_range_eq split: if_splits)
qed

end
