(* ===== verification/FdManager.thy ===== *)
theory FdManager
  imports HPGS_Prelude
begin

text \<open>
  Descriptor contexts (\<open>src/util/fd_manager.cc\<close>, \<open>include/util/fd_manager.h\<close>): what the hooks
  remember of a file descriptor, and the table of all contexts.  The system calls are a record of
  functions on an abstract world.  The table holds the contexts themselves: no caller keeps a
  pointer to one across a point where another call could replace it.
\<close>

section \<open>The system\<close>

text \<open>\<open>fstat\<close> tells whether the descriptor is a socket, \<open>None\<close> when it fails; \<open>fcntl_f\<close> is the
  original \<open>fcntl\<close> with its command and argument.\<close>

record 'w os =
  os_fstat :: "'w \<Rightarrow> int \<Rightarrow> bool option"
  fcntl_f :: "'w \<Rightarrow> int \<Rightarrow> int \<Rightarrow> u32 \<Rightarrow> u32 \<times> 'w"

definition F_GETFL :: int where "F_GETFL = 3"
definition F_SETFL :: int where "F_SETFL = 4"
definition O_NONBLOCK :: u32 where "O_NONBLOCK = 2048"
definition SO_RCVTIMEO :: int where "SO_RCVTIMEO = 20"
definition SO_SNDTIMEO :: int where "SO_SNDTIMEO = 21"

section \<open>Contexts\<close>

record fd_ctx =
  m_isInit :: bool
  m_isSocket :: bool
  m_sysNonblock :: bool
  m_userNonblock :: bool
  m_isClosed :: bool
  m_fd :: int
  m_recvTimeout :: u64
  m_sendTimeout :: u64

definition FdCtx_init :: "'w os \<Rightarrow> 'w \<Rightarrow> fd_ctx \<Rightarrow> bool \<times> fd_ctx \<times> 'w" where
  "FdCtx_init os w c =
     (if m_isInit c then (True, c, w)
      else
        let c = c\<lparr>m_recvTimeout := - 1, m_sendTimeout := - 1\<rparr>;
            c = (case os_fstat os w (m_fd c) of
                   None \<Rightarrow> c\<lparr>m_isInit := False, m_isSocket := False\<rparr>
                 | Some s \<Rightarrow> c\<lparr>m_isInit := True, m_isSocket := s\<rparr>);
            (c, w) =
              (if m_isSocket c then
                 let (flags, w) = fcntl_f os w (m_fd c) F_GETFL 0;
                     w = (if flags AND O_NONBLOCK = 0
                          then snd (fcntl_f os w (m_fd c) F_SETFL (flags OR O_NONBLOCK)) else w)
                 in (c\<lparr>m_sysNonblock := True\<rparr>, w)
               else (c\<lparr>m_sysNonblock := False\<rparr>, w));
            c = c\<lparr>m_userNonblock := False, m_isClosed := False\<rparr>
        in (m_isInit c, c, w))"

definition FdCtx_new :: "'w os \<Rightarrow> 'w \<Rightarrow> int \<Rightarrow> fd_ctx \<times> 'w" where
  "FdCtx_new os w fd =
     (let c = \<lparr>m_isInit = False, m_isSocket = False, m_sysNonblock = False, m_userNonblock = False,
               m_isClosed = False, m_fd = fd, m_recvTimeout = - 1, m_sendTimeout = - 1\<rparr>
      in snd (FdCtx_init os w c))"

definition setTimeout :: "int \<Rightarrow> u64 \<Rightarrow> fd_ctx \<Rightarrow> fd_ctx" where
  "setTimeout type v c =
     (if type = SO_RCVTIMEO then c\<lparr>m_recvTimeout := v\<rparr> else c\<lparr>m_sendTimeout := v\<rparr>)"

definition getTimeout :: "int \<Rightarrow> fd_ctx \<Rightarrow> u64" where
  "getTimeout type c = (if type = SO_RCVTIMEO then m_recvTimeout c else m_sendTimeout c)"

section \<open>The table\<close>

type_synonym fd_table = "fd_ctx option list"

definition FdManager_new :: fd_table where
  "FdManager_new = replicate 64 None"

text \<open>\<open>std::vector::resize\<close>.\<close>

definition vec_resize :: "'a \<Rightarrow> nat \<Rightarrow> 'a list \<Rightarrow> 'a list" where
  "vec_resize d n xs = take n xs @ replicate (n - length xs) d"

text \<open>The conversion of \<open>fd * 1.5\<close> to \<open>size_t\<close> truncates.\<close>

definition grown :: "int \<Rightarrow> nat" where
  "grown fd = nat (fd * 3 div 2)"

definition FdManager_get ::
  "'w os \<Rightarrow> 'w \<Rightarrow> fd_table \<Rightarrow> int \<Rightarrow> bool \<Rightarrow> (fd_ctx option \<times> fd_table \<times> 'w) res" where
  "FdManager_get os w m_datas fd auto_create =
     (let create =
        (let (ctx, w) = FdCtx_new os w fd;
             m_datas = (if fd \<ge> int (length m_datas) then vec_resize None (grown fd) m_datas else m_datas)
         in if nat fd < length m_datas then Inr (Some ctx, m_datas[nat fd := Some ctx], w)
            else Inl Bad_Access)
      in if fd = - 1 then Inr (None, m_datas, w)
         else if int (length m_datas) \<le> fd then
           (if auto_create = False then Inr (None, m_datas, w) else create)
         else if fd < 0 then Inl Bad_Access
         else if m_datas ! nat fd \<noteq> None \<or> \<not> auto_create then Inr (m_datas ! nat fd, m_datas, w)
         else create)"

definition FdManager_del :: "fd_table \<Rightarrow> int \<Rightarrow> fd_table res" where
  "FdManager_del m_datas fd =
     (if int (length m_datas) \<le> fd then Inr m_datas
      else if fd < 0 then Inl Bad_Access
      else Inr (m_datas[nat fd := None]))"

section \<open>The table as a map\<close>

definition fd_abs :: "fd_table \<Rightarrow> int \<rightharpoonup> fd_ctx" where
  "fd_abs m fd = (if 0 \<le> fd \<and> fd < int (length m) then m ! nat fd else None)"

definition fd_inv :: "fd_table \<Rightarrow> bool" where
  "fd_inv m \<longleftrightarrow> 64 \<le> length m \<and> list_all (\<lambda>i. case m ! i of None \<Rightarrow> True | Some c \<Rightarrow> m_fd c = int i) [0..<length m]"

lemma fd_inv_new: "fd_inv FdManager_new"
  by (simp add: fd_inv_def FdManager_new_def list_all_iff)

lemma m_fd_new: "m_fd (fst (FdCtx_new os w fd)) = fd"
  by (simp add: FdCtx_new_def FdCtx_init_def Let_def split: option.splits prod.splits)

lemma length_vec_resize [simp]: "length (vec_resize d n xs) = n"
  by (simp add: vec_resize_def)

lemma nth_vec_resize: "i < n \<Longrightarrow> vec_resize d n xs ! i = (if i < length xs then xs ! i else d)"
  by (auto simp: vec_resize_def nth_append)

lemma grown_gt: "64 \<le> fd \<Longrightarrow> fd < int (grown fd)"
  by (simp add: grown_def)

lemma fd_inv_nth: "fd_inv m \<Longrightarrow> i < length m \<Longrightarrow> m ! i = Some c \<Longrightarrow> m_fd c = int i"
  by (force simp: fd_inv_def list_all_iff)

lemma fd_inv_iff: "fd_inv m \<longleftrightarrow> 64 \<le> length m \<and> (\<forall>i<length m. \<forall>c. m ! i = Some c \<longrightarrow> m_fd c = int i)"
  by (auto simp: fd_inv_def list_all_iff split: option.splits)

lemma fd_abs_update:
  "0 \<le> fd \<Longrightarrow> nat fd < length m \<Longrightarrow> fd_abs (m[nat fd := c]) = (fd_abs m)(fd := c)"
  by (rule ext) (auto simp: fd_abs_def nth_list_update nat_eq_iff)

lemma fd_abs_resize: "length m \<le> n \<Longrightarrow> fd_abs (vec_resize None n m) = fd_abs m"
  by (rule ext) (auto simp: fd_abs_def nth_vec_resize)

lemma fd_inv_update:
  "fd_inv m \<Longrightarrow> 0 \<le> fd \<Longrightarrow> (\<And>x. c = Some x \<Longrightarrow> m_fd x = fd) \<Longrightarrow> fd_inv (m[nat fd := c])"
  unfolding fd_inv_iff length_list_update by (metis int_nat_eq nth_list_update_eq nth_list_update_neq)

lemma fd_inv_resize: "fd_inv m \<Longrightarrow> length m \<le> n \<Longrightarrow> fd_inv (vec_resize None n m)"
  by (auto simp: fd_inv_iff nth_vec_resize split: if_splits)

lemma get_create:
  assumes "fd_inv m" "0 \<le> fd" "fd_abs m fd = None"
  shows "\<exists>c m' w'. FdManager_get os w m fd True = Inr (Some c, m', w') \<and> m_fd c = fd \<and> fd_inv m' \<and>
    fd_abs m' = (fd_abs m)(fd := Some c)"
proof -
  obtain c w' where c: "FdCtx_new os w fd = (c, w')" by fastforce
  then have fd: "m_fd c = fd" using m_fd_new [of os w fd] by simp
  show ?thesis
  proof (cases "int (length m) \<le> fd")
    case True
    let ?m = "vec_resize None (grown fd) m"
    have g: "nat fd < grown fd" "length m \<le> grown fd"
      using True assms(1) grown_gt [of fd] by (auto simp: fd_inv_def)
    have "FdManager_get os w m fd True = Inr (Some c, ?m[nat fd := Some c], w')"
      using True assms(2) c g by (simp add: FdManager_get_def)
    then show ?thesis using fd g assms by (auto simp: fd_abs_update fd_abs_resize intro!: fd_inv_update fd_inv_resize)
  next
    case False
    then have n: "nat fd < length m" using assms(2) by simp
    then have "FdManager_get os w m fd True = Inr (Some c, m[nat fd := Some c], w')"
      using False assms c by (simp add: FdManager_get_def fd_abs_def)
    then show ?thesis using fd n assms by (auto simp: fd_abs_update intro!: fd_inv_update)
  qed
qed

lemma get_present:
  assumes "- 1 \<le> fd" "auto \<longrightarrow> fd = - 1 \<or> fd_abs m fd \<noteq> None"
  shows "FdManager_get os w m fd auto = Inr (fd_abs m fd, m, w)"
  using assms by (auto simp: FdManager_get_def fd_abs_def Let_def split: if_splits)

lemma fd_abs_fd: "fd_inv m \<Longrightarrow> fd_abs m fd = Some c \<Longrightarrow> m_fd c = fd"
  using fd_inv_nth [of m "nat fd" c] by (auto simp: fd_abs_def split: if_splits)

lemma del_map:
  "fd_inv m \<Longrightarrow> 0 \<le> fd \<Longrightarrow> \<exists>m'. FdManager_del m fd = Inr m' \<and> fd_inv m' \<and> fd_abs m' = (fd_abs m)(fd := None)"
  by (auto simp: FdManager_del_def fd_abs_update fun_eq_iff intro!: fd_inv_update) (auto simp: fd_abs_def)

text \<open>C24: The table implements a map: on a descriptor that is not below -1, \<open>get\<close> never fails, returns
  what the map holds and, when asked to create, enters a context for that very descriptor and leaves
  all others alone, also when the table grows; \<open>del\<close> removes exactly that descriptor; and both keep the
  invariant that every context knows its own descriptor.\<close>

theorem fd_table_is_map:
  assumes "fd_inv m" "- 1 \<le> fd"
  shows "\<exists>c m' w'. FdManager_get os w m fd auto = Inr (c, m', w') \<and> fd_inv m' \<and>
    fd_abs m' = (if auto \<and> fd \<noteq> - 1 \<and> fd_abs m fd = None then (fd_abs m)(fd := c) else fd_abs m) \<and>
    (if fd \<noteq> - 1 \<and> (auto \<or> fd_abs m fd \<noteq> None) then \<exists>x. c = Some x \<and> m_fd x = fd else c = None) \<and>
    (fd \<noteq> - 1 \<longrightarrow> (\<exists>m''. FdManager_del m fd = Inr m'' \<and> fd_inv m'' \<and> fd_abs m'' = (fd_abs m)(fd := None)))"
proof -
  have del: "fd \<noteq> - 1 \<longrightarrow> (\<exists>m''. FdManager_del m fd = Inr m'' \<and> fd_inv m'' \<and> fd_abs m'' = (fd_abs m)(fd := None))"
    using del_map [OF assms(1)] assms(2) by auto
  show ?thesis
  proof (cases "auto \<and> fd \<noteq> - 1 \<and> fd_abs m fd = None")
    case True
    with get_create [OF assms(1), of fd os w] assms(2) del show ?thesis by fastforce
  next
    case False
    then have "FdManager_get os w m fd auto = Inr (fd_abs m fd, m, w)" using assms(2) by (intro get_present) auto
    moreover have "fd_abs m (- 1) = None" by (simp add: fd_abs_def)
    ultimately show ?thesis using False assms del fd_abs_fd [OF assms(1), of fd] by (auto split: if_splits)
  qed
qed

lemma fd_table_is_map_witness:
  "\<exists>c m' w'. FdManager_get \<lparr>os_fstat = \<lambda>_ _. Some True, fcntl_f = \<lambda>w _ _ _. (0, w)\<rparr> () FdManager_new 100 True = Inr (c, m', w') \<and>
     c \<noteq> None"
  using fd_table_is_map [OF fd_inv_new, of 100 "\<lparr>os_fstat = \<lambda>_ _. Some True, fcntl_f = \<lambda>w _ _ _. (0, w)\<rparr>" "()" True]
  by force

text \<open>A descriptor below -1 indexes the table with a negative number.\<close>

lemma get_negative: "fd < - 1 \<Longrightarrow> FdManager_get os w m fd auto = Inl Bad_Access"
  by (simp add: FdManager_get_def Let_def)

end
