(* ===== verification/Fibre.thy ===== *)
theory Fibre
  imports Timer
begin

text \<open>
  Fibres (\<open>src/concurrency/fibre.cc\<close>, \<open>include/concurrency/fibre.h\<close>).  A \<open>Fibre*\<close> is an address in
  a heap of fibres, a thread-local variable is a function of the thread number, and the machine
  context of a fibre is reduced to the place where it continues.  \<open>getcontext\<close>, \<open>makecontext\<close> and
  \<open>swapcontext\<close> succeed; the address that \<open>new\<close> returns is an argument.
\<close>

section \<open>State\<close>

text \<open>\<open>Fibre::State\<close>, with the abbreviated name of the terminated state written out.\<close>

datatype fstate = INIT | HOLD | EXEC | TERMINATED | READY | EXCEPT

text \<open>Where a context continues: where \<open>getcontext\<close> took it, at the start of \<open>MainFunc\<close> or
  \<open>CallerMainFunc\<close>, behind a \<open>swapcontext\<close> inside the fibre's function, behind the last one, which is
  followed by a failing assertion; \<open>Running\<close> is a context that has been loaded and not saved again.\<close>

datatype ucontext = Captured | Main_Entry | Caller_Entry | Suspended | Finished | Running

record fibre =
  f_id :: u64
  f_stacksize :: u32
  f_state :: fstate
  f_ctx :: ucontext
  f_stack :: bool
  f_cb :: "callback option"

text \<open>\<open>t_scheduler_fibre\<close> belongs to \<open>scheduler.cc\<close>; \<open>Scheduler::GetMainFibre\<close> reads it.\<close>

record fibres =
  fb_heap :: "nat \<Rightarrow> fibre option"
  s_fibre_id :: u64
  s_fibre_count :: u64
  t_fibre :: "int \<Rightarrow> nat option"
  t_threadFibre :: "int \<Rightarrow> nat option"
  t_scheduler_fibre :: "int \<Rightarrow> nat option"

definition fibres_init :: fibres where
  "fibres_init = \<lparr>fb_heap = (\<lambda>_. None), s_fibre_id = 0, s_fibre_count = 0, t_fibre = (\<lambda>_. None),
                  t_threadFibre = (\<lambda>_. None), t_scheduler_fibre = (\<lambda>_. None)\<rparr>"

text \<open>Access through a pointer: a null pointer and an object that is gone are errors.\<close>

definition fib_at :: "fibres \<Rightarrow> nat \<Rightarrow> fibre res" where
  "fib_at w p = (case fb_heap w p of None \<Rightarrow> Inl Bad_Access | Some f \<Rightarrow> Inr f)"

definition fib_upd :: "nat \<Rightarrow> (fibre \<Rightarrow> fibre) \<Rightarrow> fibres \<Rightarrow> fibres" where
  "fib_upd p g w = w\<lparr>fb_heap := (fb_heap w)(p := map_option g (fb_heap w p))\<rparr>"

definition ptr :: "nat option \<Rightarrow> nat res" where
  "ptr p = (case p of None \<Rightarrow> Inl Null_Deref | Some a \<Rightarrow> Inr a)"

section \<open>Construction and destruction\<close>

definition SetThis :: "int \<Rightarrow> nat option \<Rightarrow> fibres \<Rightarrow> fibres" where
  "SetThis tid f w = w\<lparr>t_fibre := (t_fibre w)(tid := f)\<rparr>"

definition GetFibreId :: "int \<Rightarrow> fibres \<Rightarrow> u64 res" where
  "GetFibreId tid w =
     (case t_fibre w tid of None \<Rightarrow> Inr 0 | Some p \<Rightarrow> rbind (fib_at w p) (\<lambda>f. Inr (f_id f)))"

text \<open>The private constructor: the fibre of the thread itself.\<close>

definition Fibre_main :: "int \<Rightarrow> nat \<Rightarrow> fibres \<Rightarrow> fibres" where
  "Fibre_main tid p w =
     (let w = w\<lparr>fb_heap := (fb_heap w)(p \<mapsto>
                  \<lparr>f_id = 0, f_stacksize = 0, f_state = EXEC, f_ctx = Captured, f_stack = False, f_cb = None\<rparr>)\<rparr>;
          w = SetThis tid (Some p) w
      in w\<lparr>s_fibre_count := s_fibre_count w + 1\<rparr>)"

definition Fibre_new :: "u32 \<Rightarrow> nat \<Rightarrow> callback option \<Rightarrow> u32 \<Rightarrow> bool \<Rightarrow> fibres \<Rightarrow> fibres" where
  "Fibre_new g_fibre_stack_size p cb stacksize use_caller w =
     (let w = w\<lparr>s_fibre_id := s_fibre_id w + 1, s_fibre_count := s_fibre_count w + 1\<rparr>
      in w\<lparr>fb_heap := (fb_heap w)(p \<mapsto>
             \<lparr>f_id = s_fibre_id w, f_stacksize = (if stacksize \<noteq> 0 then stacksize else g_fibre_stack_size),
              f_state = INIT, f_ctx = (if use_caller then Caller_Entry else Main_Entry),
              f_stack = True, f_cb = cb\<rparr>)\<rparr>)"

definition Fibre_delete :: "int \<Rightarrow> nat \<Rightarrow> fibres \<Rightarrow> fibres res" where
  "Fibre_delete tid p w =
     rbind (fib_at w p) (\<lambda>f.
       let w = w\<lparr>s_fibre_count := s_fibre_count w - 1\<rparr>;
           gone = (\<lambda>w. Inr (w\<lparr>fb_heap := (fb_heap w)(p := None)\<rparr>))
       in if f_stack f
          then cpp_assert (f_state f = TERMINATED \<or> f_state f = EXCEPT \<or> f_state f = INIT) (gone w)
          else cpp_assert (f_cb f = None) (cpp_assert (f_state f = EXEC)
                 (gone (if t_fibre w tid = Some p then SetThis tid None w else w))))"

definition reset_fibre :: "nat \<Rightarrow> callback option \<Rightarrow> fibres \<Rightarrow> fibres res" where
  "reset_fibre p cb w =
     rbind (fib_at w p) (\<lambda>f.
       cpp_assert (f_stack f)
         (cpp_assert (f_state f = TERMINATED \<or> f_state f = EXCEPT \<or> f_state f = INIT)
           (Inr (fib_upd p (\<lambda>f. f\<lparr>f_cb := cb, f_ctx := Main_Entry, f_state := INIT\<rparr>) w))))"

definition setState :: "nat \<Rightarrow> fstate \<Rightarrow> fibres \<Rightarrow> fibres res" where
  "setState p st w = rbind (fib_at w p) (\<lambda>_. Inr (fib_upd p (\<lambda>f. f\<lparr>f_state := st\<rparr>) w))"

definition getState :: "nat \<Rightarrow> fibres \<Rightarrow> fstate res" where
  "getState p w = rbind (fib_at w p) (\<lambda>f. Inr (f_state f))"

text \<open>Both create the thread's fibre at address \<open>p\<close> when there is none.\<close>

definition createMainFibre :: "int \<Rightarrow> nat \<Rightarrow> fibres \<Rightarrow> fibres res" where
  "createMainFibre tid p w =
     (if t_threadFibre w tid \<noteq> None then Inr w
      else let w = Fibre_main tid p w
           in cpp_assert (t_fibre w tid = Some p) (Inr (w\<lparr>t_threadFibre := (t_threadFibre w)(tid := Some p)\<rparr>)))"

definition GetThis :: "int \<Rightarrow> nat \<Rightarrow> fibres \<Rightarrow> (nat \<times> fibres) res" where
  "GetThis tid p w =
     (case t_fibre w tid of
        Some f \<Rightarrow> Inr (f, w)
      | None \<Rightarrow>
          let w = Fibre_main tid p w
          in cpp_assert (t_fibre w tid = Some p) (Inr (p, w\<lparr>t_threadFibre := (t_threadFibre w)(tid := Some p)\<rparr>)))"

definition TotalFibres :: "fibres \<Rightarrow> u64" where
  "TotalFibres w = s_fibre_count w"

section \<open>Switching\<close>

text \<open>\<open>swapcontext(&from, &to)\<close>: the caller's context, which continues at \<open>k\<close>, is saved in \<open>from\<close>, and
  the context of \<open>to\<close> is loaded; the result tells where execution goes on.  Behind the last switch of
  \<open>MainFunc\<close> there is only a failing assertion.\<close>

definition swapcontext :: "ucontext \<Rightarrow> nat \<Rightarrow> nat \<Rightarrow> fibres \<Rightarrow> (ucontext \<times> fibres) res" where
  "swapcontext k from dest w =
     rbind (fib_at w from) (\<lambda>_.
       let w = fib_upd from (\<lambda>f. f\<lparr>f_ctx := k\<rparr>) w
       in rbind (fib_at w dest) (\<lambda>f.
            if f_ctx f = Finished then Inl Assert_Fail
            else Inr (f_ctx f, fib_upd dest (\<lambda>f. f\<lparr>f_ctx := Running\<rparr>) w)))"

definition fcall :: "int \<Rightarrow> nat \<Rightarrow> fibres \<Rightarrow> (ucontext \<times> fibres) res" where
  "fcall tid this w =
     rbind (setState this EXEC (SetThis tid (Some this) w)) (\<lambda>w.
     rbind (ptr (t_threadFibre w tid)) (\<lambda>main. swapcontext Suspended main this w))"

definition fback :: "ucontext \<Rightarrow> int \<Rightarrow> nat \<Rightarrow> fibres \<Rightarrow> (ucontext \<times> fibres) res" where
  "fback k tid this w =
     (let w = SetThis tid (t_threadFibre w tid) w
      in rbind (ptr (t_threadFibre w tid)) (\<lambda>main. swapcontext k this main w))"

definition swapIn :: "int \<Rightarrow> nat \<Rightarrow> fibres \<Rightarrow> (ucontext \<times> fibres) res" where
  "swapIn tid this w =
     (let w = SetThis tid (Some this) w
      in rbind (getState this w) (\<lambda>st.
         cpp_assert (st \<noteq> EXEC)
           (rbind (setState this EXEC w) (\<lambda>w.
            rbind (ptr (t_scheduler_fibre w tid)) (\<lambda>main. swapcontext Suspended main this w)))))"

definition swapOut :: "ucontext \<Rightarrow> int \<Rightarrow> nat \<Rightarrow> fibres \<Rightarrow> (ucontext \<times> fibres) res" where
  "swapOut k tid this w =
     (let w = SetThis tid (t_scheduler_fibre w tid) w
      in rbind (ptr (t_scheduler_fibre w tid)) (\<lambda>main. swapcontext k this main w))"

text \<open>A yield first sets the state of the current fibre and then leaves it.\<close>

definition yield_mark :: "fstate \<Rightarrow> int \<Rightarrow> nat \<Rightarrow> fibres \<Rightarrow> (nat \<times> fibres) res" where
  "yield_mark st tid p w =
     rbind (GetThis tid p w) (\<lambda>(cur, w).
     rbind (getState cur w) (\<lambda>s.
       cpp_assert (s = EXEC) (rbind (setState cur st w) (\<lambda>w. Inr (cur, w)))))"

definition YieldToReady :: "int \<Rightarrow> nat \<Rightarrow> fibres \<Rightarrow> (ucontext \<times> fibres) res" where
  "YieldToReady tid p w = rbind (yield_mark READY tid p w) (\<lambda>(cur, w). swapOut Suspended tid cur w)"

definition YieldToHold :: "int \<Rightarrow> nat \<Rightarrow> fibres \<Rightarrow> (ucontext \<times> fibres) res" where
  "YieldToHold tid p w = rbind (yield_mark HOLD tid p w) (\<lambda>(cur, w). swapOut Suspended tid cur w)"

text \<open>The end of \<open>MainFunc\<close>, after the function has returned or thrown; calling an empty
  \<open>std::function\<close> throws.  Then the last switch.\<close>

datatype outcome = Returned | Threw

definition body_outcome :: "fibre \<Rightarrow> outcome \<Rightarrow> outcome" where
  "body_outcome f r = (if f_cb f = None then Threw else r)"

definition main_mark :: "outcome \<Rightarrow> int \<Rightarrow> nat \<Rightarrow> fibres \<Rightarrow> (nat \<times> fibres) res" where
  "main_mark r tid p w =
     rbind (GetThis tid p w) (\<lambda>(cur, w).
     rbind (fib_at w cur) (\<lambda>f.
       Inr (cur, case body_outcome f r of
                   Returned \<Rightarrow> fib_upd cur (\<lambda>f. f\<lparr>f_cb := None, f_state := TERMINATED\<rparr>) w
                 | Threw \<Rightarrow> fib_upd cur (\<lambda>f. f\<lparr>f_state := EXCEPT\<rparr>) w)))"

definition MainFunc :: "outcome \<Rightarrow> int \<Rightarrow> nat \<Rightarrow> fibres \<Rightarrow> (ucontext \<times> fibres) res" where
  "MainFunc r tid p w = rbind (main_mark r tid p w) (\<lambda>(cur, w). swapOut Finished tid cur w)"

definition CallerMainFunc :: "outcome \<Rightarrow> int \<Rightarrow> nat \<Rightarrow> fibres \<Rightarrow> (ucontext \<times> fibres) res" where
  "CallerMainFunc r tid p w = rbind (main_mark r tid p w) (\<lambda>(cur, w). fback Finished tid cur w)"

section \<open>One round of a fibre\<close>

lemma fib_upd_at [simp]:
  "fb_heap (fib_upd p g w) q = (if q = p then map_option g (fb_heap w p) else fb_heap w q)"
  "t_fibre (fib_upd p g w) = t_fibre w" "t_threadFibre (fib_upd p g w) = t_threadFibre w"
  "t_scheduler_fibre (fib_upd p g w) = t_scheduler_fibre w"
  "s_fibre_count (fib_upd p g w) = s_fibre_count w" "s_fibre_id (fib_upd p g w) = s_fibre_id w"
  by (simp_all add: fib_upd_def)

lemma SetThis_at [simp]:
  "fb_heap (SetThis tid f w) = fb_heap w" "t_fibre (SetThis tid f w) = (t_fibre w)(tid := f)"
  "t_threadFibre (SetThis tid f w) = t_threadFibre w" "t_scheduler_fibre (SetThis tid f w) = t_scheduler_fibre w"
  by (simp_all add: SetThis_def)

lemma fib_at_Some: "fb_heap w p = Some f \<Longrightarrow> fib_at w p = Inr f"
  by (simp add: fib_at_def)

text \<open>The state of a fibre with its own stack and the place where its context continues agree.\<close>

definition ctx_ok :: "fibre \<Rightarrow> bool" where
  "ctx_ok b =
     (case f_state b of
        INIT \<Rightarrow> f_ctx b = Main_Entry \<or> f_ctx b = Caller_Entry
      | HOLD \<Rightarrow> f_ctx b = Suspended
      | READY \<Rightarrow> f_ctx b = Suspended
      | EXEC \<Rightarrow> f_ctx b = Suspended \<or> f_ctx b = Running
      | TERMINATED \<Rightarrow> f_ctx b = Finished \<and> f_cb b = None
      | EXCEPT \<Rightarrow> f_ctx b = Finished)"

text \<open>The ways a fibre hands control back to the scheduler: the two yields, the bare \<open>swapOut\<close> of
  \<open>IOManager::idle\<close>, and the end of its function.\<close>

datatype leaving = To_Ready | To_Hold | Bare | At_End outcome

definition leave :: "leaving \<Rightarrow> int \<Rightarrow> nat \<Rightarrow> fibres \<Rightarrow> (ucontext \<times> fibres) res" where
  "leave l tid p w =
     (case l of
        To_Ready \<Rightarrow> YieldToReady tid p w
      | To_Hold \<Rightarrow> YieldToHold tid p w
      | Bare \<Rightarrow> rbind (GetThis tid p w) (\<lambda>(cur, w). swapOut Suspended tid cur w)
      | At_End r \<Rightarrow> MainFunc r tid p w)"

definition left_as :: "leaving \<Rightarrow> fibre \<Rightarrow> fibre" where
  "left_as l b =
     (case l of
        To_Ready \<Rightarrow> b\<lparr>f_state := READY, f_ctx := Suspended\<rparr>
      | To_Hold \<Rightarrow> b\<lparr>f_state := HOLD, f_ctx := Suspended\<rparr>
      | Bare \<Rightarrow> b\<lparr>f_state := EXEC, f_ctx := Suspended\<rparr>
      | At_End r \<Rightarrow>
          (case body_outcome b r of
             Returned \<Rightarrow> b\<lparr>f_state := TERMINATED, f_ctx := Finished, f_cb := None\<rparr>
           | Threw \<Rightarrow> b\<lparr>f_state := EXCEPT, f_ctx := Finished\<rparr>))"

lemma ctx_ok_left_as: "ctx_ok (left_as l b)"
  by (simp add: ctx_ok_def left_as_def split: leaving.split outcome.split)

lemma swapIn_ok:
  assumes "fb_heap w f = Some b" "f_state b \<noteq> EXEC" "f_ctx b \<noteq> Finished"
    and "t_scheduler_fibre w tid = Some m" "fb_heap w m = Some mb" "m \<noteq> f"
  shows "swapIn tid f w = Inr (f_ctx b, SetThis tid (Some f) w\<lparr>fb_heap := (fb_heap w)
    (f \<mapsto> b\<lparr>f_state := EXEC, f_ctx := Running\<rparr>, m \<mapsto> mb\<lparr>f_ctx := Suspended\<rparr>)\<rparr>)"
  using assms
  by (simp add: swapIn_def getState_def setState_def fib_at_def ptr_def swapcontext_def)
     (simp add: fib_upd_def SetThis_def fun_eq_iff)

lemma swapOut_ok:
  assumes "fb_heap w f = Some b" "t_scheduler_fibre w tid = Some m" "fb_heap w m = Some mb" "m \<noteq> f"
    "f_ctx mb \<noteq> Finished"
  shows "swapOut k tid f w = Inr (f_ctx mb, SetThis tid (Some m) w\<lparr>fb_heap := (fb_heap w)
    (f \<mapsto> b\<lparr>f_ctx := k\<rparr>, m \<mapsto> mb\<lparr>f_ctx := Running\<rparr>)\<rparr>)"
  using assms
  by (simp add: swapOut_def fib_at_def ptr_def swapcontext_def) (simp add: fib_upd_def SetThis_def fun_eq_iff)

lemma leave_ok:
  assumes "t_fibre w tid = Some f" "fb_heap w f = Some b" "f_state b = EXEC"
    and m: "t_scheduler_fibre w tid = Some m" "fb_heap w m = Some mb" "m \<noteq> f" "f_ctx mb \<noteq> Finished"
  shows "leave l tid p w = Inr (f_ctx mb, SetThis tid (Some m) w\<lparr>fb_heap := (fb_heap w)
    (f \<mapsto> left_as l b, m \<mapsto> mb\<lparr>f_ctx := Running\<rparr>)\<rparr>)"
proof -
  have cur: "GetThis tid p w = Inr (f, w)" using assms(1) by (simp add: GetThis_def)
  have out: "swapOut k tid f (fib_upd f g w) = Inr (f_ctx mb, SetThis tid (Some m) w\<lparr>fb_heap := (fb_heap w)
      (f \<mapsto> (g b)\<lparr>f_ctx := k\<rparr>, m \<mapsto> mb\<lparr>f_ctx := Running\<rparr>)\<rparr>)" for k g
    using assms swapOut_ok [of "fib_upd f g w" f "g b" tid m mb k]
    by (simp add: SetThis_def) (simp add: fib_upd_def)
  have mark: "yield_mark st tid p w = Inr (f, fib_upd f (\<lambda>b. b\<lparr>f_state := st\<rparr>) w)" for st
    using assms by (simp add: yield_mark_def cur getState_def setState_def fib_at_def)
  have bare: "swapOut k tid f w = Inr (f_ctx mb, SetThis tid (Some m) w\<lparr>fb_heap := (fb_heap w)
      (f \<mapsto> b\<lparr>f_ctx := k\<rparr>, m \<mapsto> mb\<lparr>f_ctx := Running\<rparr>)\<rparr>)" for k
    using swapOut_ok assms by blast
  have "main_mark r tid p w = Inr (f, case body_outcome b r of
      Returned \<Rightarrow> fib_upd f (\<lambda>f. f\<lparr>f_cb := None, f_state := TERMINATED\<rparr>) w
    | Threw \<Rightarrow> fib_upd f (\<lambda>f. f\<lparr>f_state := EXCEPT\<rparr>) w)" for r
    using assms by (simp add: main_mark_def cur fib_at_def split: outcome.split)
  then show ?thesis
    using assms(3)
    by (cases b; cases l) (auto simp: leave_def left_as_def YieldToReady_def YieldToHold_def MainFunc_def mark out bare cur
        split: outcome.split)
qed

lemma body_outcome_upd [simp]: "body_outcome (b\<lparr>f_state := s, f_ctx := c\<rparr>) r = body_outcome b r"
  by (simp add: body_outcome_def)

lemma left_as_upd: "left_as l (b\<lparr>f_state := s, f_ctx := c\<rparr>) = left_as l b"
  by (simp add: left_as_def split: leaving.split outcome.split)


definition two_fibres :: fibres where
  "two_fibres = (Fibre_new 131072 1 (Some (Function 0)) 0 False (Fibre_main 7 0 fibres_init))
     \<lparr>t_scheduler_fibre := (\<lambda>_. Some 0)\<rparr>"


end
