(* ===== verification/Scheduler.thy ===== *)
theory Scheduler
  imports Fibre
begin

text \<open>
  The fibre scheduler (\<open>src/concurrency/scheduler.cc\<close>, \<open>include/concurrency/scheduler.h\<close>).  The
  function \<open>run\<close> is cut at the points where other threads can interfere: the search of the queue
  under the lock, the dispatch of what was found, the fibre's own code, its last write before the
  switch, the switch, the decrement of the counter and the test of the state that follows.  The
  interleaving of these pieces over any number of threads is a labelled step relation.  The virtual
  \<open>tickle\<close> is counted; what it does is part of the subclass.
\<close>

section \<open>State\<close>

text \<open>\<open>FibreAndThread\<close>.\<close>

record task =
  ft_fibre :: "nat option"
  ft_cb :: "callback option"
  ft_thread :: int

definition ft_reset :: task where
  "ft_reset = \<lparr>ft_fibre = None, ft_cb = None, ft_thread = - 1\<rparr>"

text \<open>The constructors.  Those with a pointer take the content and leave a null behind.\<close>

definition FT_fibre :: "nat option \<Rightarrow> int \<Rightarrow> task" where
  "FT_fibre f thr = \<lparr>ft_fibre = f, ft_cb = None, ft_thread = thr\<rparr>"

definition FT_fibre_ptr :: "nat option \<Rightarrow> int \<Rightarrow> task \<times> nat option" where
  "FT_fibre_ptr f thr = (\<lparr>ft_fibre = f, ft_cb = None, ft_thread = thr\<rparr>, None)"

definition FT_cb :: "callback option \<Rightarrow> int \<Rightarrow> task" where
  "FT_cb f thr = \<lparr>ft_fibre = None, ft_cb = f, ft_thread = thr\<rparr>"

definition FT_cb_ptr :: "callback option \<Rightarrow> int \<Rightarrow> task \<times> callback option" where
  "FT_cb_ptr f thr = (\<lparr>ft_fibre = None, ft_cb = f, ft_thread = thr\<rparr>, None)"

definition FT_none :: task where
  "FT_none = \<lparr>ft_fibre = None, ft_cb = None, ft_thread = - 1\<rparr>"

record sched =
  m_this :: nat
  m_name :: string
  m_fibres :: "task list"
  m_rootFibre :: "nat option"
  m_threads :: "int list"
  m_threadIds :: "int list"
  m_threadCount :: nat
  m_activeThreadCount :: u64
  m_idleThreadCount :: u64
  m_stopping :: bool
  m_autoStop :: bool
  m_rootThread :: int
  tickles :: nat

text \<open>What a thread does in \<open>run\<close>: it runs a fibre of the queue, or the one it keeps for callbacks,
  or the idle fibre.\<close>

datatype job = Queued | Callback | Idling

text \<open>The points of \<open>run\<close>: at the top of the loop; behind the search; in a fibre; in a fibre that has
  written its state and not yet switched, with the place where it will continue; back from the
  switch; behind the decrement; and out of the loop.\<close>

datatype pc = Top | Dispatch | Inside job nat | Leaving job nat ucontext | Back job nat | After job nat | Ended

record run_local =
  rl_pc :: pc
  rl_ft :: task
  rl_active :: bool
  rl_cb :: "nat option"
  rl_idle :: nat

record sys =
  sch :: sched
  fbs :: fibres
  t_scheduler :: "int \<Rightarrow> nat option"
  t_hook_enable :: "int \<Rightarrow> bool"
  loc :: "int \<Rightarrow> run_local option"

section \<open>Scheduling\<close>

definition tickle :: "sched \<Rightarrow> sched" where
  "tickle s = s\<lparr>tickles := tickles s + 1\<rparr>"

definition scheduleNoLock :: "task \<Rightarrow> sched \<Rightarrow> bool \<times> sched" where
  "scheduleNoLock ft s =
     (let need_tickle = (m_fibres s = [])
      in (need_tickle,
          if ft_fibre ft \<noteq> None \<or> ft_cb ft \<noteq> None then s\<lparr>m_fibres := m_fibres s @ [ft]\<rparr> else s))"

definition schedule :: "task \<Rightarrow> sched \<Rightarrow> sched" where
  "schedule ft s = (let (need_tickle, s) = scheduleNoLock ft s in if need_tickle then tickle s else s)"

fun schedule_loop :: "callback option list \<Rightarrow> bool \<Rightarrow> sched \<Rightarrow> bool \<times> sched" where
  "schedule_loop [] need_tickle s = (need_tickle, s)"
| "schedule_loop (cb # cbs) need_tickle s =
     (let (n, s) = scheduleNoLock \<lparr>ft_fibre = None, ft_cb = cb, ft_thread = - 1\<rparr> s
      in schedule_loop cbs (n \<or> need_tickle) s)"

definition schedule_range :: "callback option list \<Rightarrow> sched \<Rightarrow> sched" where
  "schedule_range cbs s =
     (let (need_tickle, s) = schedule_loop cbs False s in if need_tickle then tickle s else s)"

definition stopping :: "sched \<Rightarrow> bool" where
  "stopping s \<longleftrightarrow> m_autoStop s \<and> m_stopping s \<and> m_fibres s = [] \<and> m_activeThreadCount s = 0"

definition hasIdleThreads :: "sched \<Rightarrow> bool" where
  "hasIdleThreads s \<longleftrightarrow> m_idleThreadCount s > 0"

section \<open>Construction, start and stop\<close>

definition stack_default :: u32 where
  "stack_default = 128 * 1024"

text \<open>\<open>tid\<close> is the constructing thread; \<open>p\<close> and \<open>q\<close> are the addresses of its fibre, if it needs one, and of
  the root fibre, whose function is \<open>run\<close> itself.\<close>

definition run_callback_id :: callback where
  "run_callback_id = Function 0"

definition Scheduler_new :: "nat \<Rightarrow> nat \<Rightarrow> bool \<Rightarrow> string \<Rightarrow> int \<Rightarrow> nat \<Rightarrow> nat \<Rightarrow> sys \<Rightarrow> sys res" where
  "Scheduler_new this threads use_caller name tid p q w =
     cpp_assert (threads > 0)
       (let s = \<lparr>m_this = this, m_name = name, m_fibres = [], m_rootFibre = None, m_threads = [], m_threadIds = [],
                 m_threadCount = 0, m_activeThreadCount = 0, m_idleThreadCount = 0, m_stopping = True,
                 m_autoStop = False, m_rootThread = 0, tickles = 0\<rparr>
        in if use_caller then
             rbind (GetThis tid p (fbs w)) (\<lambda>(_, f).
               cpp_assert (t_scheduler w tid = None)
                 (let f = Fibre_new stack_default q (Some run_callback_id) 0 True f;
                      f = f\<lparr>t_scheduler_fibre := (t_scheduler_fibre f)(tid := Some q)\<rparr>
                  in Inr (w\<lparr>fbs := f, t_scheduler := (t_scheduler w)(tid := Some this),
                            sch := s\<lparr>m_rootFibre := Some q, m_rootThread := tid, m_threadIds := [tid],
                                     m_threadCount := threads - 1\<rparr>\<rparr>)))
           else Inr (w\<lparr>sch := s\<lparr>m_rootThread := - 1, m_threadCount := threads\<rparr>\<rparr>))"

definition Scheduler_delete :: "int \<Rightarrow> sys \<Rightarrow> sys res" where
  "Scheduler_delete tid w =
     cpp_assert (m_stopping (sch w))
       (Inr (if t_scheduler w tid = Some (m_this (sch w)) then w\<lparr>t_scheduler := (t_scheduler w)(tid := None)\<rparr> else w))"

text \<open>\<open>ids\<close> are the numbers of the threads that the loop creates.\<close>

definition start :: "int list \<Rightarrow> sched \<Rightarrow> sched res" where
  "start ids s =
     (if \<not> m_stopping s then Inr s
      else
        let s = s\<lparr>m_stopping := False\<rparr>
        in cpp_assert (m_threads s = [])
             (let new = take (m_threadCount s) ids
              in Inr (s\<lparr>m_threads := new, m_threadIds := m_threadIds s @ new\<rparr>)))"

text \<open>The outcome of \<open>stop\<close>: it returns at once; or, after the notifications, it first switches to the
  root fibre or goes on at once to take the threads out and join them.  The test \<open>stopping\<close> is virtual.\<close>

datatype stop_next = Stop_Return | Stop_Call_Root nat | Stop_Join

definition stop :: "(sched \<Rightarrow> bool) \<Rightarrow> int \<Rightarrow> sys \<Rightarrow> (stop_next \<times> sys) res" where
  "stop is_stopping tid w =
     (let s = (sch w)\<lparr>m_autoStop := True\<rparr>
      in rbind (case m_rootFibre s of
                  None \<Rightarrow> Inr (False, s)
                | Some r \<Rightarrow>
                    rbind (getState r (fbs w)) (\<lambda>st.
                      if m_threadCount s = 0 \<and> (st = TERMINATED \<or> st = INIT)
                      then (let s = s\<lparr>m_stopping := True\<rparr> in Inr (is_stopping s, s))
                      else Inr (False, s))) (\<lambda>(done, s).
         if done then Inr (Stop_Return, w\<lparr>sch := s\<rparr>)
         else
           cpp_assert (if m_rootThread s \<noteq> - 1 then t_scheduler w tid = Some (m_this s)
                       else t_scheduler w tid \<noteq> Some (m_this s))
             (let s = s\<lparr>m_stopping := True\<rparr>;
                  s = (tickle ^^ m_threadCount s) s;
                  s = (if m_rootFibre s \<noteq> None then tickle s else s)
              in Inr (case m_rootFibre s of
                        None \<Rightarrow> Stop_Join
                      | Some r \<Rightarrow> if \<not> is_stopping s then Stop_Call_Root r else Stop_Join, w\<lparr>sch := s\<rparr>))))"

definition stop_join :: "sched \<Rightarrow> int list \<times> sched" where
  "stop_join s = (m_threads s, s\<lparr>m_threads := []\<rparr>)"

section \<open>The run loop\<close>

definition upd_loc :: "int \<Rightarrow> (run_local \<Rightarrow> run_local) \<Rightarrow> sys \<Rightarrow> sys" where
  "upd_loc tid g w = w\<lparr>loc := (loc w)(tid := map_option g (loc w tid))\<rparr>"

text \<open>The beginning of \<open>run\<close>: the idle fibre is made at \<open>q\<close>.\<close>

definition run_enter :: "int \<Rightarrow> nat \<Rightarrow> nat \<Rightarrow> sys \<Rightarrow> sys res" where
  "run_enter tid p q w =
     (let w = w\<lparr>t_hook_enable := (t_hook_enable w)(tid := True), t_scheduler := (t_scheduler w)(tid := Some (m_this (sch w)))\<rparr>
      in rbind (if tid \<noteq> m_rootThread (sch w)
                then rbind (GetThis tid p (fbs w)) (\<lambda>(f, fs).
                       Inr (fs\<lparr>t_scheduler_fibre := (t_scheduler_fibre fs)(tid := Some f)\<rparr>))
                else Inr (fbs w)) (\<lambda>fs.
         let fs = Fibre_new stack_default q (Some (Function 1)) 0 False fs
         in Inr (w\<lparr>fbs := fs, loc := (loc w)(tid \<mapsto>
              \<lparr>rl_pc = Top, rl_ft = ft_reset, rl_active = False, rl_cb = None, rl_idle = q\<rparr>)\<rparr>)))"

text \<open>The search for a task.  The result is \<open>tickle_me\<close>, the task that was found and the queue that is left.\<close>

fun pick_loop :: "int \<Rightarrow> fibres \<Rightarrow> task list \<Rightarrow> bool \<Rightarrow> (bool \<times> task option \<times> task list) res" where
  "pick_loop tid fs [] tickle_me = Inr (tickle_me, None, [])"
| "pick_loop tid fs (it # its) tickle_me =
     (if ft_thread it \<noteq> - 1 \<and> ft_thread it \<noteq> tid
      then rbind (pick_loop tid fs its True) (\<lambda>(t, r, q). Inr (t, r, it # q))
      else
        cpp_assert (ft_fibre it \<noteq> None \<or> ft_cb it \<noteq> None)
          (rbind (case ft_fibre it of None \<Rightarrow> Inr False
                  | Some f \<Rightarrow> rbind (getState f fs) (\<lambda>st. Inr (st = EXEC))) (\<lambda>exec.
             if exec then rbind (pick_loop tid fs its tickle_me) (\<lambda>(t, r, q). Inr (t, r, it # q))
             else Inr (tickle_me \<or> its \<noteq> [], Some it, its))))"

definition run_pick :: "int \<Rightarrow> sys \<Rightarrow> (task option \<times> sys) res" where
  "run_pick tid w =
     rbind (pick_loop tid (fbs w) (m_fibres (sch w)) False) (\<lambda>(tickle_me, found, left).
       let s = (case found of None \<Rightarrow> sch w
                | Some _ \<Rightarrow> (sch w)\<lparr>m_fibres := left, m_activeThreadCount := m_activeThreadCount (sch w) + 1\<rparr>);
           s = (if tickle_me then tickle s else s);
           ft = (case found of None \<Rightarrow> ft_reset | Some t \<Rightarrow> t)
       in Inr (found, upd_loc tid (\<lambda>l. l\<lparr>rl_pc := Dispatch, rl_ft := ft, rl_active := found \<noteq> None\<rparr>) (w\<lparr>sch := s\<rparr>)))"

definition enter_fibre :: "job \<Rightarrow> int \<Rightarrow> nat \<Rightarrow> sys \<Rightarrow> sys res" where
  "enter_fibre j tid f w =
     rbind (swapIn tid f (fbs w)) (\<lambda>(_, fs). Inr (upd_loc tid (\<lambda>l. l\<lparr>rl_pc := Inside j f\<rparr>) (w\<lparr>fbs := fs\<rparr>)))"

text \<open>The three branches behind the search; \<open>p\<close> is the address of a new fibre for callbacks.\<close>

definition dispatch_cb :: "int \<Rightarrow> nat \<Rightarrow> run_local \<Rightarrow> sys \<Rightarrow> sys res" where
  "dispatch_cb tid p l w =
     rbind (case rl_cb l of
              Some c \<Rightarrow> rbind (reset_fibre c (ft_cb (rl_ft l)) (fbs w)) (\<lambda>fs. Inr (c, fs))
            | None \<Rightarrow> Inr (p, Fibre_new stack_default p (ft_cb (rl_ft l)) 0 False (fbs w))) (\<lambda>(c, fs).
       enter_fibre Callback tid c (upd_loc tid (\<lambda>l. l\<lparr>rl_cb := Some c, rl_ft := ft_reset\<rparr>) (w\<lparr>fbs := fs\<rparr>)))"

definition dispatch_idle :: "int \<Rightarrow> run_local \<Rightarrow> sys \<Rightarrow> sys res" where
  "dispatch_idle tid l w =
     (if rl_active l then
        Inr (upd_loc tid (\<lambda>l. l\<lparr>rl_pc := Top, rl_ft := ft_reset\<rparr>)
              (w\<lparr>sch := (sch w)\<lparr>m_activeThreadCount := m_activeThreadCount (sch w) - 1\<rparr>\<rparr>))
      else
        rbind (getState (rl_idle l) (fbs w)) (\<lambda>st.
          if st = TERMINATED then Inr (upd_loc tid (\<lambda>l. l\<lparr>rl_pc := Ended\<rparr>) w)
          else enter_fibre Idling tid (rl_idle l)
                 (w\<lparr>sch := (sch w)\<lparr>m_idleThreadCount := m_idleThreadCount (sch w) + 1\<rparr>\<rparr>)))"

definition run_dispatch :: "int \<Rightarrow> nat \<Rightarrow> run_local \<Rightarrow> sys \<Rightarrow> sys res" where
  "run_dispatch tid p l w =
     rbind (case ft_fibre (rl_ft l) of None \<Rightarrow> Inr None
            | Some f \<Rightarrow> rbind (getState f (fbs w)) (\<lambda>st.
                Inr (if st \<noteq> TERMINATED \<and> st \<noteq> EXCEPT then Some f else None))) (\<lambda>run.
       case run of
         Some f \<Rightarrow> enter_fibre Queued tid f w
       | None \<Rightarrow> if ft_cb (rl_ft l) \<noteq> None then dispatch_cb tid p l w else dispatch_idle tid l w)"

text \<open>A fibre writes its state, then switches back.\<close>

definition fibre_mark :: "leaving \<Rightarrow> int \<Rightarrow> nat \<Rightarrow> fibres \<Rightarrow> (nat \<times> ucontext \<times> fibres) res" where
  "fibre_mark how tid p fs =
     (case how of
        To_Ready \<Rightarrow> rbind (yield_mark READY tid p fs) (\<lambda>(cur, fs). Inr (cur, Suspended, fs))
      | To_Hold \<Rightarrow> rbind (yield_mark HOLD tid p fs) (\<lambda>(cur, fs). Inr (cur, Suspended, fs))
      | Bare \<Rightarrow> rbind (GetThis tid p fs) (\<lambda>(cur, fs). Inr (cur, Suspended, fs))
      | At_End r \<Rightarrow> rbind (main_mark r tid p fs) (\<lambda>(cur, fs). Inr (cur, Finished, fs)))"

definition run_mark :: "leaving \<Rightarrow> int \<Rightarrow> nat \<Rightarrow> job \<Rightarrow> sys \<Rightarrow> sys res" where
  "run_mark how tid p j w =
     rbind (fibre_mark how tid p (fbs w)) (\<lambda>(cur, k, fs).
       Inr (upd_loc tid (\<lambda>l. l\<lparr>rl_pc := Leaving j cur k\<rparr>) (w\<lparr>fbs := fs\<rparr>)))"

definition run_leave :: "int \<Rightarrow> job \<Rightarrow> nat \<Rightarrow> ucontext \<Rightarrow> sys \<Rightarrow> sys res" where
  "run_leave tid j cur k w =
     rbind (swapOut k tid cur (fbs w)) (\<lambda>(_, fs). Inr (upd_loc tid (\<lambda>l. l\<lparr>rl_pc := Back j cur\<rparr>) (w\<lparr>fbs := fs\<rparr>)))"

text \<open>\<open>Scheduler::idle\<close>: one turn of its loop.\<close>

definition idle_turn :: "sched \<Rightarrow> leaving" where
  "idle_turn s = (if stopping s then At_End Returned else To_Hold)"

text \<open>Behind the switch the counters go down, before the state is looked at.\<close>

definition run_back :: "int \<Rightarrow> job \<Rightarrow> nat \<Rightarrow> sys \<Rightarrow> sys" where
  "run_back tid j f w =
     upd_loc tid (\<lambda>l. l\<lparr>rl_pc := After j f\<rparr>)
       (w\<lparr>sch := (if j = Idling then (sch w)\<lparr>m_idleThreadCount := m_idleThreadCount (sch w) - 1\<rparr>
                  else (sch w)\<lparr>m_activeThreadCount := m_activeThreadCount (sch w) - 1\<rparr>)\<rparr>)"

definition after_fibre :: "int \<Rightarrow> nat \<Rightarrow> sys \<Rightarrow> sys res" where
  "after_fibre tid f w =
     rbind (getState f (fbs w)) (\<lambda>st.
       let top = upd_loc tid (\<lambda>l. l\<lparr>rl_pc := Top, rl_ft := ft_reset\<rparr>)
       in if st = READY
          then Inr (top (w\<lparr>sch := schedule \<lparr>ft_fibre = Some f, ft_cb = None, ft_thread = - 1\<rparr> (sch w)\<rparr>))
          else if st \<noteq> TERMINATED \<and> st \<noteq> EXCEPT then
            rbind (setState f HOLD (fbs w)) (\<lambda>fs. Inr (top (w\<lparr>fbs := fs\<rparr>)))
          else Inr (top w))"

definition after_cb :: "int \<Rightarrow> nat \<Rightarrow> sys \<Rightarrow> sys res" where
  "after_cb tid c w =
     rbind (getState c (fbs w)) (\<lambda>st.
       if st = READY then
         Inr (upd_loc tid (\<lambda>l. l\<lparr>rl_pc := Top, rl_cb := None\<rparr>)
               (w\<lparr>sch := schedule \<lparr>ft_fibre = Some c, ft_cb = None, ft_thread = - 1\<rparr> (sch w)\<rparr>))
       else if st = EXCEPT \<or> st = TERMINATED then
         rbind (reset_fibre c None (fbs w)) (\<lambda>fs. Inr (upd_loc tid (\<lambda>l. l\<lparr>rl_pc := Top\<rparr>) (w\<lparr>fbs := fs\<rparr>)))
       else
         rbind (setState c HOLD (fbs w)) (\<lambda>fs.
           Inr (upd_loc tid (\<lambda>l. l\<lparr>rl_pc := Top, rl_cb := None\<rparr>) (w\<lparr>fbs := fs\<rparr>))))"

definition after_idle :: "int \<Rightarrow> nat \<Rightarrow> sys \<Rightarrow> sys res" where
  "after_idle tid i w =
     rbind (getState i (fbs w)) (\<lambda>st.
       rbind (if st \<noteq> TERMINATED \<and> st \<noteq> EXCEPT then setState i HOLD (fbs w) else Inr (fbs w)) (\<lambda>fs.
         Inr (upd_loc tid (\<lambda>l. l\<lparr>rl_pc := Top\<rparr>) (w\<lparr>fbs := fs\<rparr>))))"

definition run_after :: "int \<Rightarrow> job \<Rightarrow> nat \<Rightarrow> sys \<Rightarrow> sys res" where
  "run_after tid j f w =
     (case j of Queued \<Rightarrow> after_fibre tid f w | Callback \<Rightarrow> after_cb tid f w | Idling \<Rightarrow> after_idle tid f w)"

text \<open>\<open>switchTo\<close>, with what follows when the fibre has to move: it is queued, and then yields.\<close>

definition switchTo :: "int \<Rightarrow> nat \<Rightarrow> int \<Rightarrow> sys \<Rightarrow> (bool \<times> sys) res" where
  "switchTo tid p thread w =
     cpp_assert (t_scheduler w tid \<noteq> None)
       (if t_scheduler w tid = Some (m_this (sch w)) \<and> (thread = - 1 \<or> thread = tid) then Inr (False, w)
        else rbind (GetThis tid p (fbs w)) (\<lambda>(f, fs).
          Inr (True, w\<lparr>fbs := fs,
            sch := schedule \<lparr>ft_fibre = Some f, ft_cb = None, ft_thread = thread\<rparr> (sch w)\<rparr>)))"

text \<open>\<open>SchedulerSwitcher\<close>: the caller's scheduler is kept, and the target, if there is one, takes the fibre over; the
  destructor goes back.  \<open>into\<close> and \<open>back\<close> are \<open>switchTo\<close> of the two schedulers.\<close>

definition Scheduler_GetThis :: "int \<Rightarrow> sys \<Rightarrow> nat option" where
  "Scheduler_GetThis tid w = t_scheduler w tid"

definition GetMainFibre :: "int \<Rightarrow> sys \<Rightarrow> nat option" where
  "GetMainFibre tid w = t_scheduler_fibre (fbs w) tid"

definition setThis :: "int \<Rightarrow> sys \<Rightarrow> sys" where
  "setThis tid w = w\<lparr>t_scheduler := (t_scheduler w)(tid := Some (m_this (sch w)))\<rparr>"

definition SchedulerSwitcher_new :: "(sys \<Rightarrow> (bool \<times> sys) res) option \<Rightarrow> int \<Rightarrow> sys \<Rightarrow> (nat option \<times> bool \<times> sys) res" where
  "SchedulerSwitcher_new into tid w =
     (let m_caller = Scheduler_GetThis tid w
      in case into of None \<Rightarrow> Inr (m_caller, False, w)
         | Some f \<Rightarrow> rbind (f w) (\<lambda>(moved, w). Inr (m_caller, moved, w)))"

definition SchedulerSwitcher_delete :: "(nat \<Rightarrow> sys \<Rightarrow> (bool \<times> sys) res) \<Rightarrow> nat option \<Rightarrow> sys \<Rightarrow> (bool \<times> sys) res" where
  "SchedulerSwitcher_delete back m_caller w = (case m_caller of None \<Rightarrow> Inr (False, w) | Some s \<Rightarrow> back s w)"

text \<open>\<open>dump\<close>; \<open>num\<close> and \<open>inum\<close> print numbers.\<close>

definition Scheduler_dump :: "(nat \<Rightarrow> string) \<Rightarrow> (int \<Rightarrow> string) \<Rightarrow> sched \<Rightarrow> string" where
  "Scheduler_dump num inum s =
     ''[Scheduler name = '' @ m_name s @ '' size = '' @ num (m_threadCount s) @
     '' active_count = '' @ num (unat (m_activeThreadCount s)) @ '' idle_count = '' @ num (unat (m_idleThreadCount s)) @
     ''stopping = '' @ (if m_stopping s then ''1'' else ''0'') @ '' ]'' @ [CHR 0x0A] @ ''   '' @
     (case m_threadIds s of [] \<Rightarrow> [] | t # ts \<Rightarrow> inum t @ concat (map (\<lambda>t. '', '' @ inum t) ts))"

text \<open>A guard that gives no target changes nothing, and one whose scheduler is the caller's own switches nowhere.\<close>

lemma switcher_idle:
  "SchedulerSwitcher_new None tid w = Inr (t_scheduler w tid, False, w)"
  "t_scheduler w tid = Some (m_this (sch w)) \<Longrightarrow>
     SchedulerSwitcher_new (Some (switchTo tid p (- 1))) tid w = Inr (Some (m_this (sch w)), False, w)"
  by (simp_all add: SchedulerSwitcher_new_def Scheduler_GetThis_def switchTo_def)

section \<open>Interleaving\<close>

text \<open>Labels: a task enters the queue, a thread takes one, anything else.\<close>

datatype label = Submit task | Start int task | Silent

inductive sched_step :: "sys \<Rightarrow> label \<Rightarrow> sys \<Rightarrow> bool" where
  enter: "sched_step w Silent w'" if "loc w tid = None" "run_enter tid p q w = Inr w'"
| submit: "sched_step w (Submit t) (w\<lparr>sch := schedule t (sch w)\<rparr>)" if "ft_fibre t \<noteq> None \<or> ft_cb t \<noteq> None"
| request_stop: "sched_step w Silent (w\<lparr>sch := (sch w)\<lparr>m_autoStop := True, m_stopping := b\<rparr>\<rparr>)" for b
| pick_one: "sched_step w (Start tid t) w'"
    if "loc w tid = Some l" "rl_pc l = Top" "run_pick tid w = Inr (Some t, w')"
| pick_none: "sched_step w Silent w'"
    if "loc w tid = Some l" "rl_pc l = Top" "run_pick tid w = Inr (None, w')"
| dispatch: "sched_step w Silent w'"
    if "loc w tid = Some l" "rl_pc l = Dispatch" "run_dispatch tid p l w = Inr w'"
| mark: "sched_step w Silent w'"
    if "loc w tid = Some l" "rl_pc l = Inside j f" "j = Idling \<longrightarrow> how = idle_turn (sch w)"
       "run_mark how tid p j w = Inr w'"
| leaves: "sched_step w Silent w'"
    if "loc w tid = Some l" "rl_pc l = Leaving j f k" "run_leave tid j f k w = Inr w'"
| came_back: "sched_step w Silent (run_back tid j f w)" if "loc w tid = Some l" "rl_pc l = Back j f"
| after_requeue: "sched_step w (Submit \<lparr>ft_fibre = Some f, ft_cb = None, ft_thread = - 1\<rparr>) w'"
    if "loc w tid = Some l" "rl_pc l = After j f" "j \<noteq> Idling" "getState f (fbs w) = Inr READY"
       "run_after tid j f w = Inr w'"
| after: "sched_step w Silent w'"
    if "loc w tid = Some l" "rl_pc l = After j f" "j = Idling \<or> getState f (fbs w) \<noteq> Inr READY"
       "run_after tid j f w = Inr w'"

inductive sched_run :: "sys \<Rightarrow> label list \<Rightarrow> sys \<Rightarrow> bool" where
  run_nil: "sched_run w [] w"
| run_snoc: "sched_run w tr w'' \<Longrightarrow> sched_step w'' a w' \<Longrightarrow> sched_run w (tr @ [a]) w'"

end
