(* ===== verification/Scheduler_Props.thy ===== *)
theory Scheduler_Props
  imports Scheduler "HOL-Library.Multiset"
begin

text \<open>
  What the scheduler promises under every interleaving of its threads: which task the search takes,
  that no task is lost or run twice, that the two counters are exact, and that \<open>stopping\<close> tells the
  truth.  The last section exhibits an execution in which two threads are in the same fibre.
\<close>

section \<open>The search\<close>

definition elsewhere :: "int \<Rightarrow> task \<Rightarrow> bool" where
  "elsewhere tid t \<longleftrightarrow> ft_thread t \<noteq> - 1 \<and> ft_thread t \<noteq> tid"

definition executing :: "fibres \<Rightarrow> task \<Rightarrow> bool" where
  "executing fs t = (case ft_fibre t of None \<Rightarrow> False | Some f \<Rightarrow> getState f fs = Inr EXEC)"

definition eligible :: "int \<Rightarrow> fibres \<Rightarrow> task \<Rightarrow> bool" where
  "eligible tid fs t \<longleftrightarrow> \<not> elsewhere tid t \<and> \<not> executing fs t"

definition task_ok :: "fibres \<Rightarrow> task \<Rightarrow> bool" where
  "task_ok fs t \<longleftrightarrow> (ft_fibre t \<noteq> None \<or> ft_cb t \<noteq> None) \<and>
     (case ft_fibre t of None \<Rightarrow> True | Some f \<Rightarrow> fb_heap fs f \<noteq> None)"

text \<open>What the search should find: the first eligible task, the rest in order, and whether anybody else
  has something to do.\<close>

definition pick_spec :: "int \<Rightarrow> fibres \<Rightarrow> task list \<Rightarrow> bool \<Rightarrow> bool \<times> task option \<times> task list" where
  "pick_spec tid fs q b =
     (let pre = takeWhile (\<lambda>t. \<not> eligible tid fs t) q
      in case dropWhile (\<lambda>t. \<not> eligible tid fs t) q of
           [] \<Rightarrow> (b \<or> list_ex (elsewhere tid) q, None, q)
         | t # post \<Rightarrow> (b \<or> list_ex (elsewhere tid) pre \<or> post \<noteq> [], Some t, pre @ post))"

lemma pick_spec_Nil: "pick_spec tid fs [] b = (b, None, [])"
  by (simp add: pick_spec_def)

lemma pick_spec_eligible: "eligible tid fs t \<Longrightarrow> pick_spec tid fs (t # q) b = (b \<or> q \<noteq> [], Some t, q)"
  by (simp add: pick_spec_def)

lemma pick_spec_skip:
  "\<not> eligible tid fs t \<Longrightarrow>
   pick_spec tid fs (t # q) b = (case pick_spec tid fs q (b \<or> elsewhere tid t) of (k, r, l) \<Rightarrow> (k, r, t # l))"
  by (cases "dropWhile (\<lambda>t. \<not> eligible tid fs t) q")
     (simp_all add: pick_spec_def Let_def disj_assoc del: dropWhile_eq_Nil_conv)

definition exec_test :: "fibres \<Rightarrow> task \<Rightarrow> bool res" where
  "exec_test fs it = (case ft_fibre it of None \<Rightarrow> Inr False | Some f \<Rightarrow> rbind (getState f fs) (\<lambda>st. Inr (st = EXEC)))"

lemma exec_test_ok: "task_ok fs it \<Longrightarrow> exec_test fs it = Inr (executing fs it)"
  by (auto simp: task_ok_def executing_def getState_def fib_at_def exec_test_def split: option.splits)

lemma pick_loop_elsewhere:
  "elsewhere tid it \<Longrightarrow>
   pick_loop tid fs (it # its) b = rbind (pick_loop tid fs its True) (\<lambda>(t, r, q). Inr (t, r, it # q))"
  by (simp add: elsewhere_def)

lemma pick_loop_here:
  "\<not> elsewhere tid it \<Longrightarrow>
   pick_loop tid fs (it # its) b =
     cpp_assert (ft_fibre it \<noteq> None \<or> ft_cb it \<noteq> None)
       (rbind (exec_test fs it) (\<lambda>exec.
          if exec then rbind (pick_loop tid fs its b) (\<lambda>(t, r, q). Inr (t, r, it # q))
          else Inr (b \<or> its \<noteq> [], Some it, its)))"
  unfolding elsewhere_def exec_test_def by (subst pick_loop.simps) (simp only: if_False)

lemma pick_loop_exact: "list_all (task_ok fs) q \<Longrightarrow> pick_loop tid fs q b = Inr (pick_spec tid fs q b)"
proof (induction q arbitrary: b)
  case (Cons it its)
  then have ok: "task_ok fs it" and its: "list_all (task_ok fs) its" by simp_all
  from ok have ne: "ft_fibre it \<noteq> None \<or> ft_cb it \<noteq> None" by (simp add: task_ok_def)
  note IH = Cons.IH [OF its]
  show ?case
  proof (cases "elsewhere tid it")
    case True
    then show ?thesis by (simp add: pick_loop_elsewhere IH pick_spec_skip eligible_def split: prod.split del: pick_loop.simps)
  next
    case False
    then show ?thesis
      using ok ne by (simp add: pick_loop_here exec_test_ok IH pick_spec_skip pick_spec_eligible eligible_def
          split: prod.split del: pick_loop.simps)
  qed
qed (simp add: pick_spec_Nil)

text \<open>On a queue of tasks that name live fibres, the search under the lock takes the first task that
  the thread may run and whose fibre is not executing, leaves all others in their order, and asks for
  a tickle exactly when a skipped task belongs to another thread or something is left behind.\<close>

theorem pick_first_eligible:
  assumes "list_all (task_ok fs) q"
  shows "pick_loop tid fs q b = Inr (pick_spec tid fs q b)"
  using pick_loop_exact [OF assms] .

lemma pick_first_eligible_witness:
  "pick_loop 1 fibres_init [\<lparr>ft_fibre = None, ft_cb = Some (Function 5), ft_thread = 2\<rparr>,
      \<lparr>ft_fibre = None, ft_cb = Some (Function 6), ft_thread = - 1\<rparr>] False =
   Inr (True, Some \<lparr>ft_fibre = None, ft_cb = Some (Function 6), ft_thread = - 1\<rparr>,
     [\<lparr>ft_fibre = None, ft_cb = Some (Function 5), ft_thread = 2\<rparr>])"
  using pick_first_eligible [of fibres_init "[\<lparr>ft_fibre = None, ft_cb = Some (Function 5), ft_thread = 2\<rparr>,
      \<lparr>ft_fibre = None, ft_cb = Some (Function 6), ft_thread = - 1\<rparr>]" 1 False]
  by (simp add: task_ok_def pick_spec_def eligible_def elsewhere_def executing_def)

section \<open>What the steps do to the queue\<close>

lemma schedule_queue:
  "ft_fibre t \<noteq> None \<or> ft_cb t \<noteq> None \<Longrightarrow> m_fibres (schedule t s) = m_fibres s @ [t]"
  by (auto simp: schedule_def scheduleNoLock_def tickle_def)

lemma schedule_counts [simp]:
  "m_activeThreadCount (schedule t s) = m_activeThreadCount s" "m_idleThreadCount (schedule t s) = m_idleThreadCount s"
  by (simp_all add: schedule_def scheduleNoLock_def tickle_def)

lemma tickle_fields [simp]:
  "m_fibres (tickle s) = m_fibres s" "m_activeThreadCount (tickle s) = m_activeThreadCount s"
  "m_idleThreadCount (tickle s) = m_idleThreadCount s"
  by (simp_all add: tickle_def)

lemma upd_loc_sch [simp]: "sch (upd_loc tid g w) = sch w" "fbs (upd_loc tid g w) = fbs w"
  "loc (upd_loc tid g w) = (loc w)(tid := map_option g (loc w tid))"
  by (simp_all add: upd_loc_def)

lemma pick_loop_mset:
  "pick_loop tid fs q b = Inr (k, r, l) \<Longrightarrow>
   mset q = mset l + (case r of None \<Rightarrow> {#} | Some t \<Rightarrow> {#t#}) \<and>
   (case r of None \<Rightarrow> True | Some t \<Rightarrow> \<not> elsewhere tid t)"
proof (induction q arbitrary: b k r l)
  case (Cons it its)
  show ?case
  proof (cases "elsewhere tid it")
    case True
    with Cons.prems obtain l' where "pick_loop tid fs its True = Inr (k, r, l')" "l = it # l'"
      by (auto simp: pick_loop_elsewhere res_simps simp del: pick_loop.simps)
    with Cons.IH show ?thesis by simp
  next
    case False
    with Cons.prems obtain e where e: "exec_test fs it = Inr e"
      "(if e then rbind (pick_loop tid fs its b) (\<lambda>(t, r, q). Inr (t, r, it # q))
        else Inr (b \<or> its \<noteq> [], Some it, its)) = Inr (k, r, l)"
      by (auto simp: pick_loop_here res_simps simp del: pick_loop.simps)
    show ?thesis
    proof (cases e)
      case True
      with e obtain l' where "pick_loop tid fs its b = Inr (k, r, l')" "l = it # l'" by (auto simp: res_simps)
      with Cons.IH show ?thesis by simp
    next
      case False
      with e \<open>\<not> elsewhere tid it\<close> show ?thesis by auto
    qed
  qed
qed simp

lemma enter_fibre_sch: "enter_fibre j tid f w = Inr w' \<Longrightarrow>
    sch w' = sch w \<and> loc w' = (loc w)(tid := map_option (\<lambda>l. l\<lparr>rl_pc := Inside j f\<rparr>) (loc w tid))"
  by (auto simp: enter_fibre_def res_simps)

lemma run_enter_sch:
  "run_enter tid p q w = Inr w' \<Longrightarrow> sch w' = sch w \<and>
     loc w' = (loc w)(tid \<mapsto> \<lparr>rl_pc = Top, rl_ft = ft_reset, rl_active = False, rl_cb = None, rl_idle = q\<rparr>)"
  by (auto simp: run_enter_def res_simps Let_def)

lemma run_pick_sch:
  assumes "run_pick tid w = Inr (r, w')"
  shows "mset (m_fibres (sch w)) = mset (m_fibres (sch w')) + (case r of None \<Rightarrow> {#} | Some t \<Rightarrow> {#t#}) \<and>
    (case r of None \<Rightarrow> True | Some t \<Rightarrow> \<not> elsewhere tid t) \<and>
    m_activeThreadCount (sch w') = m_activeThreadCount (sch w) + (if r = None then 0 else 1) \<and>
    m_idleThreadCount (sch w') = m_idleThreadCount (sch w) \<and>
    loc w' = (loc w)(tid := map_option (\<lambda>l. l\<lparr>rl_pc := Dispatch, rl_ft := (case r of None \<Rightarrow> ft_reset | Some t \<Rightarrow> t),
      rl_active := r \<noteq> None\<rparr>) (loc w tid))"
proof -
  obtain k l where pl: "pick_loop tid (fbs w) (m_fibres (sch w)) False = Inr (k, r, l)"
    using assms by (auto simp: run_pick_def res_simps Let_def)
  from pick_loop_mset [OF this] assms pl show ?thesis
    by (cases r) (auto simp: run_pick_def Let_def)
qed

lemma run_mark_sch: "run_mark how tid p j w = Inr w' \<Longrightarrow> sch w' = sch w \<and>
    (\<exists>f k. loc w' = (loc w)(tid := map_option (\<lambda>l. l\<lparr>rl_pc := Leaving j f k\<rparr>) (loc w tid)))"
  by (auto simp: run_mark_def res_simps) blast

lemma run_leave_sch: "run_leave tid j f k w = Inr w' \<Longrightarrow> sch w' = sch w \<and>
    loc w' = (loc w)(tid := map_option (\<lambda>l. l\<lparr>rl_pc := Back j f\<rparr>) (loc w tid))"
  by (auto simp: run_leave_def res_simps)

text \<open>The effect of the dispatch on the thread and the counters.\<close>

definition dispatched :: "run_local \<Rightarrow> sys \<Rightarrow> int \<Rightarrow> sys \<Rightarrow> bool" where
  "dispatched l w tid w' \<longleftrightarrow>
     m_fibres (sch w') = m_fibres (sch w) \<and>
     (\<exists>l'. loc w' = (loc w)(tid \<mapsto> l') \<and>
       ((\<exists>j f. rl_pc l' = Inside j f \<and> j \<noteq> Idling \<and> m_activeThreadCount (sch w') = m_activeThreadCount (sch w) \<and>
          m_idleThreadCount (sch w') = m_idleThreadCount (sch w) \<and>
          (ft_fibre (rl_ft l) \<noteq> None \<or> ft_cb (rl_ft l) \<noteq> None)) \<or>
        (rl_active l \<and> rl_pc l' = Top \<and> m_activeThreadCount (sch w') = m_activeThreadCount (sch w) - 1 \<and>
          m_idleThreadCount (sch w') = m_idleThreadCount (sch w)) \<or>
        (\<not> rl_active l \<and> rl_pc l' = Ended \<and> m_activeThreadCount (sch w') = m_activeThreadCount (sch w) \<and>
          m_idleThreadCount (sch w') = m_idleThreadCount (sch w)) \<or>
        (\<not> rl_active l \<and> (\<exists>f. rl_pc l' = Inside Idling f) \<and> m_activeThreadCount (sch w') = m_activeThreadCount (sch w) \<and>
          m_idleThreadCount (sch w') = m_idleThreadCount (sch w) + 1)))"

lemma dispatch_cb_dispatched:
  "loc w tid = Some l \<Longrightarrow> ft_cb (rl_ft l) \<noteq> None \<Longrightarrow> dispatch_cb tid p l w = Inr w' \<Longrightarrow> dispatched l w tid w'"
  by (auto simp: dispatch_cb_def dispatched_def res_simps dest!: enter_fibre_sch)

lemma dispatch_idle_dispatched:
  "loc w tid = Some l \<Longrightarrow> dispatch_idle tid l w = Inr w' \<Longrightarrow> dispatched l w tid w'"
proof (cases "rl_active l")
  case False
  assume l: "loc w tid = Some l" and "dispatch_idle tid l w = Inr w'"
  with False obtain st where st: "getState (rl_idle l) (fbs w) = Inr st"
    "(if st = TERMINATED then Inr (upd_loc tid (\<lambda>l. l\<lparr>rl_pc := Ended\<rparr>) w)
      else enter_fibre Idling tid (rl_idle l)
        (w\<lparr>sch := (sch w)\<lparr>m_idleThreadCount := m_idleThreadCount (sch w) + 1\<rparr>\<rparr>)) = Inr w'"
    by (auto simp: dispatch_idle_def res_simps)
  show ?thesis
  proof (cases "st = TERMINATED")
    case True
    then show ?thesis using st(2) l False by (auto simp: dispatched_def)
  next
    case nt: False
    then show ?thesis using st(2) l False by (auto simp: dispatched_def dest!: enter_fibre_sch)
  qed
qed (auto simp: dispatch_idle_def dispatched_def)

lemma run_dispatch_dispatched:
  assumes "loc w tid = Some l" "run_dispatch tid p l w = Inr w'"
  shows "dispatched l w tid w'"
proof -
  let ?rest = "if ft_cb (rl_ft l) \<noteq> None then dispatch_cb tid p l w else dispatch_idle tid l w"
  have rest: "?rest = Inr w' \<Longrightarrow> ?thesis"
    using assms(1) by (cases "ft_cb (rl_ft l) = None") (auto intro: dispatch_cb_dispatched dispatch_idle_dispatched)
  show ?thesis
  proof (cases "ft_fibre (rl_ft l)")
    case None
    then show ?thesis using assms(2) rest by (simp add: run_dispatch_def)
  next
    case (Some f)
    then obtain st where "(case if st \<noteq> TERMINATED \<and> st \<noteq> EXCEPT then Some f else None of
        Some f \<Rightarrow> enter_fibre Queued tid f w | None \<Rightarrow> ?rest) = Inr w'"
      using assms(2) by (auto simp: run_dispatch_def res_simps)
    then have "enter_fibre Queued tid f w = Inr w' \<or> ?rest = Inr w'"
      by (cases "st \<noteq> TERMINATED \<and> st \<noteq> EXCEPT") simp_all
    then show ?thesis using rest Some assms(1) by (auto simp: dispatched_def dest!: enter_fibre_sch)
  qed
qed

lemma run_after_sch:
  assumes "loc w tid = Some l" "run_after tid j f w = Inr w'"
  shows "m_activeThreadCount (sch w') = m_activeThreadCount (sch w) \<and> m_idleThreadCount (sch w') = m_idleThreadCount (sch w) \<and>
    (\<exists>l'. loc w' = (loc w)(tid \<mapsto> l') \<and> rl_pc l' = Top) \<and>
    m_fibres (sch w') = m_fibres (sch w) @
      (if j \<noteq> Idling \<and> getState f (fbs w) = Inr READY then [\<lparr>ft_fibre = Some f, ft_cb = None, ft_thread = - 1\<rparr>] else [])"
proof -
  obtain st where st: "getState f (fbs w) = Inr st"
    using assms(2) by (cases j) (auto simp: run_after_def after_fibre_def after_cb_def after_idle_def res_simps)
  show ?thesis
    using assms st
    by (cases j; cases st)
      (auto simp: run_after_def after_fibre_def after_cb_def after_idle_def res_simps Let_def schedule_queue)
qed

section \<open>The counters\<close>

fun busy :: "run_local \<Rightarrow> bool" where
  "busy l = (case rl_pc l of Dispatch \<Rightarrow> rl_active l | Inside j _ \<Rightarrow> j \<noteq> Idling | Leaving j _ _ \<Rightarrow> j \<noteq> Idling
             | Back j _ \<Rightarrow> j \<noteq> Idling | _ \<Rightarrow> False)"

fun in_idle :: "run_local \<Rightarrow> bool" where
  "in_idle l = (case rl_pc l of Inside j _ \<Rightarrow> j = Idling | Leaving j _ _ \<Rightarrow> j = Idling | Back j _ \<Rightarrow> j = Idling | _ \<Rightarrow> False)"

text \<open>The number of threads whose place in \<open>run\<close> has a property.\<close>

definition threads_at :: "(run_local \<Rightarrow> bool) \<Rightarrow> (int \<Rightarrow> run_local option) \<Rightarrow> int set" where
  "threads_at P m = {t. case m t of None \<Rightarrow> False | Some l \<Rightarrow> P l}"

definition counted :: "(run_local \<Rightarrow> bool) \<Rightarrow> (int \<Rightarrow> run_local option) \<Rightarrow> u64" where
  "counted P m = of_nat (card (threads_at P m))"

lemma finite_threads_at: "finite (dom m) \<Longrightarrow> finite (threads_at P m)"
  by (rule finite_subset) (auto simp: threads_at_def split: option.splits)

lemma threads_at_upd: "threads_at P (m(t \<mapsto> l)) = (if P l then insert t (threads_at P m) else threads_at P m - {t})"
  by (auto simp: threads_at_def)

lemma counted_upd:
  assumes "finite (dom m)" "m t = Some l"
  shows "counted P (m(t \<mapsto> l')) = counted P m - of_bool (P l) + of_bool (P l')"
proof -
  have fin: "finite (threads_at P m)" using finite_threads_at [OF assms(1)] .
  have mem: "t \<in> threads_at P m \<longleftrightarrow> P l" using assms(2) by (simp add: threads_at_def)
  show ?thesis
  proof (cases "P l")
    case True
    then obtain n where "card (threads_at P m) = Suc n" using fin mem by (metis card_Suc_Diff1)
    then show ?thesis using True fin mem by (simp add: counted_def threads_at_upd insert_absorb)
  next
    case False
    then show ?thesis using fin mem by (simp add: counted_def threads_at_upd)
  qed
qed

lemma counted_new: "finite (dom m) \<Longrightarrow> m t = None \<Longrightarrow> counted P (m(t \<mapsto> l')) = counted P m + of_bool (P l')"
  using finite_threads_at [of m P] by (auto simp: counted_def threads_at_upd) (auto simp: threads_at_def)

definition sched_inv :: "sys \<Rightarrow> bool" where
  "sched_inv w \<longleftrightarrow> finite (dom (loc w)) \<and>
     m_activeThreadCount (sch w) = counted busy (loc w) \<and>
     m_idleThreadCount (sch w) = counted in_idle (loc w) \<and>
     (\<forall>t l. loc w t = Some l \<longrightarrow> rl_pc l = Dispatch \<longrightarrow> \<not> rl_active l \<longrightarrow> rl_ft l = ft_reset)"

lemma sched_inv_upd:
  assumes "sched_inv w" "loc w tid = Some l" "loc w' = (loc w)(tid \<mapsto> l')"
    and "m_activeThreadCount (sch w') = m_activeThreadCount (sch w) - of_bool (busy l) + of_bool (busy l')"
    and "m_idleThreadCount (sch w') = m_idleThreadCount (sch w) - of_bool (in_idle l) + of_bool (in_idle l')"
    and "rl_pc l' = Dispatch \<Longrightarrow> \<not> rl_active l' \<Longrightarrow> rl_ft l' = ft_reset"
  shows "sched_inv w'"
  using assms(1,3-) counted_upd [of "loc w" tid l _ l'] assms(2)
  by (auto simp: sched_inv_def simp del: busy.simps in_idle.simps)

lemma dispatched_inv:
  assumes "sched_inv w" "loc w tid = Some l" "rl_pc l = Dispatch" "dispatched l w tid w'"
  shows "sched_inv w'"
proof -
  have r: "\<not> rl_active l \<Longrightarrow> rl_ft l = ft_reset" using assms by (auto simp: sched_inv_def)
  from assms(4) obtain l' where l': "loc w' = (loc w)(tid \<mapsto> l')"
    and eff: "(\<exists>j f. rl_pc l' = Inside j f \<and> j \<noteq> Idling \<and> m_activeThreadCount (sch w') = m_activeThreadCount (sch w) \<and>
          m_idleThreadCount (sch w') = m_idleThreadCount (sch w) \<and> (ft_fibre (rl_ft l) \<noteq> None \<or> ft_cb (rl_ft l) \<noteq> None)) \<or>
        (rl_active l \<and> rl_pc l' = Top \<and> m_activeThreadCount (sch w') = m_activeThreadCount (sch w) - 1 \<and>
          m_idleThreadCount (sch w') = m_idleThreadCount (sch w)) \<or>
        (\<not> rl_active l \<and> rl_pc l' = Ended \<and> m_activeThreadCount (sch w') = m_activeThreadCount (sch w) \<and>
          m_idleThreadCount (sch w') = m_idleThreadCount (sch w)) \<or>
        (\<not> rl_active l \<and> (\<exists>f. rl_pc l' = Inside Idling f) \<and> m_activeThreadCount (sch w') = m_activeThreadCount (sch w) \<and>
          m_idleThreadCount (sch w') = m_idleThreadCount (sch w) + 1)"
    unfolding dispatched_def by blast
  show ?thesis
    by (rule sched_inv_upd [OF assms(1,2) l']) (use eff r assms(3) in \<open>auto simp: ft_reset_def\<close>)
qed

lemma mark_inv:
  assumes "sched_inv w" "loc w tid = Some l" "rl_pc l = Inside j f" "run_mark how tid p j w = Inr w'"
  shows "sched_inv w'"
proof -
  from run_mark_sch [OF assms(4)] obtain g k where
    "sch w' = sch w" "loc w' = (loc w)(tid \<mapsto> l\<lparr>rl_pc := Leaving j g k\<rparr>)" using assms(2) by auto
  then show ?thesis by (intro sched_inv_upd [OF assms(1,2)]) (use assms(3) in auto)
qed

lemma sched_step_inv: "sched_step w a w' \<Longrightarrow> sched_inv w \<Longrightarrow> sched_inv w'"
proof (induction rule: sched_step.induct)
  case (enter w tid p q w')
  then show ?case using counted_new [of "loc w" tid] by (auto simp: sched_inv_def dest!: run_enter_sch split: if_splits)
next
  case (submit t w)
  then show ?case by (simp add: sched_inv_def)
next
  case (request_stop w b)
  then show ?case by (simp add: sched_inv_def)
next
  case (pick_one w tid l t w')
  from run_pick_sch [OF pick_one(3)] show ?case
    by (intro sched_inv_upd [OF pick_one(4,1)]) (use pick_one in auto)
next
  case (pick_none w tid l w')
  from run_pick_sch [OF pick_none(3)] show ?case
    by (intro sched_inv_upd [OF pick_none(4,1)]) (use pick_none in auto)
next
  case (dispatch w tid l p w')
  then show ?case using dispatched_inv run_dispatch_dispatched by blast
next
  case (mark w tid l j f how p w')
  then show ?case using mark_inv by blast
next
  case (leaves w tid l j f k w')
  from run_leave_sch [OF leaves(3)] show ?case
    by (intro sched_inv_upd [OF leaves(4,1)]) (use leaves in auto)
next
  case (came_back w tid l j f)
  then show ?case
    by (intro sched_inv_upd [OF came_back(3,1), where l' = "l\<lparr>rl_pc := After j f\<rparr>"]) (auto simp: run_back_def)
next
  case (after_requeue w tid l j f w')
  from run_after_sch [OF after_requeue(1,5)] obtain l' where
    "loc w' = (loc w)(tid \<mapsto> l')" "rl_pc l' = Top" "m_activeThreadCount (sch w') = m_activeThreadCount (sch w)"
    "m_idleThreadCount (sch w') = m_idleThreadCount (sch w)" by auto
  then show ?case by (intro sched_inv_upd [OF after_requeue(6,1)]) (use after_requeue(2) in auto)
next
  case (after w tid l j f w')
  from run_after_sch [OF after(1,4)] obtain l' where
    "loc w' = (loc w)(tid \<mapsto> l')" "rl_pc l' = Top" "m_activeThreadCount (sch w') = m_activeThreadCount (sch w)"
    "m_idleThreadCount (sch w') = m_idleThreadCount (sch w)" by auto
  then show ?case by (intro sched_inv_upd [OF after(5,1)]) (use after(2) in auto)
qed

section \<open>No task is lost or run twice\<close>

fun submitted :: "label list \<Rightarrow> task multiset" where
  "submitted [] = {#}"
| "submitted (Submit t # tr) = {#t#} + submitted tr"
| "submitted (_ # tr) = submitted tr"

fun started :: "label list \<Rightarrow> task multiset" where
  "started [] = {#}"
| "started (Start _ t # tr) = {#t#} + started tr"
| "started (_ # tr) = started tr"

lemma submitted_append: "submitted (tr @ tr') = submitted tr + submitted tr'"
  by (induction tr rule: submitted.induct) auto

lemma started_append: "started (tr @ tr') = started tr + started tr'"
  by (induction tr rule: started.induct) auto

definition allowed :: "label \<Rightarrow> bool" where
  "allowed a = (case a of Start tid t \<Rightarrow> ft_thread t = - 1 \<or> ft_thread t = tid | _ \<Rightarrow> True)"

lemma sched_step_queue:
  "sched_step w a w' \<Longrightarrow>
   mset (m_fibres (sch w)) + submitted [a] = mset (m_fibres (sch w')) + started [a] \<and> allowed a"
proof (induction rule: sched_step.induct)
  case (enter w tid p q w')
  then show ?case by (auto simp: allowed_def dest!: run_enter_sch)
next
  case (submit t w)
  then show ?case by (simp add: allowed_def schedule_queue)
next
  case (request_stop w b)
  then show ?case by (simp add: allowed_def)
next
  case (pick_one w tid l t w')
  from run_pick_sch [OF pick_one(3)] show ?case by (auto simp: allowed_def elsewhere_def)
next
  case (pick_none w tid l w')
  from run_pick_sch [OF pick_none(3)] show ?case by (auto simp: allowed_def)
next
  case (dispatch w tid l p w')
  then show ?case using run_dispatch_dispatched [OF dispatch(1,3)] by (auto simp: allowed_def dispatched_def)
next
  case (mark w tid l j f how p w')
  then show ?case by (auto simp: allowed_def dest!: run_mark_sch)
next
  case (leaves w tid l j f k w')
  then show ?case by (auto simp: allowed_def dest!: run_leave_sch)
next
  case (came_back w tid l j f)
  then show ?case by (simp add: allowed_def run_back_def)
next
  case (after_requeue w tid l j f w')
  from run_after_sch [OF after_requeue(1,5)] after_requeue(3,4) show ?case by (auto simp: allowed_def)
next
  case (after w tid l j f w')
  from run_after_sch [OF after(1,4)] after(3) show ?case by (auto simp: allowed_def)
qed

text \<open>A scheduler that no thread has entered yet.\<close>

definition sched_start :: "sys \<Rightarrow> bool" where
  "sched_start w \<longleftrightarrow> loc w = Map.empty \<and> m_fibres (sch w) = [] \<and> m_activeThreadCount (sch w) = 0 \<and> m_idleThreadCount (sch w) = 0"

lemma sched_start_inv: "sched_start w \<Longrightarrow> sched_inv w"
  by (simp add: sched_start_def sched_inv_def counted_def threads_at_def)

lemma sched_run_facts:
  "sched_run w tr w' \<Longrightarrow> sched_start w \<Longrightarrow>
   sched_inv w' \<and> submitted tr = mset (m_fibres (sch w')) + started tr \<and> list_all allowed tr"
proof (induction rule: sched_run.induct)
  case (run_nil w)
  then show ?case by (simp add: sched_start_inv) (simp add: sched_start_def)
next
  case (run_snoc w tr w'' a w')
  then show ?case
    using sched_step_inv [OF run_snoc(2)] sched_step_queue [OF run_snoc(2)]
    by (auto simp: submitted_append started_append union_assoc)
qed

text \<open>C7: Under every interleaving of any number of threads, each task that was scheduled is either still in
  the queue or has been taken by exactly one thread, and a task bound to a thread is only taken by it.\<close>

theorem no_task_lost:
  assumes "sched_start w" "sched_run w tr w'"
  shows "submitted tr = mset (m_fibres (sch w')) + started tr \<and> list_all allowed tr"
  using sched_run_facts [OF assms(2,1)] by simp

definition quiet :: sys where
  "quiet = \<lparr>sch = \<lparr>m_this = 0, m_name = ''test'', m_fibres = [], m_rootFibre = None, m_threads = [], m_threadIds = [],
              m_threadCount = 2, m_activeThreadCount = 0, m_idleThreadCount = 0, m_stopping = False,
              m_autoStop = False, m_rootThread = - 1, tickles = 0\<rparr>,
     fbs = fibres_init, t_scheduler = (\<lambda>_. None), t_hook_enable = (\<lambda>_. False), loc = Map.empty\<rparr>"

lemma quiet_start: "sched_start quiet"
  by (simp add: sched_start_def quiet_def)

lemma no_task_lost_witness:
  "\<exists>w'. sched_run quiet [Submit \<lparr>ft_fibre = None, ft_cb = Some (Function 5), ft_thread = 3\<rparr>] w' \<and>
     mset (m_fibres (sch w')) = {#\<lparr>ft_fibre = None, ft_cb = Some (Function 5), ft_thread = 3\<rparr>#}"
proof -
  let ?t = "\<lparr>ft_fibre = None, ft_cb = Some (Function 5), ft_thread = 3\<rparr>"
  have r: "sched_run quiet [Submit ?t] (quiet\<lparr>sch := schedule ?t (sch quiet)\<rparr>)"
    using run_snoc [OF run_nil submit, of ?t quiet] by simp
  from no_task_lost [OF quiet_start r] r show ?thesis by (auto intro!: exI)
qed

text \<open>The counter at 0 means that no thread holds a task.\<close>

lemma none_busy:
  assumes "sched_inv w" "m_activeThreadCount (sch w) = 0" "card (dom (loc w)) < 2 ^ 64"
  shows "threads_at busy (loc w) = {}"
proof -
  have fin: "finite (dom (loc w))" and act: "m_activeThreadCount (sch w) = counted busy (loc w)"
    using assms(1) by (simp_all add: sched_inv_def)
  have "threads_at busy (loc w) \<subseteq> dom (loc w)" by (auto simp: threads_at_def split: option.splits)
  then have "card (threads_at busy (loc w)) \<le> card (dom (loc w))" by (rule card_mono [OF fin])
  with assms(3) have "card (threads_at busy (loc w)) < 2 ^ 64" by (rule le_less_trans [rotated])
  then have "card (threads_at busy (loc w)) = 0"
    using assms(2) by (auto simp: act counted_def word_of_nat_eq_0_iff dest: dvd_imp_le)
  then show ?thesis using finite_threads_at [OF fin, of busy] by simp
qed

text \<open>C14: Under every interleaving, the active and idle counters are the numbers of threads that hold a task
  and that are in their idle fibre; so when \<open>stopping\<close> answers yes, no task is queued, no thread holds
  one, and every scheduled task has been taken.\<close>

theorem stopping_means_quiet:
  assumes "sched_start w" "sched_run w tr w'" "card (dom (loc w')) < 2 ^ 64"
  shows "m_activeThreadCount (sch w') = of_nat (card (threads_at busy (loc w'))) \<and>
    m_idleThreadCount (sch w') = of_nat (card (threads_at in_idle (loc w'))) \<and>
    (stopping (sch w') \<longrightarrow> m_fibres (sch w') = [] \<and> threads_at busy (loc w') = {} \<and> submitted tr = started tr)"
proof -
  have inv: "sched_inv w'" and q: "submitted tr = mset (m_fibres (sch w')) + started tr"
    using sched_run_facts [OF assms(2,1)] by simp_all
  have "threads_at busy (loc w') = {}" if "m_activeThreadCount (sch w') = 0" using none_busy [OF inv that assms(3)] .
  then show ?thesis using inv q by (auto simp: sched_inv_def counted_def stopping_def)
qed

lemma stopping_means_quiet_witness:
  "\<exists>w'. sched_run quiet [Silent] w' \<and> stopping (sch w') \<and> threads_at busy (loc w') = {}"
proof -
  let ?w = "quiet\<lparr>sch := (sch quiet)\<lparr>m_autoStop := True, m_stopping := True\<rparr>\<rparr>"
  have r: "sched_run quiet [Silent] ?w" using run_snoc [OF run_nil request_stop, of quiet True] by simp
  have s: "stopping (sch ?w)" by (simp add: stopping_def quiet_def)
  have "card (dom (loc ?w)) < 2 ^ 64" by (simp add: quiet_def)
  from stopping_means_quiet [OF quiet_start r this] r s show ?thesis by blast
qed

section \<open>Two threads in one fibre\<close>

text \<open>A yield writes \<open>HOLD\<close> or \<open>READY\<close> before the context is saved.  If the fibre is scheduled again in
  between, another thread sees a fibre that is not executing, and loads a context that was never
  saved while the first thread still runs on the same stack.\<close>

definition racing :: sys where
  "racing = quiet\<lparr>sch := (sch quiet)\<lparr>m_activeThreadCount := 1\<rparr>, fbs := \<lparr>
     fb_heap = [0 \<mapsto> \<lparr>f_id = 0, f_stacksize = 0, f_state = EXEC, f_ctx = Suspended, f_stack = False, f_cb = None\<rparr>,
       1 \<mapsto> \<lparr>f_id = 0, f_stacksize = 0, f_state = EXEC, f_ctx = Running, f_stack = False, f_cb = None\<rparr>,
       2 \<mapsto> \<lparr>f_id = 1, f_stacksize = 0, f_state = EXEC, f_ctx = Running, f_stack = True, f_cb = Some (Function 7)\<rparr>],
     s_fibre_id = 1, s_fibre_count = 3, t_fibre = [10 \<mapsto> 2, 11 \<mapsto> 1], t_threadFibre = [10 \<mapsto> 0, 11 \<mapsto> 1],
     t_scheduler_fibre = [10 \<mapsto> 0, 11 \<mapsto> 1]\<rparr>,
   loc := [10 \<mapsto> \<lparr>rl_pc = Inside Queued 2, rl_ft = ft_reset, rl_active = True, rl_cb = None, rl_idle = 5\<rparr>,
           11 \<mapsto> \<lparr>rl_pc = Top, rl_ft = ft_reset, rl_active = False, rl_cb = None, rl_idle = 6\<rparr>]\<rparr>"

lemma fibre_in_two_threads:
  "sched_inv racing \<and> (\<exists>tr w'. sched_run racing tr w' \<and> map_option rl_pc (loc w' 10) = Some (Leaving Queued 2 Suspended) \<and>
     map_option rl_pc (loc w' 11) = Some (Inside Queued 2))"
proof -
  have "threads_at busy (loc racing) = {10}" "threads_at in_idle (loc racing) = {}"
    by (auto simp: threads_at_def racing_def split: option.splits if_splits)
  then have inv: "sched_inv racing" by (auto simp: sched_inv_def counted_def) (auto simp: racing_def quiet_def split: if_splits)
  let ?t = "\<lparr>ft_fibre = Some 2, ft_cb = None, ft_thread = - 1\<rparr>"
  obtain w1 where w1: "run_mark To_Hold 10 9 Queued racing = Inr w1" "sch w1 = sch racing"
    "loc w1 = (loc racing)(10 \<mapsto> (the (loc racing 10))\<lparr>rl_pc := Leaving Queued 2 Suspended\<rparr>)"
    "fbs w1 = fib_upd 2 (\<lambda>b. b\<lparr>f_state := HOLD\<rparr>) (fbs racing)"
    by (simp add: run_mark_def fibre_mark_def yield_mark_def GetThis_def getState_def setState_def fib_at_def racing_def)
  have s1: "sched_step racing Silent w1"
    by (rule mark [OF _ _ _ w1(1), where f = 2], simp add: racing_def) simp_all
  define w2 where "w2 = w1\<lparr>sch := schedule ?t (sch w1)\<rparr>"
  have s2: "sched_step w1 (Submit ?t) w2" unfolding w2_def by (rule submit) simp
  have q2: "m_fibres (sch w2) = [?t]" by (simp add: w2_def schedule_queue w1 racing_def quiet_def)
  have f2: "getState 2 (fbs w2) = Inr HOLD" by (simp add: w2_def w1 getState_def fib_at_def racing_def)
  obtain w3 where w3: "run_pick 11 w2 = Inr (Some ?t, w3)" "fbs w3 = fbs w2"
    "loc w3 = (loc w2)(11 \<mapsto> (the (loc w2 11))\<lparr>rl_pc := Dispatch, rl_ft := ?t, rl_active := True\<rparr>)"
    by (simp add: run_pick_def q2 f2 Let_def) (simp add: w2_def w1 racing_def)
  have s3: "sched_step w2 (Start 11 ?t) w3"
    by (rule pick_one [OF _ _ w3(1)], simp add: w2_def w1 racing_def) simp
  let ?l = "(the (loc w2 11))\<lparr>rl_pc := Dispatch, rl_ft := ?t, rl_active := True\<rparr>"
  have "fb_heap (fbs w3) 2 = Some \<lparr>f_id = 1, f_stacksize = 0, f_state = HOLD, f_ctx = Running, f_stack = True, f_cb = Some (Function 7)\<rparr>"
    "fb_heap (fbs w3) 1 = Some \<lparr>f_id = 0, f_stacksize = 0, f_state = EXEC, f_ctx = Running, f_stack = False, f_cb = None\<rparr>"
    "t_scheduler_fibre (fbs w3) 11 = Some 1"
    by (simp_all add: w3 w2_def w1 racing_def)
  then obtain fs where sw: "swapIn 11 2 (fbs w3) = Inr (Running, fs)" using swapIn_ok [of "fbs w3" 2 _ 11 1] by fastforce
  obtain w4 where w4: "run_dispatch 11 9 ?l w3 = Inr w4" "loc w4 = (loc w3)(11 \<mapsto> ?l\<lparr>rl_pc := Inside Queued 2\<rparr>)"
    by (simp add: run_dispatch_def w3(2,3) f2 enter_fibre_def sw [unfolded w3(2)])
  have s4: "sched_step w3 Silent w4"
    by (rule dispatch [OF _ _ w4(1)]) (simp_all add: w3)
  have "sched_run racing [Silent, Submit ?t, Start 11 ?t, Silent] w4"
    using run_snoc [OF run_snoc [OF run_snoc [OF run_snoc [OF run_nil s1] s2] s3] s4] by simp
  moreover have "map_option rl_pc (loc w4 10) = Some (Leaving Queued 2 Suspended)" "map_option rl_pc (loc w4 11) = Some (Inside Queued 2)"
    by (simp_all add: w4 w3 w2_def w1)
  ultimately show ?thesis using inv by blast
qed

end
