(* ===== verification/IOManager.thy ===== *)
theory IOManager
  imports Scheduler Timer FdManager
begin

text \<open>
  The epoll-based scheduler (\<open>src/concurrency/iomanager.cc\<close>, \<open>include/concurrency/iomanager.h\<close>).
  Every operation on a descriptor runs under the lock of its context, so it is one step.  The kernel's
  side of epoll is a function on an abstract world; an epoll event carries the descriptor of the
  context it points to.  \<open>Scheduler::GetThis()\<close> and \<open>Fibre::GetThis()\<close> of the calling thread are
  arguments.
\<close>

section \<open>State\<close>

definition NONE :: u32 where "NONE = 0"
definition READ :: u32 where "READ = 1"
definition WRITE :: u32 where "WRITE = 4"

definition EPOLLIN :: u32 where "EPOLLIN = 1"
definition EPOLLOUT :: u32 where "EPOLLOUT = 4"
definition EPOLLERR :: u32 where "EPOLLERR = 8"
definition EPOLLHUP :: u32 where "EPOLLHUP = 16"
definition EPOLLET :: u32 where "EPOLLET = 2147483648"

datatype ctl_op = EPOLL_CTL_ADD | EPOLL_CTL_MOD | EPOLL_CTL_DEL

record event_context =
  e_scheduler :: "nat option"
  e_fibre :: "nat option"
  e_cb :: "callback option"

record fd_context =
  c_read :: event_context
  c_write :: event_context
  c_fd :: int
  c_events :: u32

text \<open>\<open>epoll_ctl\<close> of the system: the return value and the new world.\<close>

type_synonym 'w epoll = "'w \<Rightarrow> ctl_op \<Rightarrow> int \<Rightarrow> u32 \<Rightarrow> int \<times> 'w"

text \<open>\<open>io_pipe\<close> counts the bytes in the tickle pipe; a task for another scheduler goes to \<open>io_foreign\<close>.\<close>

record 'w iomanager =
  io_sched :: sched
  io_timers :: timer_manager
  m_fdContexts :: "fd_context list"
  m_pendingEventCount :: u64
  io_pipe :: nat
  io_foreign :: "(nat \<times> task) list"
  io_world :: 'w

section \<open>Contexts of events\<close>

definition empty_event :: event_context where
  "empty_event = \<lparr>e_scheduler = None, e_fibre = None, e_cb = None\<rparr>"

definition new_context :: "nat \<Rightarrow> fd_context" where
  "new_context i = \<lparr>c_read = empty_event, c_write = empty_event, c_fd = int i, c_events = NONE\<rparr>"

definition getContext :: "u32 \<Rightarrow> fd_context \<Rightarrow> event_context res" where
  "getContext event c =
     (if event = READ then Inr (c_read c) else if event = WRITE then Inr (c_write c) else Inl Assert_Fail)"

definition putContext :: "u32 \<Rightarrow> event_context \<Rightarrow> fd_context \<Rightarrow> fd_context" where
  "putContext event x c = (if event = READ then c\<lparr>c_read := x\<rparr> else c\<lparr>c_write := x\<rparr>)"

definition resetContext :: "event_context \<Rightarrow> event_context" where
  "resetContext x = x\<lparr>e_scheduler := None, e_fibre := None, e_cb := None\<rparr>"

text \<open>The context afterwards, and the task with the scheduler it is given to.  Passing the address of
  the callback or of the fibre moves it out of the context.\<close>

definition triggerEvent :: "u32 \<Rightarrow> fd_context \<Rightarrow> (fd_context \<times> nat \<times> task) res" where
  "triggerEvent event c =
     cpp_assert (c_events c AND event \<noteq> 0)
       (let c = c\<lparr>c_events := c_events c AND NOT event\<rparr>
        in rbind (getContext event c) (\<lambda>x.
           rbind (ptr (e_scheduler x)) (\<lambda>s.
             if e_cb x \<noteq> None
             then Inr (putContext event (x\<lparr>e_cb := None, e_scheduler := None\<rparr>) c,
                       s, \<lparr>ft_fibre = None, ft_cb = e_cb x, ft_thread = - 1\<rparr>)
             else Inr (putContext event (x\<lparr>e_fibre := None, e_scheduler := None\<rparr>) c,
                       s, \<lparr>ft_fibre = e_fibre x, ft_cb = None, ft_thread = - 1\<rparr>))))"

section \<open>Notification\<close>

text \<open>\<open>tickle\<close>: a byte into the pipe when some thread is idle; the write has to succeed.\<close>

definition tickle_io :: "bool \<Rightarrow> 'w iomanager \<Rightarrow> 'w iomanager res" where
  "tickle_io write_ok io =
     (if \<not> hasIdleThreads (io_sched io) then Inr io
      else cpp_assert write_ok (Inr (io\<lparr>io_pipe := io_pipe io + 1\<rparr>)))"

definition onTimerInsertAtFront :: "bool \<Rightarrow> 'w iomanager \<Rightarrow> 'w iomanager res" where
  "onTimerInsertAtFront write_ok io = tickle_io write_ok io"

text \<open>\<open>scheduler->schedule(..)\<close> of a task: for this scheduler with its own \<open>tickle\<close>, which writes to the
  pipe when a thread is idle.\<close>

definition own_schedule :: "task \<Rightarrow> 'w iomanager \<Rightarrow> 'w iomanager" where
  "own_schedule t io =
     (let (need_tickle, s) = scheduleNoLock t (io_sched io)
      in io\<lparr>io_sched := (if need_tickle then tickle s else s),
            io_pipe := (if need_tickle \<and> hasIdleThreads s then io_pipe io + 1 else io_pipe io)\<rparr>)"

definition deliver :: "nat \<Rightarrow> task \<Rightarrow> 'w iomanager \<Rightarrow> 'w iomanager" where
  "deliver s t io =
     (if s = m_this (io_sched io) then own_schedule t io
      else io\<lparr>io_foreign := io_foreign io @ [(s, t)]\<rparr>)"

section \<open>The table of contexts\<close>

definition contextResize :: "nat \<Rightarrow> fd_context list \<Rightarrow> fd_context list" where
  "contextResize sz cs = take sz cs @ map new_context [length cs..<sz]"

definition put_ctx :: "nat \<Rightarrow> fd_context \<Rightarrow> 'w iomanager \<Rightarrow> 'w iomanager" where
  "put_ctx i c io = io\<lparr>m_fdContexts := (m_fdContexts io)[i := c]\<rparr>"

text \<open>The assertion at the end of \<open>addEvent\<close> on the state of the calling fibre.\<close>

definition register :: "nat option \<Rightarrow> nat \<Rightarrow> fstate \<Rightarrow> u32 \<Rightarrow> callback option \<Rightarrow> fd_context \<Rightarrow> fd_context res" where
  "register sched_this fibre_this fibre_state event cb c =
     (let c = c\<lparr>c_events := c_events c OR event\<rparr>
      in rbind (getContext event c) (\<lambda>x.
         cpp_assert (e_scheduler x = None \<and> e_fibre x = None \<and> e_cb x = None)
           (if cb \<noteq> None then Inr (putContext event (x\<lparr>e_scheduler := sched_this, e_cb := cb\<rparr>) c)
            else cpp_assert (fibre_state = EXEC)
                   (Inr (putContext event (x\<lparr>e_scheduler := sched_this, e_fibre := Some fibre_this\<rparr>) c)))))"

definition addEvent_at ::
  "'w epoll \<Rightarrow> nat option \<Rightarrow> nat \<Rightarrow> fstate \<Rightarrow> int \<Rightarrow> u32 \<Rightarrow> callback option \<Rightarrow> 'w iomanager \<Rightarrow> (int \<times> 'w iomanager) res" where
  "addEvent_at ep sched_this fibre_this fibre_state fd event cb io =
     (if nat fd < length (m_fdContexts io) then
        let c = m_fdContexts io ! nat fd
        in cpp_assert (c_events c AND event = 0)
             (let op = (if c_events c \<noteq> 0 then EPOLL_CTL_MOD else EPOLL_CTL_ADD);
                  (rt, w) = ep (io_world io) op fd (EPOLLET OR c_events c OR event)
              in if rt \<noteq> 0 then Inr (- 1, io\<lparr>io_world := w\<rparr>)
                 else
                   let io = io\<lparr>io_world := w, m_pendingEventCount := m_pendingEventCount io + 1\<rparr>
                   in rbind (register sched_this fibre_this fibre_state event cb c) (\<lambda>c.
                        Inr (0, put_ctx (nat fd) c io)))
      else Inl Bad_Access)"

definition addEvent ::
  "'w epoll \<Rightarrow> nat option \<Rightarrow> nat \<Rightarrow> fstate \<Rightarrow> int \<Rightarrow> u32 \<Rightarrow> callback option \<Rightarrow> 'w iomanager \<Rightarrow> (int \<times> 'w iomanager) res" where
  "addEvent ep sched_this fibre_this fibre_state fd event cb io =
     (if int (length (m_fdContexts io)) > fd then
        (if fd < 0 then Inl Bad_Access else addEvent_at ep sched_this fibre_this fibre_state fd event cb io)
      else addEvent_at ep sched_this fibre_this fibre_state fd event cb
             (io\<lparr>m_fdContexts := contextResize (grown fd) (m_fdContexts io)\<rparr>))"

section \<open>Removing events\<close>

text \<open>The test that the three operations share: the context of a descriptor in the table.\<close>

definition with_ctx :: "int \<Rightarrow> 'w iomanager \<Rightarrow> (fd_context \<Rightarrow> (bool \<times> 'w iomanager) res) \<Rightarrow> (bool \<times> 'w iomanager) res" where
  "with_ctx fd io k =
     (if int (length (m_fdContexts io)) \<le> fd then Inr (False, io)
      else if fd < 0 then Inl Bad_Access
      else k (m_fdContexts io ! nat fd))"

definition delEvent :: "'w epoll \<Rightarrow> int \<Rightarrow> u32 \<Rightarrow> 'w iomanager \<Rightarrow> (bool \<times> 'w iomanager) res" where
  "delEvent ep fd event io =
     with_ctx fd io (\<lambda>c.
       if c_events c AND event = 0 then Inr (False, io)
       else
         let new_events = c_events c AND NOT event;
             op = (if new_events \<noteq> 0 then EPOLL_CTL_MOD else EPOLL_CTL_DEL);
             (rt, w) = ep (io_world io) op fd (EPOLLET OR new_events)
         in if rt \<noteq> 0 then Inr (False, io\<lparr>io_world := w\<rparr>)
            else rbind (getContext event c) (\<lambda>x.
              Inr (True, put_ctx (nat fd) (putContext event (resetContext x) (c\<lparr>c_events := new_events\<rparr>))
                (io\<lparr>io_world := w, m_pendingEventCount := m_pendingEventCount io - 1\<rparr>))))"

text \<open>\<open>triggerEvent\<close> on the context of a descriptor, with the decrement that follows it.\<close>

definition trigger_at :: "nat \<Rightarrow> u32 \<Rightarrow> 'w iomanager \<Rightarrow> 'w iomanager res" where
  "trigger_at i event io =
     rbind (triggerEvent event (m_fdContexts io ! i)) (\<lambda>(c, s, t).
       Inr ((deliver s t (put_ctx i c io))\<lparr>m_pendingEventCount := m_pendingEventCount io - 1\<rparr>))"

definition cancelEvent :: "'w epoll \<Rightarrow> int \<Rightarrow> u32 \<Rightarrow> 'w iomanager \<Rightarrow> (bool \<times> 'w iomanager) res" where
  "cancelEvent ep fd event io =
     with_ctx fd io (\<lambda>c.
       if c_events c AND event = 0 then Inr (False, io)
       else
         let new_events = c_events c AND NOT event;
             op = (if new_events \<noteq> 0 then EPOLL_CTL_MOD else EPOLL_CTL_DEL);
             (rt, w) = ep (io_world io) op fd (EPOLLET OR new_events)
         in if rt \<noteq> 0 then Inr (False, io\<lparr>io_world := w\<rparr>)
            else rbind (trigger_at (nat fd) event (io\<lparr>io_world := w\<rparr>)) (\<lambda>io. Inr (True, io)))"

definition trigger_if :: "bool \<Rightarrow> nat \<Rightarrow> u32 \<Rightarrow> 'w iomanager \<Rightarrow> 'w iomanager res" where
  "trigger_if b i event io = (if b then trigger_at i event io else Inr io)"

definition cancelAll :: "'w epoll \<Rightarrow> int \<Rightarrow> 'w iomanager \<Rightarrow> (bool \<times> 'w iomanager) res" where
  "cancelAll ep fd io =
     with_ctx fd io (\<lambda>c.
       if c_events c = 0 then Inr (False, io)
       else
         let (rt, w) = ep (io_world io) EPOLL_CTL_DEL fd 0
         in if rt \<noteq> 0 then Inr (False, io\<lparr>io_world := w\<rparr>)
            else
              rbind (trigger_if (c_events c AND READ \<noteq> 0) (nat fd) READ (io\<lparr>io_world := w\<rparr>)) (\<lambda>io.
              rbind (trigger_if (c_events (m_fdContexts io ! nat fd) AND WRITE \<noteq> 0) (nat fd) WRITE io) (\<lambda>io.
                cpp_assert (c_events (m_fdContexts io ! nat fd) = 0) (Inr (True, io)))))"

section \<open>Construction\<close>

definition IOManager_new :: "sched \<Rightarrow> timer_manager \<Rightarrow> 'w \<Rightarrow> 'w iomanager" where
  "IOManager_new s tm w =
     \<lparr>io_sched = s, io_timers = tm, m_fdContexts = contextResize 32 [], m_pendingEventCount = 0,
      io_pipe = 0, io_foreign = [], io_world = w\<rparr>"

section \<open>The idle loop\<close>

text \<open>\<open>stopping\<close> also returns the time to the next timer.\<close>

definition stopping_io :: "u64 \<Rightarrow> 'w iomanager \<Rightarrow> bool \<times> u64 \<times> 'w iomanager" where
  "stopping_io now io =
     (let (timeout, tm) = getNextTimer now (io_timers io)
      in (timeout = - 1 \<and> m_pendingEventCount io = 0 \<and> Scheduler.stopping (io_sched io), timeout, io\<lparr>io_timers := tm\<rparr>))"

text \<open>What \<open>epoll_wait\<close> is given: the casts to \<open>int\<close> keep the low 32 bits, with a sign.\<close>

definition MAX_TIMEOUT :: int where "MAX_TIMEOUT = 3000"

definition clamp_timeout :: "u64 \<Rightarrow> u64" where
  "clamp_timeout next_timeout =
     (if next_timeout \<noteq> - 1
      then (if sint (ucast next_timeout :: u32) > MAX_TIMEOUT then of_int MAX_TIMEOUT else next_timeout)
      else of_int MAX_TIMEOUT)"

definition wait_timeout :: "u64 \<Rightarrow> int" where
  "wait_timeout next_timeout = sint (ucast (clamp_timeout next_timeout) :: u32)"

text \<open>The results of \<open>epoll_wait\<close>: interrupted, failed otherwise, or a list of events.  An interrupted
  wait is repeated.\<close>

datatype ready = Tickle_Pipe | Ready nat u32

datatype wait_result = Interrupted | Failed | Events "ready list"

fun wait_loop :: "wait_result list \<Rightarrow> (ready list \<times> wait_result list) option" where
  "wait_loop [] = None"
| "wait_loop (Interrupted # rs) = wait_loop rs"
| "wait_loop (Failed # rs) = Some ([], rs)"
| "wait_loop (Events es # rs) = Some (es, rs)"

text \<open>One event of the result: readiness of a descriptor is matched with the events of its context.\<close>

definition real_events_of :: "u32 \<Rightarrow> u32 \<Rightarrow> u32" where
  "real_events_of ev registered =
     (let ev = (if ev AND (EPOLLERR OR EPOLLHUP) \<noteq> 0 then ev OR ((EPOLLIN OR EPOLLOUT) AND registered) else ev);
          r = (if ev AND EPOLLIN \<noteq> 0 then READ else NONE)
      in if ev AND EPOLLOUT \<noteq> 0 then r OR WRITE else r)"

definition handle_ready :: "'w epoll \<Rightarrow> ready \<Rightarrow> 'w iomanager \<Rightarrow> 'w iomanager res" where
  "handle_ready ep e io =
     (case e of
        Tickle_Pipe \<Rightarrow> Inr (io\<lparr>io_pipe := 0\<rparr>)
      | Ready i ev \<Rightarrow>
          if i < length (m_fdContexts io) then
            let c = m_fdContexts io ! i;
                real_events = real_events_of ev (c_events c)
            in if c_events c AND real_events = NONE then Inr io
               else
                 let left_events = c_events c AND NOT real_events;
                     op = (if left_events \<noteq> 0 then EPOLL_CTL_MOD else EPOLL_CTL_DEL);
                     (rt2, w) = ep (io_world io) op (c_fd c) (EPOLLET OR left_events);
                     io = io\<lparr>io_world := w\<rparr>
                 in if rt2 \<noteq> 0 then Inr io
                    else rbind (trigger_if (real_events AND READ \<noteq> 0) i READ io) (\<lambda>io.
                           trigger_if (real_events AND WRITE \<noteq> 0) i WRITE io)
          else Inl Bad_Access)"

fun handle_all :: "'w epoll \<Rightarrow> ready list \<Rightarrow> 'w iomanager \<Rightarrow> 'w iomanager res" where
  "handle_all ep [] io = Inr io"
| "handle_all ep (e # es) io = rbind (handle_ready ep e io) (\<lambda>io. handle_all ep es io)"

text \<open>One turn of \<open>idle\<close> up to its \<open>swapOut\<close>: the result is false when the loop is left.  Both clock readings and the
  address of the temporary timer are arguments.\<close>

definition own_schedule_range :: "callback option list \<Rightarrow> 'w iomanager \<Rightarrow> 'w iomanager" where
  "own_schedule_range cbs io =
     (let (need_tickle, s) = schedule_loop cbs False (io_sched io)
      in io\<lparr>io_sched := (if need_tickle then tickle s else s),
            io_pipe := (if need_tickle \<and> hasIdleThreads s then io_pipe io + 1 else io_pipe io)\<rparr>)"

definition idle_turn_io ::
  "'w epoll \<Rightarrow> u64 \<Rightarrow> u64 \<Rightarrow> nat \<Rightarrow> ready list \<Rightarrow> 'w iomanager \<Rightarrow> (bool \<times> 'w iomanager) res" where
  "idle_turn_io ep now now' q es io =
     (let (stop, next_timeout, io) = stopping_io now io
      in if stop then Inr (False, io)
         else
           let (cbs, tm) = listExpiredCb now' q (io_timers io);
               io = io\<lparr>io_timers := tm\<rparr>;
               io = (if cbs \<noteq> [] then own_schedule_range cbs io else io)
           in rbind (handle_all ep es io) (\<lambda>io. Inr (True, io)))"

section \<open>Destruction, printing\<close>

text \<open>\<open>stop_f\<close> is \<open>Scheduler::stop\<close> on this object, \<open>close_fd\<close> the system's \<open>close\<close>; then the contexts are deleted.\<close>

definition IOManager_delete ::
  "('w iomanager \<Rightarrow> 'w iomanager res) \<Rightarrow> (int \<Rightarrow> 'w \<Rightarrow> 'w) \<Rightarrow> int \<Rightarrow> int \<Rightarrow> int \<Rightarrow> 'w iomanager \<Rightarrow> 'w iomanager res" where
  "IOManager_delete stop_f close_fd epfd tickle_read tickle_write io =
     rbind (stop_f io) (\<lambda>io.
       Inr (io\<lparr>io_world := close_fd tickle_write (close_fd tickle_read (close_fd epfd (io_world io))), m_fdContexts := []\<rparr>))"

text \<open>\<open>dynamic_cast\<close> of the thread's scheduler: \<open>is_iom\<close> tells which schedulers are of this class.\<close>

definition IOManager_GetThis :: "(nat \<Rightarrow> bool) \<Rightarrow> int \<Rightarrow> sys \<Rightarrow> nat option" where
  "IOManager_GetThis is_iom tid w =
     (case Scheduler_GetThis tid w of None \<Rightarrow> None | Some s \<Rightarrow> if is_iom s then Some s else None)"

definition show_ctl_op :: "(int \<Rightarrow> string) \<Rightarrow> int \<Rightarrow> string" where
  "show_ctl_op inum op =
     (if op = 1 then ''EPOLL_CTL_ADD'' else if op = 3 then ''EPOLL_CTL_MOD'' else if op = 2 then ''EPOLL_CTL_DEL'' else inum op)"

definition epoll_names :: "(u32 \<times> string) list" where
  "epoll_names =
     [(EPOLLIN, ''EPOLLIN''), (2, ''EPOLLPRI''), (EPOLLOUT, ''EPOLLOUT''), (64, ''EPOLLRDNORM''), (256, ''EPOLLWRNORM''),
      (512, ''EPOLLWRBAND''), (128, ''EPOLLRDBAND''), (1024, ''EPOLLMSG''), (EPOLLERR, ''EPOLLERR''), (EPOLLHUP, ''EPOLLHUP''),
      (8192, ''EPOLLRDHUP''), (1073741824, ''EPOLLONESHOT''), (EPOLLET, ''EPOLLET'')]"

fun show_flags :: "u32 \<Rightarrow> bool \<Rightarrow> string \<Rightarrow> (u32 \<times> string) list \<Rightarrow> string" where
  "show_flags events first os [] = os"
| "show_flags events first os ((e, name) # es) =
     (if events AND e \<noteq> 0 then show_flags events False ((if \<not> first then os @ ''|'' else os) @ name) es
      else show_flags events first os es)"

definition show_events :: "string \<Rightarrow> u32 \<Rightarrow> string" where
  "show_events os events = (if events = 0 then os @ ''0'' else show_flags events True os epoll_names)"

text \<open>The names of the bits that are set, with a bar between them.\<close>

lemma show_flags_more:
  "show_flags events False os es = os @ concat (map (\<lambda>(e, name). CHR ''|'' # name) (filter (\<lambda>(e, name). events AND e \<noteq> 0) es))"
  by (induction es arbitrary: os) auto

lemma show_flags_exact:
  "show_flags events True os es = os @
     (case filter (\<lambda>(e, name). events AND e \<noteq> 0) es of [] \<Rightarrow> []
      | (e, name) # fs \<Rightarrow> name @ concat (map (\<lambda>(e, name). CHR ''|'' # name) fs))"
  by (induction es arbitrary: os) (auto simp: show_flags_more)

end
