(* ===== verification/IOManager_Props.thy ===== *)
theory IOManager_Props
  imports IOManager "HOL-Library.Multiset"
begin

text \<open>
  The invariants of the event tables: every context is consistent, the pending counter counts the
  waiters, the kernel watches exactly what the table says, and no waiter is lost: it stays in the
  table, is dropped on demand, or is handed to its scheduler exactly once.
\<close>

section \<open>Event masks\<close>

definition evs_ok :: "u32 \<Rightarrow> bool" where
  "evs_ok e \<longleftrightarrow> e AND NOT (READ OR WRITE) = 0"

lemma ev_distinct [simp]: "READ \<noteq> 0" "WRITE \<noteq> 0" "READ \<noteq> WRITE" "WRITE \<noteq> READ"
  by (simp_all add: READ_def WRITE_def)

lemma bit_READ [simp]: "bit READ n \<longleftrightarrow> n = 0"
  by (simp add: READ_def bit_1_iff)

lemma bit_WRITE [simp]: "bit WRITE n \<longleftrightarrow> n = 2"
proof -
  have "WRITE = 2 ^ 2" by (simp add: WRITE_def)
  then show ?thesis by (simp only: bit_exp_iff \<open>WRITE = 2 ^ 2\<close>) auto
qed

lemma ev_bits [simp]:
  "(e AND NOT READ) AND READ = 0" "(e AND NOT READ) AND WRITE = e AND WRITE"
  "(e AND NOT WRITE) AND WRITE = 0" "(e AND NOT WRITE) AND READ = e AND READ"
  "(e OR READ) AND READ = READ" "(e OR WRITE) AND WRITE = WRITE"
  "(e OR READ) AND WRITE = e AND WRITE" "(e OR WRITE) AND READ = e AND READ"
  by (rule bit_word_eqI; auto simp: bit_and_iff bit_or_iff bit_not_iff)+

lemma evs_ok_bits: "evs_ok e \<longleftrightarrow> (\<forall>n. bit e n \<longrightarrow> n = 0 \<or> n = 2)"
proof
  assume "evs_ok e"
  then have "\<not> bit (e AND NOT (READ OR WRITE)) n" for n by (simp only: evs_ok_def bit_0_eq bot_fun_def bot_bool_def not_False_eq_True)
  then show "\<forall>n. bit e n \<longrightarrow> n = 0 \<or> n = 2"
    using bit_imp_le_length [of e] by (fastforce simp: bit_and_iff bit_not_iff bit_or_iff)
next
  assume "\<forall>n. bit e n \<longrightarrow> n = 0 \<or> n = 2"
  then show "evs_ok e" unfolding evs_ok_def by (intro bit_word_eqI) (auto simp: bit_and_iff bit_not_iff bit_or_iff)
qed

lemma evs_ok_cases: "evs_ok e \<Longrightarrow> e = (e AND READ) OR (e AND WRITE)"
  by (rule bit_word_eqI) (auto simp: evs_ok_bits bit_and_iff bit_or_iff)

lemma and_READ_zero: "e AND READ = 0 \<longleftrightarrow> \<not> bit e 0"
proof
  assume "e AND READ = 0"
  then have "\<not> bit (e AND READ) 0" by (simp only: bit_0_eq bot_fun_def bot_bool_def not_False_eq_True)
  then show "\<not> bit e 0" by (simp add: bit_and_iff del: bit_0)
next
  assume "\<not> bit e 0"
  then show "e AND READ = 0" by (intro bit_word_eqI) (auto simp: bit_and_iff simp del: bit_0 intro!: gr0I)
qed

lemma and_WRITE_zero: "e AND WRITE = 0 \<longleftrightarrow> \<not> bit e 2"
proof
  assume "e AND WRITE = 0"
  then have "\<not> bit (e AND WRITE) 2" by (simp only: bit_0_eq bot_fun_def bot_bool_def not_False_eq_True)
  then show "\<not> bit e 2" by (simp add: bit_and_iff)
next
  assume "\<not> bit e 2"
  then show "e AND WRITE = 0" by (intro bit_word_eqI) (auto simp: bit_and_iff)
qed

lemma clear_present: "evs_ok e \<Longrightarrow>
    e AND NOT ((if e AND READ \<noteq> 0 then READ else 0) OR (if e AND WRITE \<noteq> 0 then WRITE else 0)) = 0"
  by (rule bit_word_eqI) (auto simp: evs_ok_bits bit_and_iff bit_or_iff bit_not_iff and_READ_zero and_WRITE_zero simp del: bit_0)

lemma evs_ok_zero: "evs_ok e \<Longrightarrow> e = 0 \<longleftrightarrow> e AND READ = 0 \<and> e AND WRITE = 0"
  using evs_ok_cases [of e] by auto

lemma evs_ok_ops [simp]: "evs_ok e \<Longrightarrow> evs_ok (e AND NOT x)" "evs_ok e \<Longrightarrow> evs_ok (e OR READ)" "evs_ok e \<Longrightarrow> evs_ok (e OR WRITE)"
    "evs_ok 0"
  by (auto simp: evs_ok_bits bit_and_iff bit_or_iff)

section \<open>One context\<close>

definition ev_ok :: "bool \<Rightarrow> event_context \<Rightarrow> bool" where
  "ev_ok b x \<longleftrightarrow>
     (if b then e_scheduler x \<noteq> None \<and> ((e_cb x = None) \<noteq> (e_fibre x = None)) else x = empty_event)"

definition ctx_inv :: "nat \<Rightarrow> fd_context \<Rightarrow> bool" where
  "ctx_inv i c \<longleftrightarrow> c_fd c = int i \<and> evs_ok (c_events c) \<and>
     ev_ok (c_events c AND READ \<noteq> 0) (c_read c) \<and> ev_ok (c_events c AND WRITE \<noteq> 0) (c_write c)"

text \<open>A waiter: a task and the scheduler it belongs to.\<close>

definition waiter :: "event_context \<Rightarrow> nat \<times> task" where
  "waiter x = (the (e_scheduler x),
     if e_cb x \<noteq> None then \<lparr>ft_fibre = None, ft_cb = e_cb x, ft_thread = - 1\<rparr>
     else \<lparr>ft_fibre = e_fibre x, ft_cb = None, ft_thread = - 1\<rparr>)"

definition ctx_waiters :: "fd_context \<Rightarrow> (nat \<times> task) list" where
  "ctx_waiters c = (if c_events c AND READ \<noteq> 0 then [waiter (c_read c)] else []) @
                   (if c_events c AND WRITE \<noteq> 0 then [waiter (c_write c)] else [])"

definition is_event :: "u32 \<Rightarrow> bool" where
  "is_event event \<longleftrightarrow> event = READ \<or> event = WRITE"

definition event_ctx :: "u32 \<Rightarrow> fd_context \<Rightarrow> event_context" where
  "event_ctx event c = (if event = READ then c_read c else c_write c)"

lemmas event_defs = READ_def WRITE_def NONE_def is_event_def

lemma is_eventE: "is_event e \<Longrightarrow> (e = READ \<Longrightarrow> P) \<Longrightarrow> (e = WRITE \<Longrightarrow> P) \<Longrightarrow> P"
  by (auto simp: is_event_def)

text \<open>The context without one of its events.\<close>

definition cleared :: "u32 \<Rightarrow> fd_context \<Rightarrow> fd_context" where
  "cleared event c = putContext event empty_event (c\<lparr>c_events := c_events c AND NOT event\<rparr>)"

lemma cleared_events [simp]: "c_events (cleared event c) = c_events c AND NOT event" "c_fd (cleared event c) = c_fd c"
  by (simp_all add: cleared_def putContext_def)

lemma cleared_inv: "ctx_inv i c \<Longrightarrow> is_event event \<Longrightarrow> ctx_inv i (cleared event c)"
  by (elim is_eventE) (simp_all add: ctx_inv_def cleared_def putContext_def ev_ok_def)

lemma cleared_waiters:
  "is_event event \<Longrightarrow> c_events c AND event \<noteq> 0 \<Longrightarrow>
   mset (ctx_waiters c) = mset (ctx_waiters (cleared event c)) + {#waiter (event_ctx event c)#}"
  by (elim is_eventE) (simp_all add: ctx_waiters_def cleared_def putContext_def event_ctx_def)

lemma event_ctx_ok: "ctx_inv i c \<Longrightarrow> is_event event \<Longrightarrow> ev_ok (c_events c AND event \<noteq> 0) (event_ctx event c)"
  by (elim is_eventE) (simp_all add: ctx_inv_def event_ctx_def)

lemma getContext_event: "is_event event \<Longrightarrow> getContext event c = Inr (event_ctx event c)"
  by (elim is_eventE) (simp_all add: getContext_def event_ctx_def)

lemma event_ctx_upd [simp]: "event_ctx event (c\<lparr>c_events := e\<rparr>) = event_ctx event c"
  by (simp add: event_ctx_def)

lemma trigger_ctx:
  assumes "ctx_inv i c" "is_event event" "c_events c AND event \<noteq> 0"
  shows "triggerEvent event c = Inr (cleared event c, waiter (event_ctx event c))"
proof -
  let ?x = "event_ctx event c"
  from event_ctx_ok [OF assms(1,2)] assms(3) obtain s where
    "e_scheduler ?x = Some s" "(e_cb ?x = None) \<noteq> (e_fibre ?x = None)" by (auto simp: ev_ok_def)
  then show ?thesis
    using assms(2,3)
    by (cases ?x) (auto simp: triggerEvent_def getContext_event ptr_def waiter_def cleared_def empty_event_def)
qed

lemma waiter_task: "ev_ok True x \<Longrightarrow> ft_fibre (snd (waiter x)) \<noteq> None \<or> ft_cb (snd (waiter x)) \<noteq> None"
  by (auto simp: ev_ok_def waiter_def)

text \<open>Registration.\<close>

definition registered :: "nat \<Rightarrow> nat \<Rightarrow> u32 \<Rightarrow> callback option \<Rightarrow> fd_context \<Rightarrow> fd_context" where
  "registered s f event cb c =
     putContext event \<lparr>e_scheduler = Some s, e_fibre = (if cb = None then Some f else None), e_cb = cb\<rparr>
       (c\<lparr>c_events := c_events c OR event\<rparr>)"

lemma registered_fields [simp]: "c_events (registered s f event cb c) = c_events c OR event"
  by (simp add: registered_def putContext_def)

lemma register_ctx:
  assumes "ctx_inv i c" "is_event event" "c_events c AND event = 0" "cb = None \<longrightarrow> st = EXEC"
  shows "register (Some s) f st event cb c = Inr (registered s f event cb c)"
proof -
  have "event_ctx event c = empty_event" using event_ctx_ok [OF assms(1,2)] assms(3) by (simp add: ev_ok_def)
  then show ?thesis
    using assms(2,4) by (auto simp: register_def getContext_event empty_event_def registered_def)
qed

lemma registered_inv: "ctx_inv i c \<Longrightarrow> is_event event \<Longrightarrow> ctx_inv i (registered s f event cb c)"
  by (elim is_eventE) (simp_all add: ctx_inv_def registered_def putContext_def ev_ok_def)

lemma registered_waiters:
  "is_event event \<Longrightarrow> c_events c AND event = 0 \<Longrightarrow>
   mset (ctx_waiters (registered s f event cb c)) = mset (ctx_waiters c) +
     {#waiter \<lparr>e_scheduler = Some s, e_fibre = (if cb = None then Some f else None), e_cb = cb\<rparr>#}"
  by (elim is_eventE) (simp_all add: ctx_waiters_def registered_def putContext_def)

section \<open>The table\<close>

definition waiters :: "'w iomanager \<Rightarrow> (nat \<times> task) multiset" where
  "waiters io = (\<Sum>c\<leftarrow>m_fdContexts io. mset (ctx_waiters c))"

text \<open>The tasks that schedulers have been given.\<close>

definition delivered :: "'w iomanager \<Rightarrow> (nat \<times> task) multiset" where
  "delivered io = image_mset (Pair (m_this (io_sched io))) (mset (m_fibres (io_sched io))) + mset (io_foreign io)"

definition tab_inv :: "'w iomanager \<Rightarrow> bool" where
  "tab_inv io \<longleftrightarrow> 32 \<le> length (m_fdContexts io) \<and>
     (\<forall>i < length (m_fdContexts io). ctx_inv i (m_fdContexts io ! i)) \<and>
     m_pendingEventCount io = of_nat (size (waiters io))"

lemma sum_list_update_mset:
  fixes f :: "'a \<Rightarrow> 'b multiset"
  shows "i < length xs \<Longrightarrow> sum_list (map f (xs[i := y])) + f (xs ! i) = sum_list (map f xs) + f y"
proof (induction xs arbitrary: i)
  case (Cons x xs)
  then show ?case by (cases i) (auto simp: union_assoc union_commute union_lcomm)
qed simp

lemma waiters_put:
  "i < length (m_fdContexts io) \<Longrightarrow>
   waiters (put_ctx i c io) + mset (ctx_waiters (m_fdContexts io ! i)) = waiters io + mset (ctx_waiters c)"
  using sum_list_update_mset [of i "m_fdContexts io" "\<lambda>c. mset (ctx_waiters c)" c] by (simp add: waiters_def put_ctx_def)

lemma waiters_resize: "length cs \<le> sz \<Longrightarrow> (\<Sum>c\<leftarrow>contextResize sz cs. mset (ctx_waiters c)) = (\<Sum>c\<leftarrow>cs. mset (ctx_waiters c))"
proof -
  have "(\<Sum>c\<leftarrow>map new_context ns. mset (ctx_waiters c)) = {#}" for ns
    by (induction ns) (simp_all add: new_context_def ctx_waiters_def NONE_def)
  then show "length cs \<le> sz \<Longrightarrow> ?thesis" by (simp add: contextResize_def)
qed

lemma new_context_inv: "ctx_inv i (new_context i)"
  by (simp add: ctx_inv_def new_context_def ev_ok_def NONE_def)

lemma put_ctx_simps [simp]:
  "m_fdContexts (put_ctx i c io) = (m_fdContexts io)[i := c]" "io_sched (put_ctx i c io) = io_sched io"
  "io_foreign (put_ctx i c io) = io_foreign io" "io_world (put_ctx i c io) = io_world io"
  "m_pendingEventCount (put_ctx i c io) = m_pendingEventCount io" "delivered (put_ctx i c io) = delivered io"
  by (simp_all add: put_ctx_def delivered_def)

lemma deliver_simps [simp]:
  "m_fdContexts (deliver s t io) = m_fdContexts io" "io_world (deliver s t io) = io_world io"
  "m_pendingEventCount (deliver s t io) = m_pendingEventCount io" "waiters (deliver s t io) = waiters io"
  by (simp_all add: deliver_def own_schedule_def waiters_def split: prod.split)

lemma deliver_delivered:
  "ft_fibre t \<noteq> None \<or> ft_cb t \<noteq> None \<Longrightarrow> delivered (deliver s t io) = delivered io + {#(s, t)#}"
  by (auto simp: delivered_def deliver_def own_schedule_def scheduleNoLock_def tickle_def)

lemma tab_inv_put:
  assumes "tab_inv io" "ctx_inv i c" "m_fdContexts io' = (m_fdContexts io)[i := c]"
    and "m_pendingEventCount io' = of_nat (size (waiters io'))"
  shows "tab_inv io'"
  using assms unfolding tab_inv_def by (metis length_list_update nth_list_update_eq nth_list_update_neq)

text \<open>Firing an event moves its waiter from the table to its scheduler.\<close>

lemma trigger_at_ok:
  assumes inv: "tab_inv io" and i: "i < length (m_fdContexts io)" and e: "is_event event"
    and set: "c_events (m_fdContexts io ! i) AND event \<noteq> 0"
  shows "\<exists>io'. trigger_at i event io = Inr io' \<and> tab_inv io' \<and>
    m_fdContexts io' = (m_fdContexts io)[i := cleared event (m_fdContexts io ! i)] \<and> io_world io' = io_world io \<and>
    waiters io' + delivered io' = waiters io + delivered io"
proof -
  let ?c = "m_fdContexts io ! i"
  have c: "ctx_inv i ?c" using inv i by (simp add: tab_inv_def)
  obtain s t where st: "waiter (event_ctx event ?c) = (s, t)" by fastforce
  have t: "ft_fibre t \<noteq> None \<or> ft_cb t \<noteq> None"
    using waiter_task [of "event_ctx event ?c"] event_ctx_ok [OF c e] set st by simp
  let ?io = "(deliver s t (put_ctx i (cleared event ?c) io))\<lparr>m_pendingEventCount := m_pendingEventCount io - 1\<rparr>"
  have eq: "trigger_at i event io = Inr ?io" by (simp add: trigger_at_def trigger_ctx [OF c e set] st)
  have w: "waiters io = waiters (put_ctx i (cleared event ?c) io) + {#(s, t)#}"
    using waiters_put [OF i, of "cleared event ?c"] unfolding cleared_waiters [OF e set] st by (simp add: ac_simps)
  have w': "waiters ?io = waiters (put_ctx i (cleared event ?c) io)" by (simp add: waiters_def)
  have d: "delivered ?io = delivered io + {#(s, t)#}"
    using deliver_delivered [OF t, of s "put_ctx i (cleared event ?c) io"] by (simp add: delivered_def)
  have "tab_inv ?io"
    using inv i cleared_inv [OF c e] unfolding tab_inv_def w' by (auto simp: w nth_list_update)
  then show ?thesis using eq w w' d by (auto simp: union_assoc union_commute union_lcomm)
qed

section \<open>The kernel\<close>

text \<open>The documented behaviour of \<open>epoll_ctl\<close>, on the set of watched descriptors: a failing call changes
  nothing, adding needs an absent entry and the other two a present one.\<close>

definition epoll_ok :: "'w epoll \<Rightarrow> ('w \<Rightarrow> int \<Rightarrow> u32 option) \<Rightarrow> bool" where
  "epoll_ok ep interest \<longleftrightarrow> (\<forall>w op fd ev.
     (case ep w op fd ev of (rt, w') \<Rightarrow>
       if rt \<noteq> 0 then interest w' = interest w
       else (interest w fd = None \<longleftrightarrow> op = EPOLL_CTL_ADD) \<and>
            interest w' = (interest w)(fd := (if op = EPOLL_CTL_DEL then None else Some ev))))"

lemma epoll_okD:
  "epoll_ok ep interest \<Longrightarrow> ep w op fd ev = (rt, w') \<Longrightarrow>
   if rt \<noteq> 0 then interest w' = interest w
   else (interest w fd = None \<longleftrightarrow> op = EPOLL_CTL_ADD) \<and>
        interest w' = (interest w)(fd := (if op = EPOLL_CTL_DEL then None else Some ev))"
proof -
  assume a: "epoll_ok ep interest" and b: "ep w op fd ev = (rt, w')"
  from a [unfolded epoll_ok_def, THEN spec [of _ w], THEN spec [of _ op], THEN spec [of _ fd], THEN spec [of _ ev]]
  show ?thesis by (simp only: b prod.case)
qed

definition mask_of :: "u32 \<Rightarrow> u32 option" where
  "mask_of e = (if e = 0 then None else Some (EPOLLET OR e))"

text \<open>What the table says about a descriptor.\<close>

definition watched :: "fd_context list \<Rightarrow> int \<Rightarrow> u32 option" where
  "watched cs fd = (if 0 \<le> fd \<and> fd < int (length cs) then mask_of (c_events (cs ! nat fd)) else None)"

definition agree :: "('w \<Rightarrow> int \<Rightarrow> u32 option) \<Rightarrow> int \<Rightarrow> 'w iomanager \<Rightarrow> bool" where
  "agree interest tick io \<longleftrightarrow> watched (m_fdContexts io) tick = None \<and> interest (io_world io) tick \<noteq> None \<and>
     (\<forall>fd \<ge> 0. fd \<noteq> tick \<longrightarrow> interest (io_world io) fd = watched (m_fdContexts io) fd)"

definition io_inv :: "('w \<Rightarrow> int \<Rightarrow> u32 option) \<Rightarrow> int \<Rightarrow> 'w iomanager \<Rightarrow> bool" where
  "io_inv interest tick io \<longleftrightarrow> tab_inv io \<and> agree interest tick io"

definition acct :: "'w iomanager \<Rightarrow> (nat \<times> task) multiset" where
  "acct io = waiters io + delivered io"

lemma watched_upd:
  "0 \<le> fd \<Longrightarrow> nat fd < length cs \<Longrightarrow> watched (cs[nat fd := c]) = (watched cs)(fd := mask_of (c_events c))"
  by (rule ext) (auto simp: watched_def nth_list_update nat_eq_iff)

lemma agree_upd:
  assumes "agree interest tick io" "0 \<le> fd" "nat fd < length (m_fdContexts io)" "fd \<noteq> tick"
    and "m_fdContexts io' = (m_fdContexts io)[nat fd := c]"
    and "interest (io_world io') = (interest (io_world io))(fd := mask_of (c_events c))"
  shows "agree interest tick io'"
  using assms by (simp add: agree_def watched_upd)

lemma world_simps [simp]:
  "waiters (io\<lparr>io_world := w\<rparr>) = waiters io" "delivered (io\<lparr>io_world := w\<rparr>) = delivered io"
  "acct (io\<lparr>io_world := w\<rparr>) = acct io" "tab_inv (io\<lparr>io_world := w\<rparr>) = tab_inv io"
  by (simp_all add: waiters_def delivered_def acct_def tab_inv_def)

lemma io_inv_world: "io_inv interest tick io \<Longrightarrow> interest w = interest (io_world io) \<Longrightarrow> io_inv interest tick (io\<lparr>io_world := w\<rparr>)"
  by (simp add: io_inv_def agree_def)

lemma io_inv_ctx: "io_inv interest tick io \<Longrightarrow> i < length (m_fdContexts io) \<Longrightarrow> ctx_inv i (m_fdContexts io ! i)"
  by (simp add: io_inv_def tab_inv_def)

lemma io_inv_watched:
  assumes "io_inv interest tick io" "0 \<le> fd" "fd < int (length (m_fdContexts io))" "c_events (m_fdContexts io ! nat fd) \<noteq> 0"
  shows "fd \<noteq> tick"
  using assms by (auto simp: io_inv_def agree_def watched_def mask_of_def split: if_splits)

section \<open>The operations\<close>

text \<open>Adding an event.\<close>

definition new_waiter :: "nat \<Rightarrow> nat \<Rightarrow> callback option \<Rightarrow> nat \<times> task" where
  "new_waiter s f cb = waiter \<lparr>e_scheduler = Some s, e_fibre = (if cb = None then Some f else None), e_cb = cb\<rparr>"

lemma addEvent_at_inv:
  assumes ok: "epoll_ok ep interest" and inv: "io_inv interest tick io" and e: "is_event event"
    and fd: "0 \<le> fd" "nat fd < length (m_fdContexts io)"
    and r: "addEvent_at ep (Some s) f st fd event cb io = Inr (rt, io')"
  shows "io_inv interest tick io' \<and> (rt = 0 \<or> rt = - 1) \<and> acct io' = acct io + (if rt = 0 then {#new_waiter s f cb#} else {#})"
proof -
  let ?c = "m_fdContexts io ! nat fd"
  let ?op = "if c_events ?c \<noteq> 0 then EPOLL_CTL_MOD else EPOLL_CTL_ADD"
  obtain x w where ep: "ep (io_world io) ?op fd (EPOLLET OR c_events ?c OR event) = (x, w)" by fastforce
  have c: "ctx_inv (nat fd) ?c" using io_inv_ctx [OF inv fd(2)] .
  have z: "c_events ?c AND event = 0" using r fd by (auto simp: addEvent_at_def Let_def res_simps)
  note k = epoll_okD [OF ok ep]
  show ?thesis
  proof (cases "x = 0")
    case False
    then have "rt = - 1" "io' = io\<lparr>io_world := w\<rparr>" using r fd ep z by (auto simp: addEvent_at_def Let_def)
    then show ?thesis using k False inv by (simp add: io_inv_world)
  next
    case True
    have cb: "cb = None \<longrightarrow> st = EXEC"
      using r fd ep z True by (auto simp: addEvent_at_def Let_def register_def res_simps split: if_splits)
    let ?c' = "registered s f event cb ?c"
    let ?io = "io\<lparr>io_world := w, m_pendingEventCount := m_pendingEventCount io + 1\<rparr>"
    have res: "rt = 0" "io' = put_ctx (nat fd) ?c' ?io"
      using r fd ep z True register_ctx [OF c e z cb] by (auto simp: addEvent_at_def Let_def)
    have nt: "fd \<noteq> tick"
    proof
      assume "fd = tick"
      then have "interest (io_world io) fd \<noteq> None" "c_events ?c = 0"
        using inv fd by (auto simp: io_inv_def agree_def watched_def mask_of_def split: if_splits)
      then show False using k True by simp
    qed
    have ev: "c_events ?c' \<noteq> 0" using e by (elim is_eventE) (auto simp: or_eq_0_iff)
    have w: "waiters io' = waiters io + {#new_waiter s f cb#}"
      using waiters_put [of "nat fd" io ?c'] registered_waiters [OF e z] fd
      by (simp add: res waiters_def put_ctx_def new_waiter_def)
    have "tab_inv io'"
    proof (rule tab_inv_put [of io _ ?c'])
      show "m_pendingEventCount io' = of_nat (size (waiters io'))"
        using inv w by (simp add: res io_inv_def tab_inv_def)
    qed (use inv registered_inv [OF c e] res in \<open>simp_all add: io_inv_def\<close>)
    moreover have "agree interest tick io'"
    proof (rule agree_upd [of interest tick io fd io' ?c'])
      show "interest (io_world io') = (interest (io_world io))(fd := mask_of (c_events ?c'))"
        using k True ev by (simp add: res mask_of_def or.assoc split: if_splits)
    qed (use inv fd nt in \<open>simp_all add: io_inv_def res\<close>)
    ultimately show ?thesis using w res by (simp add: io_inv_def acct_def delivered_def)
  qed
qed

lemma nth_contextResize:
  "i < sz \<Longrightarrow> length cs \<le> sz \<Longrightarrow> contextResize sz cs ! i = (if i < length cs then cs ! i else new_context i)"
  by (auto simp: contextResize_def nth_append)

lemma length_contextResize: "length cs \<le> sz \<Longrightarrow> length (contextResize sz cs) = sz"
  by (simp add: contextResize_def)

lemma resize_inv:
  assumes inv: "io_inv interest tick io" and sz: "length (m_fdContexts io) \<le> sz"
  shows "io_inv interest tick (io\<lparr>m_fdContexts := contextResize sz (m_fdContexts io)\<rparr>) \<and>
    acct (io\<lparr>m_fdContexts := contextResize sz (m_fdContexts io)\<rparr>) = acct io"
proof -
  let ?io = "io\<lparr>m_fdContexts := contextResize sz (m_fdContexts io)\<rparr>"
  have w: "waiters ?io = waiters io" using waiters_resize [OF sz] by (simp add: waiters_def)
  have "tab_inv ?io"
    using inv sz w by (auto simp: io_inv_def tab_inv_def length_contextResize nth_contextResize new_context_inv)
  moreover have "watched (contextResize sz (m_fdContexts io)) = watched (m_fdContexts io)"
    by (rule ext) (use sz in \<open>auto simp: watched_def length_contextResize nth_contextResize new_context_def NONE_def
      mask_of_def split: if_splits\<close>)
  then have "agree interest tick ?io" using inv by (simp add: io_inv_def agree_def)
  ultimately show ?thesis using w by (simp add: io_inv_def acct_def delivered_def)
qed

lemma addEvent_inv:
  assumes ok: "epoll_ok ep interest" and inv: "io_inv interest tick io" and e: "is_event event"
    and r: "addEvent ep (Some s) f st fd event cb io = Inr (rt, io')"
  shows "io_inv interest tick io' \<and> (rt = 0 \<or> rt = - 1) \<and> acct io' = acct io + (if rt = 0 then {#new_waiter s f cb#} else {#})"
proof (cases "fd < int (length (m_fdContexts io))")
  case True
  then have "0 \<le> fd" "nat fd < length (m_fdContexts io)" "addEvent_at ep (Some s) f st fd event cb io = Inr (rt, io')"
    using r by (auto simp: addEvent_def split: if_splits)
  then show ?thesis by (rule addEvent_at_inv [OF ok inv e])
next
  case False
  let ?io = "io\<lparr>m_fdContexts := contextResize (grown fd) (m_fdContexts io)\<rparr>"
  have "64 \<le> fd \<or> 32 \<le> fd" "int (length (m_fdContexts io)) \<le> fd" "32 \<le> length (m_fdContexts io)"
    using False inv by (auto simp: io_inv_def tab_inv_def)
  then have g: "nat fd < grown fd" "length (m_fdContexts io) \<le> grown fd" "0 \<le> fd" by (auto simp: grown_def)
  note ri = resize_inv [OF inv g(2)]
  have "addEvent_at ep (Some s) f st fd event cb ?io = Inr (rt, io')" using r False by (simp add: addEvent_def)
  from addEvent_at_inv [OF ok conjunct1 [OF ri] e g(3) _ this] g show ?thesis
    using conjunct2 [OF ri] by (simp add: length_contextResize)
qed

text \<open>Removing an event without firing it.\<close>

lemma with_ctxE:
  assumes "with_ctx fd io k = Inr r"
  obtains "int (length (m_fdContexts io)) \<le> fd" "r = (False, io)"
  | "0 \<le> fd" "fd < int (length (m_fdContexts io))" "k (m_fdContexts io ! nat fd) = Inr r"
  using assms by (auto simp: with_ctx_def split: if_splits)

text \<open>The change of the kernel's entry that \<open>delEvent\<close>, \<open>cancelEvent\<close> and \<open>idle\<close> make.\<close>

lemma kernel_reduce:
  assumes "epoll_ok ep interest"
    and "ep w (if e \<noteq> 0 then EPOLL_CTL_MOD else EPOLL_CTL_DEL) fd (EPOLLET OR e) = (0, w')"
  shows "interest w' = (interest w)(fd := mask_of e)"
  using epoll_okD [OF assms] by (auto simp: mask_of_def split: if_splits)

lemma delEvent_inv:
  assumes ok: "epoll_ok ep interest" and inv: "io_inv interest tick io" and e: "is_event event"
    and r: "delEvent ep fd event io = Inr (b, io')"
  shows "io_inv interest tick io' \<and>
    acct io = acct io' + (if b then {#waiter (event_ctx event (m_fdContexts io ! nat fd))#} else {#})"
proof (rule with_ctxE [OF r [unfolded delEvent_def]])
  assume "(b, io') = (False, io)"
  then show ?thesis using inv by simp
next
  let ?c = "m_fdContexts io ! nat fd"
  assume fd: "0 \<le> fd" "fd < int (length (m_fdContexts io))" and k: "(if c_events ?c AND event = 0 then Inr (False, io)
    else let new_events = c_events ?c AND NOT event; op = if new_events \<noteq> 0 then EPOLL_CTL_MOD else EPOLL_CTL_DEL;
      (rt, w) = ep (io_world io) op fd (EPOLLET OR new_events)
      in if rt \<noteq> 0 then Inr (False, io\<lparr>io_world := w\<rparr>)
         else rbind (getContext event ?c) (\<lambda>x. Inr (True, put_ctx (nat fd)
           (putContext event (resetContext x) (?c\<lparr>c_events := new_events\<rparr>))
           (io\<lparr>io_world := w, m_pendingEventCount := m_pendingEventCount io - 1\<rparr>)))) = Inr (b, io')"
  have i: "nat fd < length (m_fdContexts io)" using fd by simp
  have c: "ctx_inv (nat fd) ?c" using io_inv_ctx [OF inv i] .
  obtain rt w where ep: "ep (io_world io) (if c_events ?c AND NOT event \<noteq> 0 then EPOLL_CTL_MOD else EPOLL_CTL_DEL) fd
      (EPOLLET OR (c_events ?c AND NOT event)) = (rt, w)" by fastforce
  show ?thesis
  proof (cases "c_events ?c AND event = 0 \<or> rt \<noteq> 0")
    case True
    then have "b = False" "io' = io \<or> rt \<noteq> 0 \<and> io' = io\<lparr>io_world := w\<rparr>" using k ep by (auto simp: Let_def split: if_splits)
    then show ?thesis using inv epoll_okD [OF ok ep] by (auto simp: io_inv_world)
  next
    case False
    then have set: "c_events ?c AND event \<noteq> 0" and rt: "rt = 0" by auto
    let ?io = "io\<lparr>io_world := w, m_pendingEventCount := m_pendingEventCount io - 1\<rparr>"
    have "resetContext x = empty_event" for x by (simp add: resetContext_def empty_event_def)
    then have res: "b" "io' = put_ctx (nat fd) (cleared event ?c) ?io"
      using k ep set rt by (auto simp: Let_def getContext_event [OF e] cleared_def)
    have w: "waiters io = waiters io' + {#waiter (event_ctx event ?c)#}"
      using waiters_put [OF i, of "cleared event ?c"] unfolding cleared_waiters [OF e set]
      by (simp add: res waiters_def put_ctx_def ac_simps)
    have nt: "fd \<noteq> tick" using io_inv_watched [OF inv fd] set by force
    have "tab_inv io'"
    proof (rule tab_inv_put [of io _ "cleared event ?c"])
      have "m_pendingEventCount io = of_nat (size (waiters io))" using inv by (simp add: io_inv_def tab_inv_def)
      moreover have "m_pendingEventCount io' = m_pendingEventCount io - 1" by (simp add: res)
      ultimately show "m_pendingEventCount io' = of_nat (size (waiters io'))" unfolding w by simp
    qed (use inv cleared_inv [OF c e] res in \<open>simp_all add: io_inv_def\<close>)
    moreover have "agree interest tick io'"
      by (rule agree_upd [of interest tick io fd io' "cleared event ?c"])
        (use inv fd nt kernel_reduce [OF ok ep [unfolded rt]] in \<open>simp_all add: io_inv_def res\<close>)
    ultimately show ?thesis using w res by (simp add: io_inv_def acct_def delivered_def)
  qed
qed

text \<open>Firing events.\<close>

lemma trigger_if_ok:
  assumes inv: "tab_inv io" and i: "i < length (m_fdContexts io)" and e: "is_event event"
    and b: "b \<longrightarrow> c_events (m_fdContexts io ! i) AND event \<noteq> 0"
  shows "\<exists>io'. trigger_if b i event io = Inr io' \<and> tab_inv io' \<and>
    m_fdContexts io' = (m_fdContexts io)[i := (if b then cleared event (m_fdContexts io ! i) else m_fdContexts io ! i)] \<and>
    io_world io' = io_world io \<and> acct io' = acct io"
proof (cases b)
  case True
  then show ?thesis using trigger_at_ok [OF inv i e] b by (auto simp: trigger_if_def acct_def)
qed (use inv in \<open>simp add: trigger_if_def\<close>)

lemma trigger_if_set:
  "trigger_if b i event io = Inr io' \<Longrightarrow> b \<longrightarrow> c_events (m_fdContexts io ! i) AND event \<noteq> 0"
  by (auto simp: trigger_if_def trigger_at_def triggerEvent_def res_simps)

definition fired :: "bool \<Rightarrow> bool \<Rightarrow> fd_context \<Rightarrow> fd_context" where
  "fired r w c = (let c = (if r then cleared READ c else c) in if w then cleared WRITE c else c)"

lemma fired_events: "c_events (fired r w c) = c_events c AND NOT ((if r then READ else 0) OR (if w then WRITE else 0))"
  by (simp add: fired_def and.assoc)

lemma trigger_both_ok:
  assumes inv: "tab_inv io" and i: "i < length (m_fdContexts io)"
    and r: "r \<longrightarrow> c_events (m_fdContexts io ! i) AND READ \<noteq> 0" and w: "w \<longrightarrow> c_events (m_fdContexts io ! i) AND WRITE \<noteq> 0"
  shows "\<exists>io1 io'. trigger_if r i READ io = Inr io1 \<and> trigger_if w i WRITE io1 = Inr io' \<and> tab_inv io' \<and>
    c_events (m_fdContexts io1 ! i) AND WRITE = c_events (m_fdContexts io ! i) AND WRITE \<and>
    m_fdContexts io' = (m_fdContexts io)[i := fired r w (m_fdContexts io ! i)] \<and>
    io_world io' = io_world io \<and> acct io' = acct io"
proof -
  obtain io1 where 1: "trigger_if r i READ io = Inr io1" "tab_inv io1"
    "m_fdContexts io1 = (m_fdContexts io)[i := (if r then cleared READ (m_fdContexts io ! i) else m_fdContexts io ! i)]"
    "io_world io1 = io_world io" "acct io1 = acct io"
    using trigger_if_ok [OF inv i _ r] by (auto simp: is_event_def)
  have c1: "c_events (m_fdContexts io1 ! i) AND WRITE = c_events (m_fdContexts io ! i) AND WRITE" using 1(3) i by simp
  have w1: "w \<longrightarrow> c_events (m_fdContexts io1 ! i) AND WRITE \<noteq> 0" using w c1 by simp
  obtain io' where "trigger_if w i WRITE io1 = Inr io'" "tab_inv io'"
    "m_fdContexts io' = (m_fdContexts io)[i := (if w then cleared WRITE (m_fdContexts io1 ! i) else m_fdContexts io1 ! i)]"
    "io_world io' = io_world io1" "acct io' = acct io1"
    using trigger_if_ok [OF 1(2) _ _ w1] i by (auto simp: is_event_def 1(3))
  then show ?thesis using 1 c1 i by (auto simp: fired_def)
qed

lemma cancelEvent_inv:
  assumes ok: "epoll_ok ep interest" and inv: "io_inv interest tick io" and e: "is_event event" and fd0: "0 \<le> fd"
  shows "\<exists>b io'. cancelEvent ep fd event io = Inr (b, io') \<and> io_inv interest tick io' \<and> acct io' = acct io"
proof (cases "fd < int (length (m_fdContexts io))")
  case False
  then show ?thesis using inv by (auto simp: cancelEvent_def with_ctx_def)
next
  case True
  let ?c = "m_fdContexts io ! nat fd"
  have i: "nat fd < length (m_fdContexts io)" using fd0 True by simp
  obtain rt w where ep: "ep (io_world io) (if c_events ?c AND NOT event \<noteq> 0 then EPOLL_CTL_MOD else EPOLL_CTL_DEL) fd
      (EPOLLET OR (c_events ?c AND NOT event)) = (rt, w)" by fastforce
  show ?thesis
  proof (cases "c_events ?c AND event = 0 \<or> rt \<noteq> 0")
    case t: True
    then show ?thesis using inv epoll_okD [OF ok ep] ep True fd0
      by (auto simp: cancelEvent_def with_ctx_def Let_def io_inv_world)
  next
    case False
    then have set: "c_events ?c AND event \<noteq> 0" and rt: "rt = 0" by auto
    have nt: "fd \<noteq> tick" using io_inv_watched [OF inv fd0 True] set by force
    from trigger_at_ok [of "io\<lparr>io_world := w\<rparr>" "nat fd" event] inv i e set
    obtain io' where io': "trigger_at (nat fd) event (io\<lparr>io_world := w\<rparr>) = Inr io'" "tab_inv io'"
      "m_fdContexts io' = (m_fdContexts io)[nat fd := cleared event ?c]" "io_world io' = w" "acct io' = acct io"
      by (auto simp: io_inv_def acct_def)
    have "agree interest tick io'"
      by (rule agree_upd [of interest tick io fd io' "cleared event ?c"])
        (use inv fd0 i nt io' kernel_reduce [OF ok ep [unfolded rt]] in \<open>simp_all add: io_inv_def\<close>)
    then show ?thesis using io' set rt ep True fd0 by (auto simp: cancelEvent_def with_ctx_def Let_def io_inv_def)
  qed
qed

lemma cancelAll_inv:
  assumes ok: "epoll_ok ep interest" and inv: "io_inv interest tick io" and fd0: "0 \<le> fd"
  shows "\<exists>b io'. cancelAll ep fd io = Inr (b, io') \<and> io_inv interest tick io' \<and> acct io' = acct io \<and>
    (b \<longrightarrow> c_events (m_fdContexts io' ! nat fd) = 0)"
proof (cases "fd < int (length (m_fdContexts io))")
  case False
  then show ?thesis using inv by (auto simp: cancelAll_def with_ctx_def)
next
  case True
  let ?c = "m_fdContexts io ! nat fd"
  have i: "nat fd < length (m_fdContexts io)" using fd0 True by simp
  have c: "evs_ok (c_events ?c)" using io_inv_ctx [OF inv i] by (simp add: ctx_inv_def)
  obtain rt w where ep: "ep (io_world io) EPOLL_CTL_DEL fd 0 = (rt, w)" by fastforce
  show ?thesis
  proof (cases "c_events ?c = 0 \<or> rt \<noteq> 0")
    case t: True
    then show ?thesis using inv epoll_okD [OF ok ep] ep True fd0
      by (auto simp: cancelAll_def with_ctx_def Let_def io_inv_world)
  next
    case False
    then have set: "c_events ?c \<noteq> 0" and rt: "rt = 0" by auto
    have nt: "fd \<noteq> tick" using io_inv_watched [OF inv fd0 True set] .
    let ?r = "c_events ?c AND READ \<noteq> 0" and ?w = "c_events ?c AND WRITE \<noteq> 0"
    from trigger_both_ok [of "io\<lparr>io_world := w\<rparr>" "nat fd" ?r ?w] inv i
    obtain io1 io' where io': "trigger_if ?r (nat fd) READ (io\<lparr>io_world := w\<rparr>) = Inr io1"
      "trigger_if ?w (nat fd) WRITE io1 = Inr io'" "tab_inv io'"
      "c_events (m_fdContexts io1 ! nat fd) AND WRITE = c_events ?c AND WRITE"
      "m_fdContexts io' = (m_fdContexts io)[nat fd := fired ?r ?w ?c]" "io_world io' = w" "acct io' = acct io"
      by (auto simp: io_inv_def)
    have z: "c_events (fired ?r ?w ?c) = 0"
      unfolding fired_events by (rule clear_present [OF c])
    have "agree interest tick io'"
      by (rule agree_upd [of interest tick io fd io' "fired ?r ?w ?c"])
        (use inv fd0 i nt io' z epoll_okD [OF ok ep] rt in \<open>simp_all add: io_inv_def mask_of_def\<close>)
    then show ?thesis using io' set rt ep True fd0 z i by (auto simp: cancelAll_def with_ctx_def io_inv_def)
  qed
qed

text \<open>Readiness reported by the kernel.\<close>

lemma read_and_write [simp]: "READ AND WRITE = 0" "WRITE AND READ = 0"
  by (simp_all add: READ_def WRITE_def)

lemma real_events_eq:
  "real_events_of ev reg = (if real_events_of ev reg AND READ \<noteq> 0 then READ else 0) OR
     (if real_events_of ev reg AND WRITE \<noteq> 0 then WRITE else 0)"
  by (auto simp: real_events_of_def Let_def NONE_def)

lemma handle_ready_inv:
  assumes ok: "epoll_ok ep interest" and inv: "io_inv interest tick io" and r: "handle_ready ep e io = Inr io'"
  shows "io_inv interest tick io' \<and> acct io' = acct io"
proof (cases e)
  case Tickle_Pipe
  then have "io' = io\<lparr>io_pipe := 0\<rparr>" using r by (simp add: handle_ready_def)
  then show ?thesis using inv
    by (simp add: io_inv_def agree_def tab_inv_def acct_def waiters_def delivered_def)
next
  case (Ready i ev)
  let ?c = "m_fdContexts io ! i"
  define re where "re = real_events_of ev (c_events ?c)"
  have i: "i < length (m_fdContexts io)" using r Ready by (auto simp: handle_ready_def split: if_splits)
  have c: "c_fd ?c = int i" using io_inv_ctx [OF inv i] by (simp add: ctx_inv_def)
  obtain rt w where ep: "ep (io_world io) (if c_events ?c AND NOT re \<noteq> 0 then EPOLL_CTL_MOD else EPOLL_CTL_DEL) (int i)
      (EPOLLET OR (c_events ?c AND NOT re)) = (rt, w)" by fastforce
  show ?thesis
  proof (cases "c_events ?c AND re = 0 \<or> rt \<noteq> 0")
    case True
    then have "io' = io \<or> rt \<noteq> 0 \<and> io' = io\<lparr>io_world := w\<rparr>"
      using r Ready i ep c by (auto simp: handle_ready_def Let_def NONE_def re_def [symmetric] split: if_splits)
    then show ?thesis using inv epoll_okD [OF ok ep] by (auto simp: io_inv_world)
  next
    case False
    then have set: "c_events ?c AND re \<noteq> 0" and rt: "rt = 0" by auto
    let ?r = "re AND READ \<noteq> 0" and ?w = "re AND WRITE \<noteq> 0"
    obtain io1 where t: "trigger_if ?r i READ (io\<lparr>io_world := w\<rparr>) = Inr io1" "trigger_if ?w i WRITE io1 = Inr io'"
      using r Ready i ep c set rt by (auto simp: handle_ready_def Let_def NONE_def re_def [symmetric] res_simps)
    have bits: "?r \<longrightarrow> c_events ?c AND READ \<noteq> 0" using trigger_if_set [OF t(1)] by simp
    have "tab_inv (io\<lparr>io_world := w\<rparr>)" using inv by (simp add: io_inv_def)
    from trigger_if_ok [OF this, of i READ ?r] bits i t(1)
    have "c_events (m_fdContexts io1 ! i) AND WRITE = c_events ?c AND WRITE" by (auto simp: is_event_def)
    then have bits2: "?w \<longrightarrow> c_events ?c AND WRITE \<noteq> 0" using trigger_if_set [OF t(2)] by simp
    from trigger_both_ok [of "io\<lparr>io_world := w\<rparr>" i ?r ?w] bits bits2 inv i t
    have io': "tab_inv io'" "m_fdContexts io' = (m_fdContexts io)[i := fired ?r ?w ?c]" "io_world io' = w" "acct io' = acct io"
      by (auto simp: io_inv_def)
    have ev: "c_events (fired ?r ?w ?c) = c_events ?c AND NOT re"
      unfolding fired_events using real_events_eq [of ev "c_events ?c"] by (simp add: re_def)
    have nt: "int i \<noteq> tick" using io_inv_watched [OF inv, of "int i"] i set by force
    have "agree interest tick io'"
      by (rule agree_upd [of interest tick io "int i" io' "fired ?r ?w ?c"])
        (use inv i nt io' ev kernel_reduce [OF ok ep [unfolded rt]] in \<open>simp_all add: io_inv_def\<close>)
    then show ?thesis using io' by (simp add: io_inv_def)
  qed
qed

section \<open>All executions\<close>

lemma own_schedule_range_acct:
  "acct (own_schedule_range cbs io) = acct io +
     mset (map (\<lambda>cb. (m_this (io_sched io), \<lparr>ft_fibre = None, ft_cb = cb, ft_thread = - 1\<rparr>)) (filter (\<lambda>cb. cb \<noteq> None) cbs))"
proof -
  have "m_fibres (snd (schedule_loop cbs b s)) =
      m_fibres s @ map (\<lambda>cb. \<lparr>ft_fibre = None, ft_cb = cb, ft_thread = - 1\<rparr>) (filter (\<lambda>cb. cb \<noteq> None) cbs) \<and>
    m_this (snd (schedule_loop cbs b s)) = m_this s" for b s
    by (induction cbs arbitrary: b s) (auto simp: scheduleNoLock_def Let_def)
  moreover obtain k s' where "schedule_loop cbs False (io_sched io) = (k, s')" by fastforce
  ultimately have l: "schedule_loop cbs False (io_sched io) = (k, s')" "m_this s' = m_this (io_sched io)"
    "m_fibres s' = m_fibres (io_sched io) @
      map (\<lambda>cb. \<lparr>ft_fibre = None, ft_cb = cb, ft_thread = - 1\<rparr>) (filter (\<lambda>cb. cb \<noteq> None) cbs)"
    by (metis snd_conv)+
  then show ?thesis
    by (simp add: own_schedule_range_def acct_def waiters_def delivered_def tickle_def multiset.map_comp comp_def)
qed

text \<open>The steps of an IO manager, with the waiters and callbacks that come in, those that are dropped
  by \<open>delEvent\<close>, and those that a thread takes out of the queue.\<close>

inductive io_step :: "'w epoll \<Rightarrow> 'w iomanager \<Rightarrow> (nat \<times> task) multiset \<Rightarrow> (nat \<times> task) multiset \<Rightarrow> (nat \<times> task) multiset
    \<Rightarrow> 'w iomanager \<Rightarrow> bool" for ep :: "'w epoll" where
  add: "io_step ep io (if rt = 0 then {#new_waiter s f cb#} else {#}) {#} {#} io'"
    if "is_event event" "addEvent ep (Some s) f st fd event cb io = Inr (rt, io')"
| del: "io_step ep io {#} (if b then {#waiter (event_ctx event (m_fdContexts io ! nat fd))#} else {#}) {#} io'"
    if "is_event event" "delEvent ep fd event io = Inr (b, io')"
| cancel: "io_step ep io {#} {#} {#} io'" if "is_event event" "0 \<le> fd" "cancelEvent ep fd event io = Inr (b, io')"
| cancel_all: "io_step ep io {#} {#} {#} io'" if "0 \<le> fd" "cancelAll ep fd io = Inr (b, io')"
| is_ready: "io_step ep io {#} {#} {#} io'" if "handle_ready ep e io = Inr io'"
| timers: "io_step ep io (mset (map (\<lambda>cb. (m_this (io_sched io), \<lparr>ft_fibre = None, ft_cb = cb, ft_thread = - 1\<rparr>))
      (filter (\<lambda>cb. cb \<noteq> None) cbs))) {#} {#} (own_schedule_range cbs io)"
| taken: "io_step ep io {#} {#} {#(m_this (io_sched io), t)#} (io\<lparr>io_sched := s\<rparr>)"
    if "mset (m_fibres (io_sched io)) = mset (m_fibres s) + {#t#}" "m_this s = m_this (io_sched io)"
| own_time: "io_step ep io {#} {#} {#} (io\<lparr>io_timers := tm, io_pipe := n\<rparr>)"

inductive io_run :: "'w epoll \<Rightarrow> 'w iomanager \<Rightarrow> (nat \<times> task) multiset \<Rightarrow> (nat \<times> task) multiset \<Rightarrow> (nat \<times> task) multiset
    \<Rightarrow> 'w iomanager \<Rightarrow> bool" for ep :: "'w epoll" and io0 :: "'w iomanager" where
  io_start: "io_run ep io0 {#} {#} {#} io0"
| io_next: "io_run ep io0 (a + a') (d + d') (t + t') io'" if "io_run ep io0 a d t io" "io_step ep io a' d' t' io'"

lemma io_step_inv:
  assumes "io_step ep io a d t io'" "epoll_ok ep interest" "io_inv interest tick io"
  shows "io_inv interest tick io' \<and> acct io + a = acct io' + d + t"
  using assms
proof (induction rule: io_step.induct)
  case (add event s f st fd cb io rt io')
  from addEvent_inv [OF add(3,4,1,2)] show ?case by simp
next
  case (del event fd io b io')
  from delEvent_inv [OF del(3,4,1,2)] show ?case by simp
next
  case (cancel event fd io b io')
  from cancelEvent_inv [OF cancel(4,5,1,2)] cancel(3) show ?case by auto
next
  case (cancel_all fd io b io')
  from cancelAll_inv [OF cancel_all(3,4,1)] cancel_all(2) show ?case by auto
next
  case (is_ready e io io')
  from handle_ready_inv [OF is_ready(2,3,1)] show ?case by simp
next
  case (timers io cbs)
  have "io_inv interest tick (own_schedule_range cbs io)"
    using timers by (simp add: own_schedule_range_def io_inv_def tab_inv_def agree_def waiters_def split: prod.split)
  then show ?case by (simp add: own_schedule_range_acct)
next
  case (taken io s t)
  then show ?case by (simp add: io_inv_def tab_inv_def agree_def waiters_def acct_def delivered_def)
next
  case (own_time io tm n)
  then show ?case by (simp add: io_inv_def tab_inv_def agree_def waiters_def acct_def delivered_def)
qed

lemma io_run_inv:
  assumes "io_run ep io0 a d t io" "epoll_ok ep interest" "io_inv interest tick io0"
  shows "io_inv interest tick io \<and> acct io0 + a = acct io + d + t"
  using assms(1)
proof (induction rule: io_run.induct)
  case (io_next a d t io a' d' t' io')
  from io_step_inv [OF io_next(2) assms(2)] io_next(3) show ?case by (auto simp: ac_simps)
qed (simp add: assms(3))

lemma io_inv_new:
  assumes "interest w tick \<noteq> None" "\<And>fd. 0 \<le> fd \<Longrightarrow> fd \<noteq> tick \<Longrightarrow> interest w fd = None"
  shows "io_inv interest tick (IOManager_new s tm w)"
proof -
  have "m_fdContexts (IOManager_new s tm w) = map new_context [0..<32]" by (simp add: IOManager_new_def contextResize_def)
  moreover have "waiters (IOManager_new s tm w) = {#}"
    using waiters_resize [of "[]" 32] by (simp add: waiters_def IOManager_new_def)
  moreover have "watched (map new_context [0..<32]) fd = None" for fd
    by (auto simp: watched_def new_context_def mask_of_def NONE_def nat_less_iff simp del: upt_rec_numeral)
  ultimately show ?thesis
    using assms by (auto simp: io_inv_def tab_inv_def agree_def new_context_inv) (simp_all add: IOManager_new_def)
qed

text \<open>A kernel for the examples: the world is the set of watched descriptors, and only 9 is watched.\<close>

definition simple_epoll :: "(int \<Rightarrow> u32 option) epoll" where
  "simple_epoll w op fd ev =
     (if (w fd = None) = (op = EPOLL_CTL_ADD) then (0, w(fd := (if op = EPOLL_CTL_DEL then None else Some ev))) else (- 1, w))"

lemma simple_epoll_ok: "epoll_ok simple_epoll (\<lambda>w. w)"
  by (simp add: epoll_ok_def simple_epoll_def)

definition one_sched :: sched where
  "one_sched = \<lparr>m_this = 3, m_name = ''io'', m_fibres = [], m_rootFibre = None, m_threads = [], m_threadIds = [],
     m_threadCount = 1, m_activeThreadCount = 0, m_idleThreadCount = 0, m_stopping = False,
     m_autoStop = False, m_rootThread = - 1, tickles = 0\<rparr>"

definition fresh_io :: "(int \<Rightarrow> u32 option) iomanager" where
  "fresh_io = IOManager_new one_sched (TimerManager_new (\<lambda>_. Timer_at 0) 0) [9 \<mapsto> EPOLLIN OR EPOLLET]"

lemma fresh_io_add:
  "\<exists>io'. addEvent simple_epoll (Some 3) 0 INIT 5 READ (Some (Function 8)) fresh_io = Inr (0, io')"
proof -
  have c: "m_fdContexts fresh_io ! 5 = new_context 5" "length (m_fdContexts fresh_io) = 32" "io_world fresh_io 5 = None"
    by (simp_all add: fresh_io_def IOManager_new_def contextResize_def)
  have "ctx_inv 5 (new_context 5)" by (rule new_context_inv)
  from register_ctx [OF this, of READ "Some (Function 8)" INIT 3 0] c show ?thesis
    by (simp add: addEvent_def addEvent_at_def Let_def is_event_def simple_epoll_def new_context_def NONE_def)
qed

lemma fresh_io_run:
  "\<exists>io'. io_run simple_epoll fresh_io {#new_waiter 3 0 (Some (Function 8))#} {#} {#} io'"
proof -
  obtain io' where "addEvent simple_epoll (Some 3) 0 INIT 5 READ (Some (Function 8)) fresh_io = Inr (0, io')"
    using fresh_io_add by blast
  from io_next [OF io_start add [OF _ this]] show ?thesis by (auto simp: is_event_def)
qed

text \<open>In every execution of an IO manager from its construction, every waiter that was registered and
  every timer callback is in exactly one place: still waiting in the table, delivered to its
  scheduler, taken by a thread, or dropped by \<open>delEvent\<close>; and the pending counter is the number of those
  that wait.\<close>

lemma no_waiter_lost:
  assumes "epoll_ok ep interest" "interest w tick \<noteq> None" "\<And>fd. 0 \<le> fd \<Longrightarrow> fd \<noteq> tick \<Longrightarrow> interest w fd = None"
    and "m_fibres s = []" "io_run ep (IOManager_new s tm w) a d t io"
  shows "a = waiters io + delivered io + d + t \<and> m_pendingEventCount io = of_nat (size (waiters io))"
proof -
  have i: "io_inv interest tick (IOManager_new s tm w)" using io_inv_new assms(2,3) .
  have "acct (IOManager_new s tm w) = {#}"
    using waiters_resize [of "[]" 32] assms(4) by (simp add: acct_def waiters_def delivered_def IOManager_new_def)
  with io_run_inv [OF assms(5,1) i] show ?thesis by (simp add: io_inv_def tab_inv_def acct_def)
qed

lemma no_waiter_lost_witness:
  "\<exists>io :: (int \<Rightarrow> u32 option) iomanager. {#new_waiter 3 0 (Some (Function 8))#} = waiters io + delivered io \<and> m_pendingEventCount io = of_nat (size (waiters io))"
proof -
  obtain io where r: "io_run simple_epoll (IOManager_new one_sched (TimerManager_new (\<lambda>_. Timer_at 0) 0) [9 \<mapsto> EPOLLIN OR EPOLLET])
      {#new_waiter 3 0 (Some (Function 8))#} {#} {#} io" using fresh_io_run by (auto simp: fresh_io_def)
  have "m_fibres one_sched = []" by (simp add: one_sched_def)
  from no_waiter_lost [OF simple_epoll_ok _ _ this r, of 9] show ?thesis by auto
qed



text \<open>Which calls can fail.  The hypothesis on readiness says that the kernel reports only what is still
  registered.\<close>

lemma addEvent_outcome:
  assumes inv: "io_inv interest tick io" and e: "is_event event" and fd: "0 \<le> fd"
  shows "if watched (m_fdContexts io) fd \<noteq> None \<and> c_events (m_fdContexts io ! nat fd) AND event \<noteq> 0
    then addEvent ep (Some s) f st fd event cb io = Inl Assert_Fail
    else cb \<noteq> None \<or> st = EXEC \<longrightarrow> (\<exists>rt io'. addEvent ep (Some s) f st fd event cb io = Inr (rt, io'))"
proof -
  have at: "if c_events (m_fdContexts j ! nat fd) AND event \<noteq> 0 then addEvent_at ep (Some s) f st fd event cb j = Inl Assert_Fail
      else cb \<noteq> None \<or> st = EXEC \<longrightarrow> (\<exists>rt io'. addEvent_at ep (Some s) f st fd event cb j = Inr (rt, io'))"
    if "ctx_inv (nat fd) (m_fdContexts j ! nat fd)" "nat fd < length (m_fdContexts j)" for j
  proof (cases "c_events (m_fdContexts j ! nat fd) AND event = 0")
    case True
    then show ?thesis using that register_ctx [OF that(1) e True, of cb st s f]
      by (auto simp: addEvent_at_def Let_def split: prod.split)
  next
    case False
    then show ?thesis using that by (simp add: addEvent_at_def cpp_assert_def Let_def)
  qed
  show ?thesis
  proof (cases "fd < int (length (m_fdContexts io))")
    case True
    then have i: "nat fd < length (m_fdContexts io)" using fd by simp
    have w: "c_events (m_fdContexts io ! nat fd) AND event \<noteq> 0 \<Longrightarrow> watched (m_fdContexts io) fd \<noteq> None"
      using True fd by (auto simp: watched_def mask_of_def)
    show ?thesis using at [OF io_inv_ctx [OF inv i] i] True fd w by (auto simp: addEvent_def split: if_splits)
  next
    case False
    have "32 \<le> length (m_fdContexts io)" using inv by (simp add: io_inv_def tab_inv_def)
    with False have g: "nat fd < grown fd" "length (m_fdContexts io) \<le> grown fd" by (auto simp: grown_def)
    have n: "contextResize (grown fd) (m_fdContexts io) ! nat fd = new_context (nat fd)"
      using g False by (simp add: nth_contextResize)
    have "watched (m_fdContexts io) fd = None" using False by (simp add: watched_def)
    then show ?thesis
      using at [of "io\<lparr>m_fdContexts := contextResize (grown fd) (m_fdContexts io)\<rparr>"] g False n new_context_inv [of "nat fd"]
      by (auto simp: addEvent_def length_contextResize new_context_def NONE_def)
  qed
qed

lemma delEvent_total: "is_event event \<Longrightarrow> 0 \<le> fd \<Longrightarrow> \<exists>b io'. delEvent ep fd event io = Inr (b, io')"
  by (auto simp: delEvent_def with_ctx_def Let_def getContext_event split: prod.split)

lemma handle_ready_total:
  assumes inv: "io_inv interest tick io" and i: "i < length (m_fdContexts io)"
    and sub: "real_events_of ev (c_events (m_fdContexts io ! i)) AND NOT (c_events (m_fdContexts io ! i)) = 0"
  shows "\<exists>io'. handle_ready ep (Ready i ev) io = Inr io'"
proof -
  let ?c = "m_fdContexts io ! i"
  let ?re = "real_events_of ev (c_events ?c)"
  obtain rt w where ep: "ep (io_world io) (if c_events ?c AND NOT ?re \<noteq> 0 then EPOLL_CTL_MOD else EPOLL_CTL_DEL) (c_fd ?c)
      (EPOLLET OR (c_events ?c AND NOT ?re)) = (rt, w)" by fastforce
  have sb: "bit ?re n \<Longrightarrow> bit (c_events ?c) n" for n
  proof -
    assume b: "bit ?re n"
    have "\<not> bit (?re AND NOT (c_events ?c)) n" unfolding sub by simp
    then show "bit (c_events ?c) n" using b bit_imp_le_length [OF b] by (simp add: bit_and_iff bit_not_iff)
  qed
  have "?re AND READ \<noteq> 0 \<longrightarrow> c_events ?c AND READ \<noteq> 0" "?re AND WRITE \<noteq> 0 \<longrightarrow> c_events ?c AND WRITE \<noteq> 0"
    using sb by (simp_all add: and_READ_zero and_WRITE_zero del: bit_0)
  from trigger_both_ok [of "io\<lparr>io_world := w\<rparr>" i "?re AND READ \<noteq> 0" "?re AND WRITE \<noteq> 0"] this inv i
  show ?thesis using ep by (auto simp: handle_ready_def Let_def io_inv_def)
qed



section \<open>Where the code breaks\<close>

text \<open>Readiness that is out of date: the kernel has reported a descriptor readable and writable, and
  before the report is handled another thread has removed the read event.  The manager then triggers
  an event that is not registered, and aborts.\<close>

lemma stale_readiness_aborts:
  assumes "i < length (m_fdContexts io)" "c_events (m_fdContexts io ! i) = WRITE"
    and "fst (ep (io_world io) EPOLL_CTL_DEL (c_fd (m_fdContexts io ! i)) EPOLLET) = 0"
  shows "handle_ready ep (Ready i (EPOLLIN OR EPOLLOUT)) io = Inl Assert_Fail"
proof -
  have "real_events_of (EPOLLIN OR EPOLLOUT) WRITE = READ OR WRITE"
    by (simp add: real_events_of_def EPOLLIN_def EPOLLOUT_def EPOLLERR_def EPOLLHUP_def READ_def WRITE_def NONE_def Let_def)
  moreover obtain w where "ep (io_world io) EPOLL_CTL_DEL (c_fd (m_fdContexts io ! i)) EPOLLET = (0, w)"
    using assms(3) by (metis fst_conv surj_pair)
  ultimately show ?thesis
    using assms by (simp add: handle_ready_def Let_def trigger_if_def trigger_at_def triggerEvent_def cpp_assert_def
        NONE_def READ_def WRITE_def)
qed

text \<open>A timer more than 31 bits of milliseconds away gives \<open>epoll_wait\<close> a negative timeout, which means for ever.\<close>

lemma distant_timer_blocks: "wait_timeout 0x80000000 = - 2147483648"
  by (simp add: wait_timeout_def clamp_timeout_def MAX_TIMEOUT_def)

lemma wait_timeout_bounds:
  assumes "unat t < 2 ^ 31 \<or> t = - 1"
  shows "0 \<le> wait_timeout t \<and> wait_timeout t \<le> 3000 \<and> (t = - 1 \<or> wait_timeout t \<le> int (unat t))"
proof (cases "t = - 1")
  case False
  then have lt: "unat t < 2 ^ 31" using assms by simp
  have ui: "uint t = int (unat t)" by simp
  have "int (unat t) < int (2 ^ 31)" using lt by (simp only: of_nat_less_iff)
  then have u: "uint t < 2 ^ 31" unfolding ui by (simp only: of_nat_power of_nat_numeral)
  have u0: "0 \<le> uint t" by simp
  have "sint (ucast t :: u32) = signed_take_bit 31 (uint t)"
    by (simp add: sint_uint unsigned_ucast_eq signed_take_bit_take_bit)
  also have "\<dots> = uint t" by (rule signed_take_bit_int_eq_self) (use u u0 in linarith)+
  finally have s: "sint (ucast t :: u32) = uint t" .
  show ?thesis
  proof (cases "uint t > 3000")
    case True
    then show ?thesis using True False s by (simp add: wait_timeout_def clamp_timeout_def MAX_TIMEOUT_def)
  next
    case small: False
    then show ?thesis using False s u0 by (simp add: wait_timeout_def clamp_timeout_def MAX_TIMEOUT_def)
  qed
qed (simp add: wait_timeout_def clamp_timeout_def MAX_TIMEOUT_def)

text \<open>Two threads that both find the table too short resize it one after the other; the second resize,
  for a smaller descriptor, cuts contexts off again.\<close>

lemma late_resize_shrinks:
  "sz < length cs \<Longrightarrow> contextResize sz cs = take sz cs"
  by (simp add: contextResize_def)

end
