(* ===== verification/Hook.thy ===== *)
theory Hook
  imports IOManager "HOL-Library.Signed_Division"
begin

text \<open>
  The hooked system calls (\<open>src/util/hook.cc\<close>, \<open>include/util/hook.h\<close>).  The original functions, which
  \<open>hook_init\<close> looks up with \<open>dlsym\<close>, are a record of functions on an abstract world, the world of the IO
  manager.  A call that yields is cut at \<open>Fibre::YieldToHold\<close>: it returns \<open>Wait\<close> with the timer that it
  holds, other steps change the state, and a second function goes on behind the yield.
\<close>

section \<open>The system\<close>

text \<open>A call of the system with all its arguments: the return value, \<open>errno\<close> when it is -1, the world.\<close>

type_synonym 'w sysfun = "'w \<Rightarrow> int \<times> int \<times> 'w"

text \<open>The variadic argument of \<open>fcntl\<close>, and what the option pointer of \<open>setsockopt\<close> points to.\<close>

datatype fcntl_arg = No_Arg | Int_Arg u32 | Ptr_Arg nat

datatype optval = Timeval int int | Opt_Int int

record 'w libc =
  lc_fstat :: "'w \<Rightarrow> int \<Rightarrow> bool option"
  lc_fcntl :: "'w \<Rightarrow> int \<Rightarrow> int \<Rightarrow> fcntl_arg \<Rightarrow> u32 \<times> 'w"
  lc_epoll_ctl :: "'w epoll"
  sleep_f :: "u32 \<Rightarrow> 'w \<Rightarrow> u32 \<times> 'w"
  usleep_f :: "u32 \<Rightarrow> 'w sysfun"
  nanosleep_f :: "int \<Rightarrow> int \<Rightarrow> 'w sysfun"
  socket_f :: "int \<Rightarrow> int \<Rightarrow> int \<Rightarrow> 'w sysfun"
  connect_f :: "int \<Rightarrow> byte list \<Rightarrow> 'w sysfun"
  close_f :: "int \<Rightarrow> 'w sysfun"
  ioctl_f :: "int \<Rightarrow> u64 \<Rightarrow> int \<Rightarrow> 'w sysfun"
  getsockopt_f :: "int \<Rightarrow> int \<Rightarrow> int \<Rightarrow> 'w \<Rightarrow> int \<times> int \<times> int \<times> 'w"
  setsockopt_f :: "int \<Rightarrow> int \<Rightarrow> int \<Rightarrow> optval \<Rightarrow> 'w sysfun"

definition os_of :: "'w libc \<Rightarrow> 'w os" where
  "os_of lc = \<lparr>os_fstat = lc_fstat lc, fcntl_f = (\<lambda>w fd cmd a. lc_fcntl lc w fd cmd (Int_Arg a))\<rparr>"

definition EINTR :: int where "EINTR = 4"
definition EBADF :: int where "EBADF = 9"
definition EAGAIN :: int where "EAGAIN = 11"
definition ETIMEDOUT :: int where "ETIMEDOUT = 110"
definition EINPROGRESS :: int where "EINPROGRESS = 115"
definition SOL_SOCKET :: int where "SOL_SOCKET = 1"
definition SO_ERROR :: int where "SO_ERROR = 4"
definition FIONBIO :: u64 where "FIONBIO = 0x5421"

section \<open>State\<close>

text \<open>The closures that the hooks give to timers: the one of \<open>do_io\<close> and \<open>connect_with_timeout\<close>, with the
  address of the \<open>timer_info\<close> that it holds weakly, and the one that schedules a sleeping fibre.\<close>

datatype closure = Io_Timeout nat int u32 | Wake nat

text \<open>\<open>hk_infos\<close> holds the field \<open>cancelled\<close> of the \<open>timer_info\<close> objects that are alive; \<open>errno\<close> and
  \<open>t_hook_enable\<close> are thread-local.\<close>

record 'w hooks =
  t_hook_enable :: "int \<Rightarrow> bool"
  s_connect_timeout :: u64
  hk_errno :: "int \<Rightarrow> int"
  hk_fds :: fd_table
  hk_infos :: "nat \<Rightarrow> int option"
  hk_closures :: "nat \<Rightarrow> closure option"
  hk_io :: "'w iomanager"

text \<open>The caller: its thread, fibre, whether \<open>IOManager::GetThis()\<close> is there, the clock, the addresses of
  the next timer, \<open>timer_info\<close> and closure, whether a write to the tickle pipe succeeds, and the \<open>errno\<close>
  that a failing \<open>epoll_ctl\<close> leaves.\<close>

record caller =
  hc_tid :: int
  hc_fibre :: nat
  hc_fstate :: fstate
  hc_iom :: bool
  hc_now :: u64
  hc_timer :: nat
  hc_info :: nat
  hc_fun :: nat
  hc_pipe_ok :: bool
  hc_ctl_errno :: int

text \<open>How far a call got: it returned, or it yielded.\<close>

datatype progress = Done int | Wait "nat option"

definition is_hook_enable :: "int \<Rightarrow> 'w hooks \<Rightarrow> bool" where
  "is_hook_enable tid h = t_hook_enable h tid"

definition set_hook_enable :: "int \<Rightarrow> bool \<Rightarrow> 'w hooks \<Rightarrow> 'w hooks" where
  "set_hook_enable tid flag h = h\<lparr>t_hook_enable := (t_hook_enable h)(tid := flag)\<rparr>"

text \<open>\<open>_HookIniter\<close> and its listener store the configured \<open>int\<close> as a \<open>uint64_t\<close>.\<close>

definition HookIniter :: "int \<Rightarrow> 'w hooks \<Rightarrow> 'w hooks" where
  "HookIniter tcp_connect_timeout h = h\<lparr>s_connect_timeout := of_int tcp_connect_timeout\<rparr>"

definition connect_timeout_listener :: "int \<Rightarrow> int \<Rightarrow> 'w hooks \<Rightarrow> 'w hooks" where
  "connect_timeout_listener old_value new_value h = h\<lparr>s_connect_timeout := of_int new_value\<rparr>"

text \<open>\<open>hook_init\<close>: the function pointers, all null at first, and the static \<open>is_inited\<close>, which nothing ever sets.\<close>

definition hook_funs :: "string list" where
  "hook_funs = [''sleep'', ''usleep'', ''nanosleep'', ''socket'', ''connect'', ''accept'', ''read'', ''readv'', ''recv'', ''recvfrom'',
     ''recvmsg'', ''write'', ''writev'', ''send'', ''sendto'', ''sendmsg'', ''close'', ''fcntl'', ''ioctl'', ''getsockopt'', ''setsockopt'']"

definition hook_pointers :: "string \<Rightarrow> nat option" where
  "hook_pointers = (\<lambda>_. None)"

definition hook_init :: "(string \<Rightarrow> nat option) \<Rightarrow> bool \<Rightarrow> (string \<Rightarrow> nat option) \<Rightarrow> bool \<times> (string \<Rightarrow> nat option)" where
  "hook_init dlsym is_inited ps =
     (if is_inited then (is_inited, ps) else (is_inited, fold (\<lambda>name ps. ps(name := dlsym name)) hook_funs ps))"

text \<open>Every pointer is the next definition of its name; each further call looks all of them up again.\<close>

lemma hook_init_exact:
  "hook_init dlsym False hook_pointers = (False, \<lambda>name. if name \<in> set hook_funs then dlsym name else None)"
proof -
  have "fold (\<lambda>name ps. ps(name := dlsym name)) ns ps = (\<lambda>name. if name \<in> set ns then dlsym name else ps name)" for ns ps
    by (induction ns arbitrary: ps) (auto simp: fun_eq_iff)
  then show ?thesis by (simp add: hook_init_def hook_pointers_def)
qed

section \<open>Calls of the system\<close>

definition hk_world :: "'w hooks \<Rightarrow> 'w" where
  "hk_world h = io_world (hk_io h)"

definition set_world :: "'w \<Rightarrow> 'w hooks \<Rightarrow> 'w hooks" where
  "set_world w h = h\<lparr>hk_io := (hk_io h)\<lparr>io_world := w\<rparr>\<rparr>"

definition set_errno :: "int \<Rightarrow> int \<Rightarrow> 'w hooks \<Rightarrow> 'w hooks" where
  "set_errno tid e h = h\<lparr>hk_errno := (hk_errno h)(tid := e)\<rparr>"

definition sys_result :: "int \<Rightarrow> int \<times> int \<times> 'w \<Rightarrow> 'w hooks \<Rightarrow> int \<times> 'w hooks" where
  "sys_result tid r h =
     (case r of (n, e, w) \<Rightarrow> (n, (if n = - 1 then set_errno tid e else id) (set_world w h)))"

definition sys_call :: "int \<Rightarrow> 'w sysfun \<Rightarrow> 'w hooks \<Rightarrow> int \<times> 'w hooks" where
  "sys_call tid f h = sys_result tid (f (hk_world h)) h"

definition passes :: "int \<Rightarrow> 'w sysfun \<Rightarrow> 'w hooks \<Rightarrow> (progress \<times> 'w hooks) res" where
  "passes tid f h = (let (n, h) = sys_call tid f h in Inr (Done n, h))"

definition fd_get :: "'w libc \<Rightarrow> int \<Rightarrow> bool \<Rightarrow> 'w hooks \<Rightarrow> (fd_ctx option \<times> 'w hooks) res" where
  "fd_get lc fd auto_create h =
     rbind (FdManager_get (os_of lc) (hk_world h) (hk_fds h) fd auto_create) (\<lambda>(ctx, fds, w).
       Inr (ctx, set_world w (h\<lparr>hk_fds := fds\<rparr>)))"

definition put_fd :: "int \<Rightarrow> fd_ctx \<Rightarrow> 'w hooks \<Rightarrow> 'w hooks" where
  "put_fd fd ctx h = h\<lparr>hk_fds := (hk_fds h)[nat fd := Some ctx]\<rparr>"

section \<open>Timers of a call\<close>

definition free_info :: "nat \<Rightarrow> 'w hooks \<Rightarrow> 'w hooks" where
  "free_info tinfo h = h\<lparr>hk_infos := (hk_infos h)(tinfo := None)\<rparr>"

definition put_closure :: "nat \<Rightarrow> closure \<Rightarrow> 'w hooks \<Rightarrow> 'w hooks" where
  "put_closure k cl h = h\<lparr>hk_closures := (hk_closures h)(k \<mapsto> cl)\<rparr>"

text \<open>The notification that follows the insertion of a timer.\<close>

definition with_timers :: "caller \<Rightarrow> bool \<times> timer_manager \<Rightarrow> 'w hooks \<Rightarrow> 'w hooks res" where
  "with_timers c r h =
     (let (at_front, tm) = r;
          io = (hk_io h)\<lparr>io_timers := tm\<rparr>
      in rbind (if at_front then onTimerInsertAtFront (hc_pipe_ok c) io else Inr io) (\<lambda>io.
           Inr (h\<lparr>hk_io := io\<rparr>)))"

definition arm_timeout :: "caller \<Rightarrow> u64 \<Rightarrow> int \<Rightarrow> u32 \<Rightarrow> nat \<Rightarrow> 'w hooks \<Rightarrow> (nat option \<times> 'w hooks) res" where
  "arm_timeout c to fd event tinfo h =
     (if to \<noteq> - 1 then
        rbind (with_timers c (addConditionTimer (hc_now c) (hc_timer c) to (Function (hc_fun c)) tinfo False (io_timers (hk_io h)))
                 (put_closure (hc_fun c) (Io_Timeout tinfo fd event) h)) (\<lambda>h.
          Inr (Some (hc_timer c), h))
      else Inr (None, h))"

definition cancel_timer :: "nat option \<Rightarrow> 'w hooks \<Rightarrow> 'w hooks res" where
  "cancel_timer timer h =
     (case timer of None \<Rightarrow> Inr h
      | Some p \<Rightarrow> rbind (cancel p (io_timers (hk_io h))) (\<lambda>(b, tm). Inr (h\<lparr>hk_io := (hk_io h)\<lparr>io_timers := tm\<rparr>\<rparr>)))"

text \<open>\<open>addEvent\<close> of the caller's own fibre.\<close>

definition wait_event :: "'w libc \<Rightarrow> caller \<Rightarrow> int \<Rightarrow> u32 \<Rightarrow> 'w hooks \<Rightarrow> (int \<times> 'w hooks) res" where
  "wait_event lc c fd event h =
     rbind (addEvent (lc_epoll_ctl lc) (Some (m_this (io_sched (hk_io h)))) (hc_fibre c) (hc_fstate c) fd event None (hk_io h))
       (\<lambda>(rt, io). Inr (rt, (if rt \<noteq> 0 then set_errno (hc_tid c) (hc_ctl_errno c) else id) (h\<lparr>hk_io := io\<rparr>)))"

text \<open>The closures, when a timer fires.\<close>

definition run_closure :: "'w libc \<Rightarrow> closure \<Rightarrow> 'w hooks \<Rightarrow> 'w hooks res" where
  "run_closure lc cl h =
     (case cl of
        Io_Timeout tinfo fd event \<Rightarrow>
          (case hk_infos h tinfo of None \<Rightarrow> Inr h
           | Some cancelled \<Rightarrow>
               if cancelled \<noteq> 0 then Inr h
               else
                 let h = h\<lparr>hk_infos := (hk_infos h)(tinfo \<mapsto> ETIMEDOUT)\<rparr>
                 in rbind (cancelEvent (lc_epoll_ctl lc) fd event (hk_io h)) (\<lambda>(b, io). Inr (h\<lparr>hk_io := io\<rparr>)))
      | Wake fibre \<Rightarrow>
          Inr (h\<lparr>hk_io := own_schedule \<lparr>ft_fibre = Some fibre, ft_cb = None, ft_thread = - 1\<rparr> (hk_io h)\<rparr>))"

text \<open>What a scheduled timer callback does: the conditional wrapper, then the closure.\<close>

fun run_closures :: "'w libc \<Rightarrow> nat list \<Rightarrow> 'w hooks \<Rightarrow> 'w hooks res" where
  "run_closures lc [] h = Inr h"
| "run_closures lc (k # ks) h =
     rbind (case hk_closures h k of None \<Rightarrow> Inr h | Some cl \<Rightarrow> run_closure lc cl h) (\<lambda>h. run_closures lc ks h)"

definition fire_timer :: "'w libc \<Rightarrow> callback \<Rightarrow> 'w hooks \<Rightarrow> 'w hooks res" where
  "fire_timer lc cb h = run_closures lc (run_callback (\<lambda>p. hk_infos h p \<noteq> None) cb) h"

section \<open>Input and output\<close>

text \<open>The loop around an interrupted call.\<close>

partial_function (option) call_eintr :: "'w sysfun \<Rightarrow> 'w \<Rightarrow> (int \<times> int \<times> 'w) option" where
  "call_eintr f w =
     (case f w of (n, e, w') \<Rightarrow> if n = - 1 \<and> e = EINTR then call_eintr f w' else Some (n, e, w'))"

text \<open>From the label \<open>retry\<close> to the yield or to the return; \<open>tinfo\<close> dies with the call.\<close>

definition do_io_retry ::
  "'w libc \<Rightarrow> caller \<Rightarrow> 'w sysfun \<Rightarrow> int \<Rightarrow> u32 \<Rightarrow> u64 \<Rightarrow> nat \<Rightarrow> 'w hooks \<Rightarrow> (progress \<times> 'w hooks) res" where
  "do_io_retry lc c f fd event to tinfo h =
     (case call_eintr f (hk_world h) of
        None \<Rightarrow> Inl Diverge
      | Some r \<Rightarrow>
        let (n, h) = sys_result (hc_tid c) r h
        in if n = - 1 \<and> hk_errno h (hc_tid c) = EAGAIN then
             if \<not> hc_iom c then Inl Null_Deref
             else
               rbind (arm_timeout c to fd event tinfo h) (\<lambda>(timer, h).
               rbind (wait_event lc c fd event h) (\<lambda>(rt, h).
                 if rt \<noteq> 0 then rbind (cancel_timer timer h) (\<lambda>h. Inr (Done (- 1), free_info tinfo h))
                 else Inr (Wait timer, h)))
           else Inr (Done n, free_info tinfo h))"

definition do_io ::
  "'w libc \<Rightarrow> caller \<Rightarrow> 'w sysfun \<Rightarrow> int \<Rightarrow> u32 \<Rightarrow> int \<Rightarrow> 'w hooks \<Rightarrow> (progress \<times> 'w hooks) res" where
  "do_io lc c f fd event timeout_so h =
     (if \<not> t_hook_enable h (hc_tid c) then passes (hc_tid c) f h
      else rbind (fd_get lc fd False h) (\<lambda>(ctx, h).
        case ctx of
          None \<Rightarrow> passes (hc_tid c) f h
        | Some ctx \<Rightarrow>
            if m_isClosed ctx then Inr (Done (- 1), set_errno (hc_tid c) EBADF h)
            else if \<not> m_isSocket ctx \<or> m_userNonblock ctx then passes (hc_tid c) f h
            else do_io_retry lc c f fd event (getTimeout timeout_so ctx) (hc_info c)
                   (h\<lparr>hk_infos := (hk_infos h)(hc_info c \<mapsto> 0)\<rparr>)))"

text \<open>Behind the yield.\<close>

definition do_io_resume ::
  "'w libc \<Rightarrow> caller \<Rightarrow> 'w sysfun \<Rightarrow> int \<Rightarrow> u32 \<Rightarrow> u64 \<Rightarrow> nat \<Rightarrow> nat option \<Rightarrow> 'w hooks \<Rightarrow> (progress \<times> 'w hooks) res" where
  "do_io_resume lc c f fd event to tinfo timer h =
     rbind (cancel_timer timer h) (\<lambda>h.
       case hk_infos h tinfo of
         None \<Rightarrow> Inl Bad_Access
       | Some cancelled \<Rightarrow>
           if cancelled \<noteq> 0 then Inr (Done (- 1), free_info tinfo (set_errno (hc_tid c) cancelled h))
           else do_io_retry lc c f fd event to tinfo h)"

section \<open>Sleeping\<close>

definition sleep_for :: "caller \<Rightarrow> u64 \<Rightarrow> 'w hooks \<Rightarrow> (progress \<times> 'w hooks) res" where
  "sleep_for c ms h =
     (if \<not> hc_iom c then Inl Null_Deref
      else
        rbind (with_timers c (addTimer (hc_now c) (hc_timer c) ms (Some (Function (hc_fun c))) False (io_timers (hk_io h)))
                 (put_closure (hc_fun c) (Wake (hc_fibre c)) h)) (\<lambda>h.
          Inr (Wait (Some (hc_timer c)), h)))"

text \<open>The multiplication is one of \<open>unsigned int\<close>, the result of the last sum is cut to
  \<open>int\<close>.\<close>

definition sleep_ms :: "u32 \<Rightarrow> u64" where
  "sleep_ms seconds = ucast (seconds * 1000)"

definition usleep_ms :: "u32 \<Rightarrow> u64" where
  "usleep_ms usec = ucast (usec div 1000)"

definition nanosleep_ms :: "int \<Rightarrow> int \<Rightarrow> u64" where
  "nanosleep_ms tv_sec tv_nsec =
     of_int (sint (of_int (tv_sec * 1000 + tv_nsec sdiv 1000 sdiv 1000) :: u32))"

definition hook_sleep :: "'w libc \<Rightarrow> caller \<Rightarrow> u32 \<Rightarrow> 'w hooks \<Rightarrow> (progress \<times> 'w hooks) res" where
  "hook_sleep lc c seconds h =
     (if \<not> t_hook_enable h (hc_tid c)
      then (let (n, w) = sleep_f lc seconds (hk_world h) in Inr (Done (uint n), set_world w h))
      else sleep_for c (sleep_ms seconds) h)"

definition hook_usleep :: "'w libc \<Rightarrow> caller \<Rightarrow> u32 \<Rightarrow> 'w hooks \<Rightarrow> (progress \<times> 'w hooks) res" where
  "hook_usleep lc c usec h =
     (if \<not> t_hook_enable h (hc_tid c) then passes (hc_tid c) (usleep_f lc usec) h
      else sleep_for c (usleep_ms usec) h)"

definition hook_nanosleep :: "'w libc \<Rightarrow> caller \<Rightarrow> int \<Rightarrow> int \<Rightarrow> 'w hooks \<Rightarrow> (progress \<times> 'w hooks) res" where
  "hook_nanosleep lc c tv_sec tv_nsec h =
     (if \<not> t_hook_enable h (hc_tid c) then passes (hc_tid c) (nanosleep_f lc tv_sec tv_nsec) h
      else sleep_for c (nanosleep_ms tv_sec tv_nsec) h)"

text \<open>Behind the yield all three return 0.\<close>

definition sleep_resume :: "'w hooks \<Rightarrow> (progress \<times> 'w hooks) res" where
  "sleep_resume h = Inr (Done 0, h)"

section \<open>Sockets\<close>

definition hook_socket :: "'w libc \<Rightarrow> caller \<Rightarrow> int \<Rightarrow> int \<Rightarrow> int \<Rightarrow> 'w hooks \<Rightarrow> (progress \<times> 'w hooks) res" where
  "hook_socket lc c domain type protocol h =
     (if \<not> t_hook_enable h (hc_tid c) then passes (hc_tid c) (socket_f lc domain type protocol) h
      else
        let (fd, h) = sys_call (hc_tid c) (socket_f lc domain type protocol) h
        in if fd = - 1 then Inr (Done fd, h)
           else rbind (fd_get lc fd True h) (\<lambda>(ctx, h). Inr (Done fd, h)))"

definition hook_getsockopt :: "'w libc \<Rightarrow> caller \<Rightarrow> int \<Rightarrow> int \<Rightarrow> int \<Rightarrow> 'w hooks \<Rightarrow> int \<times> int \<times> 'w hooks" where
  "hook_getsockopt lc c sockfd level optname h =
     (let (n, e, v, w) = getsockopt_f lc sockfd level optname (hk_world h);
          (n, h) = sys_result (hc_tid c) (n, e, w) h
      in (n, v, h))"

text \<open>The end of \<open>connect_with_timeout\<close>.\<close>

definition connect_error :: "'w libc \<Rightarrow> caller \<Rightarrow> int \<Rightarrow> nat \<Rightarrow> 'w hooks \<Rightarrow> (progress \<times> 'w hooks) res" where
  "connect_error lc c fd tinfo h =
     (let (n, error, h) = hook_getsockopt lc c fd SOL_SOCKET SO_ERROR h
      in Inr (if n = - 1 then (Done (- 1), free_info tinfo h)
              else if error = 0 then (Done 0, free_info tinfo h)
              else (Done (- 1), free_info tinfo (set_errno (hc_tid c) error h))))"

definition connect_with_timeout ::
  "'w libc \<Rightarrow> caller \<Rightarrow> int \<Rightarrow> byte list \<Rightarrow> u64 \<Rightarrow> 'w hooks \<Rightarrow> (progress \<times> 'w hooks) res" where
  "connect_with_timeout lc c fd addr timeout_ms h =
     (let tid = hc_tid c; f = connect_f lc fd addr in
      if \<not> t_hook_enable h tid then passes tid f h
      else rbind (fd_get lc fd False h) (\<lambda>(ctx, h).
        case ctx of
          None \<Rightarrow> Inr (Done (- 1), set_errno tid EBADF h)
        | Some ctx \<Rightarrow>
            if m_isClosed ctx then Inr (Done (- 1), set_errno tid EBADF h)
            else if \<not> m_isSocket ctx then passes tid f h
            else if m_userNonblock ctx then passes tid f h
            else
              let (n, h) = sys_call tid f h
              in if n = 0 then Inr (Done 0, h)
                 else if n \<noteq> - 1 \<or> hk_errno h tid \<noteq> EINPROGRESS then Inr (Done n, h)
                 else if \<not> hc_iom c then Inl Null_Deref
                 else
                   let h = h\<lparr>hk_infos := (hk_infos h)(hc_info c \<mapsto> 0)\<rparr>
                   in rbind (arm_timeout c timeout_ms fd WRITE (hc_info c) h) (\<lambda>(timer, h).
                      rbind (wait_event lc c fd WRITE h) (\<lambda>(rt, h).
                        if rt = 0 then Inr (Wait timer, h)
                        else rbind (cancel_timer timer h) (\<lambda>h. connect_error lc c fd (hc_info c) h)))))"

definition connect_resume ::
  "'w libc \<Rightarrow> caller \<Rightarrow> int \<Rightarrow> nat \<Rightarrow> nat option \<Rightarrow> 'w hooks \<Rightarrow> (progress \<times> 'w hooks) res" where
  "connect_resume lc c fd tinfo timer h =
     rbind (cancel_timer timer h) (\<lambda>h.
       case hk_infos h tinfo of
         None \<Rightarrow> Inl Bad_Access
       | Some cancelled \<Rightarrow>
           if cancelled \<noteq> 0 then Inr (Done (- 1), free_info tinfo (set_errno (hc_tid c) cancelled h))
           else connect_error lc c fd tinfo h)"

definition hook_connect :: "'w libc \<Rightarrow> caller \<Rightarrow> int \<Rightarrow> byte list \<Rightarrow> 'w hooks \<Rightarrow> (progress \<times> 'w hooks) res" where
  "hook_connect lc c sockfd addr h = connect_with_timeout lc c sockfd addr (s_connect_timeout h) h"

text \<open>What \<open>accept\<close> does with the result of \<open>do_io\<close>, at once or when the call is resumed; the
  conversion of the result to \<open>int\<close> does not change a descriptor.\<close>

definition accept_finish :: "'w libc \<Rightarrow> progress \<times> 'w hooks \<Rightarrow> (progress \<times> 'w hooks) res" where
  "accept_finish lc r =
     (case r of
        (Done fd, h) \<Rightarrow> if fd \<ge> 0 then rbind (fd_get lc fd True h) (\<lambda>(ctx, h). Inr (Done fd, h)) else Inr (Done fd, h)
      | (Wait timer, h) \<Rightarrow> Inr (Wait timer, h))"

text \<open>The wrappers: \<open>f\<close> is the original function on the wrapper's own arguments.\<close>

definition hook_accept :: "'w libc \<Rightarrow> caller \<Rightarrow> 'w sysfun \<Rightarrow> int \<Rightarrow> 'w hooks \<Rightarrow> (progress \<times> 'w hooks) res" where
  "hook_accept lc c accept_f s h = rbind (do_io lc c accept_f s READ SO_RCVTIMEO h) (accept_finish lc)"

definition hook_read :: "'w libc \<Rightarrow> caller \<Rightarrow> 'w sysfun \<Rightarrow> int \<Rightarrow> 'w hooks \<Rightarrow> (progress \<times> 'w hooks) res" where
  "hook_read lc c read_f fd h = do_io lc c read_f fd READ SO_RCVTIMEO h"

definition hook_readv :: "'w libc \<Rightarrow> caller \<Rightarrow> 'w sysfun \<Rightarrow> int \<Rightarrow> 'w hooks \<Rightarrow> (progress \<times> 'w hooks) res" where
  "hook_readv lc c readv_f fd h = do_io lc c readv_f fd READ SO_RCVTIMEO h"

definition hook_recv :: "'w libc \<Rightarrow> caller \<Rightarrow> 'w sysfun \<Rightarrow> int \<Rightarrow> 'w hooks \<Rightarrow> (progress \<times> 'w hooks) res" where
  "hook_recv lc c recv_f sockfd h = do_io lc c recv_f sockfd READ SO_RCVTIMEO h"

definition hook_recvfrom :: "'w libc \<Rightarrow> caller \<Rightarrow> 'w sysfun \<Rightarrow> int \<Rightarrow> 'w hooks \<Rightarrow> (progress \<times> 'w hooks) res" where
  "hook_recvfrom lc c recvfrom_f sockfd h = do_io lc c recvfrom_f sockfd READ SO_RCVTIMEO h"

definition hook_recvmsg :: "'w libc \<Rightarrow> caller \<Rightarrow> 'w sysfun \<Rightarrow> int \<Rightarrow> 'w hooks \<Rightarrow> (progress \<times> 'w hooks) res" where
  "hook_recvmsg lc c recvmsg_f sockfd h = do_io lc c recvmsg_f sockfd READ SO_RCVTIMEO h"

definition hook_write :: "'w libc \<Rightarrow> caller \<Rightarrow> 'w sysfun \<Rightarrow> int \<Rightarrow> 'w hooks \<Rightarrow> (progress \<times> 'w hooks) res" where
  "hook_write lc c write_f fd h = do_io lc c write_f fd WRITE SO_RCVTIMEO h"

definition hook_writev :: "'w libc \<Rightarrow> caller \<Rightarrow> 'w sysfun \<Rightarrow> int \<Rightarrow> 'w hooks \<Rightarrow> (progress \<times> 'w hooks) res" where
  "hook_writev lc c writev_f fd h = do_io lc c writev_f fd WRITE SO_SNDTIMEO h"

definition hook_send :: "'w libc \<Rightarrow> caller \<Rightarrow> 'w sysfun \<Rightarrow> int \<Rightarrow> 'w hooks \<Rightarrow> (progress \<times> 'w hooks) res" where
  "hook_send lc c send_f s h = do_io lc c send_f s WRITE SO_SNDTIMEO h"

definition hook_sendto :: "'w libc \<Rightarrow> caller \<Rightarrow> 'w sysfun \<Rightarrow> int \<Rightarrow> 'w hooks \<Rightarrow> (progress \<times> 'w hooks) res" where
  "hook_sendto lc c sendto_f s h = do_io lc c sendto_f s WRITE SO_SNDTIMEO h"

definition hook_sendmsg :: "'w libc \<Rightarrow> caller \<Rightarrow> 'w sysfun \<Rightarrow> int \<Rightarrow> 'w hooks \<Rightarrow> (progress \<times> 'w hooks) res" where
  "hook_sendmsg lc c sendmsg_f s h = do_io lc c sendmsg_f s WRITE SO_SNDTIMEO h"

section \<open>Closing and options\<close>

definition hook_close :: "'w libc \<Rightarrow> caller \<Rightarrow> int \<Rightarrow> 'w hooks \<Rightarrow> (progress \<times> 'w hooks) res" where
  "hook_close lc c fd h =
     (if \<not> t_hook_enable h (hc_tid c) then passes (hc_tid c) (close_f lc fd) h
      else rbind (fd_get lc fd False h) (\<lambda>(ctx, h).
        rbind (if ctx \<noteq> None then
                 rbind (if hc_iom c
                        then rbind (cancelAll (lc_epoll_ctl lc) fd (hk_io h)) (\<lambda>(b, io). Inr (h\<lparr>hk_io := io\<rparr>))
                        else Inr h) (\<lambda>h.
                 rbind (FdManager_del (hk_fds h) fd) (\<lambda>fds. Inr (h\<lparr>hk_fds := fds\<rparr>)))
               else Inr h) (\<lambda>h.
        passes (hc_tid c) (close_f lc fd) h)))"

definition F_DUPFD :: int where "F_DUPFD = 0"
definition F_GETFD :: int where "F_GETFD = 1"
definition F_SETFD :: int where "F_SETFD = 2"
definition F_GETLK :: int where "F_GETLK = 5"
definition F_SETLK :: int where "F_SETLK = 6"
definition F_SETLKW :: int where "F_SETLKW = 7"
definition F_SETOWN :: int where "F_SETOWN = 8"
definition F_GETOWN :: int where "F_GETOWN = 9"
definition F_SETSIG :: int where "F_SETSIG = 10"
definition F_GETSIG :: int where "F_GETSIG = 11"
definition F_SETLEASE :: int where "F_SETLEASE = 1024"
definition F_GETLEASE :: int where "F_GETLEASE = 1025"
definition F_NOTIFY :: int where "F_NOTIFY = 1026"
definition F_DUPFD_CLOEXEC :: int where "F_DUPFD_CLOEXEC = 1030"
definition F_SETPIPE_SZ :: int where "F_SETPIPE_SZ = 1031"
definition F_GETPIPE_SZ :: int where "F_GETPIPE_SZ = 1032"

text \<open>\<open>va_arg\<close> with the wrong type is undefined.\<close>

definition va_int :: "fcntl_arg \<Rightarrow> u32 res" where
  "va_int a = (case a of Int_Arg v \<Rightarrow> Inr v | _ \<Rightarrow> Inl Undefined)"

definition va_ptr :: "fcntl_arg \<Rightarrow> nat res" where
  "va_ptr a = (case a of Ptr_Arg p \<Rightarrow> Inr p | _ \<Rightarrow> Inl Undefined)"

definition fcntl_sys :: "'w libc \<Rightarrow> int \<Rightarrow> int \<Rightarrow> fcntl_arg \<Rightarrow> 'w hooks \<Rightarrow> (u32 \<times> 'w hooks) res" where
  "fcntl_sys lc fd cmd arg h = (let (r, w) = lc_fcntl lc (hk_world h) fd cmd arg in Inr (r, set_world w h))"

text \<open>A context whose flags are virtual: a socket that is open.\<close>

definition virtual :: "fd_ctx option \<Rightarrow> fd_ctx option" where
  "virtual ctx = (case ctx of None \<Rightarrow> None | Some x \<Rightarrow> if m_isClosed x \<or> \<not> m_isSocket x then None else Some x)"

definition hook_fcntl :: "'w libc \<Rightarrow> int \<Rightarrow> int \<Rightarrow> fcntl_arg \<Rightarrow> 'w hooks \<Rightarrow> (u32 \<times> 'w hooks) res" where
  "hook_fcntl lc fd cmd va h =
     (if cmd = F_SETFL then
        rbind (va_int va) (\<lambda>arg.
        rbind (fd_get lc fd False h) (\<lambda>(ctx, h).
          case virtual ctx of
            None \<Rightarrow> fcntl_sys lc fd cmd (Int_Arg arg) h
          | Some ctx \<Rightarrow>
              let ctx = ctx\<lparr>m_userNonblock := arg AND O_NONBLOCK \<noteq> 0\<rparr>;
                  arg = (if m_sysNonblock ctx then arg OR O_NONBLOCK else arg AND NOT O_NONBLOCK)
              in fcntl_sys lc fd cmd (Int_Arg arg) (put_fd fd ctx h)))
      else if cmd = F_GETFL then
        rbind (fcntl_sys lc fd cmd No_Arg h) (\<lambda>(arg, h).
        rbind (fd_get lc fd False h) (\<lambda>(ctx, h).
          case virtual ctx of
            None \<Rightarrow> Inr (arg, h)
          | Some ctx \<Rightarrow> if m_userNonblock ctx then Inr (arg OR O_NONBLOCK, h) else Inr (arg AND NOT O_NONBLOCK, h)))
      else if cmd \<in> {F_DUPFD, F_DUPFD_CLOEXEC, F_SETFD, F_SETOWN, F_SETSIG, F_SETLEASE, F_NOTIFY, F_SETPIPE_SZ} then
        rbind (va_int va) (\<lambda>arg. fcntl_sys lc fd cmd (Int_Arg arg) h)
      else if cmd \<in> {F_GETFD, F_GETOWN, F_GETSIG, F_GETLEASE, F_GETPIPE_SZ} then fcntl_sys lc fd cmd No_Arg h
      else if cmd \<in> {F_SETLK, F_SETLKW, F_GETLK} then
        rbind (va_ptr va) (\<lambda>arg. fcntl_sys lc fd cmd (Ptr_Arg arg) h)
      else fcntl_sys lc fd cmd No_Arg h)"

text \<open>\<open>arg\<close> is the \<open>int\<close> that the pointer argument points to.\<close>

definition hook_ioctl :: "'w libc \<Rightarrow> caller \<Rightarrow> int \<Rightarrow> u64 \<Rightarrow> int \<Rightarrow> 'w hooks \<Rightarrow> (progress \<times> 'w hooks) res" where
  "hook_ioctl lc c d request arg h =
     (if FIONBIO = request then
        rbind (fd_get lc d False h) (\<lambda>(ctx, h).
          case virtual ctx of
            None \<Rightarrow> passes (hc_tid c) (ioctl_f lc d request arg) h
          | Some ctx \<Rightarrow>
              passes (hc_tid c) (ioctl_f lc d request arg) (put_fd d (ctx\<lparr>m_userNonblock := arg \<noteq> 0\<rparr>) h))
      else passes (hc_tid c) (ioctl_f lc d request arg) h)"

text \<open>The sum is one of \<open>long\<close>, converted to \<open>uint64_t\<close>.\<close>

definition timeval_ms :: "int \<Rightarrow> int \<Rightarrow> u64" where
  "timeval_ms tv_sec tv_usec = of_int (tv_sec * 1000 + tv_usec sdiv 1000)"

definition hook_setsockopt ::
  "'w libc \<Rightarrow> caller \<Rightarrow> int \<Rightarrow> int \<Rightarrow> int \<Rightarrow> optval \<Rightarrow> 'w hooks \<Rightarrow> (progress \<times> 'w hooks) res" where
  "hook_setsockopt lc c sockfd level optname optval h =
     (let go = passes (hc_tid c) (setsockopt_f lc sockfd level optname optval) in
      if \<not> t_hook_enable h (hc_tid c) then go h
      else if level = SOL_SOCKET \<and> (optname = SO_RCVTIMEO \<or> optname = SO_SNDTIMEO) then
        rbind (fd_get lc sockfd False h) (\<lambda>(ctx, h).
          case ctx of
            None \<Rightarrow> go h
          | Some ctx \<Rightarrow>
              (case optval of
                 Timeval tv_sec tv_usec \<Rightarrow> go (put_fd sockfd (setTimeout optname (timeval_ms tv_sec tv_usec) ctx) h)
               | Opt_Int _ \<Rightarrow> Inl Undefined))
      else go h)"

end
