(* ===== verification/Hook_Props.thy ===== *)
theory Hook_Props
  imports Hook IOManager_Props Timer_Props
begin

text \<open>
  The hooked calls: the loop around an interrupted call ends when the system stops interrupting; a
  blocking call returns the system's answer or leaves its fibre registered with a timer armed; the
  timer wakes it with \<open>ETIMEDOUT\<close>; and the non-blocking flag that the program sees is its own.
\<close>

section \<open>The loop around an interrupted call\<close>

definition interrupted :: "int \<times> int \<times> 'w \<Rightarrow> bool" where
  "interrupted r \<longleftrightarrow> fst r = - 1 \<and> fst (snd r) = EINTR"

definition after :: "'w sysfun \<Rightarrow> 'w \<Rightarrow> 'w" where
  "after f w = snd (snd (f w))"

lemma call_eintr_unfold:
  "call_eintr f w = (if interrupted (f w) then call_eintr f (after f w) else Some (f w))"
  by (subst call_eintr.simps) (cases "f w"; simp add: interrupted_def after_def)

lemma call_eintr_ends: "\<not> interrupted (f ((after f ^^ k) w)) \<Longrightarrow> call_eintr f w \<noteq> None"
proof (induction k arbitrary: w)
  case 0
  then show ?case by (subst call_eintr_unfold) simp
next
  case (Suc k)
  then have "call_eintr f (after f w) \<noteq> None" by (metis funpow_simps_right(2) o_apply)
  then show ?case by (subst call_eintr_unfold) (cases "f w", simp)
qed

text \<open>It makes the first call that is not interrupted the result.\<close>

definition first_answer :: "'w sysfun \<Rightarrow> 'w \<Rightarrow> int \<times> int \<times> 'w \<Rightarrow> bool" where
  "first_answer f w r \<longleftrightarrow>
     (\<exists>k. r = f ((after f ^^ k) w) \<and> \<not> interrupted r \<and> (\<forall>j<k. interrupted (f ((after f ^^ j) w))))"

lemma first_answer_now: "\<not> interrupted (f w) \<Longrightarrow> first_answer f w (f w)"
  unfolding first_answer_def by (rule exI [of _ 0]) simp

lemma first_answer_later:
  assumes "interrupted (f w)" "first_answer f (after f w) r"
  shows "first_answer f w r"
proof -
  obtain k where k: "r = f ((after f ^^ k) (after f w))" "\<not> interrupted r"
    "\<forall>j<k. interrupted (f ((after f ^^ j) (after f w)))" using assms(2) by (auto simp: first_answer_def)
  have "interrupted (f ((after f ^^ j) w))" if "j < Suc k" for j
    using that assms(1) k(3) by (cases j) (auto simp: funpow_swap1)
  then show ?thesis unfolding first_answer_def
    by (intro exI [of _ "Suc k"]) (use k in \<open>auto simp: funpow_swap1\<close>)
qed

lemma call_eintr_result:
  fixes f :: "'w sysfun"
  shows "call_eintr f w = Some r \<Longrightarrow> first_answer f w r"
proof (erule call_eintr.raw_induct [of first_answer, rotated])
  fix g :: "'w sysfun \<Rightarrow> 'w \<Rightarrow> (int \<times> int \<times> 'w) option" and f w r
  assume 1: "\<And>f w r. g f w = Some r \<Longrightarrow> first_answer f w r"
    "(case f w of (n, e, w') \<Rightarrow> if n = - 1 \<and> e = EINTR then g f w' else Some (n, e, w')) = Some r"
  obtain n e w' where fw: "f w = (n, e, w')" by (cases "f w") auto
  show "first_answer f w r"
  proof (cases "interrupted (f w)")
    case True
    then have "g f (after f w) = Some r" using 1(2) fw by (simp add: interrupted_def after_def)
    then show ?thesis using first_answer_later [of f w r] True 1(1) by blast
  next
    case False
    then have "r = f w" using 1(2) fw by (auto simp: interrupted_def split: if_splits)
    then show ?thesis using first_answer_now [of f w] False by simp
  qed
qed

text \<open>C21: The loop around an interrupted call returns exactly when the system answers some repetition of the
  call otherwise than by \<open>EINTR\<close>, and its result is the first such answer.\<close>

theorem call_eintr_terminates:
  "(call_eintr f w = Some r \<longleftrightarrow> first_answer f w r) \<and>
   (call_eintr f w = None \<longleftrightarrow> (\<forall>k. interrupted (f ((after f ^^ k) w))))"
proof -
  have ends: "first_answer f w r' \<Longrightarrow> call_eintr f w \<noteq> None" for r'
    by (auto simp: first_answer_def dest: call_eintr_ends)
  have uniq: "first_answer f w r1 \<Longrightarrow> first_answer f w r2 \<Longrightarrow> r1 = r2" for r1 r2
    unfolding first_answer_def by (metis linorder_neqE_nat)
  have none: "call_eintr f w = None \<longleftrightarrow> (\<forall>k. interrupted (f ((after f ^^ k) w)))"
  proof
    assume n: "\<forall>k. interrupted (f ((after f ^^ k) w))"
    show "call_eintr f w = None"
    proof (rule ccontr)
      assume "call_eintr f w \<noteq> None"
      then obtain r' where "call_eintr f w = Some r'" by auto
      then show False using call_eintr_result n unfolding first_answer_def by metis
    qed
  qed (use call_eintr_ends [of f _ w] in blast)
  show ?thesis using none ends uniq call_eintr_result by (metis option.exhaust_sel)
qed

section \<open>Waiting\<close>

definition hk_inv :: "('w \<Rightarrow> int \<Rightarrow> u32 option) \<Rightarrow> int \<Rightarrow> 'w hooks \<Rightarrow> bool" where
  "hk_inv interest tick h \<longleftrightarrow> io_inv interest tick (hk_io h) \<and> tm_inv (io_timers (hk_io h)) \<and> fd_inv (hk_fds h)"

definition timers_of :: "'w hooks \<Rightarrow> timer_manager" where
  "timers_of h = io_timers (hk_io h)"

text \<open>A call that waits: its fibre is registered for the event, its \<open>timer_info\<close> is alive, and its timer,
  if it has one, is armed for the deadline with the closure that cancels the event.\<close>

definition armed_timeout :: "caller \<Rightarrow> int \<Rightarrow> u32 \<Rightarrow> u64 \<Rightarrow> nat \<Rightarrow> nat \<Rightarrow> 'w hooks \<Rightarrow> bool" where
  "armed_timeout c fd event to tinfo p h \<longleftrightarrow>
     p \<in> set (m_timers (timers_of h)) \<and> p \<in> set (m_live (timers_of h)) \<and>
     m_heap (timers_of h) p = Timer_new (hc_now c) to (Some (Bind_OnTimer tinfo (Function (hc_fun c)))) False \<and>
     hk_closures h (hc_fun c) = Some (Io_Timeout tinfo fd event)"

definition waits :: "caller \<Rightarrow> int \<Rightarrow> u32 \<Rightarrow> u64 \<Rightarrow> nat \<Rightarrow> nat option \<Rightarrow> 'w hooks \<Rightarrow> bool" where
  "waits c fd event to tinfo timer h \<longleftrightarrow>
     hk_infos h tinfo = Some 0 \<and> 0 \<le> fd \<and> nat fd < length (m_fdContexts (hk_io h)) \<and>
     c_events (m_fdContexts (hk_io h) ! nat fd) AND event \<noteq> 0 \<and>
     event_ctx event (m_fdContexts (hk_io h) ! nat fd) =
       \<lparr>e_scheduler = Some (m_this (io_sched (hk_io h))), e_fibre = Some (hc_fibre c), e_cb = None\<rparr> \<and>
     (case timer of None \<Rightarrow> to = - 1 | Some p \<Rightarrow> to \<noteq> - 1 \<and> armed_timeout c fd event to tinfo p h)"

definition not_waiting :: "int \<Rightarrow> u32 \<Rightarrow> 'w hooks \<Rightarrow> bool" where
  "not_waiting fd event h \<longleftrightarrow>
     nat fd < length (m_fdContexts (hk_io h)) \<longrightarrow> c_events (m_fdContexts (hk_io h) ! nat fd) AND event = 0"

lemma set_world_simps [simp]:
  "hk_io (set_world w h) = (hk_io h)\<lparr>io_world := w\<rparr>" "hk_fds (set_world w h) = hk_fds h"
  "hk_infos (set_world w h) = hk_infos h" "hk_closures (set_world w h) = hk_closures h"
  "hk_errno (set_world w h) = hk_errno h" "hk_world (set_world w h) = w" "t_hook_enable (set_world w h) = t_hook_enable h"
  by (simp_all add: set_world_def hk_world_def)

lemma set_errno_simps [simp]:
  "hk_io (set_errno tid e h) = hk_io h" "hk_fds (set_errno tid e h) = hk_fds h"
  "hk_infos (set_errno tid e h) = hk_infos h" "hk_closures (set_errno tid e h) = hk_closures h"
  "hk_errno (set_errno tid e h) = (hk_errno h)(tid := e)"
  by (simp_all add: set_errno_def)

lemma free_info_simps [simp]:
  "hk_io (free_info t h) = hk_io h" "hk_fds (free_info t h) = hk_fds h"
  "hk_infos (free_info t h) = (hk_infos h)(t := None)" "hk_errno (free_info t h) = hk_errno h"
  "hk_closures (free_info t h) = hk_closures h"
  by (simp_all add: free_info_def)

lemma addEvent_at_effect:
  assumes r: "addEvent_at ep (Some s) f st fd event None io = Inr (rt, io')" and e: "is_event event"
  shows "io_timers io' = io_timers io \<and> io_sched io' = io_sched io \<and>
    (rt = 0 \<longrightarrow> nat fd < length (m_fdContexts io') \<and> c_events (m_fdContexts io' ! nat fd) AND event \<noteq> 0 \<and>
      event_ctx event (m_fdContexts io' ! nat fd) = \<lparr>e_scheduler = Some s, e_fibre = Some f, e_cb = None\<rparr>)"
  using r e
  by (elim is_eventE; cases "event_ctx event (m_fdContexts io ! nat fd)")
    (auto simp: addEvent_at_def Let_def register_def getContext_event event_ctx_def putContext_def put_ctx_def
      getContext_def res_simps split: if_splits prod.splits)

lemma addEvent_effect:
  assumes "addEvent ep (Some s) f st fd event None io = Inr (rt, io')" "is_event event"
  shows "io_timers io' = io_timers io \<and> io_sched io' = io_sched io \<and>
    (rt = 0 \<longrightarrow> nat fd < length (m_fdContexts io') \<and> c_events (m_fdContexts io' ! nat fd) AND event \<noteq> 0 \<and>
      event_ctx event (m_fdContexts io' ! nat fd) = \<lparr>e_scheduler = Some s, e_fibre = Some f, e_cb = None\<rparr>)"
  using assms addEvent_at_effect [of ep s f st fd event io rt io']
    addEvent_at_effect [of ep s f st fd event "io\<lparr>m_fdContexts := contextResize (grown fd) (m_fdContexts io)\<rparr>" rt io']
  by (auto simp: addEvent_def split: if_splits)

lemma io_aux_simps [simp]:
  "io_inv interest tick (io\<lparr>io_timers := tm\<rparr>) = io_inv interest tick io"
  "io_inv interest tick (io\<lparr>io_pipe := n\<rparr>) = io_inv interest tick io"
  "acct (io\<lparr>io_timers := tm\<rparr>) = acct io" "acct (io\<lparr>io_pipe := n\<rparr>) = acct io"
  "delivered (io\<lparr>io_timers := tm\<rparr>) = delivered io" "waiters (io\<lparr>io_timers := tm\<rparr>) = waiters io"
  by (simp_all add: io_inv_def tab_inv_def agree_def acct_def waiters_def delivered_def)

lemma with_timers_ok:
  assumes "hc_pipe_ok c"
  shows "\<exists>n. with_timers c (b, tm) h = Inr (h\<lparr>hk_io := (hk_io h)\<lparr>io_timers := tm, io_pipe := n\<rparr>\<rparr>)"
proof (cases "b \<and> hasIdleThreads (io_sched (hk_io h))")
  case True
  then show ?thesis using assms by (auto simp: with_timers_def onTimerInsertAtFront_def tickle_io_def)
next
  case False
  then show ?thesis
    by (intro exI [of _ "io_pipe (hk_io h)"]) (auto simp: with_timers_def onTimerInsertAtFront_def tickle_io_def Let_def)
qed

lemma addTimer_effect:
  assumes "tm_inv tm" "p \<notin> set (m_live tm)"
  shows "m_heap (snd (addTimer now p ms cb rec tm)) = (m_heap tm)(p := Timer_new now ms cb rec)"
    "set (m_timers (snd (addTimer now p ms cb rec tm))) = insert p (set (m_timers tm))"
    "m_live (snd (addTimer now p ms cb rec tm)) = p # m_live tm"
proof -
  have "by_deadline ((m_heap tm)(p := Timer_new now ms cb rec)) (m_timers tm)"
    using assms by (subst by_deadline_upd) (auto simp: tm_inv_def)
  note i = insertTimer_spec(1) [of "tm\<lparr>m_heap := (m_heap tm)(p := Timer_new now ms cb rec), m_live := p # m_live tm\<rparr>" p]
  then show "m_heap (snd (addTimer now p ms cb rec tm)) = (m_heap tm)(p := Timer_new now ms cb rec)"
    "set (m_timers (snd (addTimer now p ms cb rec tm))) = insert p (set (m_timers tm))"
    "m_live (snd (addTimer now p ms cb rec tm)) = p # m_live tm"
    using \<open>by_deadline _ _\<close> by (simp_all add: addTimer_def i set_timer_insert)
qed

text \<open>Arming the timer of a call touches nothing but the timers.\<close>

definition same_but_timers :: "'w hooks \<Rightarrow> 'w hooks \<Rightarrow> bool" where
  "same_but_timers h h' \<longleftrightarrow> hk_infos h' = hk_infos h \<and> hk_fds h' = hk_fds h \<and> hk_errno h' = hk_errno h \<and>
     m_fdContexts (hk_io h') = m_fdContexts (hk_io h) \<and> io_sched (hk_io h') = io_sched (hk_io h) \<and>
     hk_world h' = hk_world h \<and> acct (hk_io h') = acct (hk_io h) \<and>
     (\<forall>interest tick. io_inv interest tick (hk_io h') = io_inv interest tick (hk_io h))"

lemma arm_timeout_ok:
  assumes "tm_inv (timers_of h)" "hc_timer c \<notin> set (m_live (timers_of h))" "hc_pipe_ok c"
  shows "\<exists>timer h'. arm_timeout c to fd event tinfo h = Inr (timer, h') \<and> same_but_timers h h' \<and> tm_inv (timers_of h') \<and>
    (case timer of None \<Rightarrow> to = - 1 \<and> h' = h
     | Some p \<Rightarrow> p = hc_timer c \<and> to \<noteq> - 1 \<and> armed_timeout c fd event to tinfo p h' \<and>
         set (m_timers (timers_of h')) = insert p (set (m_timers (timers_of h))))"
proof (cases "to = - 1")
  case True
  then show ?thesis using assms by (simp add: arm_timeout_def same_but_timers_def)
next
  case False
  let ?cb = "Some (Bind_OnTimer tinfo (Function (hc_fun c)))"
  let ?r = "addTimer (hc_now c) (hc_timer c) to ?cb False (timers_of h)"
  obtain n where n: "with_timers c ?r (put_closure (hc_fun c) (Io_Timeout tinfo fd event) h) =
      Inr ((put_closure (hc_fun c) (Io_Timeout tinfo fd event) h)\<lparr>hk_io := (hk_io h)\<lparr>io_timers := snd ?r, io_pipe := n\<rparr>\<rparr>)"
    (is "_ = Inr ?h")
    using with_timers_ok [OF assms(3), of "fst ?r" "snd ?r" "put_closure (hc_fun c) (Io_Timeout tinfo fd event) h"]
    by (auto simp: put_closure_def)
  have "arm_timeout c to fd event tinfo h = Inr (Some (hc_timer c), ?h)"
    using n False by (simp add: arm_timeout_def addConditionTimer_def timers_of_def)
  moreover have "same_but_timers h ?h" by (simp add: same_but_timers_def put_closure_def hk_world_def)
  moreover have "timers_of ?h = snd ?r" "hk_closures ?h (hc_fun c) = Some (Io_Timeout tinfo fd event)"
    by (simp_all add: timers_of_def put_closure_def)
  ultimately show ?thesis
    using addTimer_inv [OF assms(1,2)] addTimer_effect [OF assms(1,2)] False by (auto simp: armed_timeout_def)
qed

lemma cancel_timer_ok:
  assumes "tm_inv (timers_of h)" "case timer of None \<Rightarrow> True | Some p \<Rightarrow> p \<in> set (m_live (timers_of h))"
  shows "\<exists>h'. cancel_timer timer h = Inr h' \<and> same_but_timers h h' \<and> tm_inv (timers_of h') \<and>
    hk_closures h' = hk_closures h \<and> m_live (timers_of h') = m_live (timers_of h) \<and>
    set (m_timers (timers_of h')) - set_option timer = set (m_timers (timers_of h)) - set_option timer \<and>
    (\<forall>p \<in> set_option timer. t_cb (m_heap (timers_of h) p) \<noteq> None \<longrightarrow> p \<notin> set (m_timers (timers_of h')))"
proof (cases timer)
  case None
  then show ?thesis using assms by (simp add: cancel_timer_def same_but_timers_def)
next
  case (Some p)
  then have p: "p \<in> set (m_live (timers_of h))" using assms(2) by simp
  obtain b tm' where c: "cancel p (timers_of h) = Inr (b, tm')" "tm_inv tm'" using cancel_total [OF assms(1) p] by auto
  let ?h = "h\<lparr>hk_io := (hk_io h)\<lparr>io_timers := tm'\<rparr>\<rparr>"
  have "cancel_timer timer h = Inr ?h" using Some c by (simp add: cancel_timer_def timers_of_def)
  moreover have "same_but_timers h ?h" by (simp add: same_but_timers_def hk_world_def)
  moreover have "timers_of ?h = tm'" by (simp add: timers_of_def)
  ultimately show ?thesis
    using Some c cancel_spec [OF assms(1) p] by (auto split: if_splits)
qed

text \<open>What a fibre waiting by itself looks like to its scheduler.\<close>

definition fibre_waiter :: "caller \<Rightarrow> 'w hooks \<Rightarrow> nat \<times> task" where
  "fibre_waiter c h = (m_this (io_sched (hk_io h)), \<lparr>ft_fibre = Some (hc_fibre c), ft_cb = None, ft_thread = - 1\<rparr>)"

lemma wait_event_ok:
  assumes ok: "epoll_ok (lc_epoll_ctl lc) interest" and inv: "hk_inv interest tick h" and e: "is_event event" and fd: "0 \<le> fd"
    and x: "hc_fstate c = EXEC" and free: "not_waiting fd event h"
  shows "\<exists>rt h'. wait_event lc c fd event h = Inr (rt, h') \<and> hk_inv interest tick h' \<and>
    hk_infos h' = hk_infos h \<and> hk_closures h' = hk_closures h \<and> timers_of h' = timers_of h \<and> hk_fds h' = hk_fds h \<and>
    (if rt \<noteq> 0 then hk_errno h' (hc_tid c) = hc_ctl_errno c \<and> acct (hk_io h') = acct (hk_io h)
     else acct (hk_io h') = acct (hk_io h) + {#fibre_waiter c h#} \<and> nat fd < length (m_fdContexts (hk_io h')) \<and>
       c_events (m_fdContexts (hk_io h') ! nat fd) AND event \<noteq> 0 \<and>
       event_ctx event (m_fdContexts (hk_io h') ! nat fd) =
         \<lparr>e_scheduler = Some (m_this (io_sched (hk_io h'))), e_fibre = Some (hc_fibre c), e_cb = None\<rparr>)"
proof -
  have io: "io_inv interest tick (hk_io h)" using inv by (simp add: hk_inv_def)
  let ?s = "m_this (io_sched (hk_io h))"
  have "\<not> (watched (m_fdContexts (hk_io h)) fd \<noteq> None \<and> c_events (m_fdContexts (hk_io h) ! nat fd) AND event \<noteq> 0)"
    using free fd by (auto simp: not_waiting_def watched_def split: if_splits)
  with addEvent_outcome [OF io e fd, of "lc_epoll_ctl lc" ?s "hc_fibre c" EXEC None] obtain rt io' where
    a: "addEvent (lc_epoll_ctl lc) (Some ?s) (hc_fibre c) EXEC fd event None (hk_io h) = Inr (rt, io')"
    by (auto split: if_splits)
  note b = addEvent_inv [OF ok io e a] addEvent_effect [OF a e]
  have "fibre_waiter c h = new_waiter ?s (hc_fibre c) None" by (simp add: fibre_waiter_def new_waiter_def waiter_def)
  then show ?thesis
    using a b x inv by (auto simp: wait_event_def hk_inv_def timers_of_def)
qed

text \<open>Arming the timer and registering the fibre, as \<open>do_io\<close> and \<open>connect_with_timeout\<close> do.\<close>

lemma block_ok:
  assumes ok: "epoll_ok (lc_epoll_ctl lc) interest" and inv: "hk_inv interest tick h" and e: "is_event event" and fd: "0 \<le> fd"
    and c: "hc_fstate c = EXEC" "hc_pipe_ok c" "hc_timer c \<notin> set (m_live (timers_of h))"
    and free: "not_waiting fd event h" and info: "hk_infos h tinfo = Some 0"
  shows "\<exists>timer h2 rt h3. arm_timeout c to fd event tinfo h = Inr (timer, h2) \<and> wait_event lc c fd event h2 = Inr (rt, h3) \<and>
    (if rt \<noteq> 0 then \<exists>h4. cancel_timer timer h3 = Inr h4 \<and> hk_inv interest tick h4 \<and> hk_infos h4 = hk_infos h \<and>
       hk_errno h4 (hc_tid c) = hc_ctl_errno c \<and> acct (hk_io h4) = acct (hk_io h) \<and>
       set (m_timers (timers_of h4)) = set (m_timers (timers_of h))
     else hk_inv interest tick h3 \<and> waits c fd event to tinfo timer h3 \<and> acct (hk_io h3) = acct (hk_io h) + {#fibre_waiter c h#})"
proof -
  have tm: "tm_inv (timers_of h)" using inv by (simp add: hk_inv_def timers_of_def)
  from arm_timeout_ok [OF tm c(3,2), of to fd event tinfo]
  obtain timer h2 where 2: "arm_timeout c to fd event tinfo h = Inr (timer, h2)" "same_but_timers h h2" "tm_inv (timers_of h2)"
    and t2: "case timer of None \<Rightarrow> to = - 1 \<and> h2 = h
      | Some p \<Rightarrow> p = hc_timer c \<and> to \<noteq> - 1 \<and> armed_timeout c fd event to tinfo p h2 \<and>
          set (m_timers (timers_of h2)) = insert p (set (m_timers (timers_of h)))"
    by blast
  have i2: "hk_inv interest tick h2" "not_waiting fd event h2" "fibre_waiter c h2 = fibre_waiter c h" "hk_infos h2 = hk_infos h"
    "acct (hk_io h2) = acct (hk_io h)"
    using 2(2,3) inv free by (auto simp: hk_inv_def same_but_timers_def timers_of_def not_waiting_def fibre_waiter_def)
  from wait_event_ok [OF ok i2(1) e fd c(1) i2(2)] obtain rt h3 where 3: "wait_event lc c fd event h2 = Inr (rt, h3)"
    "hk_inv interest tick h3" "hk_infos h3 = hk_infos h2" "hk_closures h3 = hk_closures h2" "timers_of h3 = timers_of h2"
    and 33: "if rt \<noteq> 0 then hk_errno h3 (hc_tid c) = hc_ctl_errno c \<and> acct (hk_io h3) = acct (hk_io h2)
     else acct (hk_io h3) = acct (hk_io h2) + {#fibre_waiter c h2#} \<and> nat fd < length (m_fdContexts (hk_io h3)) \<and>
       c_events (m_fdContexts (hk_io h3) ! nat fd) AND event \<noteq> 0 \<and>
       event_ctx event (m_fdContexts (hk_io h3) ! nat fd) =
         \<lparr>e_scheduler = Some (m_this (io_sched (hk_io h3))), e_fibre = Some (hc_fibre c), e_cb = None\<rparr>" by blast
  show ?thesis
  proof (cases "rt = 0")
    case True
    have "waits c fd event to tinfo timer h3"
      using True 33 3 t2 info fd i2(4) by (auto simp: waits_def armed_timeout_def split: option.splits)
    then show ?thesis using True 2(1) 3(1,2) 33 i2 by auto
  next
    case False
    have live: "case timer of None \<Rightarrow> True | Some p \<Rightarrow> p \<in> set (m_live (timers_of h3))"
      using t2 3(5) by (auto simp: armed_timeout_def split: option.splits)
    have out: "hc_timer c \<notin> set (m_timers (timers_of h))" using c(3) tm by (auto simp: tm_inv_def)
    from cancel_timer_ok [OF _ live] 3(2,5) 2(3) obtain h4 where 4: "cancel_timer timer h3 = Inr h4" "same_but_timers h3 h4"
      "tm_inv (timers_of h4)" "set (m_timers (timers_of h4)) - set_option timer = set (m_timers (timers_of h2)) - set_option timer"
      "\<forall>p \<in> set_option timer. t_cb (m_heap (timers_of h2) p) \<noteq> None \<longrightarrow> p \<notin> set (m_timers (timers_of h4))"
      by auto
    have "hk_inv interest tick h4" using 4(2,3) 3(2) by (simp add: hk_inv_def same_but_timers_def timers_of_def)
    moreover have "set (m_timers (timers_of h4)) = set (m_timers (timers_of h))"
      using t2 4(4,5) out by (auto simp: armed_timeout_def Timer_new_def split: option.splits)
    ultimately show ?thesis using 2(1) 3(1,3) 4(1,2) False 33 i2 by (auto simp: same_but_timers_def)
  qed
qed

text \<open>A call of the system on the state.\<close>

lemma eintr_interest:
  assumes f: "\<And>w. interest (after f w) = interest w" and r: "call_eintr f w0 = Some (n, err, w)"
  shows "interest w = interest w0"
proof -
  obtain k where k: "(n, err, w) = f ((after f ^^ k) w0)" using call_eintr_result [OF r] by (auto simp: first_answer_def)
  then have "w = (after f ^^ Suc k) w0" by (metis after_def comp_apply funpow.simps(2) snd_conv)
  moreover have "interest ((after f ^^ j) w0) = interest w0" for j by (induction j) (simp_all add: f)
  ultimately show ?thesis by metis
qed

lemma sys_result_same:
  assumes "hk_inv interest tick h" "interest w = interest (hk_world h)" "not_waiting fd event h"
  shows "hk_inv interest tick (snd (sys_result tid (n, err, w) h))" "hk_infos (snd (sys_result tid (n, err, w) h)) = hk_infos h"
    "timers_of (snd (sys_result tid (n, err, w) h)) = timers_of h"
    "acct (hk_io (snd (sys_result tid (n, err, w) h))) = acct (hk_io h)"
    "not_waiting fd event (snd (sys_result tid (n, err, w) h))"
    "fibre_waiter c (snd (sys_result tid (n, err, w) h)) = fibre_waiter c h"
    "n = - 1 \<Longrightarrow> hk_errno (snd (sys_result tid (n, err, w) h)) tid = err"
  using assms by (auto simp: hk_inv_def sys_result_def timers_of_def not_waiting_def fibre_waiter_def hk_world_def io_inv_world)

text \<open>C6: A blocking call on a socket, from its start or from a wake-up on: either the system's answer is
  returned, and it is neither \<open>EINTR\<close> nor \<open>EAGAIN\<close>; or the call waits, with its fibre registered for the
  event exactly once and, when the socket has a time limit, with a timer armed for it; or registering
  failed, the error is that of \<open>epoll_ctl\<close>, and no timer and no waiter is left behind.\<close>

theorem do_io_outcome:
  assumes ok: "epoll_ok (lc_epoll_ctl lc) interest" and inv: "hk_inv interest tick h" and e: "is_event event" and fd: "0 \<le> fd"
    and c: "hc_iom c" "hc_fstate c = EXEC" "hc_pipe_ok c" "hc_timer c \<notin> set (m_live (timers_of h))"
    and free: "not_waiting fd event h" and info: "hk_infos h tinfo = Some 0"
    and f: "\<And>w. interest (after f w) = interest w" and r: "call_eintr f (hk_world h) = Some (n, err, w)"
  shows "\<exists>p h'. do_io_retry lc c f fd event to tinfo h = Inr (p, h') \<and> hk_inv interest tick h' \<and> (case p of
      Done m \<Rightarrow> hk_infos h' tinfo = None \<and> acct (hk_io h') = acct (hk_io h) \<and>
        set (m_timers (timers_of h')) = set (m_timers (timers_of h)) \<and>
        (if n = - 1 then m = - 1 \<and> hk_errno h' (hc_tid c) = (if err = EAGAIN then hc_ctl_errno c else err) \<and> err \<noteq> EINTR
         else m = n)
    | Wait timer \<Rightarrow> n = - 1 \<and> err = EAGAIN \<and> waits c fd event to tinfo timer h' \<and>
        acct (hk_io h') = acct (hk_io h) + {#fibre_waiter c h#})"
proof -
  have ne: "\<not> (n = - 1 \<and> err = EINTR)" using call_eintr_result [OF r] by (auto simp: first_answer_def interrupted_def)
  let ?h = "snd (sys_result (hc_tid c) (n, err, w) h)"
  note h1 = sys_result_same [OF inv eintr_interest [of interest f, OF f r] free, where tid = "hc_tid c" and n = n and err = err]
  show ?thesis
  proof (cases "n = - 1 \<and> err = EAGAIN")
    case False
    then have "do_io_retry lc c f fd event to tinfo h = Inr (Done n, free_info tinfo ?h)"
      using r h1(7) by (auto simp: do_io_retry_def sys_result_def)
    then show ?thesis using False ne h1 by (auto simp: hk_inv_def timers_of_def)
  next
    case True
    from block_ok [OF ok h1(1) e fd c(2,3), of tinfo to] c(4) info h1(2,3,5)
    obtain timer h2 rt h3 where b: "arm_timeout c to fd event tinfo ?h = Inr (timer, h2)" "wait_event lc c fd event h2 = Inr (rt, h3)"
      and br: "if rt \<noteq> 0 then \<exists>h4. cancel_timer timer h3 = Inr h4 \<and> hk_inv interest tick h4 \<and> hk_infos h4 = hk_infos ?h \<and>
          hk_errno h4 (hc_tid c) = hc_ctl_errno c \<and> acct (hk_io h4) = acct (hk_io ?h) \<and>
          set (m_timers (timers_of h4)) = set (m_timers (timers_of ?h))
        else hk_inv interest tick h3 \<and> waits c fd event to tinfo timer h3 \<and> acct (hk_io h3) = acct (hk_io ?h) + {#fibre_waiter c ?h#}"
      by metis
    have "do_io_retry lc c f fd event to tinfo h =
        (if rt \<noteq> 0 then rbind (cancel_timer timer h3) (\<lambda>h. Inr (Done (- 1), free_info tinfo h)) else Inr (Wait timer, h3))"
      using r True c(1) h1(7) b by (simp add: do_io_retry_def sys_result_def)
    then show ?thesis using True br h1(3,4,6) by (auto simp: hk_inv_def timers_of_def EAGAIN_def EINTR_def)
  qed
qed

section \<open>The time limit\<close>

text \<open>The documented behaviour of \<open>epoll_ctl\<close> on a descriptor that is watched: changing and deleting its
  entry succeeds.\<close>

definition epoll_reduces :: "'w epoll \<Rightarrow> ('w \<Rightarrow> int \<Rightarrow> u32 option) \<Rightarrow> bool" where
  "epoll_reduces ep interest \<longleftrightarrow>
     (\<forall>w fd ev op. interest w fd \<noteq> None \<longrightarrow> op \<noteq> EPOLL_CTL_ADD \<longrightarrow> fst (ep w op fd ev) = 0)"

lemma moved_mset: "a + m = b \<Longrightarrow> a + d' = b + d \<Longrightarrow> d' = d + m" for a b d d' m :: "'a multiset"
  by (auto simp: add.assoc add.commute)

lemma cancelEvent_fires:
  assumes ok: "epoll_ok ep interest" "epoll_reduces ep interest" and inv: "io_inv interest tick io" and e: "is_event event"
    and fd: "0 \<le> fd" "nat fd < length (m_fdContexts io)" and set: "c_events (m_fdContexts io ! nat fd) AND event \<noteq> 0"
  shows "\<exists>io'. cancelEvent ep fd event io = Inr (True, io') \<and> io_inv interest tick io' \<and> io_timers io' = io_timers io \<and>
    delivered io' = delivered io + {#waiter (event_ctx event (m_fdContexts io ! nat fd))#}"
proof -
  let ?c = "m_fdContexts io ! nat fd"
  let ?op = "if c_events ?c AND NOT event \<noteq> 0 then EPOLL_CTL_MOD else EPOLL_CTL_DEL"
  obtain b io' where 1: "cancelEvent ep fd event io = Inr (b, io')" "io_inv interest tick io'" "acct io' = acct io"
    using cancelEvent_inv [OF ok(1) inv e fd(1)] by blast
  have nt: "fd \<noteq> tick" using io_inv_watched [OF inv fd(1)] fd set by force
  have "interest (io_world io) fd \<noteq> None"
    using inv nt fd set by (force simp: io_inv_def agree_def watched_def mask_of_def)
  then have k: "fst (ep (io_world io) ?op fd (EPOLLET OR (c_events ?c AND NOT event))) = 0"
    using ok(2) by (auto simp: epoll_reduces_def)
  obtain w where w: "ep (io_world io) ?op fd (EPOLLET OR (c_events ?c AND NOT event)) = (0, w)" by (metis k prod.collapse)
  have "\<not> int (length (m_fdContexts io)) \<le> fd" using fd by simp
  then have eq: "cancelEvent ep fd event io = rbind (trigger_at (nat fd) event (io\<lparr>io_world := w\<rparr>)) (\<lambda>io. Inr (True, io))"
    using fd(1) set w by (simp add: cancelEvent_def with_ctx_def Let_def)
  have t: "trigger_at (nat fd) event (io\<lparr>io_world := w\<rparr>) = Inr io'" and b
    using 1(1) eq by (auto simp: res_simps)
  from trigger_at_ok [of "io\<lparr>io_world := w\<rparr>" "nat fd" event] t inv fd e set
  have m: "m_fdContexts io' = (m_fdContexts io)[nat fd := cleared event ?c]" by (auto simp: io_inv_def)
  have "io_timers io' = io_timers io"
    using t by (auto simp: trigger_at_def deliver_def own_schedule_def put_ctx_def res_simps split: prod.splits if_splits)
  moreover have "waiters io' + {#waiter (event_ctx event ?c)#} = waiters io"
    using waiters_put [OF fd(2), of "cleared event ?c"] cleared_waiters [OF e set] m
    by (simp add: waiters_def put_ctx_def ac_simps)
  then have "delivered io' = delivered io + {#waiter (event_ctx event ?c)#}"
    using 1(3) unfolding acct_def by (rule moved_mset)
  ultimately show ?thesis using 1 \<open>b\<close> by auto
qed

lemma due_by_deadline: "p \<in> set (m_timers tm) \<Longrightarrow> t_next (m_heap tm p) \<le> now \<Longrightarrow> p \<in> set (due_timers now tm)"
  by (simp add: due_timers_def)

text \<open>The closure of a waiting call, when its timer fires.\<close>

lemma fire_waiting:
  assumes ok: "epoll_ok (lc_epoll_ctl lc) interest" "epoll_reduces (lc_epoll_ctl lc) interest"
    and inv: "hk_inv interest tick h" and e: "is_event event" and w: "waits c fd event to tinfo timer h"
    and k: "hk_closures h k = Some (Io_Timeout tinfo fd event)"
  shows "\<exists>h'. fire_timer lc (Bind_OnTimer tinfo (Function k)) h = Inr h' \<and> hk_inv interest tick h' \<and>
    timers_of h' = timers_of h \<and> hk_infos h' tinfo = Some ETIMEDOUT \<and>
    delivered (hk_io h') = delivered (hk_io h) + {#fibre_waiter c h#}"
proof -
  let ?h = "h\<lparr>hk_infos := (hk_infos h)(tinfo \<mapsto> ETIMEDOUT)\<rparr>"
  have x: "waiter (event_ctx event (m_fdContexts (hk_io h) ! nat fd)) = fibre_waiter c h"
    using w by (simp add: waits_def waiter_def fibre_waiter_def)
  from cancelEvent_fires [OF ok _ e, of tick "hk_io h" fd] inv w x obtain io' where
    "cancelEvent (lc_epoll_ctl lc) fd event (hk_io h) = Inr (True, io')" "io_inv interest tick io'"
    "io_timers io' = io_timers (hk_io h)" "delivered io' = delivered (hk_io h) + {#fibre_waiter c h#}"
    by (auto simp: waits_def hk_inv_def)
  then show ?thesis using w k inv
    by (auto simp: fire_timer_def OnTimer_def waits_def run_closure_def hk_inv_def timers_of_def)
qed

lemma resume_timed_out:
  assumes "hk_inv interest tick h" "hk_infos h tinfo = Some ETIMEDOUT" "p \<in> set (m_live (timers_of h))"
  shows "\<exists>h'. do_io_resume lc c f fd event to tinfo (Some p) h = Inr (Done (- 1), h') \<and> hk_inv interest tick h' \<and>
    hk_errno h' (hc_tid c) = ETIMEDOUT \<and> hk_infos h' tinfo = None"
proof -
  from cancel_timer_ok [of h "Some p"] assms obtain h' where h': "cancel_timer (Some p) h = Inr h'" "same_but_timers h h'"
    "tm_inv (timers_of h')" by (auto simp: hk_inv_def timers_of_def)
  then show ?thesis using assms
    by (auto simp: do_io_resume_def same_but_timers_def hk_inv_def timers_of_def ETIMEDOUT_def)
qed

text \<open>C3: The time limit of a blocking call works.  When the clock has reached the deadline of a call that
  waits, the callback of its timer is among the expired ones; running it hands the fibre to its
  scheduler, exactly once; and the fibre, resumed by any thread, returns -1 with \<open>ETIMEDOUT\<close>.  The
  callback has no effect any more after the call has returned.\<close>

theorem timeout_wakes:
  assumes ok: "epoll_ok (lc_epoll_ctl lc) interest" "epoll_reduces (lc_epoll_ctl lc) interest"
    and inv: "hk_inv interest tick h" and e: "is_event event" and w: "waits c fd event to tinfo (Some p) h"
    and q: "q \<notin> set (m_live (timers_of h))" and now: "hc_now c + to \<le> now"
  shows "\<exists>cbs tm' h2 h3. listExpiredCb now q (timers_of h) = (cbs, tm') \<and>
    Some (Bind_OnTimer tinfo (Function (hc_fun c))) \<in> set cbs \<and>
    fire_timer lc (Bind_OnTimer tinfo (Function (hc_fun c))) (h\<lparr>hk_io := (hk_io h)\<lparr>io_timers := tm'\<rparr>\<rparr>) = Inr h2 \<and>
    delivered (hk_io h2) = delivered (hk_io h) + {#fibre_waiter c h#} \<and>
    do_io_resume lc c' f fd event to tinfo (Some p) h2 = Inr (Done (- 1), h3) \<and>
    hk_errno h3 (hc_tid c') = ETIMEDOUT \<and> hk_inv interest tick h3 \<and>
    fire_timer lc (Bind_OnTimer tinfo (Function (hc_fun c))) h3 = Inr h3"
proof -
  have p: "p \<in> set (m_timers (timers_of h))" "p \<in> set (m_live (timers_of h))"
    "t_next (m_heap (timers_of h) p) = hc_now c + to"
    "t_cb (m_heap (timers_of h) p) = Some (Bind_OnTimer tinfo (Function (hc_fun c)))"
    "hk_closures h (hc_fun c) = Some (Io_Timeout tinfo fd event)"
    using w by (auto simp: waits_def armed_timeout_def Timer_new_def)
  have tm: "tm_inv (timers_of h)" using inv by (simp add: hk_inv_def timers_of_def)
  obtain cbs tm' where l: "listExpiredCb now q (timers_of h) = (cbs, tm')" by fastforce
  note s = listExpiredCb_spec [OF tm q l] listExpiredCb_inv [OF tm q l]
  have cb: "Some (Bind_OnTimer tinfo (Function (hc_fun c))) \<in> set cbs"
    using due_by_deadline [OF p(1), of now] now p(3,4) s(1) by (auto intro: image_eqI [of _ _ p])
  let ?h = "h\<lparr>hk_io := (hk_io h)\<lparr>io_timers := tm'\<rparr>\<rparr>"
  have h1: "hk_inv interest tick ?h" "waits c fd event (- 1) tinfo None ?h" "fibre_waiter c ?h = fibre_waiter c h"
    "timers_of ?h = tm'" "delivered (hk_io ?h) = delivered (hk_io h)"
    using inv w s by (auto simp: hk_inv_def waits_def fibre_waiter_def timers_of_def)
  have "hk_closures ?h (hc_fun c) = Some (Io_Timeout tinfo fd event)" using p(5) by simp
  from fire_waiting [OF ok h1(1) e h1(2) this] obtain h2 where h2:
    "fire_timer lc (Bind_OnTimer tinfo (Function (hc_fun c))) ?h = Inr h2" "hk_inv interest tick h2"
    "timers_of h2 = tm'" "hk_infos h2 tinfo = Some ETIMEDOUT" "delivered (hk_io h2) = delivered (hk_io h) + {#fibre_waiter c h#}"
    using h1(3-5) by auto
  from resume_timed_out [OF h2(2,4), of p lc c' f fd event to] p(2) s(5) h2(3) obtain h3 where
    "do_io_resume lc c' f fd event to tinfo (Some p) h2 = Inr (Done (- 1), h3)" "hk_inv interest tick h3"
    "hk_errno h3 (hc_tid c') = ETIMEDOUT" "hk_infos h3 tinfo = None" by auto
  then show ?thesis using l cb h2 by (auto simp: fire_timer_def OnTimer_def)
qed

section \<open>The flags of a descriptor\<close>

text \<open>The documented behaviour of \<open>fcntl\<close> on an open descriptor: \<open>F_GETFL\<close> reads the flags, \<open>F_SETFL\<close>
  replaces those that can be set, \<open>O_NONBLOCK\<close> among them.\<close>

definition fcntl_ok :: "'w libc \<Rightarrow> ('w \<Rightarrow> int \<Rightarrow> bool) \<Rightarrow> ('w \<Rightarrow> int \<Rightarrow> u32) \<Rightarrow> u32 \<Rightarrow> bool" where
  "fcntl_ok lc opened flags settable \<longleftrightarrow>
     O_NONBLOCK AND NOT settable = 0 \<and>
     (\<forall>w fd. opened w fd \<longrightarrow>
       (\<forall>arg. lc_fcntl lc w fd F_GETFL arg = (flags w fd, w)) \<and>
       (\<forall>a. \<exists>w'. lc_fcntl lc w fd F_SETFL (Int_Arg a) = (0, w') \<and> opened w' = opened w \<and>
          flags w' = (flags w)(fd := (flags w fd AND NOT settable) OR (a AND settable))))"

lemma O_NONBLOCK_bit: "bit O_NONBLOCK n \<longleftrightarrow> n = 11"
proof -
  have "O_NONBLOCK = 2 ^ 11" by (simp add: O_NONBLOCK_def)
  then show ?thesis by (simp only: bit_exp_iff \<open>O_NONBLOCK = 2 ^ 11\<close>) auto
qed

lemma nonblock_zero: "x AND O_NONBLOCK = 0 \<longleftrightarrow> \<not> bit x 11"
proof
  assume "x AND O_NONBLOCK = 0"
  then have "\<not> bit (x AND O_NONBLOCK) 11" by (simp only: bit_0_eq bot_fun_def bot_bool_def not_False_eq_True)
  then show "\<not> bit x 11" by (simp add: bit_and_iff O_NONBLOCK_bit)
next
  assume "\<not> bit x 11"
  then show "x AND O_NONBLOCK = 0" by (intro bit_word_eqI) (auto simp: bit_and_iff O_NONBLOCK_bit)
qed

lemma settable_bit: "O_NONBLOCK AND NOT s = 0 \<Longrightarrow> bit s 11"
  using nonblock_zero [of "NOT s"] by (simp add: and.commute bit_not_iff)

lemma own_flag:
  assumes "bit s 11"
  shows "(let r = (f AND NOT s) OR ((a OR O_NONBLOCK) AND s); r = (if bit a 11 then r OR O_NONBLOCK else r AND NOT O_NONBLOCK)
    in r AND s = a AND s \<and> r AND NOT s = f AND NOT s)"
  unfolding Let_def
  by (intro conjI; rule bit_word_eqI) (use assms in \<open>auto simp: bit_and_iff bit_or_iff bit_not_iff O_NONBLOCK_bit\<close>)

lemma fd_get_known:
  assumes "fd_inv (hk_fds h)" "fd_abs (hk_fds h) fd = Some ctx"
  shows "fd_get lc fd False h = Inr (Some ctx, h)"
proof -
  have "0 \<le> fd" using assms(2) by (auto simp: fd_abs_def split: if_splits)
  then show ?thesis using assms get_present [of fd False "hk_fds h" "os_of lc" "hk_world h"]
    by (simp add: fd_get_def set_world_def hk_world_def)
qed

lemma put_fd_abs:
  assumes "fd_inv (hk_fds h)" "fd_abs (hk_fds h) fd = Some ctx" "m_fd x = m_fd ctx"
  shows "fd_inv (hk_fds (put_fd fd x h))" "fd_abs (hk_fds (put_fd fd x h)) = (fd_abs (hk_fds h))(fd \<mapsto> x)"
proof -
  have "0 \<le> fd" "nat fd < length (hk_fds h)" using assms(2) by (auto simp: fd_abs_def split: if_splits)
  then show "fd_inv (hk_fds (put_fd fd x h))" "fd_abs (hk_fds (put_fd fd x h)) = (fd_abs (hk_fds h))(fd \<mapsto> x)"
    using assms fd_abs_fd [OF assms(1,2)] fd_inv_update [OF assms(1), of fd "Some x"] fd_abs_update [of fd "hk_fds h" "Some x"]
    by (auto simp: put_fd_def)
qed

text \<open>C20: The non-blocking flag is virtual.  On an open socket that the hooks made non-blocking, the flags that
  the program reads with \<open>F_GETFL\<close> are the ones that it wrote with \<open>F_SETFL\<close>, \<open>O_NONBLOCK\<close> included,
  while the descriptor itself stays non-blocking; other descriptors are not affected.\<close>

theorem fcntl_own_flags:
  assumes sys: "fcntl_ok lc opened flags settable" "opened (hk_world h) fd"
    and inv: "fd_inv (hk_fds h)" and ctx: "fd_abs (hk_fds h) fd = Some ctx"
    and sock: "m_isSocket ctx" "\<not> m_isClosed ctx" "m_sysNonblock ctx"
  shows "\<exists>h1 r h2. hook_fcntl lc fd F_SETFL (Int_Arg a) h = Inr (0, h1) \<and> hook_fcntl lc fd F_GETFL No_Arg h1 = Inr (r, h2) \<and>
    r AND settable = a AND settable \<and> r AND NOT settable = flags (hk_world h) fd AND NOT settable \<and>
    flags (hk_world h2) fd AND O_NONBLOCK \<noteq> 0 \<and> fd_inv (hk_fds h2) \<and>
    (\<forall>fd'. fd' \<noteq> fd \<longrightarrow> flags (hk_world h2) fd' = flags (hk_world h) fd' \<and> fd_abs (hk_fds h2) fd' = fd_abs (hk_fds h) fd')"
proof -
  have s: "bit settable 11" using sys(1) settable_bit by (auto simp: fcntl_ok_def)
  let ?x = "ctx\<lparr>m_userNonblock := a AND O_NONBLOCK \<noteq> 0\<rparr>"
  from sys obtain w' where w': "lc_fcntl lc (hk_world h) fd F_SETFL (Int_Arg (a OR O_NONBLOCK)) = (0, w')"
    "opened w' = opened (hk_world h)"
    "flags w' = (flags (hk_world h))(fd := (flags (hk_world h) fd AND NOT settable) OR ((a OR O_NONBLOCK) AND settable))"
    unfolding fcntl_ok_def by metis
  have g: "lc_fcntl lc w' fd F_GETFL No_Arg = (flags w' fd, w')" using sys w'(2) by (simp add: fcntl_ok_def)
  let ?h1 = "set_world w' (put_fd fd ?x h)"
  note pf = put_fd_abs [OF inv ctx, of ?x]
  have 1: "hook_fcntl lc fd F_SETFL (Int_Arg a) h = Inr (0, ?h1)"
    using fd_get_known [OF inv ctx, of lc] sock w'(1)
    by (simp add: hook_fcntl_def va_int_def virtual_def fcntl_sys_def put_fd_def hk_world_def)
  let ?r = "if bit a 11 then flags w' fd OR O_NONBLOCK else flags w' fd AND NOT O_NONBLOCK"
  have "fd_get lc fd False ?h1 = Inr (Some ?x, ?h1)" by (rule fd_get_known) (use pf in simp_all)
  moreover have "set_world w' ?h1 = ?h1" by (simp add: set_world_def)
  ultimately have 2: "hook_fcntl lc fd F_GETFL No_Arg ?h1 = Inr (?r, ?h1)"
    using sock g by (simp add: hook_fcntl_def virtual_def fcntl_sys_def F_GETFL_def F_SETFL_def nonblock_zero)
  have "flags w' fd AND O_NONBLOCK \<noteq> 0"
    using s by (simp add: w'(3) nonblock_zero bit_or_iff bit_and_iff O_NONBLOCK_bit)
  moreover have "?r AND settable = a AND settable" "?r AND NOT settable = flags (hk_world h) fd AND NOT settable"
    using own_flag [OF s, of "flags (hk_world h) fd" a] unfolding w'(3) Let_def fun_upd_same by blast+
  ultimately show ?thesis using 1 2 pf by (intro exI [of _ ?h1] exI [of _ ?r]) (simp add: w'(3))
qed

section \<open>Closing\<close>

text \<open>\<open>cancelAll\<close> of a descriptor that the kernel lets go.\<close>

lemma cancelAll_clears:
  assumes ok: "epoll_ok ep interest" "epoll_reduces ep interest" and io: "io_inv interest tick io" and fd: "0 \<le> fd" "fd \<noteq> tick"
  shows "\<exists>io'. cancelAll ep fd io = Inr (watched (m_fdContexts io) fd \<noteq> None, io') \<and> io_inv interest tick io' \<and>
    acct io' = acct io \<and> watched (m_fdContexts io') fd = None"
proof -
  from cancelAll_inv [OF ok(1) io fd(1)] obtain b io' where 1: "cancelAll ep fd io = Inr (b, io')"
    "io_inv interest tick io'" "acct io' = acct io" "b \<longrightarrow> c_events (m_fdContexts io' ! nat fd) = 0" by blast
  have "interest (io_world io) fd = watched (m_fdContexts io) fd" using io fd by (simp add: io_inv_def agree_def)
  then have "watched (m_fdContexts io) fd \<noteq> None \<Longrightarrow> fst (ep (io_world io) EPOLL_CTL_DEL fd 0) = 0"
    using ok(2) by (simp add: epoll_reduces_def)
  then have b: "b \<longleftrightarrow> watched (m_fdContexts io) fd \<noteq> None" "\<not> b \<Longrightarrow> m_fdContexts io' = m_fdContexts io"
    using 1(1) fd(1) by (auto simp: cancelAll_def with_ctx_def watched_def mask_of_def res_simps split: if_splits prod.splits)
  have "watched (m_fdContexts io') fd = None"
    using 1(4) b by (cases b) (auto simp: watched_def mask_of_def)
  then show ?thesis using 1(1-3) b(1) by (intro exI [of _ io']) simp
qed

text \<open>C19: Closing a descriptor that the hooks know: every fibre that waits on it is handed to its scheduler, the
  table of events has nothing left for it, its context is removed and no other, and then the system
  closes it.\<close>

theorem close_releases:
  assumes ok: "epoll_ok (lc_epoll_ctl lc) interest" "epoll_reduces (lc_epoll_ctl lc) interest" and inv: "hk_inv interest tick h"
    and c: "t_hook_enable h (hc_tid c)" "hc_iom c" and ctx: "fd_abs (hk_fds h) fd = Some ctx" and fd: "fd \<noteq> tick"
  shows "\<exists>io h2. cancelAll (lc_epoll_ctl lc) fd (hk_io h) = Inr (watched (m_fdContexts (hk_io h)) fd \<noteq> None, io) \<and>
    acct io = acct (hk_io h) \<and> watched (m_fdContexts io) fd = None \<and> io_inv interest tick io \<and>
    hk_io h2 = io \<and> fd_inv (hk_fds h2) \<and> fd_abs (hk_fds h2) = (fd_abs (hk_fds h))(fd := None) \<and>
    hook_close lc c fd h = passes (hc_tid c) (close_f lc fd) h2"
proof -
  have f0: "0 \<le> fd" using ctx by (auto simp: fd_abs_def split: if_splits)
  have io: "io_inv interest tick (hk_io h)" and fi: "fd_inv (hk_fds h)" using inv by (auto simp: hk_inv_def)
  let ?b = "watched (m_fdContexts (hk_io h)) fd \<noteq> None"
  from cancelAll_clears [OF ok io f0 fd] obtain io' where 1: "cancelAll (lc_epoll_ctl lc) fd (hk_io h) = Inr (?b, io')"
    "io_inv interest tick io'" "acct io' = acct (hk_io h)" "watched (m_fdContexts io') fd = None" by blast
  from del_map [OF fi f0] obtain fds where d: "FdManager_del (hk_fds h) fd = Inr fds" "fd_inv fds"
    "fd_abs fds = (fd_abs (hk_fds h))(fd := None)" by blast
  have "hook_close lc c fd h = passes (hc_tid c) (close_f lc fd) (h\<lparr>hk_io := io', hk_fds := fds\<rparr>)"
    using c fd_get_known [OF fi ctx, of lc] 1(1) d(1) by (simp add: hook_close_def)
  then show ?thesis using 1 d
    by (intro exI [of _ io'] exI [of _ "h\<lparr>hk_io := io', hk_fds := fds\<rparr>"]) auto
qed

section \<open>Examples\<close>

definition demo_libc :: "(int \<Rightarrow> u32 option) libc" where
  "demo_libc = \<lparr>lc_fstat = \<lambda>_ _. Some True, lc_fcntl = \<lambda>w _ _ _. (0, w), lc_epoll_ctl = simple_epoll,
     sleep_f = \<lambda>_ w. (0, w), usleep_f = \<lambda>_ w. (0, 0, w), nanosleep_f = \<lambda>_ _ w. (0, 0, w),
     socket_f = \<lambda>_ _ _ w. (5, 0, w), connect_f = \<lambda>_ _ w. (- 1, EINPROGRESS, w), close_f = \<lambda>_ w. (0, 0, w),
     ioctl_f = \<lambda>_ _ _ w. (0, 0, w), getsockopt_f = \<lambda>_ _ _ w. (0, 0, 0, w), setsockopt_f = \<lambda>_ _ _ _ w. (0, 0, w)\<rparr>"

definition demo_caller :: caller where
  "demo_caller = \<lparr>hc_tid = 1, hc_fibre = 7, hc_fstate = EXEC, hc_iom = True, hc_now = 100, hc_timer = 4, hc_info = 6,
     hc_fun = 2, hc_pipe_ok = True, hc_ctl_errno = 12\<rparr>"

definition demo_ctx :: fd_ctx where
  "demo_ctx = \<lparr>m_isInit = True, m_isSocket = True, m_sysNonblock = True, m_userNonblock = False,
     m_isClosed = False, m_fd = 5, m_recvTimeout = 50, m_sendTimeout = - 1\<rparr>"

definition demo_hooks :: "(int \<Rightarrow> u32 option) hooks" where
  "demo_hooks = \<lparr>t_hook_enable = \<lambda>_. True, s_connect_timeout = 5000, hk_errno = \<lambda>_. 0,
     hk_fds = FdManager_new[nat 5 := Some demo_ctx], hk_infos = [6 \<mapsto> 0], hk_closures = \<lambda>_. None, hk_io = fresh_io\<rparr>"

lemma demo_fields [simp]:
  "hc_tid demo_caller = 1" "hc_fibre demo_caller = 7" "hc_fstate demo_caller = EXEC" "hc_iom demo_caller"
  "hc_now demo_caller = 100" "hc_timer demo_caller = 4" "hc_fun demo_caller = 2" "hc_pipe_ok demo_caller"
  "m_isSocket demo_ctx" "\<not> m_isClosed demo_ctx" "m_sysNonblock demo_ctx" "hk_infos demo_hooks 6 = Some 0"
  "hooks.t_hook_enable demo_hooks 1" "hk_io demo_hooks = fresh_io"
  by (simp_all add: demo_caller_def demo_ctx_def demo_hooks_def)

lemma demo_fds: "fd_inv (hk_fds demo_hooks)" "fd_abs (hk_fds demo_hooks) 5 = Some demo_ctx"
proof -
  show "fd_inv (hk_fds demo_hooks)"
    unfolding demo_hooks_def hooks.simps by (rule fd_inv_update [OF fd_inv_new]) (auto simp: demo_ctx_def)
  show "fd_abs (hk_fds demo_hooks) 5 = Some demo_ctx" by (simp add: fd_abs_def demo_hooks_def FdManager_new_def)
qed

lemma demo_inv: "hk_inv (\<lambda>w. w) 9 demo_hooks"
proof -
  have "io_inv (\<lambda>w. w) 9 fresh_io" unfolding fresh_io_def by (rule io_inv_new) auto
  moreover have "tm_inv (io_timers fresh_io)" by (simp add: fresh_io_def IOManager_new_def TimerManager_new_inv)
  ultimately show ?thesis using demo_fds(1) by (simp add: hk_inv_def)
qed

lemma demo_free: "not_waiting 5 READ demo_hooks"
  by (simp add: not_waiting_def demo_hooks_def fresh_io_def IOManager_new_def contextResize_def new_context_def NONE_def)

lemma demo_live: "m_live (timers_of demo_hooks) = []"
  by (simp add: timers_of_def demo_hooks_def fresh_io_def IOManager_new_def TimerManager_new_def)

lemma demo_epoll: "epoll_ok (lc_epoll_ctl demo_libc) (\<lambda>w. w)" "epoll_reduces (lc_epoll_ctl demo_libc) (\<lambda>w. w)"
  by (simp_all add: demo_libc_def simple_epoll_ok) (simp add: epoll_reduces_def simple_epoll_def)

lemma do_io_outcome_witness:
  "\<exists>p h'. do_io_retry demo_libc demo_caller (\<lambda>w. (- 1, EAGAIN, w)) 5 READ 50 6 demo_hooks = Inr (p, h')"
proof -
  have r: "call_eintr (\<lambda>w. (- 1, EAGAIN, w)) (hk_world demo_hooks) = Some (- 1, EAGAIN, hk_world demo_hooks)"
    by (subst call_eintr_unfold) (simp add: interrupted_def EAGAIN_def EINTR_def)
  show ?thesis
    using do_io_outcome [OF demo_epoll(1) demo_inv _ _ _ _ _ _ demo_free _ _ r, of demo_caller 6 50]
    by (auto simp: is_event_def demo_live after_def)
qed

lemma demo_block:
  assumes "hk_io h0 = fresh_io" "hk_infos h0 6 = Some 0" "fd_inv (hk_fds h0)"
  shows "\<exists>h2 h3. arm_timeout demo_caller 50 5 READ 6 h0 = Inr (Some 4, h2) \<and> wait_event demo_libc demo_caller 5 READ h2 = Inr (0, h3) \<and>
    hk_inv (\<lambda>w. w) 9 h3 \<and> waits demo_caller 5 READ 50 6 (Some 4) h3 \<and> m_live (timers_of h3) = [4]"
proof -
  note d = demo_caller_def demo_libc_def fresh_io_def IOManager_new_def TimerManager_new_def one_sched_def
  have i: "hk_inv (\<lambda>w. w) 9 h0" "not_waiting 5 READ h0" "m_live (timers_of h0) = []"
    using assms demo_inv demo_free demo_live by (simp_all add: hk_inv_def not_waiting_def timers_of_def)
  obtain h2 where a: "arm_timeout demo_caller 50 5 READ 6 h0 = Inr (Some 4, h2)" "m_live (timers_of h2) = [4]"
    "m_fdContexts (hk_io h2) = map new_context [0..<32]" "io_world (hk_io h2) = [9 \<mapsto> EPOLLIN OR EPOLLET]"
    using assms(1)
    by (auto simp: arm_timeout_def with_timers_def addConditionTimer_def addTimer_def insertTimer_def d
      onTimerInsertAtFront_def tickle_io_def hasIdleThreads_def timers_of_def put_closure_def contextResize_def Let_def
      simp del: upt_rec_numeral split: prod.split)
  from block_ok [OF demo_epoll(1) i(1) _ _ _ _ _ i(2) assms(2), of demo_caller 50] a i(3) obtain rt h3 where
    b: "wait_event demo_libc demo_caller 5 READ h2 = Inr (rt, h3)"
      "rt = 0 \<Longrightarrow> hk_inv (\<lambda>w. w) 9 h3 \<and> waits demo_caller 5 READ 50 6 (Some 4) h3"
    by (auto simp: is_event_def split: if_splits)
  have "rt = 0 \<and> timers_of h3 = timers_of h2"
    using b(1) a(3,4) register_ctx [OF new_context_inv [of 5], of READ None EXEC "m_this (io_sched (hk_io h2))" 7]
    by (auto simp: wait_event_def addEvent_def addEvent_at_def Let_def is_event_def simple_epoll_def new_context_def NONE_def
      demo_libc_def demo_caller_def timers_of_def put_ctx_def simp del: upt_rec_numeral)
  then show ?thesis using a(1,2) b by auto
qed

lemma demo_waits:
  "\<exists>h :: (int \<Rightarrow> u32 option) hooks. hk_inv (\<lambda>w. w) 9 h \<and> waits demo_caller 5 READ 50 6 (Some 4) h \<and> m_live (timers_of h) = [4]"
  using demo_block [of demo_hooks] demo_fds by auto

text \<open>The whole call, from its start to its yield.\<close>

lemma demo_call:
  "\<exists>h3. do_io demo_libc demo_caller (\<lambda>w. (- 1, EAGAIN, w)) 5 READ SO_RCVTIMEO demo_hooks = Inr (Wait (Some 4), h3) \<and>
     waits demo_caller 5 READ 50 6 (Some 4) h3"
proof -
  let ?h = "set_errno 1 EAGAIN (set_world (hk_world demo_hooks) demo_hooks)"
  have r: "call_eintr (\<lambda>w. (- 1, EAGAIN, w)) (hk_world demo_hooks) = Some (- 1, EAGAIN, hk_world demo_hooks)"
    by (subst call_eintr_unfold) (simp add: interrupted_def EAGAIN_def EINTR_def)
  have io: "hk_io ?h = fresh_io" by (simp add: hk_world_def)
  from demo_block [of ?h, OF io] demo_fds(1) obtain h2 h3 where b: "arm_timeout demo_caller 50 5 READ 6 ?h = Inr (Some 4, h2)"
    "wait_event demo_libc demo_caller 5 READ h2 = Inr (0, h3)" "waits demo_caller 5 READ 50 6 (Some 4) h3" by auto
  have "demo_hooks\<lparr>hk_infos := (hk_infos demo_hooks)(6 \<mapsto> 0)\<rparr> = demo_hooks" by (simp add: demo_hooks_def)
  moreover have "hc_info demo_caller = 6" "\<not> m_userNonblock demo_ctx" "getTimeout SO_RCVTIMEO demo_ctx = 50"
    by (simp_all add: demo_caller_def demo_ctx_def getTimeout_def)
  ultimately show ?thesis
    using fd_get_known [OF demo_fds, of demo_libc] r b by (simp add: do_io_def do_io_retry_def sys_result_def Let_def)
qed

lemma timeout_wakes_witness:
  "\<exists>(h :: (int \<Rightarrow> u32 option) hooks) (h3 :: (int \<Rightarrow> u32 option) hooks). waits demo_caller 5 READ 50 6 (Some 4) h \<and> hk_errno h3 1 = ETIMEDOUT"
proof -
  obtain h :: "(int \<Rightarrow> u32 option) hooks" where h: "hk_inv (\<lambda>w. w) 9 h" "waits demo_caller 5 READ 50 6 (Some 4) h"
    "m_live (timers_of h) = [4]" using demo_waits by blast
  from timeout_wakes [OF demo_epoll h(1) _ h(2), of 0 150 demo_caller "\<lambda>w. (0, 0, w)"] h show ?thesis
    by (auto simp: is_event_def)
qed

text \<open>A system whose only descriptor is 5, with its flags in the world.\<close>

definition flag_libc :: "(int \<Rightarrow> u32 option) libc" where
  "flag_libc = demo_libc\<lparr>lc_fcntl := \<lambda>w fd cmd a.
     if cmd = F_GETFL then (the (w 5), w) else (case a of Int_Arg v \<Rightarrow> (0, w(5 \<mapsto> v)) | _ \<Rightarrow> (- 1, w))\<rparr>"

lemma fcntl_own_flags_witness:
  "\<exists>h1 h2. hook_fcntl flag_libc 5 F_SETFL (Int_Arg 0) demo_hooks = Inr (0, h1) \<and>
     hook_fcntl flag_libc 5 F_GETFL No_Arg h1 = Inr (0, h2) \<and> the (hk_world h2 5) AND O_NONBLOCK \<noteq> 0"
proof -
  have "\<exists>w'. lc_fcntl flag_libc w 5 F_SETFL (Int_Arg a) = (0, w') \<and> w' = w(5 \<mapsto> a)" for w a
    by (simp add: flag_libc_def F_GETFL_def F_SETFL_def)
  then have ok: "fcntl_ok flag_libc (\<lambda>_ fd. fd = 5) (\<lambda>w fd. if fd = 5 then the (w 5) else 0) (- 1)"
    by (fastforce simp: fcntl_ok_def flag_libc_def F_GETFL_def F_SETFL_def)
  from fcntl_own_flags [OF ok _ demo_fds, of 0] show ?thesis by auto
qed

lemma close_releases_witness:
  "\<exists>h2. hook_close demo_libc demo_caller 5 demo_hooks = passes 1 (close_f demo_libc 5) h2"
  using close_releases [OF demo_epoll demo_inv _ _ demo_fds(2), of demo_caller] by auto

section \<open>Where the code breaks\<close>

text \<open>The argument of \<open>sleep\<close> is multiplied in 32 bits: 4294968 seconds become 704 milliseconds.\<close>

lemma sleep_wraps: "sleep_ms 4294968 = 704"
  by (simp add: sleep_ms_def)

text \<open>A \<open>nanosleep\<close> of more than 2147483 seconds becomes negative, and its timer is in the past.\<close>

lemma nanosleep_in_the_past: "nanosleep_ms 2147484 0 = - 2147483296"
  by (simp add: nanosleep_ms_def)

text \<open>A time limit of zero, which is the system's way to say that there is none, is taken as a limit that has
  passed at once: the socket has a limit of 0 milliseconds, and every call that waits arms a timer.\<close>

lemma zero_limit_expires:
  assumes "fd_inv (hk_fds h)" "fd_abs (hk_fds h) fd = Some ctx" "t_hook_enable h (hc_tid c)"
  shows "hook_setsockopt lc c fd SOL_SOCKET SO_RCVTIMEO (Timeval 0 0) h =
      passes (hc_tid c) (setsockopt_f lc fd SOL_SOCKET SO_RCVTIMEO (Timeval 0 0)) (put_fd fd (ctx\<lparr>m_recvTimeout := 0\<rparr>) h)"
    "getTimeout SO_RCVTIMEO (ctx\<lparr>m_recvTimeout := 0\<rparr>) \<noteq> - 1"
  using assms by (simp_all add: hook_setsockopt_def fd_get_known setTimeout_def timeval_ms_def getTimeout_def)

text \<open>\<open>ioctl\<close> with \<open>FIONBIO\<close> passes the program's choice to the system: switching non-blocking mode off makes
  the descriptor block, although the context still counts it as non-blocking.\<close>

lemma ioctl_makes_blocking:
  assumes "fd_inv (hk_fds h)" "fd_abs (hk_fds h) fd = Some ctx" "m_isSocket ctx" "\<not> m_isClosed ctx"
  shows "hook_ioctl lc c fd FIONBIO 0 h =
    passes (hc_tid c) (ioctl_f lc fd FIONBIO 0) (put_fd fd (ctx\<lparr>m_userNonblock := False\<rparr>) h)"
  using assms by (simp add: hook_ioctl_def fd_get_known virtual_def)

text \<open>A command of \<open>fcntl\<close> that the switch does not list, such as \<open>F_OFD_SETLK\<close> (37), loses its argument.\<close>

lemma fcntl_drops_argument: "hook_fcntl lc fd 37 (Ptr_Arg p) h = fcntl_sys lc fd 37 No_Arg h"
  by (simp add: hook_fcntl_def F_SETFL_def F_GETFL_def F_DUPFD_def F_DUPFD_CLOEXEC_def F_SETFD_def F_SETOWN_def F_SETSIG_def
    F_SETLEASE_def F_NOTIFY_def F_SETPIPE_SZ_def F_GETFD_def F_GETOWN_def F_GETSIG_def F_GETLEASE_def F_GETPIPE_SZ_def
    F_SETLK_def F_SETLKW_def F_GETLK_def)

text \<open>\<open>write\<close> waits at most for the receive limit of the socket, all other output for the send limit.\<close>

lemma write_uses_receive_limit:
  "hook_write lc c f fd h = do_io lc c f fd WRITE SO_RCVTIMEO h" "getTimeout SO_RCVTIMEO ctx = m_recvTimeout ctx"
  by (simp_all add: hook_write_def getTimeout_def)

end
