(* ===== verification/Socket.thy ===== *)
theory Socket
  imports Hook Address Fs_Util Stream Log_Format
begin

text \<open>
  Sockets (\<open>src/network/socket.cc\<close>, \<open>include/network/socket.h\<close>).  A socket object is a record; its
  methods run on the state of the hooks and call them.  A hooked call that yields is run to its end:
  what other fibres and threads do in the meantime, and on which thread the fibre is resumed, is a
  parameter.  The calls that are not hooked and the functions of OpenSSL are parameters too.  Log
  output is left out.
\<close>

section \<open>Hooked calls to their end\<close>

type_synonym 'w st = "caller \<times> 'w hooks"

text \<open>What happens while a call waits: the caller as it is resumed and the state then.\<close>

type_synonym 'w env = "caller \<Rightarrow> 'w hooks \<Rightarrow> 'w st"

text \<open>The system calls that have no hook, and the originals of the hooked ones that take buffers.  What is
  received goes to the memory of the world; \<open>getsockname\<close> and \<open>getpeername\<close> fill in the structure of an
  address object and tell its length.\<close>

record 'w net =
  nt_libc :: "'w libc"
  nt_fs :: "'w fs_ops"
  nt_env :: "'w env"
  nt_host :: byte_order
  bind_f :: "int \<Rightarrow> byte list \<Rightarrow> 'w sysfun"
  listen_f :: "int \<Rightarrow> int \<Rightarrow> 'w sysfun"
  getsockname_f :: "int \<Rightarrow> address \<Rightarrow> 'w \<Rightarrow> (address \<times> u32) option \<times> int \<times> 'w"
  getpeername_f :: "int \<Rightarrow> address \<Rightarrow> 'w \<Rightarrow> (address \<times> u32) option \<times> int \<times> 'w"
  accept_f :: "int \<Rightarrow> 'w sysfun"
  send_f :: "int \<Rightarrow> byte list \<Rightarrow> int \<Rightarrow> 'w sysfun"
  sendto_f :: "int \<Rightarrow> byte list \<Rightarrow> int \<Rightarrow> byte list \<Rightarrow> 'w sysfun"
  sendmsg_f :: "int \<Rightarrow> byte list list \<Rightarrow> byte list option \<Rightarrow> int \<Rightarrow> 'w sysfun"
  recv_f :: "int \<Rightarrow> nat \<Rightarrow> int \<Rightarrow> 'w sysfun"
  recvfrom_f :: "int \<Rightarrow> nat \<Rightarrow> int \<Rightarrow> u32 \<Rightarrow> 'w sysfun"
  recvmsg_f :: "int \<Rightarrow> nat list \<Rightarrow> u32 option \<Rightarrow> int \<Rightarrow> 'w sysfun"

text \<open>A call that cannot yield.\<close>

definition at_once :: "(progress \<times> 'w hooks) res \<Rightarrow> (int \<times> 'w hooks) res" where
  "at_once r = rbind r (\<lambda>(p, h). case p of Done n \<Rightarrow> Inr (n, h) | Wait _ \<Rightarrow> Inl Undefined)"

text \<open>\<open>do_io\<close> behind its first yield, until it returns.\<close>

partial_function (option) io_complete ::
  "'w env \<Rightarrow> 'w libc \<Rightarrow> 'w sysfun \<Rightarrow> int \<Rightarrow> u32 \<Rightarrow> u64 \<Rightarrow> nat \<Rightarrow> caller \<Rightarrow> progress \<times> 'w hooks \<Rightarrow> ((int \<times> 'w st) res) option" where
  "io_complete env lc f fd event to tinfo c r =
     (case fst r of
        Done n \<Rightarrow> Some (Inr (n, c, snd r))
      | Wait timer \<Rightarrow>
          (case env c (snd r) of (c, h) \<Rightarrow>
             (case do_io_resume lc c f fd event to tinfo timer h of
                Inl e \<Rightarrow> Some (Inl e)
              | Inr r \<Rightarrow> io_complete env lc f fd event to tinfo c r)))"

text \<open>The limit that \<open>do_io\<close> reads at its start.\<close>

definition limit_of :: "int \<Rightarrow> int \<Rightarrow> 'w hooks \<Rightarrow> u64" where
  "limit_of fd timeout_so h = (case fd_abs (hk_fds h) fd of None \<Rightarrow> - 1 | Some ctx \<Rightarrow> getTimeout timeout_so ctx)"

definition io_call ::
  "'w net \<Rightarrow> ('w libc \<Rightarrow> caller \<Rightarrow> 'w sysfun \<Rightarrow> int \<Rightarrow> 'w hooks \<Rightarrow> (progress \<times> 'w hooks) res) \<Rightarrow> 'w sysfun \<Rightarrow>
   int \<Rightarrow> u32 \<Rightarrow> int \<Rightarrow> 'w st \<Rightarrow> (int \<times> 'w st) res" where
  "io_call net hook f fd event timeout_so st =
     (let (c, h) = st
      in rbind (hook (nt_libc net) c f fd h) (\<lambda>r.
           case io_complete (nt_env net) (nt_libc net) f fd event (limit_of fd timeout_so h) (hc_info c) c r of
             None \<Rightarrow> Inl Diverge
           | Some x \<Rightarrow> x))"

definition accept_call :: "'w net \<Rightarrow> int \<Rightarrow> 'w st \<Rightarrow> (int \<times> 'w st) res" where
  "accept_call net fd st =
     rbind (io_call net (\<lambda>lc c f fd h. do_io lc c f fd READ SO_RCVTIMEO h) (accept_f net fd) fd READ SO_RCVTIMEO st) (\<lambda>(n, c, h).
     rbind (at_once (accept_finish (nt_libc net) (Done n, h))) (\<lambda>(n, h). Inr (n, c, h)))"

definition connect_call :: "'w net \<Rightarrow> int \<Rightarrow> byte list \<Rightarrow> u64 \<Rightarrow> 'w st \<Rightarrow> (int \<times> 'w st) res" where
  "connect_call net fd addr timeout_ms st =
     (let (c, h) = st
      in rbind (connect_with_timeout (nt_libc net) c fd addr timeout_ms h) (\<lambda>(p, h1).
           case p of
             Done n \<Rightarrow> Inr (n, c, h1)
           | Wait timer \<Rightarrow>
               (let (c', h2) = nt_env net c h1
                in rbind (at_once (connect_resume (nt_libc net) c' fd (hc_info c) timer h2)) (\<lambda>(n, h3). Inr (n, c', h3)))))"

text \<open>A call that has no hook.\<close>

definition plain_call :: "'w sysfun \<Rightarrow> 'w st \<Rightarrow> int \<times> 'w st" where
  "plain_call f st = (let (c, h) = st; (n, h) = sys_call (hc_tid c) f h in (n, c, h))"

section \<open>Construction\<close>

definition SOCK_STREAM :: int where "SOCK_STREAM = 1"
definition SOCK_DGRAM :: int where "SOCK_DGRAM = 2"
definition SO_REUSEADDR :: int where "SO_REUSEADDR = 2"
definition IPPROTO_TCP :: int where "IPPROTO_TCP = 6"
definition TCP_NODELAY :: int where "TCP_NODELAY = 1"
definition SOMAXCONN :: int where "SOMAXCONN = 4096"

record socket =
  sk_sock :: int
  sk_family :: int
  sk_type :: int
  sk_protocol :: int
  sk_isConnected :: bool
  sk_localAddress :: "address option"
  sk_remoteAddress :: "address option"

definition Socket_new :: "int \<Rightarrow> int \<Rightarrow> int \<Rightarrow> socket" where
  "Socket_new family type protocol =
     \<lparr>sk_sock = - 1, sk_family = family, sk_type = type, sk_protocol = protocol, sk_isConnected = False,
      sk_localAddress = None, sk_remoteAddress = None\<rparr>"

definition isValid :: "socket \<Rightarrow> bool" where
  "isValid sk \<longleftrightarrow> sk_sock sk \<noteq> - 1"

section \<open>Options\<close>

definition setOption :: "'w net \<Rightarrow> int \<Rightarrow> int \<Rightarrow> optval \<Rightarrow> socket \<Rightarrow> 'w st \<Rightarrow> (bool \<times> 'w st) res" where
  "setOption net level option v sk st =
     (let (c, h) = st
      in rbind (at_once (hook_setsockopt (nt_libc net) c (sk_sock sk) level option v h)) (\<lambda>(n, h).
           Inr (if n \<noteq> 0 then False else True, c, h)))"

definition getOption :: "'w net \<Rightarrow> int \<Rightarrow> int \<Rightarrow> socket \<Rightarrow> 'w st \<Rightarrow> bool \<times> int \<times> 'w st" where
  "getOption net level option sk st =
     (let (c, h) = st; (rt, v, h) = hook_getsockopt (nt_libc net) c (sk_sock sk) level option h
      in (if rt \<noteq> 0 then False else True, v, c, h))"

definition getError :: "'w net \<Rightarrow> socket \<Rightarrow> 'w st \<Rightarrow> int \<times> 'w st" where
  "getError net sk st =
     (let (b, error, c, h) = getOption net SOL_SOCKET SO_ERROR sk st
      in (if \<not> b then hk_errno h (hc_tid c) else error, c, h))"

text \<open>\<open>timeval\<close> of a number of milliseconds, with the casts of both fields to \<open>int\<close>.\<close>

definition timeval_of :: "int \<Rightarrow> optval" where
  "timeval_of v = Timeval (to_int (v sdiv 1000)) (to_int (v smod 1000 * 1000))"

definition setSendTimeout :: "'w net \<Rightarrow> int \<Rightarrow> socket \<Rightarrow> 'w st \<Rightarrow> 'w st res" where
  "setSendTimeout net v sk st = rbind (setOption net SOL_SOCKET SO_SNDTIMEO (timeval_of v) sk st) (\<lambda>(b, st). Inr st)"

definition setRecvTimeout :: "'w net \<Rightarrow> int \<Rightarrow> socket \<Rightarrow> 'w st \<Rightarrow> 'w st res" where
  "setRecvTimeout net v sk st = rbind (setOption net SOL_SOCKET SO_RCVTIMEO (timeval_of v) sk st) (\<lambda>(b, st). Inr st)"

text \<open>The result is the limit read as an \<open>int64_t\<close>.\<close>

definition get_timeout :: "int \<Rightarrow> 'w net \<Rightarrow> socket \<Rightarrow> 'w st \<Rightarrow> int res" where
  "get_timeout which net sk st =
     rbind (fd_get (nt_libc net) (sk_sock sk) False (snd st)) (\<lambda>(ctx, h).
       Inr (case ctx of Some x \<Rightarrow> sint (getTimeout which x) | None \<Rightarrow> - 1))"

definition getSendTimeout :: "'w net \<Rightarrow> socket \<Rightarrow> 'w st \<Rightarrow> int res" where
  "getSendTimeout net sk st = get_timeout SO_SNDTIMEO net sk st"

definition getRecvTimeout :: "'w net \<Rightarrow> socket \<Rightarrow> 'w st \<Rightarrow> int res" where
  "getRecvTimeout net sk st = get_timeout SO_RCVTIMEO net sk st"

section \<open>Opening and closing\<close>

definition initSock :: "'w net \<Rightarrow> socket \<Rightarrow> 'w st \<Rightarrow> 'w st res" where
  "initSock net sk st =
     rbind (setOption net SOL_SOCKET SO_REUSEADDR (Opt_Int 1) sk st) (\<lambda>(b, st).
       if sk_type sk = SOCK_STREAM
       then rbind (setOption net IPPROTO_TCP TCP_NODELAY (Opt_Int 1) sk st) (\<lambda>(b, st). Inr st)
       else Inr st)"

definition newSock :: "'w net \<Rightarrow> socket \<Rightarrow> 'w st \<Rightarrow> (socket \<times> 'w st) res" where
  "newSock net sk st =
     (let (c, h) = st
      in rbind (at_once (hook_socket (nt_libc net) c (sk_family sk) (sk_type sk) (sk_protocol sk) h)) (\<lambda>(fd, h).
           let sk = sk\<lparr>sk_sock := fd\<rparr>
           in if sk_sock sk \<noteq> - 1 then rbind (initSock net sk (c, h)) (\<lambda>st. Inr (sk, st)) else Inr (sk, c, h)))"

definition close_sock :: "'w net \<Rightarrow> socket \<Rightarrow> 'w st \<Rightarrow> (bool \<times> socket \<times> 'w st) res" where
  "close_sock net sk st =
     (if \<not> sk_isConnected sk \<and> sk_sock sk = - 1 then Inr (True, sk, st)
      else
        let sk = sk\<lparr>sk_isConnected := False\<rparr>; (c, h) = st
        in if sk_sock sk \<noteq> - 1
           then rbind (at_once (hook_close (nt_libc net) c (sk_sock sk) h)) (\<lambda>(n, h).
                  Inr (False, sk\<lparr>sk_sock := - 1\<rparr>, c, h))
           else Inr (False, sk, st))"

text \<open>The destructor.\<close>

definition Socket_delete :: "'w net \<Rightarrow> socket \<Rightarrow> 'w st \<Rightarrow> 'w st res" where
  "Socket_delete net sk st = rbind (close_sock net sk st) (\<lambda>(b, sk, st). Inr st)"

definition CreateTcp :: "address \<Rightarrow> socket" where
  "CreateTcp addr = Socket_new (getFamily addr) SOCK_STREAM 0"

definition create_udp :: "'w net \<Rightarrow> int \<Rightarrow> 'w st \<Rightarrow> (socket \<times> 'w st) res" where
  "create_udp net family st =
     rbind (newSock net (Socket_new family SOCK_DGRAM 0) st) (\<lambda>(sk, st). Inr (sk\<lparr>sk_isConnected := True\<rparr>, st))"

definition CreateUdp :: "'w net \<Rightarrow> address \<Rightarrow> 'w st \<Rightarrow> (socket \<times> 'w st) res" where
  "CreateUdp net addr st = create_udp net (getFamily addr) st"

definition CreateTcpSocket :: socket where
  "CreateTcpSocket = Socket_new AF_INET SOCK_STREAM 0"

definition CreateUdpSocket :: "'w net \<Rightarrow> 'w st \<Rightarrow> (socket \<times> 'w st) res" where
  "CreateUdpSocket net st = create_udp net AF_INET st"

definition CreateTcpSocket6 :: socket where
  "CreateTcpSocket6 = Socket_new AF_INET6 SOCK_STREAM 0"

definition CreateUdpSocket6 :: socket where
  "CreateUdpSocket6 = Socket_new AF_INET6 SOCK_DGRAM 0"

definition CreateUnixTcpSocket :: socket where
  "CreateUnixTcpSocket = Socket_new AF_UNIX SOCK_STREAM 0"

definition CreateUnixUdpSocket :: socket where
  "CreateUnixUdpSocket = Socket_new AF_UNIX SOCK_DGRAM 0"

section \<open>Addresses\<close>

definition blank_address :: "byte_order \<Rightarrow> int \<Rightarrow> address" where
  "blank_address host family =
     (if family = AF_INET then IPv4Address (new_IPv4 host 0 0)
      else if family = AF_INET6 then IPv6Address new_IPv6
      else if family = AF_UNIX then new_Unix_default
      else UnknownAddress (new_Unknown family))"

text \<open>A Unix address takes over the length that the system reports.\<close>

definition with_len :: "u32 \<Rightarrow> address \<Rightarrow> address" where
  "with_len l a = (case a of UnixAddress m old \<Rightarrow> (let (m, l) = setAddrlen l (m, old) in UnixAddress m l) | _ \<Rightarrow> a)"

definition query_address ::
  "'w net \<Rightarrow> (int \<Rightarrow> address \<Rightarrow> 'w \<Rightarrow> (address \<times> u32) option \<times> int \<times> 'w) \<Rightarrow> socket \<Rightarrow> 'w st \<Rightarrow> address option \<times> 'w st" where
  "query_address net f sk st =
     (let (c, h) = st; (r, e, w) = f (sk_sock sk) (blank_address (nt_host net) (sk_family sk)) (hk_world h);
          h = set_world w h
      in case r of
           None \<Rightarrow> (None, c, set_errno (hc_tid c) e h)
         | Some (a, l) \<Rightarrow> (Some (if sk_family sk = AF_UNIX then with_len l a else a), c, h))"

definition getRemoteAddress :: "'w net \<Rightarrow> socket \<Rightarrow> 'w st \<Rightarrow> address \<times> socket \<times> 'w st" where
  "getRemoteAddress net sk st =
     (case sk_remoteAddress sk of
        Some a \<Rightarrow> (a, sk, st)
      | None \<Rightarrow>
          (let (r, st) = query_address net (getpeername_f net) sk st
           in case r of
                None \<Rightarrow> (UnknownAddress (new_Unknown (sk_family sk)), sk, st)
              | Some a \<Rightarrow> (a, sk\<lparr>sk_remoteAddress := Some a\<rparr>, st)))"

definition getLocalAddress :: "'w net \<Rightarrow> socket \<Rightarrow> 'w st \<Rightarrow> address \<times> socket \<times> 'w st" where
  "getLocalAddress net sk st =
     (case sk_localAddress sk of
        Some a \<Rightarrow> (a, sk, st)
      | None \<Rightarrow>
          (let (r, st) = query_address net (getsockname_f net) sk st
           in case r of
                None \<Rightarrow> (UnknownAddress (new_Unknown (sk_family sk)), sk, st)
              | Some a \<Rightarrow> (a, sk\<lparr>sk_localAddress := Some a\<rparr>, st)))"

text \<open>What \<open>getAddr()\<close> and \<open>getAddrlen()\<close> hand to the system.\<close>

definition addr_arg :: "'w net \<Rightarrow> address \<Rightarrow> byte list" where
  "addr_arg net a = take (unat (getAddrlen a)) (getAddr (nt_host net) a)"

section \<open>Connecting\<close>

text \<open>A socket that \<open>bind\<close> and \<open>connect\<close> open when there is none.\<close>

definition ensure_sock :: "'w net \<Rightarrow> socket \<Rightarrow> 'w st \<Rightarrow> (socket \<times> 'w st) res" where
  "ensure_sock net sk st = (if \<not> isValid sk then newSock net sk st else Inr (sk, st))"

definition connect_sock :: "'w net \<Rightarrow> address \<Rightarrow> u64 \<Rightarrow> socket \<Rightarrow> 'w st \<Rightarrow> (bool \<times> socket \<times> 'w st) res" where
  "connect_sock net addr timeout_ms sk st =
     rbind (ensure_sock net (sk\<lparr>sk_remoteAddress := Some addr\<rparr>) st) (\<lambda>(sk, st).
       if \<not> isValid sk then Inr (False, sk, st)
       else if getFamily addr \<noteq> sk_family sk then Inr (False, sk, st)
       else
         rbind (if timeout_ms = - 1
                then connect_call net (sk_sock sk) (addr_arg net addr) (s_connect_timeout (snd st)) st
                else connect_call net (sk_sock sk) (addr_arg net addr) timeout_ms st) (\<lambda>(n, st).
           if n \<noteq> 0 then rbind (close_sock net sk st) (\<lambda>(b, sk, st). Inr (False, sk, st))
           else
             let sk = sk\<lparr>sk_isConnected := True\<rparr>;
                 (a, sk, st) = getRemoteAddress net sk st;
                 (a, sk, st) = getLocalAddress net sk st
             in Inr (True, sk, st)))"

definition reconnect :: "'w net \<Rightarrow> u64 \<Rightarrow> socket \<Rightarrow> 'w st \<Rightarrow> (bool \<times> socket \<times> 'w st) res" where
  "reconnect net timeout_ms sk st =
     (case sk_remoteAddress sk of
        None \<Rightarrow> Inr (False, sk, st)
      | Some addr \<Rightarrow> connect_sock net addr timeout_ms (sk\<lparr>sk_localAddress := None\<rparr>) st)"

text \<open>Before a Unix address is bound, a connection to it is tried: if somebody listens there, \<open>bind\<close> fails,
  otherwise the file is removed.  The trial socket is destroyed in both cases.\<close>

definition unix_free :: "'w net \<Rightarrow> address \<Rightarrow> 'w st \<Rightarrow> (bool \<times> 'w st) res" where
  "unix_free net addr st =
     (case addr of
        UnixAddress m l \<Rightarrow>
          rbind (connect_sock net addr (- 1) CreateUnixTcpSocket st) (\<lambda>(b, sk, st).
            if b then rbind (Socket_delete net sk st) (\<lambda>st. Inr (False, st))
            else
              rbind (getPath m l) (\<lambda>path.
                let (c, h) = st; (u, w) = Unlink (nt_fs net) (hk_world h) path True
                in rbind (Socket_delete net sk (c, set_world w h)) (\<lambda>st. Inr (True, st))))
      | _ \<Rightarrow> Inr (True, st))"

definition bind_sock :: "'w net \<Rightarrow> address \<Rightarrow> socket \<Rightarrow> 'w st \<Rightarrow> (bool \<times> socket \<times> 'w st) res" where
  "bind_sock net addr sk st =
     rbind (ensure_sock net sk st) (\<lambda>(sk, st).
       if \<not> isValid sk then Inr (False, sk, st)
       else if getFamily addr \<noteq> sk_family sk then Inr (False, sk, st)
       else
         rbind (unix_free net addr st) (\<lambda>(free, st).
           if \<not> free then Inr (False, sk, st)
           else
             let (rt, st) = plain_call (bind_f net (sk_sock sk) (addr_arg net addr)) st
             in if rt \<noteq> 0 then Inr (False, sk, st)
                else let (a, sk, st) = getLocalAddress net sk st in Inr (True, sk, st)))"

definition listen_sock :: "'w net \<Rightarrow> int \<Rightarrow> socket \<Rightarrow> 'w st \<Rightarrow> bool \<times> 'w st" where
  "listen_sock net backlog sk st =
     (if \<not> isValid sk then (False, st)
      else let (rt, st) = plain_call (listen_f net (sk_sock sk) backlog) st
           in if rt \<noteq> 0 then (False, st) else (True, st))"

definition init_sock :: "'w net \<Rightarrow> int \<Rightarrow> socket \<Rightarrow> 'w st \<Rightarrow> (bool \<times> socket \<times> 'w st) res" where
  "init_sock net fd sk st =
     (let (c, h) = st
      in rbind (fd_get (nt_libc net) fd False h) (\<lambda>(ctx, h).
           if (case ctx of None \<Rightarrow> False | Some x \<Rightarrow> m_isSocket x \<and> \<not> m_isClosed x) then
             let sk = sk\<lparr>sk_sock := fd, sk_isConnected := True\<rparr>
             in rbind (initSock net sk (c, h)) (\<lambda>st.
                  let (a, sk, st) = getLocalAddress net sk st;
                      (a, sk, st) = getRemoteAddress net sk st
                  in Inr (True, sk, st))
           else Inr (False, sk, c, h)))"

definition accept_sock :: "'w net \<Rightarrow> socket \<Rightarrow> 'w st \<Rightarrow> (socket option \<times> 'w st) res" where
  "accept_sock net sk st =
     (let sock = Socket_new (sk_family sk) (sk_type sk) (sk_protocol sk)
      in rbind (accept_call net (sk_sock sk) st) (\<lambda>(newsock, st).
           if newsock = - 1 then Inr (None, st)
           else rbind (init_sock net newsock sock st) (\<lambda>(b, sock, st).
                  if b then Inr (Some sock, st)
                  else rbind (Socket_delete net sock st) (\<lambda>st. Inr (None, st)))))"

section \<open>Transfer\<close>

text \<open>Each operation only works on a connected socket; the result is cut to \<open>int\<close>.\<close>

definition if_connected :: "socket \<Rightarrow> 'w st \<Rightarrow> ('w st \<Rightarrow> (int \<times> 'w st) res) \<Rightarrow> (int \<times> 'w st) res" where
  "if_connected sk st k = (if sk_isConnected sk then rbind (k st) (\<lambda>(n, st). Inr (to_int n, st)) else Inr (- 1, st))"

definition send_buf :: "'w net \<Rightarrow> byte list \<Rightarrow> int \<Rightarrow> socket \<Rightarrow> 'w st \<Rightarrow> (int \<times> 'w st) res" where
  "send_buf net buffer flags sk st =
     if_connected sk st (io_call net hook_send (send_f net (sk_sock sk) buffer flags) (sk_sock sk) WRITE SO_SNDTIMEO)"

definition send_iov :: "'w net \<Rightarrow> byte list list \<Rightarrow> int \<Rightarrow> socket \<Rightarrow> 'w st \<Rightarrow> (int \<times> 'w st) res" where
  "send_iov net buffers flags sk st =
     if_connected sk st (io_call net hook_sendmsg (sendmsg_f net (sk_sock sk) buffers None flags) (sk_sock sk) WRITE SO_SNDTIMEO)"

definition sendTo_buf :: "'w net \<Rightarrow> byte list \<Rightarrow> address \<Rightarrow> int \<Rightarrow> socket \<Rightarrow> 'w st \<Rightarrow> (int \<times> 'w st) res" where
  "sendTo_buf net buffer dest flags sk st =
     if_connected sk st (io_call net hook_sendto (sendto_f net (sk_sock sk) buffer flags (addr_arg net dest)) (sk_sock sk) WRITE SO_SNDTIMEO)"

definition sendTo_iov :: "'w net \<Rightarrow> byte list list \<Rightarrow> address \<Rightarrow> int \<Rightarrow> socket \<Rightarrow> 'w st \<Rightarrow> (int \<times> 'w st) res" where
  "sendTo_iov net buffers dest flags sk st =
     if_connected sk st (io_call net hook_sendmsg (sendmsg_f net (sk_sock sk) buffers (Some (addr_arg net dest)) flags) (sk_sock sk) WRITE SO_SNDTIMEO)"

definition recv_buf :: "'w net \<Rightarrow> nat \<Rightarrow> int \<Rightarrow> socket \<Rightarrow> 'w st \<Rightarrow> (int \<times> 'w st) res" where
  "recv_buf net len flags sk st =
     if_connected sk st (io_call net hook_recv (recv_f net (sk_sock sk) len flags) (sk_sock sk) READ SO_RCVTIMEO)"

definition recv_iov :: "'w net \<Rightarrow> nat list \<Rightarrow> int \<Rightarrow> socket \<Rightarrow> 'w st \<Rightarrow> (int \<times> 'w st) res" where
  "recv_iov net lengths flags sk st =
     if_connected sk st (io_call net hook_recvmsg (recvmsg_f net (sk_sock sk) lengths None flags) (sk_sock sk) READ SO_RCVTIMEO)"

definition recvFrom_buf :: "'w net \<Rightarrow> nat \<Rightarrow> address \<Rightarrow> int \<Rightarrow> socket \<Rightarrow> 'w st \<Rightarrow> (int \<times> 'w st) res" where
  "recvFrom_buf net len source flags sk st =
     if_connected sk st (io_call net hook_recvfrom (recvfrom_f net (sk_sock sk) len flags (getAddrlen source)) (sk_sock sk) READ SO_RCVTIMEO)"

definition recvFrom_iov :: "'w net \<Rightarrow> nat list \<Rightarrow> address \<Rightarrow> int \<Rightarrow> socket \<Rightarrow> 'w st \<Rightarrow> (int \<times> 'w st) res" where
  "recvFrom_iov net lengths source flags sk st =
     if_connected sk st (io_call net hook_recvmsg (recvmsg_f net (sk_sock sk) lengths (Some (getAddrlen source)) flags) (sk_sock sk) READ SO_RCVTIMEO)"

section \<open>Cancelling and printing\<close>

definition cancel_event :: "'w net \<Rightarrow> u32 \<Rightarrow> socket \<Rightarrow> 'w st \<Rightarrow> (bool \<times> 'w st) res" where
  "cancel_event net event sk st =
     (let (c, h) = st
      in if \<not> hc_iom c then Inl Null_Deref
         else rbind (cancelEvent (lc_epoll_ctl (nt_libc net)) (sk_sock sk) event (hk_io h)) (\<lambda>(b, io).
                Inr (b, c, h\<lparr>hk_io := io\<rparr>)))"

definition cancelRead :: "'w net \<Rightarrow> socket \<Rightarrow> 'w st \<Rightarrow> (bool \<times> 'w st) res" where
  "cancelRead net sk st = cancel_event net READ sk st"

definition cancelWrite :: "'w net \<Rightarrow> socket \<Rightarrow> 'w st \<Rightarrow> (bool \<times> 'w st) res" where
  "cancelWrite net sk st = cancel_event net WRITE sk st"

definition cancelAccept :: "'w net \<Rightarrow> socket \<Rightarrow> 'w st \<Rightarrow> (bool \<times> 'w st) res" where
  "cancelAccept net sk st = cancel_event net READ sk st"

definition cancelAll_sock :: "'w net \<Rightarrow> socket \<Rightarrow> 'w st \<Rightarrow> (bool \<times> 'w st) res" where
  "cancelAll_sock net sk st =
     (let (c, h) = st
      in if \<not> hc_iom c then Inl Null_Deref
         else rbind (cancelAll (lc_epoll_ctl (nt_libc net)) (sk_sock sk) (hk_io h)) (\<lambda>(b, io).
                Inr (b, c, h\<lparr>hk_io := io\<rparr>)))"

definition dump_address :: "byte_order \<Rightarrow> string \<Rightarrow> address option \<Rightarrow> string res" where
  "dump_address host label a =
     (case a of None \<Rightarrow> Inr [] | Some x \<Rightarrow> rbind (toString host x) (\<lambda>s. Inr (label @ s)))"

definition dump :: "byte_order \<Rightarrow> string \<Rightarrow> socket \<Rightarrow> string res" where
  "dump host kind sk =
     rbind (dump_address host '' local_address='' (sk_localAddress sk)) (\<lambda>l.
     rbind (dump_address host '' remote_address='' (sk_remoteAddress sk)) (\<lambda>r.
       Inr (''['' @ kind @ '' sock='' @ show_int (sk_sock sk) @
            '' is_connected='' @ (if sk_isConnected sk then ''1'' else ''0'') @
            '' family='' @ show_int (sk_family sk) @ '' type='' @ show_int (sk_type sk) @
            '' protocol='' @ show_int (sk_protocol sk) @ l @ r @ '']'')))"

definition toString_sock :: "byte_order \<Rightarrow> socket \<Rightarrow> string res" where
  "toString_sock host sk = dump host ''Socket'' sk"

end
