(* ===== verification/Ssl_Socket.thy ===== *)
theory Ssl_Socket
  imports Socket
begin

text \<open>
  TLS sockets (\<open>SSLSocket\<close> in \<open>src/network/socket.cc\<close>).  The functions of OpenSSL are parameters; they
  read and write the descriptor through the hooks, so they act on the whole state.  A handle is the
  address of an object of the library.
\<close>

record 'w openssl =
  SSL_CTX_new :: "bool \<Rightarrow> 'w st \<Rightarrow> nat option \<times> 'w st"
  SSL_CTX_use_certificate_chain_file :: "nat option \<Rightarrow> string \<Rightarrow> 'w st \<Rightarrow> int \<times> 'w st"
  SSL_CTX_use_PrivateKey_file :: "nat option \<Rightarrow> string \<Rightarrow> 'w st \<Rightarrow> int \<times> 'w st"
  SSL_CTX_check_private_key :: "nat option \<Rightarrow> 'w st \<Rightarrow> int \<times> 'w st"
  SSL_new :: "nat option \<Rightarrow> 'w st \<Rightarrow> nat option \<times> 'w st"
  SSL_set_fd :: "nat option \<Rightarrow> int \<Rightarrow> 'w st \<Rightarrow> 'w st"
  SSL_connect :: "nat option \<Rightarrow> 'w st \<Rightarrow> int \<times> 'w st"
  SSL_accept :: "nat option \<Rightarrow> 'w st \<Rightarrow> int \<times> 'w st"
  SSL_write :: "nat \<Rightarrow> byte list \<Rightarrow> 'w st \<Rightarrow> int \<times> 'w st"
  SSL_read :: "nat \<Rightarrow> nat \<Rightarrow> 'w st \<Rightarrow> int \<times> 'w st"

record ssl_socket = socket +
  sk_ctx :: "nat option"
  sk_ssl :: "nat option"

definition base :: "ssl_socket \<Rightarrow> socket" where
  "base s = socket.truncate s"

definition with_base :: "socket \<Rightarrow> ssl_socket \<Rightarrow> ssl_socket" where
  "with_base sk s = socket.extend sk (ssl_socket.fields (sk_ctx s) (sk_ssl s))"

definition SSLSocket_new :: "int \<Rightarrow> int \<Rightarrow> int \<Rightarrow> ssl_socket" where
  "SSLSocket_new family type protocol =
     socket.extend (Socket_new family type protocol) (ssl_socket.fields None None)"

definition SSL_CreateTcp :: "address \<Rightarrow> ssl_socket" where
  "SSL_CreateTcp addr = SSLSocket_new (getFamily addr) SOCK_STREAM 0"

definition SSL_CreateTcpSocket :: ssl_socket where
  "SSL_CreateTcpSocket = SSLSocket_new AF_INET SOCK_STREAM 0"

definition SSL_CreateTcpSocket6 :: ssl_socket where
  "SSL_CreateTcpSocket6 = SSLSocket_new AF_INET6 SOCK_STREAM 0"

section \<open>The operations of the base class\<close>

definition ssl_bind :: "'w net \<Rightarrow> address \<Rightarrow> ssl_socket \<Rightarrow> 'w st \<Rightarrow> (bool \<times> ssl_socket \<times> 'w st) res" where
  "ssl_bind net addr s st = rbind (bind_sock net addr (base s) st) (\<lambda>(b, sk, st). Inr (b, with_base sk s, st))"

definition ssl_listen :: "'w net \<Rightarrow> int \<Rightarrow> ssl_socket \<Rightarrow> 'w st \<Rightarrow> bool \<times> 'w st" where
  "ssl_listen net backlog s st = listen_sock net backlog (base s) st"

definition ssl_close :: "'w net \<Rightarrow> ssl_socket \<Rightarrow> 'w st \<Rightarrow> (bool \<times> ssl_socket \<times> 'w st) res" where
  "ssl_close net s st = rbind (close_sock net (base s) st) (\<lambda>(b, sk, st). Inr (b, with_base sk s, st))"

section \<open>Handshakes\<close>

definition handshake ::
  "('w openssl \<Rightarrow> nat option \<Rightarrow> 'w st \<Rightarrow> int \<times> 'w st) \<Rightarrow> 'w openssl \<Rightarrow> ssl_socket \<Rightarrow> 'w st \<Rightarrow> bool \<times> ssl_socket \<times> 'w st" where
  "handshake go ssl s st =
     (let (p, st) = SSL_new ssl (sk_ctx s) st;
          s = s\<lparr>sk_ssl := p\<rparr>;
          st = SSL_set_fd ssl p (sk_sock s) st;
          (n, st) = go ssl p st
      in (n = 1, s, st))"

definition ssl_connect :: "'w net \<Rightarrow> 'w openssl \<Rightarrow> address \<Rightarrow> u64 \<Rightarrow> ssl_socket \<Rightarrow> 'w st \<Rightarrow> (bool \<times> ssl_socket \<times> 'w st) res" where
  "ssl_connect net ssl addr timeout_ms s st =
     rbind (connect_sock net addr timeout_ms (base s) st) (\<lambda>(v, sk, st).
       let s = with_base sk s
       in if v then
            let (p, st) = SSL_CTX_new ssl False st
            in Inr (handshake SSL_connect ssl (s\<lparr>sk_ctx := p\<rparr>) st)
          else Inr (v, s, st))"

definition ssl_init :: "'w net \<Rightarrow> 'w openssl \<Rightarrow> int \<Rightarrow> ssl_socket \<Rightarrow> 'w st \<Rightarrow> (bool \<times> ssl_socket \<times> 'w st) res" where
  "ssl_init net ssl fd s st =
     rbind (init_sock net fd (base s) st) (\<lambda>(v, sk, st).
       let s = with_base sk s
       in if v then Inr (handshake SSL_accept ssl s st) else Inr (v, s, st))"

text \<open>A client whose handshake fails is destroyed, which closes its descriptor.\<close>

definition ssl_accept :: "'w net \<Rightarrow> 'w openssl \<Rightarrow> ssl_socket \<Rightarrow> 'w st \<Rightarrow> (ssl_socket option \<times> 'w st) res" where
  "ssl_accept net ssl s st =
     (let sock = SSLSocket_new (sk_family s) (sk_type s) (sk_protocol s)
      in rbind (accept_call net (sk_sock s) st) (\<lambda>(newsock, st).
           if newsock = - 1 then Inr (None, st)
           else rbind (ssl_init net ssl newsock (sock\<lparr>sk_ctx := sk_ctx s\<rparr>) st) (\<lambda>(b, sock, st).
                  if b then Inr (Some sock, st)
                  else rbind (Socket_delete net (base sock) st) (\<lambda>st. Inr (None, st)))))"

definition loadCertificates :: "'w openssl \<Rightarrow> string \<Rightarrow> string \<Rightarrow> ssl_socket \<Rightarrow> 'w st \<Rightarrow> bool \<times> ssl_socket \<times> 'w st" where
  "loadCertificates ssl cert_file key_file s st =
     (let (p, st) = SSL_CTX_new ssl True st;
          s = s\<lparr>sk_ctx := p\<rparr>;
          (a, st) = SSL_CTX_use_certificate_chain_file ssl p cert_file st
      in if a \<noteq> 1 then (False, s, st)
         else
           let (b, st) = SSL_CTX_use_PrivateKey_file ssl p key_file st
           in if b \<noteq> 1 then (False, s, st)
              else let (d, st) = SSL_CTX_check_private_key ssl p st in (d = 1, s, st))"

section \<open>Transfer\<close>

definition ssl_send :: "'w openssl \<Rightarrow> byte list \<Rightarrow> ssl_socket \<Rightarrow> 'w st \<Rightarrow> int \<times> 'w st" where
  "ssl_send ssl buffer s st = (case sk_ssl s of Some p \<Rightarrow> SSL_write ssl p buffer st | None \<Rightarrow> (- 1, st))"

definition ssl_recv :: "'w openssl \<Rightarrow> nat \<Rightarrow> ssl_socket \<Rightarrow> 'w st \<Rightarrow> int \<times> 'w st" where
  "ssl_recv ssl len s st = (case sk_ssl s of Some p \<Rightarrow> SSL_read ssl p len st | None \<Rightarrow> (- 1, st))"

text \<open>The loops over several buffers: \<open>io\<close> transfers one of them and \<open>len\<close> is its size.  A sum beyond
  \<open>int\<close> is undefined.\<close>

fun iov_loop :: "('b \<Rightarrow> 'w st \<Rightarrow> int \<times> 'w st) \<Rightarrow> ('b \<Rightarrow> int) \<Rightarrow> 'b list \<Rightarrow> int \<Rightarrow> 'w st \<Rightarrow> (int \<times> 'w st) res" where
  "iov_loop io len [] acc st = Inr (acc, st)"
| "iov_loop io len (b # bs) acc st =
     (let (tmp, st) = io b st
      in if tmp \<le> 0 then Inr (tmp, st)
         else if acc + tmp \<ge> 2 ^ 31 then Inl Undefined
         else if tmp \<noteq> to_int (len b) then Inr (acc + tmp, st)
         else iov_loop io len bs (acc + tmp) st)"

definition ssl_send_iov :: "'w openssl \<Rightarrow> byte list list \<Rightarrow> ssl_socket \<Rightarrow> 'w st \<Rightarrow> (int \<times> 'w st) res" where
  "ssl_send_iov ssl buffers s st =
     (case sk_ssl s of None \<Rightarrow> Inr (- 1, st)
      | Some p \<Rightarrow> iov_loop (SSL_write ssl p) (\<lambda>b. int (length b)) buffers 0 st)"

definition ssl_recv_iov :: "'w openssl \<Rightarrow> nat list \<Rightarrow> ssl_socket \<Rightarrow> 'w st \<Rightarrow> (int \<times> 'w st) res" where
  "ssl_recv_iov ssl lengths s st =
     (case sk_ssl s of None \<Rightarrow> Inr (- 1, st)
      | Some p \<Rightarrow> iov_loop (SSL_read ssl p) int lengths 0 st)"

text \<open>Datagrams are not supported: the four operations abort.\<close>

definition ssl_sendTo :: "'w st \<Rightarrow> (int \<times> 'w st) res" where
  "ssl_sendTo st = cpp_assert False (Inr (- 1, st))"

definition ssl_recvFrom :: "'w st \<Rightarrow> (int \<times> 'w st) res" where
  "ssl_recvFrom st = cpp_assert False (Inr (- 1, st))"

definition ssl_sendTo_iov :: "'w st \<Rightarrow> (int \<times> 'w st) res" where
  "ssl_sendTo_iov st = cpp_assert False (Inr (- 1, st))"

definition ssl_recvFrom_iov :: "'w st \<Rightarrow> (int \<times> 'w st) res" where
  "ssl_recvFrom_iov st = cpp_assert False (Inr (- 1, st))"

definition ssl_dump :: "byte_order \<Rightarrow> ssl_socket \<Rightarrow> string res" where
  "ssl_dump host s = dump host ''SSLSocket'' (base s)"

end
