(* ===== verification/TcpServer.thy ===== *)
theory TcpServer
  imports Ssl_Socket
begin

text \<open>
  The TCP server (\<open>src/network/tcp_server.cc\<close>, \<open>include/network/tcp_server.h\<close>): the listening sockets,
  the accept loop and what it hands to the schedulers.  A task for a scheduler is a value of \<open>work\<close> with
  the scheduler's address; \<open>m_isStop\<close>, which \<open>stop\<close> may set while the accept loop waits, is read from the
  state by a parameter.
\<close>

section \<open>Listening sockets\<close>

datatype server_sock = Plain socket | Tls ssl_socket

text \<open>The virtual methods.\<close>

definition vs_base :: "server_sock \<Rightarrow> socket" where
  "vs_base v = (case v of Plain sk \<Rightarrow> sk | Tls s \<Rightarrow> base s)"

definition vs_bind :: "'w net \<Rightarrow> address \<Rightarrow> server_sock \<Rightarrow> 'w st \<Rightarrow> (bool \<times> server_sock \<times> 'w st) res" where
  "vs_bind net addr v st =
     (case v of
        Plain sk \<Rightarrow> rbind (bind_sock net addr sk st) (\<lambda>(b, sk, st). Inr (b, Plain sk, st))
      | Tls s \<Rightarrow> rbind (ssl_bind net addr s st) (\<lambda>(b, s, st). Inr (b, Tls s, st)))"

definition vs_listen :: "'w net \<Rightarrow> server_sock \<Rightarrow> 'w st \<Rightarrow> bool \<times> 'w st" where
  "vs_listen net v st =
     (case v of Plain sk \<Rightarrow> listen_sock net SOMAXCONN sk st | Tls s \<Rightarrow> ssl_listen net SOMAXCONN s st)"

definition vs_accept :: "'w net \<Rightarrow> 'w openssl \<Rightarrow> server_sock \<Rightarrow> 'w st \<Rightarrow> (server_sock option \<times> 'w st) res" where
  "vs_accept net ssl v st =
     (case v of
        Plain sk \<Rightarrow> rbind (accept_sock net sk st) (\<lambda>(r, st). Inr (map_option Plain r, st))
      | Tls s \<Rightarrow> rbind (ssl_accept net ssl s st) (\<lambda>(r, st). Inr (map_option Tls r, st)))"

definition vs_close :: "'w net \<Rightarrow> server_sock \<Rightarrow> 'w st \<Rightarrow> (server_sock \<times> 'w st) res" where
  "vs_close net v st =
     (case v of
        Plain sk \<Rightarrow> rbind (close_sock net sk st) (\<lambda>(b, sk, st). Inr (Plain sk, st))
      | Tls s \<Rightarrow> rbind (ssl_close net s st) (\<lambda>(b, s, st). Inr (Tls s, st)))"

definition vs_delete :: "'w net \<Rightarrow> server_sock \<Rightarrow> 'w st \<Rightarrow> 'w st res" where
  "vs_delete net v st = Socket_delete net (vs_base v) st"

fun delete_all :: "'w net \<Rightarrow> server_sock list \<Rightarrow> 'w st \<Rightarrow> 'w st res" where
  "delete_all net [] st = Inr st"
| "delete_all net (v # vs) st = rbind (vs_delete net v st) (\<lambda>st. delete_all net vs st)"

section \<open>Configuration\<close>

record tcp_server_conf =
  tc_address :: "string list"
  tc_keepalive :: int
  tc_timeout :: int
  tc_ssl :: int
  tc_id :: string
  tc_type :: string
  tc_name :: string
  tc_cert_file :: string
  tc_key_file :: string
  tc_accept_worker :: string
  tc_io_worker :: string
  tc_process_worker :: string
  tc_args :: "(string \<times> string) list"

definition TcpServerConf_new :: tcp_server_conf where
  "TcpServerConf_new =
     \<lparr>tc_address = [], tc_keepalive = 0, tc_timeout = 1000 * 2 * 60, tc_ssl = 0, tc_id = [], tc_type = ''http'',
      tc_name = [], tc_cert_file = [], tc_key_file = [], tc_accept_worker = [], tc_io_worker = [],
      tc_process_worker = [], tc_args = []\<rparr>"

definition conf_isValid :: "tcp_server_conf \<Rightarrow> bool" where
  "conf_isValid c \<longleftrightarrow> tc_address c \<noteq> []"

definition conf_eq :: "tcp_server_conf \<Rightarrow> tcp_server_conf \<Rightarrow> bool" where
  "conf_eq a oth \<longleftrightarrow>
     tc_address a = tc_address oth \<and> tc_keepalive a = tc_keepalive oth \<and> tc_timeout a = tc_timeout oth \<and>
     tc_name a = tc_name oth \<and> tc_ssl a = tc_ssl oth \<and> tc_cert_file a = tc_cert_file oth \<and>
     tc_key_file a = tc_key_file oth \<and> tc_accept_worker a = tc_accept_worker oth \<and>
     tc_io_worker a = tc_io_worker oth \<and> tc_process_worker a = tc_process_worker oth \<and>
     tc_args a = tc_args oth \<and> tc_id a = tc_id oth \<and> tc_type a = tc_type oth"

section \<open>The server\<close>

record tcp_server =
  ts_socks :: "server_sock list"
  ts_worker :: "nat option"
  ts_ioWorker :: "nat option"
  ts_acceptWorker :: "nat option"
  ts_recvTimeout :: u64
  ts_name :: string
  ts_type :: string
  ts_isStop :: bool
  ts_ssl :: bool
  ts_conf :: "tcp_server_conf option"

text \<open>What the server gives to a scheduler.\<close>

datatype work = Start_Accept server_sock | Handle_Client server_sock | Stop_Task

definition TcpServer_new :: "u64 \<Rightarrow> nat option \<Rightarrow> nat option \<Rightarrow> nat option \<Rightarrow> tcp_server" where
  "TcpServer_new read_timeout worker io_worker accept_worker =
     \<lparr>ts_socks = [], ts_worker = worker, ts_ioWorker = io_worker, ts_acceptWorker = accept_worker,
      ts_recvTimeout = read_timeout, ts_name = ''HPGS/1.0.0'', ts_type = ''tcp'', ts_isStop = True, ts_ssl = False,
      ts_conf = None\<rparr>"

text \<open>The loops over all listening sockets; destroying a closed one does nothing more.\<close>

fun close_all :: "'w net \<Rightarrow> server_sock list \<Rightarrow> 'w st \<Rightarrow> 'w st res" where
  "close_all net [] st = Inr st"
| "close_all net (v # vs) st = rbind (vs_close net v st) (\<lambda>(v, st). close_all net vs st)"

definition TcpServer_delete :: "'w net \<Rightarrow> tcp_server \<Rightarrow> 'w st \<Rightarrow> (tcp_server \<times> 'w st) res" where
  "TcpServer_delete net srv st = rbind (close_all net (ts_socks srv) st) (\<lambda>st. Inr (srv\<lparr>ts_socks := []\<rparr>, st))"

definition setConf :: "tcp_server_conf \<Rightarrow> tcp_server \<Rightarrow> tcp_server" where
  "setConf v srv = srv\<lparr>ts_conf := Some v\<rparr>"

definition create_sock :: "bool \<Rightarrow> address \<Rightarrow> server_sock" where
  "create_sock ssl addr = (if ssl then Tls (SSL_CreateTcp addr) else Plain (CreateTcp addr))"

text \<open>The loop of \<open>bind\<close>: a socket that cannot be bound or listened on is destroyed at once.\<close>

fun bind_loop ::
  "'w net \<Rightarrow> bool \<Rightarrow> address list \<Rightarrow> server_sock list \<Rightarrow> address list \<Rightarrow> 'w st \<Rightarrow>
   (server_sock list \<times> address list \<times> 'w st) res" where
  "bind_loop net ssl [] socks fails st = Inr (socks, fails, st)"
| "bind_loop net ssl (addr # addrs) socks fails st =
     rbind (vs_bind net addr (create_sock ssl addr) st) (\<lambda>(b, v, st).
       if \<not> b then rbind (vs_delete net v st) (\<lambda>st. bind_loop net ssl addrs socks (fails @ [addr]) st)
       else
         let (b, st) = vs_listen net v st
         in if \<not> b then rbind (vs_delete net v st) (\<lambda>st. bind_loop net ssl addrs socks (fails @ [addr]) st)
            else bind_loop net ssl addrs (socks @ [v]) fails st)"

text \<open>The vector holds the only references to the sockets until \<open>start\<close>, so clearing it destroys them.\<close>

definition bind_all ::
  "'w net \<Rightarrow> address list \<Rightarrow> address list \<Rightarrow> bool \<Rightarrow> tcp_server \<Rightarrow> 'w st \<Rightarrow>
   (bool \<times> address list \<times> tcp_server \<times> 'w st) res" where
  "bind_all net addrs fails ssl srv st =
     rbind (bind_loop net ssl addrs (ts_socks srv) fails st) (\<lambda>(socks, fails, st).
       if fails \<noteq> []
       then rbind (delete_all net socks st) (\<lambda>st. Inr (False, fails, srv\<lparr>ts_ssl := ssl, ts_socks := []\<rparr>, st))
       else Inr (True, fails, srv\<lparr>ts_ssl := ssl, ts_socks := socks\<rparr>, st))"

definition bind_one :: "'w net \<Rightarrow> address \<Rightarrow> bool \<Rightarrow> tcp_server \<Rightarrow> 'w st \<Rightarrow> (bool \<times> tcp_server \<times> 'w st) res" where
  "bind_one net addr ssl srv st =
     rbind (bind_all net [addr] [] ssl srv st) (\<lambda>(b, fails, srv, st). Inr (b, srv, st))"

text \<open>\<open>setRecvTimeout\<close> of a client: the \<open>uint64_t\<close> is converted to \<open>int64_t\<close>.\<close>

definition vs_setRecvTimeout :: "'w net \<Rightarrow> u64 \<Rightarrow> server_sock \<Rightarrow> 'w st \<Rightarrow> 'w st res" where
  "vs_setRecvTimeout net v s st = setRecvTimeout net (sint v) (vs_base s) st"

text \<open>One turn of \<open>startAccept\<close>: the client that is given to the IO scheduler, if there is one.\<close>

definition accept_turn ::
  "'w net \<Rightarrow> 'w openssl \<Rightarrow> tcp_server \<Rightarrow> server_sock \<Rightarrow> 'w st \<Rightarrow> ((nat \<times> work) list \<times> 'w st) res" where
  "accept_turn net ssl srv sock st =
     rbind (vs_accept net ssl sock st) (\<lambda>(client, st).
       case client of
         None \<Rightarrow> Inr ([], st)
       | Some cl \<Rightarrow>
           rbind (vs_setRecvTimeout net (ts_recvTimeout srv) cl st) (\<lambda>st.
           rbind (ptr (ts_ioWorker srv)) (\<lambda>s. Inr ([(s, Handle_Client cl)], st))))"

text \<open>The loop runs until \<open>isStop\<close>, the field of the server as it is in the state.\<close>

partial_function (option) startAccept ::
  "'w net \<Rightarrow> 'w openssl \<Rightarrow> ('w st \<Rightarrow> bool) \<Rightarrow> tcp_server \<Rightarrow> server_sock \<Rightarrow> (nat \<times> work) list \<Rightarrow> 'w st \<Rightarrow>
   (((nat \<times> work) list \<times> 'w st) res) option" where
  "startAccept net ssl isStop srv sock given st =
     (if isStop st then Some (Inr (given, st))
      else (case accept_turn net ssl srv sock st of
              Inl e \<Rightarrow> Some (Inl e)
            | Inr r \<Rightarrow> startAccept net ssl isStop srv sock (given @ fst r) (snd r)))"

definition start_server :: "tcp_server \<Rightarrow> (bool \<times> (nat \<times> work) list \<times> tcp_server) res" where
  "start_server srv =
     (if \<not> ts_isStop srv then Inr (True, [], srv)
      else
        let srv = srv\<lparr>ts_isStop := False\<rparr>
        in if ts_socks srv = [] then Inr (True, [], srv)
           else rbind (ptr (ts_acceptWorker srv)) (\<lambda>s.
                  Inr (True, map (\<lambda>v. (s, Start_Accept v)) (ts_socks srv), srv)))"

definition stop_server :: "tcp_server \<Rightarrow> ((nat \<times> work) list \<times> tcp_server) res" where
  "stop_server srv =
     (let srv = srv\<lparr>ts_isStop := True\<rparr>
      in rbind (ptr (ts_acceptWorker srv)) (\<lambda>s. Inr ([(s, Stop_Task)], srv)))"

text \<open>The task that \<open>stop\<close> schedules.\<close>

fun stop_loop :: "'w net \<Rightarrow> server_sock list \<Rightarrow> 'w st \<Rightarrow> 'w st res" where
  "stop_loop net [] st = Inr st"
| "stop_loop net (v # vs) st =
     rbind (cancelAll_sock net (vs_base v) st) (\<lambda>(b, st).
     rbind (vs_close net v st) (\<lambda>(v, st). stop_loop net vs st))"

definition stop_task :: "'w net \<Rightarrow> tcp_server \<Rightarrow> 'w st \<Rightarrow> (tcp_server \<times> 'w st) res" where
  "stop_task net srv st = rbind (stop_loop net (ts_socks srv) st) (\<lambda>st. Inr (srv\<lparr>ts_socks := []\<rparr>, st))"

fun load_loop :: "'w openssl \<Rightarrow> string \<Rightarrow> string \<Rightarrow> server_sock list \<Rightarrow> 'w st \<Rightarrow> bool \<times> server_sock list \<times> 'w st" where
  "load_loop ssl cert_file key_file [] st = (True, [], st)"
| "load_loop ssl cert_file key_file (v # vs) st =
     (case v of
        Plain sk \<Rightarrow> (let (b, vs, st) = load_loop ssl cert_file key_file vs st in (b, Plain sk # vs, st))
      | Tls s \<Rightarrow>
          (let (b, s, st) = loadCertificates ssl cert_file key_file s st
           in if \<not> b then (False, Tls s # vs, st)
              else let (b, vs, st) = load_loop ssl cert_file key_file vs st in (b, Tls s # vs, st)))"

definition server_loadCertificates ::
  "'w openssl \<Rightarrow> string \<Rightarrow> string \<Rightarrow> tcp_server \<Rightarrow> 'w st \<Rightarrow> bool \<times> tcp_server \<times> 'w st" where
  "server_loadCertificates ssl cert_file key_file srv st =
     (let (b, vs, st) = load_loop ssl cert_file key_file (ts_socks srv) st in (b, srv\<lparr>ts_socks := vs\<rparr>, st))"

definition vs_dump :: "byte_order \<Rightarrow> server_sock \<Rightarrow> string res" where
  "vs_dump host v = (case v of Plain sk \<Rightarrow> dump host ''Socket'' sk | Tls s \<Rightarrow> ssl_dump host s)"

fun dump_all :: "byte_order \<Rightarrow> string \<Rightarrow> server_sock list \<Rightarrow> string res" where
  "dump_all host pfx [] = Inr []"
| "dump_all host pfx (v # vs) =
     rbind (vs_dump host v) (\<lambda>s. rbind (dump_all host pfx vs) (\<lambda>r. Inr (pfx @ pfx @ s @ [CHR 0x0A] @ r)))"

definition server_toString :: "byte_order \<Rightarrow> (nat \<Rightarrow> string) \<Rightarrow> string \<Rightarrow> tcp_server \<Rightarrow> string res" where
  "server_toString host getName prefix srv =
     (let worker_name = (\<lambda>w. case w of None \<Rightarrow> [] | Some s \<Rightarrow> getName s);
          pfx = (if prefix = [] then ''    '' else prefix)
      in rbind (dump_all host pfx (ts_socks srv)) (\<lambda>r.
           Inr (prefix @ ''[type = '' @ ts_type srv @ '' name = '' @ ts_name srv @
                '' ssl = '' @ (if ts_ssl srv then ''1'' else ''0'') @ '' worker = '' @ worker_name (ts_worker srv) @
                '' accept = '' @ worker_name (ts_acceptWorker srv) @
                '' recv_timeout = '' @ show_nat (unat (ts_recvTimeout srv)) @ '']'' @ [CHR 0x0A] @ r)))"

end
