(* ===== verification/Socket_Props.thy ===== *)
theory Socket_Props
  imports TcpServer Hook_Props
begin

text \<open>
  Sockets and the server: the time limits that a program sets are the ones it reads, a vectored TLS
  write reports exactly the bytes it sent, and binding a server opens all its listening sockets or
  leaves no descriptor behind.
\<close>

section \<open>Time limits\<close>

lemma to_int_small: "- (2 ^ 31) \<le> n \<Longrightarrow> n < 2 ^ 31 \<Longrightarrow> to_int n = n"
  by (simp add: to_int_def signed_take_bit_int_eq_self)

lemma smod_times: "(v smod 1000 * 1000) sdiv 1000 = v smod (1000 :: int)"
  by (simp add: signed_divide_int_def sgn_mult abs_mult sgn_mult_abs)

lemma timeval_exact:
  assumes "- (2 ^ 31) * 1000 < v" "v < 2 ^ 31 * 1000"
  shows "timeval_of v = Timeval (v sdiv 1000) (v smod 1000 * 1000)"
    "timeval_ms (v sdiv 1000) (v smod 1000 * 1000) = of_int v"
proof -
  have m: "\<bar>v smod 1000\<bar> < 1000" by (simp add: signed_modulo_int_def abs_mult abs_sgn_eq)
  have d: "- (2 ^ 31) \<le> v sdiv 1000 \<and> v sdiv 1000 < 2 ^ 31"
    using assms by (auto simp: signed_divide_int_def sgn_if)
  show "timeval_of v = Timeval (v sdiv 1000) (v smod 1000 * 1000)"
    using m d by (auto simp: timeval_of_def to_int_small)
  have "v sdiv 1000 * 1000 + v smod 1000 = v" by (rule sdiv_mult_smod_eq)
  then show "timeval_ms (v sdiv 1000) (v smod 1000 * 1000) = of_int v"
    by (simp only: timeval_ms_def smod_times)
qed

lemma setOption_limit:
  assumes "fd_inv (hk_fds h)" "fd_abs (hk_fds h) (sk_sock sk) = Some ctx" "t_hook_enable h (hc_tid c)"
    and "which = SO_RCVTIMEO \<or> which = SO_SNDTIMEO" "- (2 ^ 31) * 1000 < v" "v < 2 ^ 31 * 1000"
  shows "\<exists>b h'. setOption net SOL_SOCKET which (timeval_of v) sk (c, h) = Inr (b, c, h') \<and> fd_inv (hk_fds h') \<and>
    fd_abs (hk_fds h') = (fd_abs (hk_fds h))(sk_sock sk \<mapsto> setTimeout which (of_int v) ctx)"
proof -
  let ?x = "setTimeout which (of_int v) ctx"
  have "m_fd ?x = m_fd ctx" by (simp add: setTimeout_def)
  note p = put_fd_abs [OF assms(1,2) this]
  obtain n h' where r: "sys_call (hc_tid c) (setsockopt_f (nt_libc net) (sk_sock sk) SOL_SOCKET which (timeval_of v))
      (put_fd (sk_sock sk) ?x h) = (n, h')" by fastforce
  then have "hk_fds h' = hk_fds (put_fd (sk_sock sk) ?x h)"
    by (auto simp: sys_call_def sys_result_def split: prod.splits if_splits)
  moreover have "setOption net SOL_SOCKET which (timeval_of v) sk (c, h) = Inr (n = 0, c, h')"
    using assms(3,4) r fd_get_known [OF assms(1,2)] timeval_exact [OF assms(5,6)]
    by (auto simp: setOption_def hook_setsockopt_def at_once_def passes_def)
  ultimately show ?thesis using p by auto
qed

lemma get_timeout_known:
  assumes "fd_inv (hk_fds h)" "fd_abs (hk_fds h) (sk_sock sk) = Some ctx"
  shows "get_timeout which net sk (c, h) = Inr (sint (getTimeout which ctx))"
  using fd_get_known [OF assms] by (simp add: get_timeout_def)

text \<open>C25: The limits of a socket are read as they were set, also "no limit" (-1): for every number of
  milliseconds whose seconds fit an \<open>int\<close>, \<open>getRecvTimeout\<close> after \<open>setRecvTimeout\<close> gives it back and the
  send limit is not touched, and the other way round.\<close>

theorem timeout_roundtrip:
  assumes "fd_inv (hk_fds h)" "fd_abs (hk_fds h) (sk_sock sk) = Some ctx" "t_hook_enable h (hc_tid c)"
    and v: "- (2 ^ 31) * 1000 < v" "v < 2 ^ 31 * 1000"
  shows "(\<exists>h'. setRecvTimeout net v sk (c, h) = Inr (c, h') \<and> getRecvTimeout net sk (c, h') = Inr v \<and>
      getSendTimeout net sk (c, h') = getSendTimeout net sk (c, h)) \<and>
    (\<exists>h'. setSendTimeout net v sk (c, h) = Inr (c, h') \<and> getSendTimeout net sk (c, h') = Inr v \<and>
      getRecvTimeout net sk (c, h') = getRecvTimeout net sk (c, h))"
proof (intro conjI)
  have s: "sint (of_int v :: u64) = v" using v by (simp add: sint_sbintrunc' signed_take_bit_int_eq_self)
  have d: "SO_RCVTIMEO \<noteq> SO_SNDTIMEO" by (simp add: SO_RCVTIMEO_def SO_SNDTIMEO_def)
  note g = get_timeout_known [OF assms(1,2)]
  from setOption_limit [OF assms(1-3) _ v, of SO_RCVTIMEO net] obtain b h' where
    1: "setOption net SOL_SOCKET SO_RCVTIMEO (timeval_of v) sk (c, h) = Inr (b, c, h')" "fd_inv (hk_fds h')"
      "fd_abs (hk_fds h') (sk_sock sk) = Some (setTimeout SO_RCVTIMEO (of_int v) ctx)" by auto
  show "\<exists>h'. setRecvTimeout net v sk (c, h) = Inr (c, h') \<and> getRecvTimeout net sk (c, h') = Inr v \<and>
      getSendTimeout net sk (c, h') = getSendTimeout net sk (c, h)"
    using 1(1) get_timeout_known [OF 1(2,3)] g s d
    by (auto simp: setRecvTimeout_def getRecvTimeout_def getSendTimeout_def getTimeout_def setTimeout_def)
  from setOption_limit [OF assms(1-3) _ v, of SO_SNDTIMEO net] obtain b h' where
    2: "setOption net SOL_SOCKET SO_SNDTIMEO (timeval_of v) sk (c, h) = Inr (b, c, h')" "fd_inv (hk_fds h')"
      "fd_abs (hk_fds h') (sk_sock sk) = Some (setTimeout SO_SNDTIMEO (of_int v) ctx)" by auto
  show "\<exists>h'. setSendTimeout net v sk (c, h) = Inr (c, h') \<and> getSendTimeout net sk (c, h') = Inr v \<and>
      getRecvTimeout net sk (c, h') = getRecvTimeout net sk (c, h)"
    using 2(1) get_timeout_known [OF 2(2,3)] g s d
    by (auto simp: setSendTimeout_def getRecvTimeout_def getSendTimeout_def getTimeout_def setTimeout_def)
qed

section \<open>Vectored TLS output\<close>

text \<open>The documented behaviour of \<open>SSL_write\<close>: a positive result is the number of bytes taken from the
  front of the buffer, any other result means that nothing was taken.\<close>

definition ssl_write_ok :: "'w openssl \<Rightarrow> ('w st \<Rightarrow> byte list) \<Rightarrow> bool" where
  "ssl_write_ok ssl sent \<longleftrightarrow> (\<forall>p b st. case SSL_write ssl p b st of (n, st') \<Rightarrow>
     n \<le> int (length b) \<and> sent st' = sent st @ take (nat n) b)"

lemma iov_loop_prefix:
  assumes ok: "ssl_write_ok ssl sent" and len: "acc + int (length (concat bs)) < 2 ^ 31" "0 \<le> acc"
  shows "\<exists>n st' k. iov_loop (SSL_write ssl p) (\<lambda>b. int (length b)) bs acc st = Inr (n, st') \<and>
    k \<le> length (concat bs) \<and> sent st' = sent st @ take k (concat bs) \<and> (n = acc + int k \<or> n \<le> 0)"
  using len
proof (induction bs arbitrary: acc st)
  case Nil
  then show ?case by auto
next
  case (Cons b bs)
  obtain tmp st1 where w: "SSL_write ssl p b st = (tmp, st1)" by (metis surj_pair)
  have "case SSL_write ssl p b st of (n, st') \<Rightarrow> n \<le> int (length b) \<and> sent st' = sent st @ take (nat n) b"
    by (rule ok [unfolded ssl_write_ok_def, THEN spec [of _ p], THEN spec [of _ b], THEN spec [of _ st]])
  then have s: "tmp \<le> int (length b)" "sent st1 = sent st @ take (nat tmp) b" using w by auto
  show ?case
  proof (cases "tmp \<le> 0")
    case True
    then show ?thesis using w s by (auto intro!: exI [of _ 0])
  next
    case pos: False
    have small: "acc + tmp < 2 ^ 31" using s(1) Cons.prems(1) by auto
    have ti: "to_int (int (length b)) = int (length b)" using Cons.prems by (auto intro!: to_int_small)
    show ?thesis
    proof (cases "tmp = int (length b)")
      case False
      have "iov_loop (SSL_write ssl p) (\<lambda>b. int (length b)) (b # bs) acc st = Inr (acc + tmp, st1)"
        using w pos small False ti by simp
      moreover have "sent st1 = sent st @ take (nat tmp) (concat (b # bs))" using s pos by simp
      moreover have "nat tmp \<le> length (concat (b # bs))" using s(1) by simp
      ultimately show ?thesis using pos by (intro exI [of _ "acc + tmp"] exI [of _ st1] exI [of _ "nat tmp"]) auto
    next
      case True
      have step: "iov_loop (SSL_write ssl p) (\<lambda>b. int (length b)) (b # bs) acc st =
          iov_loop (SSL_write ssl p) (\<lambda>b. int (length b)) bs (acc + tmp) st1"
        using w pos small True ti by simp
      obtain n st' k where i: "iov_loop (SSL_write ssl p) (\<lambda>b. int (length b)) bs (acc + tmp) st1 = Inr (n, st')"
        "k \<le> length (concat bs)" "sent st' = sent st1 @ take k (concat bs)" "n = acc + tmp + int k \<or> n \<le> 0"
        using Cons.IH [of "acc + tmp" st1] Cons.prems True by auto
      have "sent st' = sent st @ take (length b + k) (concat (b # bs))" using i(3) s(2) True by simp
      then show ?thesis unfolding step using i True by (intro exI [of _ n] exI [of _ st'] exI [of _ "length b + k"]) auto
    qed
  qed
qed

text \<open>A vectored TLS write sends a prefix of the buffers, one after the other, never more and never with a
  gap, and a positive result is the number of bytes sent.  (A result of 0 or less only says that some
  prefix was sent.)\<close>

theorem ssl_send_iov_prefix:
  assumes "ssl_write_ok ssl sent" "length (concat buffers) < 2 ^ 31"
  shows "\<exists>n st' k. ssl_send_iov ssl buffers s st = Inr (n, st') \<and> sent st' = sent st @ take k (concat buffers) \<and>
    k \<le> length (concat buffers) \<and> (0 < n \<longrightarrow> int k = n)"
proof (cases "sk_ssl s")
  case None
  then show ?thesis by (auto simp: ssl_send_iov_def intro!: exI [of _ 0])
next
  case (Some p)
  then show ?thesis using iov_loop_prefix [OF assms(1), of 0 buffers p st] assms(2)
    by (fastforce simp: ssl_send_iov_def)
qed

section \<open>Examples\<close>

text \<open>A network in which every call that is not in \<open>libc\<close> succeeds and does nothing.\<close>

definition plain_net :: "'w libc \<Rightarrow> 'w net" where
  "plain_net lc = \<lparr>nt_libc = lc,
     nt_fs = \<lparr>fs_lstat = \<lambda>_ _. None, fs_access = \<lambda>_ _. False, fs_opendir = \<lambda>_ _. None, fs_mkdir = \<lambda>w _. (False, w),
       fs_unlink = \<lambda>w _. (False, w), fs_rmdir = \<lambda>w _. (False, w), fs_rename = \<lambda>w _ _. (False, w), fs_symlink = \<lambda>w _ _. (False, w),
       fs_realpath = \<lambda>_ _. None, fs_first_line = \<lambda>_ _. None, fs_open_write = \<lambda>w _. (False, w)\<rparr>,
     nt_env = Pair, nt_host = HPGS_LITTLE_ENDIAN, bind_f = \<lambda>_ _ w. (0, 0, w), listen_f = \<lambda>_ _ w. (0, 0, w),
     getsockname_f = \<lambda>_ _ w. (None, 0, w), getpeername_f = \<lambda>_ _ w. (None, 0, w), accept_f = \<lambda>_ w. (6, 0, w),
     send_f = \<lambda>_ _ _ w. (0, 0, w), sendto_f = \<lambda>_ _ _ _ w. (0, 0, w), sendmsg_f = \<lambda>_ _ _ _ w. (0, 0, w),
     recv_f = \<lambda>_ _ _ w. (0, 0, w), recvfrom_f = \<lambda>_ _ _ _ w. (0, 0, w), recvmsg_f = \<lambda>_ _ _ _ w. (0, 0, w)\<rparr>"

definition plain_hooks :: "'w \<Rightarrow> 'w hooks" where
  "plain_hooks w = \<lparr>t_hook_enable = \<lambda>_. True, s_connect_timeout = 5000, hk_errno = \<lambda>_. 0, hk_fds = FdManager_new,
     hk_infos = \<lambda>_. None, hk_closures = \<lambda>_. None,
     hk_io = IOManager_new one_sched (TimerManager_new (\<lambda>_. Timer_at 0) 0) w\<rparr>"

lemma timeout_roundtrip_witness:
  "\<exists>h'. setRecvTimeout (plain_net demo_libc) (- 1) (CreateTcpSocket\<lparr>sk_sock := 5\<rparr>) (demo_caller, demo_hooks) = Inr (demo_caller, h') \<and>
     getRecvTimeout (plain_net demo_libc) (CreateTcpSocket\<lparr>sk_sock := 5\<rparr>) (demo_caller, h') = Inr (- 1)"
proof -
  have d: "fd_abs (hk_fds demo_hooks) (sk_sock (CreateTcpSocket\<lparr>sk_sock := 5\<rparr>)) = Some demo_ctx"
    "hooks.t_hook_enable demo_hooks (hc_tid demo_caller)" using demo_fds(2) by simp_all
  from timeout_roundtrip [OF demo_fds(1) d, of "- 1" "plain_net demo_libc"] show ?thesis by auto
qed

text \<open>A TLS library that sends the byte 9 and fails for everything else; the world is what was sent.\<close>

definition nine_ssl :: "(byte list) openssl" where
  "nine_ssl = \<lparr>SSL_CTX_new = \<lambda>_ st. (Some 1, st), SSL_CTX_use_certificate_chain_file = \<lambda>_ _ st. (1, st),
     SSL_CTX_use_PrivateKey_file = \<lambda>_ _ st. (1, st), SSL_CTX_check_private_key = \<lambda>_ st. (1, st), SSL_new = \<lambda>_ st. (Some 2, st),
     SSL_set_fd = \<lambda>_ _ st. st, SSL_connect = \<lambda>_ st. (1, st), SSL_accept = \<lambda>_ st. (1, st),
     SSL_write = \<lambda>_ b st. if b = [9] then (1, fst st, set_world (hk_world (snd st) @ [9]) (snd st)) else (- 1, st),
     SSL_read = \<lambda>_ _ st. (0, st)\<rparr>"

definition nine_sock :: ssl_socket where
  "nine_sock = SSL_CreateTcpSocket\<lparr>sk_ssl := Some 2\<rparr>"

lemma ssl_send_iov_prefix_witness:
  "\<exists>n st' k. ssl_send_iov nine_ssl [[9], [8]] nine_sock (demo_caller, plain_hooks []) = Inr (n, st') \<and>
     hk_world (snd st') = take k [9, 8]"
proof -
  have "ssl_write_ok nine_ssl (\<lambda>st. hk_world (snd st))" by (simp add: ssl_write_ok_def nine_ssl_def)
  from ssl_send_iov_prefix [OF this, of "[[9], [8]]" nine_sock "(demo_caller, plain_hooks [])"] show ?thesis
    by (auto simp: plain_hooks_def hk_world_def IOManager_new_def)
qed

section \<open>Where the code breaks\<close>

text \<open>A vectored TLS write that fails after its first buffer returns the error, and the bytes that were sent are
  not reported: a caller that tries again sends them twice.\<close>

lemma ssl_error_hides_progress:
  "\<exists>st'. ssl_send_iov nine_ssl [[9], [8]] nine_sock (demo_caller, plain_hooks []) = Inr (- 1, st') \<and> hk_world (snd st') = [9]"
  by (simp add: ssl_send_iov_def nine_sock_def nine_ssl_def to_int_def) (simp add: plain_hooks_def hk_world_def IOManager_new_def)

text \<open>A UDP socket counts as connected also when the system gave no descriptor.\<close>

lemma udp_without_descriptor:
  assumes "socket_f (nt_libc net) AF_INET SOCK_DGRAM 0 (hk_world h) = (- 1, e, w)"
  shows "\<exists>sk st. CreateUdpSocket net (c, h) = Inr (sk, st) \<and> sk_isConnected sk \<and> \<not> isValid sk"
  using assms
  by (auto simp: CreateUdpSocket_def create_udp_def newSock_def Socket_new_def hook_socket_def passes_def sys_call_def sys_result_def
    at_once_def isValid_def)

text \<open>The IPv6 and Unix variants are not opened at all, unlike the IPv4 one, so they can never send.\<close>

lemma udp6_never_sends: "send_buf net buffer flags CreateUdpSocket6 st = Inr (- 1, st)"
  by (simp add: send_buf_def if_connected_def CreateUdpSocket6_def Socket_new_def)

text \<open>A connection whose descriptor the hooks do not know, as on a thread that has not enabled them, is dropped
  without closing it.\<close>

lemma accept_leaks:
  assumes "accept_call net (sk_sock sk) st = Inr (n, c, h)" "n \<noteq> - 1" "fd_get (nt_libc net) n False h = Inr (None, h')"
  shows "accept_sock net sk st = Inr (None, c, h')"
  using assms by (simp add: accept_sock_def init_sock_def Socket_delete_def close_sock_def Socket_new_def)

text \<open>Closing an open socket returns false.\<close>

lemma close_returns_false: "isValid sk \<Longrightarrow> close_sock net sk st = Inr (b, sk', st') \<Longrightarrow> \<not> b"
  by (auto simp: close_sock_def isValid_def res_simps split: prod.splits if_splits)

text \<open>Connecting to an address of another family fails, but the socket keeps that address as its peer.\<close>

lemma connect_keeps_wrong_peer:
  assumes "isValid sk" "getFamily addr \<noteq> sk_family sk"
  shows "connect_sock net addr t sk st = Inr (False, sk\<lparr>sk_remoteAddress := Some addr\<rparr>, st)"
  using assms by (cases st) (simp add: connect_sock_def ensure_sock_def isValid_def)

end
