(* ===== verification/TcpServer_Props.thy ===== *)
theory TcpServer_Props
  imports Socket_Props
begin

text \<open>
  Binding a server: all listening sockets are opened, or every descriptor that was opened on the way
  is closed again.  The open descriptors are those of the world.
\<close>

section \<open>The system\<close>

text \<open>The documented effect of the system calls on the set of open descriptors: \<open>socket\<close> opens a new one,
  \<open>close\<close> closes its argument, and the others leave the set alone.\<close>

definition net_ok :: "'w net \<Rightarrow> ('w \<Rightarrow> int set) \<Rightarrow> bool" where
  "net_ok net opened \<longleftrightarrow>
     (\<forall>w d t p. let n = fst (socket_f (nt_libc net) d t p w); w' = after (socket_f (nt_libc net) d t p) w
        in if n = - 1 then opened w' = opened w else 0 \<le> n \<and> n \<notin> opened w \<and> opened w' = insert n (opened w)) \<and>
     (\<forall>w fd. opened (after (close_f (nt_libc net) fd) w) = opened w - {fd}) \<and>
     (\<forall>w fd cmd a. opened (snd (lc_fcntl (nt_libc net) w fd cmd a)) = opened w) \<and>
     (\<forall>w fd l n v. opened (after (setsockopt_f (nt_libc net) fd l n v) w) = opened w) \<and>
     (\<forall>w fd a. opened (after (bind_f net fd a) w) = opened w) \<and>
     (\<forall>w fd n. opened (after (listen_f net fd n) w) = opened w) \<and>
     (\<forall>w fd a. opened (snd (snd (getsockname_f net fd a w))) = opened w)"

lemma net_okD:
  assumes "net_ok net opened"
  shows "opened (after (close_f (nt_libc net) fd) w) = opened w - {fd}"
    "opened (snd (lc_fcntl (nt_libc net) w fd cmd arg)) = opened w"
    "opened (after (setsockopt_f (nt_libc net) fd l n v) w) = opened w"
    "opened (after (bind_f net fd bs) w) = opened w"
    "opened (after (listen_f net fd n) w) = opened w"
    "opened (snd (snd (getsockname_f net fd a w))) = opened w"
  using assms unfolding net_ok_def by simp_all

lemma net_ok_socket:
  assumes "net_ok net opened" "socket_f (nt_libc net) d t p w = (n, e, w')"
  shows "if n = - 1 then opened w' = opened w else 0 \<le> n \<and> n \<notin> opened w \<and> opened w' = insert n (opened w)"
  using assms(1) [unfolded net_ok_def, THEN conjunct1, THEN spec [of _ w], THEN spec [of _ d], THEN spec [of _ t], THEN spec [of _ p]]
    assms(2) by (simp add: after_def Let_def)

text \<open>What a call can change of the state, as far as descriptors go.\<close>

definition view :: "('w \<Rightarrow> int set) \<Rightarrow> 'w hooks \<Rightarrow> (int \<Rightarrow> fd_ctx option) \<times> int set \<times> fd_context list \<times> (int \<Rightarrow> bool)" where
  "view opened h = (fd_abs (hk_fds h), opened (hk_world h), m_fdContexts (hk_io h), t_hook_enable h)"

definition fine :: "('w \<Rightarrow> int set) \<Rightarrow> caller \<Rightarrow> 'w hooks \<Rightarrow> bool" where
  "fine opened c h \<longleftrightarrow> t_hook_enable h (hc_tid c) \<and> fd_inv (hk_fds h) \<and> dom (fd_abs (hk_fds h)) \<subseteq> opened (hk_world h) \<and>
     (\<forall>fd. 0 \<le> fd \<longrightarrow> fd \<notin> opened (hk_world h) \<longrightarrow> nat fd < length (m_fdContexts (hk_io h)) \<longrightarrow>
        c_events (m_fdContexts (hk_io h) ! nat fd) = 0)"

lemma view_simps [simp]:
  "view opened (set_errno tid e h) = view opened h"
  "view opened (set_world w h) = (fd_abs (hk_fds h), opened w, m_fdContexts (hk_io h), t_hook_enable h)"
  by (simp_all add: view_def set_errno_def set_world_def hk_world_def)

lemma fine_view: "fine opened c h \<Longrightarrow> view opened h' = view opened h \<Longrightarrow> fd_inv (hk_fds h') \<Longrightarrow> fine opened c h'"
  by (simp add: fine_def view_def)

lemma sys_call_view:
  assumes "sys_call tid f h = (n, h')" "\<And>w. opened (after f w) = opened w"
  shows "view opened h' = view opened h" "hk_fds h' = hk_fds h"
proof -
  obtain m e w where f: "f (hk_world h) = (m, e, w)" by (metis surj_pair)
  have w: "opened w = opened (hk_world h)" using assms(2) [of "hk_world h"] f by (simp add: after_def)
  have h': "h' = (if m = - 1 then set_errno tid e else id) (set_world w h)" using assms(1) f by (auto simp: sys_call_def sys_result_def)
  show "view opened h' = view opened h" unfolding h' by (cases "m = - 1") (simp_all add: w, simp_all add: view_def)
  show "hk_fds h' = hk_fds h" unfolding h' by simp
qed

lemma setOption_view:
  assumes ok: "net_ok net opened" and o: "option \<noteq> SO_RCVTIMEO" "option \<noteq> SO_SNDTIMEO"
  shows "\<exists>b h'. setOption net level option v sk (c, h) = Inr (b, c, h') \<and> view opened h' = view opened h \<and> hk_fds h' = hk_fds h"
proof -
  let ?f = "setsockopt_f (nt_libc net) (sk_sock sk) level option v"
  obtain n h' where r: "sys_call (hc_tid c) ?f h = (n, h')" by fastforce
  have "setOption net level option v sk (c, h) = Inr (n = 0, c, h')"
    using o r by (auto simp: setOption_def hook_setsockopt_def at_once_def passes_def Let_def)
  then show ?thesis using sys_call_view [OF r, of opened] net_okD(3) [OF ok] by blast
qed

lemma initSock_view:
  assumes ok: "net_ok net opened"
  shows "\<exists>h'. initSock net sk (c, h) = Inr (c, h') \<and> view opened h' = view opened h \<and> hk_fds h' = hk_fds h"
proof -
  have o: "SO_REUSEADDR \<noteq> SO_RCVTIMEO" "SO_REUSEADDR \<noteq> SO_SNDTIMEO" "TCP_NODELAY \<noteq> SO_RCVTIMEO" "TCP_NODELAY \<noteq> SO_SNDTIMEO"
    by (simp_all add: SO_REUSEADDR_def SO_RCVTIMEO_def SO_SNDTIMEO_def TCP_NODELAY_def)
  obtain b h1 where 1: "setOption net SOL_SOCKET SO_REUSEADDR (Opt_Int 1) sk (c, h) = Inr (b, c, h1)"
    "view opened h1 = view opened h" "hk_fds h1 = hk_fds h" using setOption_view [OF ok o(1,2)] by blast
  obtain b2 h2 where "setOption net IPPROTO_TCP TCP_NODELAY (Opt_Int 1) sk (c, h1) = Inr (b2, c, h2)"
    "view opened h2 = view opened h1" "hk_fds h2 = hk_fds h1" using setOption_view [OF ok o(3,4)] by blast
  then show ?thesis using 1 by (auto simp: initSock_def)
qed

lemma getLocalAddress_view:
  assumes ok: "net_ok net opened" and r: "getLocalAddress net sk (c, h) = (a, sk', c', h')"
  shows "c' = c \<and> view opened h' = view opened h \<and> hk_fds h' = hk_fds h \<and> sk_sock sk' = sk_sock sk \<and> sk_isConnected sk' = sk_isConnected sk"
proof -
  let ?q = "getsockname_f net (sk_sock sk) (blank_address (nt_host net) (sk_family sk)) (hk_world h)"
  obtain x e w where q: "?q = (x, e, w)" by (metis surj_pair)
  have w: "opened w = opened (hk_world h)" using net_okD(6) [OF ok, of "sk_sock sk" _ "hk_world h"] q by (metis snd_conv)
  have v: "view opened (set_world w h) = view opened h" using w by (simp add: view_def)
  show ?thesis
  proof (cases "sk_localAddress sk")
    case (Some b)
    then show ?thesis using r by (simp add: getLocalAddress_def)
  next
    case None
    then show ?thesis using r q v by (cases x) (auto simp: getLocalAddress_def query_address_def Let_def split: prod.splits)
  qed
qed

section \<open>Opening and closing one socket\<close>

lemma FdCtx_new_opened:
  "net_ok net opened \<Longrightarrow> opened (snd (FdCtx_new (os_of (nt_libc net)) w fd)) = opened w"
proof -
  assume ok: "net_ok net opened"
  have f: "lc_fcntl (nt_libc net) w fd cmd a = (r, w') \<Longrightarrow> opened w' = opened w" for w cmd a r w'
    using net_okD(2) [OF ok, of w fd cmd a] by simp
  show ?thesis
    by (auto simp: FdCtx_new_def FdCtx_init_def os_of_def Let_def net_okD(2) [OF ok] dest: f split: option.splits prod.splits)
qed

lemma FdManager_get_opened:
  assumes "net_ok net opened" "FdManager_get (os_of (nt_libc net)) w m fd True = Inr (x, m', w')"
  shows "opened w' = opened w"
  using assms FdCtx_new_opened [OF assms(1), of w fd]
  by (auto simp: FdManager_get_def Let_def split: if_splits prod.splits)

text \<open>The state after a socket has been opened in a fine state.\<close>

definition opens :: "('w \<Rightarrow> int set) \<Rightarrow> 'w hooks \<Rightarrow> socket \<Rightarrow> 'w hooks \<Rightarrow> bool" where
  "opens opened h sk h' \<longleftrightarrow> 0 \<le> sk_sock sk \<and> sk_sock sk \<notin> opened (hk_world h) \<and> \<not> sk_isConnected sk \<and> fd_inv (hk_fds h') \<and>
     (\<exists>x. view opened h' = ((fd_abs (hk_fds h))(sk_sock sk \<mapsto> x), insert (sk_sock sk) (opened (hk_world h)),
        m_fdContexts (hk_io h), t_hook_enable h))"

definition closed_again :: "('w \<Rightarrow> int set) \<Rightarrow> 'w hooks \<Rightarrow> socket \<Rightarrow> 'w hooks \<Rightarrow> bool" where
  "closed_again opened h sk h' \<longleftrightarrow> sk_sock sk = - 1 \<and> \<not> sk_isConnected sk \<and> fd_inv (hk_fds h') \<and> view opened h' = view opened h"

lemma opens_view: "opens opened h sk h1 \<Longrightarrow> view opened h2 = view opened h1 \<Longrightarrow> fd_inv (hk_fds h2) \<Longrightarrow> opens opened h sk h2"
  by (simp add: opens_def)

lemma newSock_opens:
  assumes ok: "net_ok net opened" and h: "fine opened c h" and sk: "\<not> sk_isConnected sk"
  shows "\<exists>sk' h'. newSock net sk (c, h) = Inr (sk', c, h') \<and> sk_family sk' = sk_family sk \<and>
    (closed_again opened h sk' h' \<or> opens opened h sk' h')"
proof -
  let ?f = "socket_f (nt_libc net) (sk_family sk) (sk_type sk) (sk_protocol sk)"
  obtain fd e w where f: "?f (hk_world h) = (fd, e, w)" by (metis surj_pair)
  note o = net_ok_socket [OF ok f]
  have en: "t_hook_enable h (hc_tid c)" using h by (simp add: fine_def)
  let ?h1 = "snd (sys_result (hc_tid c) (fd, e, w) h)"
  have h1: "hk_fds ?h1 = hk_fds h" "hk_world ?h1 = w" "m_fdContexts (hk_io ?h1) = m_fdContexts (hk_io h)" "t_hook_enable ?h1 = t_hook_enable h"
    by (simp_all add: sys_result_def set_errno_def set_world_def hk_world_def)
  show ?thesis
  proof (cases "fd = - 1")
    case True
    then have "newSock net sk (c, h) = Inr (sk\<lparr>sk_sock := - 1\<rparr>, c, ?h1)"
      using f en by (simp add: newSock_def hook_socket_def sys_call_def at_once_def sys_result_def)
    moreover have "closed_again opened h (sk\<lparr>sk_sock := - 1\<rparr>) ?h1"
      using True o h h1 sk by (simp add: closed_again_def view_def fine_def)
    ultimately show ?thesis by auto
  next
    case False
    then have o': "0 \<le> fd" "fd \<notin> opened (hk_world h)" "opened w = insert fd (opened (hk_world h))" using o by auto
    have inv: "fd_inv (hk_fds h)" "fd_abs (hk_fds h) fd = None" using h o'(2) by (auto simp: fine_def)
    obtain x m' w' where g: "FdManager_get (os_of (nt_libc net)) w (hk_fds h) fd True = Inr (Some x, m', w')" "fd_inv m'"
      "fd_abs m' = (fd_abs (hk_fds h))(fd \<mapsto> x)" using get_create [OF inv(1) o'(1) inv(2), of "os_of (nt_libc net)" w] by blast
    let ?h2 = "set_world w' (?h1\<lparr>hk_fds := m'\<rparr>)"
    have "hook_socket (nt_libc net) c (sk_family sk) (sk_type sk) (sk_protocol sk) h = Inr (Done fd, ?h2)"
      using f en False g(1) h1(1,2) by (simp add: hook_socket_def sys_call_def sys_result_def fd_get_def)
    moreover obtain h3 where i: "initSock net (sk\<lparr>sk_sock := fd\<rparr>) (c, ?h2) = Inr (c, h3)" "view opened h3 = view opened ?h2"
      "hk_fds h3 = hk_fds ?h2" using initSock_view [OF ok] by blast
    ultimately have "newSock net sk (c, h) = Inr (sk\<lparr>sk_sock := fd\<rparr>, c, h3)" using False by (simp add: newSock_def at_once_def)
    moreover have "view opened ?h2 = ((fd_abs (hk_fds h))(fd \<mapsto> x), insert fd (opened (hk_world h)), m_fdContexts (hk_io h), t_hook_enable h)"
      using g o' h1 FdManager_get_opened [OF ok g(1)] by (simp add: view_def)
    then have "opens opened h (sk\<lparr>sk_sock := fd\<rparr>) h3" using i g(2) o' sk by (auto simp: opens_def)
    ultimately show ?thesis by auto
  qed
qed

definition idle_fd :: "fd_context list \<Rightarrow> int \<Rightarrow> bool" where
  "idle_fd cs fd \<longleftrightarrow> nat fd < length cs \<longrightarrow> c_events (cs ! nat fd) = 0"

lemma cancelAll_idle:
  "0 \<le> fd \<Longrightarrow> idle_fd (m_fdContexts io) fd \<Longrightarrow> cancelAll ep fd io = Inr (False, io)"
  by (auto simp: cancelAll_def with_ctx_def idle_fd_def)

lemma delete_fd:
  assumes ok: "net_ok net opened" and en: "t_hook_enable h (hc_tid c)" and inv: "fd_inv (hk_fds h)"
    and x: "fd_abs (hk_fds h) (sk_sock sk) = Some x" and i: "idle_fd (m_fdContexts (hk_io h)) (sk_sock sk)"
  shows "\<exists>h'. Socket_delete net sk (c, h) = Inr (c, h') \<and> fd_inv (hk_fds h') \<and>
    view opened h' = ((fd_abs (hk_fds h))(sk_sock sk := None), opened (hk_world h) - {sk_sock sk}, m_fdContexts (hk_io h), t_hook_enable h)"
proof -
  have f0: "0 \<le> sk_sock sk" using x by (auto simp: fd_abs_def split: if_splits)
  from del_map [OF inv f0] obtain m where m: "FdManager_del (hk_fds h) (sk_sock sk) = Inr m" "fd_inv m"
    "fd_abs m = (fd_abs (hk_fds h))(sk_sock sk := None)" by blast
  let ?h1 = "h\<lparr>hk_fds := m\<rparr>"
  obtain n e w where f: "close_f (nt_libc net) (sk_sock sk) (hk_world h) = (n, e, w)" by (metis surj_pair)
  have w: "opened w = opened (hk_world h) - {sk_sock sk}" using net_okD(1) [OF ok, of "sk_sock sk" "hk_world h"] f by (simp add: after_def)
  let ?h2 = "(if n = - 1 then set_errno (hc_tid c) e else id) (set_world w ?h1)"
  have c: "hook_close (nt_libc net) c (sk_sock sk) h = Inr (Done n, ?h2)"
    using en fd_get_known [OF inv x] cancelAll_idle [OF f0 i] m(1) f
    by (simp add: hook_close_def passes_def sys_call_def sys_result_def hk_world_def)
  have "Socket_delete net sk (c, h) = Inr (c, ?h2)" using c f0 by (simp add: Socket_delete_def close_sock_def at_once_def)
  moreover have "view opened ?h2 = view opened (set_world w ?h1)" "hk_fds ?h2 = m" by auto
  ultimately show ?thesis using m w by simp
qed

lemma delete_closed: "sk_sock sk = - 1 \<Longrightarrow> \<not> sk_isConnected sk \<Longrightarrow> Socket_delete net sk st = Inr st"
  by (simp add: Socket_delete_def close_sock_def)

lemma fine_idle: "fine opened c h \<Longrightarrow> 0 \<le> fd \<Longrightarrow> fd \<notin> opened (hk_world h) \<Longrightarrow> idle_fd (m_fdContexts (hk_io h)) fd"
  by (simp add: fine_def idle_fd_def)

lemma delete_restores:
  assumes ok: "net_ok net opened" and h: "fine opened c h" and o: "closed_again opened h sk h1 \<or> opens opened h sk h1"
  shows "\<exists>h2. Socket_delete net sk (c, h1) = Inr (c, h2) \<and> fd_inv (hk_fds h2) \<and> view opened h2 = view opened h"
  using o
proof
  assume "closed_again opened h sk h1"
  then show ?thesis by (auto simp: closed_again_def delete_closed)
next
  assume a: "opens opened h sk h1"
  let ?fd = "sk_sock sk"
  obtain x where v: "fd_abs (hk_fds h1) = (fd_abs (hk_fds h))(?fd \<mapsto> x)" "opened (hk_world h1) = insert ?fd (opened (hk_world h))"
    "m_fdContexts (hk_io h1) = m_fdContexts (hk_io h)" "t_hook_enable h1 = t_hook_enable h"
    using a by (auto simp: opens_def view_def)
  have fd: "0 \<le> ?fd" "?fd \<notin> opened (hk_world h)" "fd_inv (hk_fds h1)" using a by (auto simp: opens_def)
  have n: "fd_abs (hk_fds h) ?fd = None" using h fd(2) by (auto simp: fine_def)
  have "t_hook_enable h1 (hc_tid c)" using h v by (simp add: fine_def)
  moreover have "idle_fd (m_fdContexts (hk_io h1)) ?fd" using fine_idle [OF h fd(1,2)] v by simp
  moreover have "(fd_abs (hk_fds h))(?fd := None) = fd_abs (hk_fds h)" using n by auto
  moreover have "insert ?fd (opened (hk_world h)) - {?fd} = opened (hk_world h)" using fd(2) by auto
  ultimately show ?thesis using delete_fd [OF ok _ fd(3), of c sk x] v by (simp add: view_def)
qed

section \<open>Binding\<close>

definition not_unix :: "address \<Rightarrow> bool" where
  "not_unix a \<longleftrightarrow> (case a of UnixAddress _ _ \<Rightarrow> False | _ \<Rightarrow> True)"

lemma unix_free_other: "not_unix addr \<Longrightarrow> unix_free net addr st = Inr (True, st)"
  by (auto simp: unix_free_def not_unix_def split: address.splits)

lemma bind_sock_opens:
  assumes ok: "net_ok net opened" and h: "fine opened c h" and a: "not_unix addr"
    and sk: "\<not> sk_isConnected sk" "sk_sock sk = - 1"
  shows "\<exists>b sk' h'. bind_sock net addr sk (c, h) = Inr (b, sk', c, h') \<and>
    (closed_again opened h sk' h' \<and> \<not> b \<or> opens opened h sk' h')"
proof -
  obtain sk1 h1 where 1: "newSock net sk (c, h) = Inr (sk1, c, h1)" "closed_again opened h sk1 h1 \<or> opens opened h sk1 h1"
    using newSock_opens [OF ok h sk(1)] by blast
  have e: "ensure_sock net sk (c, h) = Inr (sk1, c, h1)" using 1(1) sk(2) by (simp add: ensure_sock_def isValid_def)
  show ?thesis
  proof (cases "isValid sk1 \<and> getFamily addr = sk_family sk1")
    case False
    then show ?thesis using e 1(2) by (cases "isValid sk1") (auto simp: bind_sock_def closed_again_def isValid_def)
  next
    case True
    have o: "opens opened h sk1 h1" using 1(2) True by (auto simp: closed_again_def isValid_def)
    obtain rt h2 where s: "sys_call (hc_tid c) (bind_f net (sk_sock sk1) (addr_arg net addr)) h1 = (rt, h2)" by fastforce
    note v = sys_call_view [OF s, of opened, OF net_okD(4) [OF ok]]
    obtain x sk3 c3 h3 where l: "getLocalAddress net sk1 (c, h2) = (x, sk3, c3, h3)" by (metis surj_pair)
    note l' = getLocalAddress_view [OF ok l]
    have o2: "opens opened h sk1 h2" using opens_view [OF o v(1)] v(2) o by (simp add: opens_def)
    then have o3: "opens opened h sk3 h3" using l' by (auto simp: opens_def)
    have "bind_sock net addr sk (c, h) = Inr (if rt \<noteq> 0 then (False, sk1, c, h2) else (True, sk3, c, h3))"
      using e True s l l' unix_free_other [OF a, of net "(c, h1)"] by (simp add: bind_sock_def plain_call_def)
    then show ?thesis using o2 o3 by (cases "rt = 0") auto
  qed
qed

lemma vs_bind_opens:
  assumes ok: "net_ok net opened" and h: "fine opened c h" and a: "not_unix addr"
  shows "\<exists>b v h'. vs_bind net addr (create_sock ssl addr) (c, h) = Inr (b, v, c, h') \<and>
    (closed_again opened h (vs_base v) h' \<and> \<not> b \<or> opens opened h (vs_base v) h')"
proof -
  have p: "base (SSL_CreateTcp addr) = CreateTcp addr"
    by (simp add: base_def SSL_CreateTcp_def SSLSocket_new_def CreateTcp_def Socket_new_def socket.defs)
  have q: "base (with_base sk s) = sk" for sk s
    by (cases sk) (simp add: base_def with_base_def socket.defs)
  obtain b sk' h' where "bind_sock net addr (CreateTcp addr) (c, h) = Inr (b, sk', c, h')"
    "closed_again opened h sk' h' \<and> \<not> b \<or> opens opened h sk' h'"
    using bind_sock_opens [OF ok h a, of "CreateTcp addr"] by (auto simp: CreateTcp_def Socket_new_def)
  then show ?thesis by (cases ssl) (auto simp: vs_bind_def create_sock_def vs_base_def ssl_bind_def p q)
qed

lemma vs_listen_view:
  assumes ok: "net_ok net opened" and r: "vs_listen net v (c, h) = (b, c', h')"
  shows "c' = c \<and> view opened h' = view opened h \<and> hk_fds h' = hk_fds h"
proof -
  obtain rt h2 where s: "sys_call (hc_tid c) (listen_f net (sk_sock (vs_base v)) SOMAXCONN) h = (rt, h2)" by fastforce
  note v = sys_call_view [OF s, of opened, OF net_okD(5) [OF ok]]
  have "vs_listen net v (c, h) = listen_sock net SOMAXCONN (vs_base v) (c, h)"
    by (cases v) (simp_all add: vs_listen_def vs_base_def ssl_listen_def)
  then show ?thesis using r s v by (auto simp: listen_sock_def plain_call_def split: if_splits)
qed

section \<open>The server\<close>

definition fds_of :: "server_sock list \<Rightarrow> int list" where
  "fds_of vs = map (\<lambda>v. sk_sock (vs_base v)) vs"

text \<open>The state \<open>h\<close> differs from \<open>h0\<close> by the open descriptors \<open>F\<close>.\<close>

definition extra :: "('w \<Rightarrow> int set) \<Rightarrow> 'w hooks \<Rightarrow> int set \<Rightarrow> 'w hooks \<Rightarrow> bool" where
  "extra opened h0 F h \<longleftrightarrow> F \<subseteq> {0..} \<and> F \<inter> opened (hk_world h0) = {} \<and> fd_inv (hk_fds h) \<and>
     F \<subseteq> dom (fd_abs (hk_fds h)) \<and> fd_abs (hk_fds h) |` (- F) = fd_abs (hk_fds h0) \<and>
     opened (hk_world h) = opened (hk_world h0) \<union> F \<and>
     m_fdContexts (hk_io h) = m_fdContexts (hk_io h0) \<and> t_hook_enable h = t_hook_enable h0"

definition has_open :: "('w \<Rightarrow> int set) \<Rightarrow> 'w hooks \<Rightarrow> server_sock list \<Rightarrow> 'w hooks \<Rightarrow> bool" where
  "has_open opened h0 vs h \<longleftrightarrow> distinct (fds_of vs) \<and> extra opened h0 (set (fds_of vs)) h"

lemma extra_start: "fine opened c h \<Longrightarrow> extra opened h {} h"
  by (simp add: extra_def fine_def restrict_map_def)

lemma restrict_split: "m |` (- F) = m0 \<Longrightarrow> dom m \<subseteq> dom m0 \<union> F"
  by (auto simp: restrict_map_def dom_def split: if_splits)

lemma extra_fine: "fine opened c h0 \<Longrightarrow> extra opened h0 F h \<Longrightarrow> fine opened c h"
  using subset_trans [OF restrict_split [of "fd_abs (hk_fds h)" F "fd_abs (hk_fds h0)"],
      of "opened (hk_world h0) \<union> F"] by (auto simp: extra_def fine_def)

lemma extra_same: "extra opened h0 F h \<Longrightarrow> view opened h' = view opened h \<Longrightarrow> fd_inv (hk_fds h') \<Longrightarrow> extra opened h0 F h'"
  by (simp add: extra_def view_def)

lemma map_plus: "m |` (- F) = m0 \<Longrightarrow> fd \<notin> dom m0 \<Longrightarrow> (m(fd \<mapsto> x)) |` (- insert fd F) = m0"
  by (rule ext) (auto simp: restrict_map_def)

lemma map_minus: "m |` (- insert fd F) = m0 \<Longrightarrow> fd \<notin> dom m0 \<Longrightarrow> (m(fd := None)) |` (- F) = m0"
  by (rule ext) (auto simp: restrict_map_def domIff)

lemma extra_add:
  assumes "fine opened c h0" "extra opened h0 F h" "opens opened h sk h'"
  shows "extra opened h0 (insert (sk_sock sk) F) h' \<and> sk_sock sk \<notin> F"
proof -
  obtain x where v: "fd_abs (hk_fds h') = (fd_abs (hk_fds h))(sk_sock sk \<mapsto> x)" "opened (hk_world h') = insert (sk_sock sk) (opened (hk_world h))"
    "m_fdContexts (hk_io h') = m_fdContexts (hk_io h)" "t_hook_enable h' = t_hook_enable h"
    using assms(3) by (auto simp: opens_def view_def)
  have fd: "0 \<le> sk_sock sk" "sk_sock sk \<notin> opened (hk_world h0) \<union> F" "fd_inv (hk_fds h')"
    using assms(2,3) by (auto simp: opens_def extra_def)
  have "sk_sock sk \<notin> dom (fd_abs (hk_fds h0))" using assms(1) fd(2) by (auto simp: fine_def)
  from map_plus [OF _ this, of "fd_abs (hk_fds h)" F x] assms(2) fd v show ?thesis unfolding extra_def by auto
qed

lemma has_open_delete:
  assumes ok: "net_ok net opened" and h0: "fine opened c h0" and h: "has_open opened h0 (v # vs) h"
  shows "\<exists>h'. vs_delete net v (c, h) = Inr (c, h') \<and> has_open opened h0 vs h'"
proof -
  let ?fd = "sk_sock (vs_base v)" and ?F = "set (fds_of vs)"
  have e: "extra opened h0 (insert ?fd ?F) h" "?fd \<notin> ?F" "distinct (fds_of vs)" using h by (simp_all add: has_open_def fds_of_def)
  have fd: "0 \<le> ?fd" "?fd \<notin> opened (hk_world h0)" using e(1) by (auto simp: extra_def)
  have "?fd \<in> dom (fd_abs (hk_fds h))" using e(1) by (simp add: extra_def)
  then obtain x where x: "fd_abs (hk_fds h) ?fd = Some x" by (auto simp: dom_def)
  have n: "?fd \<notin> dom (fd_abs (hk_fds h0))" using h0 fd(2) by (auto simp: fine_def)
  have "idle_fd (m_fdContexts (hk_io h)) ?fd" using fine_idle [OF h0 fd] e(1) by (simp add: extra_def)
  moreover have "t_hook_enable h (hc_tid c)" "fd_inv (hk_fds h)" using e(1) h0 by (simp_all add: extra_def fine_def)
  ultimately obtain h' where h': "Socket_delete net (vs_base v) (c, h) = Inr (c, h')"
    "fd_inv (hk_fds h')" "fd_abs (hk_fds h') = (fd_abs (hk_fds h))(?fd := None)" "opened (hk_world h') = opened (hk_world h) - {?fd}"
    "m_fdContexts (hk_io h') = m_fdContexts (hk_io h)" "t_hook_enable h' = t_hook_enable h"
    using delete_fd [OF ok _ _ x, of c] by (auto simp: view_def)
  have "fd_abs (hk_fds h') |` (- ?F) = fd_abs (hk_fds h0)"
    unfolding h'(3) by (rule map_minus [OF _ n]) (use e(1) in \<open>simp add: extra_def\<close>)
  moreover have "?F \<subseteq> dom (fd_abs (hk_fds h'))" using e unfolding h'(3) extra_def by auto
  moreover have "opened (hk_world h') = opened (hk_world h0) \<union> ?F" using e fd(2) unfolding h'(4) extra_def by auto
  ultimately have "extra opened h0 ?F h'" using e(1) h' by (simp add: extra_def)
  then show ?thesis using h'(1) e(3) by (auto simp: vs_delete_def has_open_def)
qed

lemma delete_all_restores:
  assumes ok: "net_ok net opened" and h0: "fine opened c h0"
  shows "has_open opened h0 vs h \<Longrightarrow> \<exists>h'. delete_all net vs (c, h) = Inr (c, h') \<and> has_open opened h0 [] h'"
proof (induction vs arbitrary: h)
  case (Cons v vs)
  from has_open_delete [OF ok h0 Cons.prems] obtain h1 where
    "vs_delete net v (c, h) = Inr (c, h1)" "has_open opened h0 vs h1" by blast
  then show ?case using Cons.IH by simp
qed simp

text \<open>One address: the socket stays open, or the state is as before.\<close>

lemma bind_step:
  assumes ok: "net_ok net opened" and h: "fine opened c h" and a: "not_unix a"
  shows "(\<exists>v h'. opens opened h (vs_base v) h' \<and>
      (\<forall>addrs socks fails. bind_loop net ssl (a # addrs) socks fails (c, h) = bind_loop net ssl addrs (socks @ [v]) fails (c, h'))) \<or>
    (\<exists>h'. view opened h' = view opened h \<and> fd_inv (hk_fds h') \<and>
      (\<forall>addrs socks fails. bind_loop net ssl (a # addrs) socks fails (c, h) = bind_loop net ssl addrs socks (fails @ [a]) (c, h')))"
proof -
  from vs_bind_opens [OF ok h a, of ssl] obtain b v h1 where
    1: "vs_bind net a (create_sock ssl a) (c, h) = Inr (b, v, c, h1)"
      "closed_again opened h (vs_base v) h1 \<and> \<not> b \<or> opens opened h (vs_base v) h1" by auto
  obtain b2 c2 h2 where l: "vs_listen net v (c, h1) = (b2, c2, h2)" by (metis surj_pair)
  note l' = vs_listen_view [OF ok l]
  show ?thesis
  proof (cases "b \<and> b2")
    case True
    then have "opens opened h (vs_base v) h2" using opens_view [of opened h "vs_base v" h1 h2] 1(2) l' by (auto simp: opens_def)
    then show ?thesis using 1(1) l l' True by (intro disjI1 exI [of _ v] exI [of _ h2]) simp
  next
    case False
    let ?h = "if b then h2 else h1"
    have "closed_again opened h (vs_base v) ?h \<or> opens opened h (vs_base v) ?h" using 1(2) l' by (auto simp: closed_again_def opens_def)
    from delete_restores [OF ok h this] obtain h3 where h3: "Socket_delete net (vs_base v) (c, ?h) = Inr (c, h3)"
      "fd_inv (hk_fds h3)" "view opened h3 = view opened h" by blast
    then show ?thesis using 1(1) l l' False by (intro disjI2 exI [of _ h3]) (cases b; simp add: vs_delete_def)
  qed
qed

lemma bind_loop_opens:
  assumes ok: "net_ok net opened" and h0: "fine opened c h0"
  shows "has_open opened h0 socks h \<Longrightarrow> list_all not_unix addrs \<Longrightarrow>
    \<exists>socks' bad h'. bind_loop net ssl addrs socks fails (c, h) = Inr (socks', fails @ bad, c, h') \<and> has_open opened h0 socks' h' \<and>
      set bad \<subseteq> set addrs \<and> length socks' + length bad = length socks + length addrs"
proof (induction addrs arbitrary: socks fails h)
  case (Cons a addrs)
  have e: "extra opened h0 (set (fds_of socks)) h" using Cons.prems(1) by (simp add: has_open_def)
  from Cons.prems(2) have "not_unix a" by simp
  from bind_step [OF ok extra_fine [OF h0 e] this, of ssl] show ?case
  proof (elim disjE exE conjE)
    fix v h'
    assume o: "opens opened h (vs_base v) h'" and s: "\<forall>addrs socks fails. bind_loop net ssl (a # addrs) socks fails (c, h) =
      bind_loop net ssl addrs (socks @ [v]) fails (c, h')"
    have "has_open opened h0 (socks @ [v]) h'"
      using extra_add [OF h0 e o] Cons.prems(1) by (simp add: has_open_def fds_of_def)
    from Cons.IH [OF this, of fails] Cons.prems(2) s show ?thesis by fastforce
  next
    fix h'
    assume v: "view opened h' = view opened h" "fd_inv (hk_fds h')" and s: "\<forall>addrs socks fails. bind_loop net ssl (a # addrs) socks fails (c, h) =
      bind_loop net ssl addrs socks (fails @ [a]) (c, h')"
    have "has_open opened h0 socks h'" using extra_same [OF e v] Cons.prems(1) by (simp add: has_open_def)
    from Cons.IH [OF this, of "fails @ [a]"] Cons.prems(2)
    obtain socks' bad h3 where "bind_loop net ssl addrs socks (fails @ [a]) (c, h') = Inr (socks', (fails @ [a]) @ bad, c, h3)"
      "has_open opened h0 socks' h3" "set bad \<subseteq> set addrs" "length socks' + length bad = length socks + length addrs" by auto
    then show ?thesis using s by (intro exI [of _ socks'] exI [of _ "a # bad"] exI [of _ h3]) auto
  qed
qed simp


text \<open>A system with one descriptor to give away, 7.\<close>

definition srv_libc :: "(int set) libc" where
  "srv_libc = \<lparr>lc_fstat = \<lambda>_ _. Some True, lc_fcntl = \<lambda>w _ _ _. (0, w), lc_epoll_ctl = \<lambda>w _ _ _. (0, w),
     sleep_f = \<lambda>_ w. (0, w), usleep_f = \<lambda>_ w. (0, 0, w), nanosleep_f = \<lambda>_ _ w. (0, 0, w),
     socket_f = \<lambda>_ _ _ w. if 7 \<in> w then (- 1, 24, w) else (7, 0, insert 7 w), connect_f = \<lambda>_ _ w. (0, 0, w),
     close_f = \<lambda>fd w. (0, 0, w - {fd}), ioctl_f = \<lambda>_ _ _ w. (0, 0, w), getsockopt_f = \<lambda>_ _ _ w. (0, 0, 0, w),
     setsockopt_f = \<lambda>_ _ _ _ w. (0, 0, w)\<rparr>"


section \<open>Configurations\<close>

text \<open>The comparison that decides whether listeners are told looks at every member.\<close>

lemma conf_eq_iff: "conf_eq a b \<longleftrightarrow> a = b"
  by (cases a; cases b) (auto simp: conf_eq_def)

end
