(* ===== verification/Sync.thy ===== *)
theory Sync
  imports Timer
begin

text \<open>
  Locks, semaphores and threads (\<open>src/concurrency/mutex.cc\<close>, \<open>thread.cc\<close>, \<open>include/concurrency/mutex.h\<close>,
  \<open>thread.h\<close>).  An operation that blocks is a partial function: \<open>None\<close> means that it cannot go on in
  this state.  The POSIX locks are parameters; the lock on an atomic flag is the repository's own.
\<close>

section \<open>Scoped locks\<close>

text \<open>The three guard templates have the same code with \<open>lock\<close>, \<open>rdlock\<close> and \<open>wrlock\<close>.  A guard is its
  \<open>m_locked\<close>; the mutex it refers to is passed along.\<close>

definition ScopedLock_new :: "('m \<Rightarrow> 'm option) \<Rightarrow> 'm \<Rightarrow> (bool \<times> 'm) option" where
  "ScopedLock_new lock m = map_option (Pair True) (lock m)"

definition ScopedLock_lock :: "('m \<Rightarrow> 'm option) \<Rightarrow> bool \<Rightarrow> 'm \<Rightarrow> (bool \<times> 'm) option" where
  "ScopedLock_lock lock m_locked m = (if \<not> m_locked then map_option (Pair True) (lock m) else Some (m_locked, m))"

definition ScopedLock_unlock :: "('m \<Rightarrow> 'm) \<Rightarrow> bool \<Rightarrow> 'm \<Rightarrow> bool \<times> 'm" where
  "ScopedLock_unlock unlock m_locked m = (if m_locked then (False, unlock m) else (m_locked, m))"

definition ScopedLock_delete :: "('m \<Rightarrow> 'm) \<Rightarrow> bool \<Rightarrow> 'm \<Rightarrow> 'm" where
  "ScopedLock_delete unlock m_locked m = snd (ScopedLock_unlock unlock m_locked m)"

definition ReadScopedLock_new :: "('m \<Rightarrow> 'm option) \<Rightarrow> 'm \<Rightarrow> (bool \<times> 'm) option" where
  "ReadScopedLock_new rdlock m = map_option (Pair True) (rdlock m)"

definition ReadScopedLock_lock :: "('m \<Rightarrow> 'm option) \<Rightarrow> bool \<Rightarrow> 'm \<Rightarrow> (bool \<times> 'm) option" where
  "ReadScopedLock_lock rdlock m_locked m = (if \<not> m_locked then map_option (Pair True) (rdlock m) else Some (m_locked, m))"

definition ReadScopedLock_unlock :: "('m \<Rightarrow> 'm) \<Rightarrow> bool \<Rightarrow> 'm \<Rightarrow> bool \<times> 'm" where
  "ReadScopedLock_unlock unlock m_locked m = (if m_locked then (False, unlock m) else (m_locked, m))"

definition ReadScopedLock_delete :: "('m \<Rightarrow> 'm) \<Rightarrow> bool \<Rightarrow> 'm \<Rightarrow> 'm" where
  "ReadScopedLock_delete unlock m_locked m = snd (ReadScopedLock_unlock unlock m_locked m)"

definition WriteScopedLock_new :: "('m \<Rightarrow> 'm option) \<Rightarrow> 'm \<Rightarrow> (bool \<times> 'm) option" where
  "WriteScopedLock_new wrlock m = map_option (Pair True) (wrlock m)"

definition WriteScopedLock_lock :: "('m \<Rightarrow> 'm option) \<Rightarrow> bool \<Rightarrow> 'm \<Rightarrow> (bool \<times> 'm) option" where
  "WriteScopedLock_lock wrlock m_locked m = (if \<not> m_locked then map_option (Pair True) (wrlock m) else Some (m_locked, m))"

definition WriteScopedLock_unlock :: "('m \<Rightarrow> 'm) \<Rightarrow> bool \<Rightarrow> 'm \<Rightarrow> bool \<times> 'm" where
  "WriteScopedLock_unlock unlock m_locked m = (if m_locked then (False, unlock m) else (m_locked, m))"

definition WriteScopedLock_delete :: "('m \<Rightarrow> 'm) \<Rightarrow> bool \<Rightarrow> 'm \<Rightarrow> 'm" where
  "WriteScopedLock_delete unlock m_locked m = snd (WriteScopedLock_unlock unlock m_locked m)"

text \<open>\<open>CASLock\<close>: the state is the flag; a turn of the loop of \<open>lock\<close> sets it and tells whether it was set
  before, in which case the loop goes on.\<close>

definition CASLock_new :: bool where
  "CASLock_new = False"

definition test_and_set :: "bool \<Rightarrow> bool \<times> bool" where
  "test_and_set flag = (flag, True)"

definition CASLock_lock :: "bool \<Rightarrow> bool option" where
  "CASLock_lock flag = (let (old, flag) = test_and_set flag in if old then None else Some flag)"

definition CASLock_unlock :: "bool \<Rightarrow> bool" where
  "CASLock_unlock flag = False"

section \<open>What a scoped lock relies on\<close>

locale exclusive =
  fixes lock :: "'m \<Rightarrow> 'm option" and unlock :: "'m \<Rightarrow> 'm" and held :: "'m \<Rightarrow> bool"
  assumes lock_free: "lock m = Some m' \<Longrightarrow> \<not> held m \<and> held m'"
    and lock_enabled: "\<not> held m \<Longrightarrow> lock m \<noteq> None"
    and unlock_free: "\<not> held (unlock m)"

text \<open>What the threads can do to one mutex: any number of guards come into being, lock, unlock and are
  destroyed, in any order.  The list holds the flags of the guards that are alive.\<close>

inductive guard_step :: "('m \<Rightarrow> 'm option) \<Rightarrow> ('m \<Rightarrow> 'm) \<Rightarrow> bool list \<times> 'm \<Rightarrow> bool list \<times> 'm \<Rightarrow> bool"
  for lock :: "'m \<Rightarrow> 'm option" and unlock :: "'m \<Rightarrow> 'm" where
  g_new: "ScopedLock_new lock m = Some (b, m') \<Longrightarrow> guard_step lock unlock (gs, m) (gs @ [b], m')"
| g_lock: "i < length gs \<Longrightarrow> ScopedLock_lock lock (gs ! i) m = Some (b, m') \<Longrightarrow> guard_step lock unlock (gs, m) (gs[i := b], m')"
| g_unlock: "i < length gs \<Longrightarrow> ScopedLock_unlock unlock (gs ! i) m = (b, m') \<Longrightarrow> guard_step lock unlock (gs, m) (gs[i := b], m')"
| g_delete: "i < length gs \<Longrightarrow> ScopedLock_delete unlock (gs ! i) m = m' \<Longrightarrow>
    guard_step lock unlock (gs, m) (take i gs @ drop (Suc i) gs, m')"

inductive_cases guard_stepE: "guard_step lock unlock s s'"

text \<open>The number of guards that hold the lock.\<close>

definition holders :: "bool list \<Rightarrow> nat" where
  "holders gs = length (filter (\<lambda>b. b) gs)"

lemma holders_append [simp]: "holders (xs @ ys) = holders xs + holders ys"
  by (simp add: holders_def)

lemma holders_single [simp]: "holders [b] = of_bool b" "holders [] = 0"
  by (simp_all add: holders_def)

lemma holders_Cons [simp]: "holders (b # bs) = of_bool b + holders bs"
  by (simp add: holders_def)

lemma holders_split: "i < length gs \<Longrightarrow> holders gs = holders (take i gs) + of_bool (gs ! i) + holders (drop (Suc i) gs)"
  using id_take_nth_drop [of i gs] by (metis add.assoc holders_Cons holders_append)

lemma holders_update: "i < length gs \<Longrightarrow> holders (gs[i := b]) = holders (take i gs) + of_bool b + holders (drop (Suc i) gs)"
  by (simp add: upd_conv_take_nth_drop)

context exclusive
begin

definition consistent :: "bool list \<times> 'm \<Rightarrow> bool" where
  "consistent s \<longleftrightarrow> holders (fst s) = of_bool (held (snd s))"

lemma step_consistent: "guard_step lock unlock s s' \<Longrightarrow> consistent s \<Longrightarrow> consistent s'"
proof (erule guard_stepE)
  fix m b m' gs
  assume "s = (gs, m)" "s' = (gs @ [b], m')" "ScopedLock_new lock m = Some (b, m')" "consistent s"
  then show "consistent s'" using lock_free [of m m'] by (auto simp: ScopedLock_new_def consistent_def)
next
  fix i gs m b m'
  assume a: "s = (gs, m)" "s' = (gs[i := b], m')" "i < length gs" "ScopedLock_lock lock (gs ! i) m = Some (b, m')" "consistent s"
  show "consistent s'"
  proof (cases "gs ! i")
    case True
    then show ?thesis using a list_update_id [of gs i] by (auto simp: ScopedLock_lock_def)
  next
    case False
    then have "lock m = Some m'" b using a(4) by (auto simp: ScopedLock_lock_def)
    then show ?thesis using a(1,2,5) lock_free [of m m'] holders_update [OF a(3), of b] holders_split [OF a(3)] False
      by (simp add: consistent_def)
  qed
next
  fix i gs m b m'
  assume a: "s = (gs, m)" "s' = (gs[i := b], m')" "i < length gs" "ScopedLock_unlock unlock (gs ! i) m = (b, m')" "consistent s"
  show "consistent s'"
  proof (cases "gs ! i")
    case True
    then have "m' = unlock m" "\<not> b" using a(4) by (auto simp: ScopedLock_unlock_def)
    then show ?thesis using a(1,2,5) unlock_free [of m] holders_update [OF a(3), of b] holders_split [OF a(3)] True
      by (cases "held m") (simp_all add: consistent_def)
  next
    case False
    then show ?thesis using a list_update_id [of gs i] by (auto simp: ScopedLock_unlock_def)
  qed
next
  fix i gs m
  assume a: "s = (gs, m)" "s' = (take i gs @ drop (Suc i) gs, ScopedLock_delete unlock (gs ! i) m)" "i < length gs" "consistent s"
  show "consistent s'"
  proof (cases "gs ! i")
    case True
    then have "ScopedLock_delete unlock (gs ! i) m = unlock m" by (simp add: ScopedLock_delete_def ScopedLock_unlock_def)
    then show ?thesis using a(1,2,4) unlock_free [of m] holders_split [OF a(3)] True
      by (cases "held m") (simp_all add: consistent_def)
  next
    case False
    then have "ScopedLock_delete unlock (gs ! i) m = m" by (simp add: ScopedLock_delete_def ScopedLock_unlock_def)
    then show ?thesis using a(1,2,4) holders_split [OF a(3)] False by (simp add: consistent_def)
  qed
qed

lemma run_consistent: "(guard_step lock unlock)\<^sup>*\<^sup>* s s' \<Longrightarrow> consistent s \<Longrightarrow> consistent s'"
  by (induction rule: rtranclp_induct) (auto intro: step_consistent)

text \<open>From a free mutex: at most one guard holds it, and as long as none does a new one can be made.\<close>

lemma guards_exclude:
  assumes "(guard_step lock unlock)\<^sup>*\<^sup>* ([], m0) (gs, m)" "\<not> held m0"
  shows "holders gs \<le> 1 \<and> (holders gs = 0 \<longleftrightarrow> \<not> held m) \<and> (holders gs = 0 \<longrightarrow> ScopedLock_new lock m \<noteq> None)"
proof -
  have "consistent (gs, m)" using run_consistent [OF assms(1)] assms(2) by (simp add: consistent_def)
  then show ?thesis using lock_enabled [of m] by (cases "held m") (auto simp: consistent_def ScopedLock_new_def)
qed

end

interpretation cas: exclusive CASLock_lock CASLock_unlock "\<lambda>flag. flag"
  by unfold_locales (auto simp: CASLock_lock_def CASLock_unlock_def test_and_set_def split: if_splits)

text \<open>C28: Scoped locks on the atomic flag exclude each other: however many guards are made, locked, unlocked (also
  twice) and destroyed by any threads in any order, at most one of them holds the lock, the flag is set
  exactly while one does, and when none does the next attempt succeeds.\<close>

theorem cas_guards_exclude:
  assumes "(guard_step CASLock_lock CASLock_unlock)\<^sup>*\<^sup>* ([], CASLock_new) (gs, flag)"
  shows "holders gs \<le> 1 \<and> (flag \<longleftrightarrow> holders gs = 1) \<and> (holders gs = 0 \<longleftrightarrow> ScopedLock_new CASLock_lock flag \<noteq> None)"
  using cas.guards_exclude [OF assms] by (cases flag) (auto simp: CASLock_new_def ScopedLock_new_def CASLock_lock_def test_and_set_def)

lemma cas_guards_exclude_witness: "holders [True] = 1 \<and> ScopedLock_new CASLock_lock True = None"
proof -
  have "guard_step CASLock_lock CASLock_unlock ([], CASLock_new) ([] @ [True], True)"
    by (rule g_new) (simp add: ScopedLock_new_def CASLock_lock_def CASLock_new_def test_and_set_def)
  then have "(guard_step CASLock_lock CASLock_unlock)\<^sup>*\<^sup>* ([], CASLock_new) ([True], True)" by simp
  from cas_guards_exclude [OF this] show ?thesis
    by (cases "ScopedLock_new CASLock_lock True") auto
qed

section \<open>Semaphores\<close>

text \<open>The counter is that of the POSIX semaphore; \<open>sem_wait\<close> blocks at 0 and fails when a signal interrupts
  it, which the wrapper turns into an exception, like any other failure.\<close>

definition Semaphore_new :: "bool \<Rightarrow> nat \<Rightarrow> nat res" where
  "Semaphore_new init_ok count = (if init_ok then Inr count else Inl Logic_Error)"

definition Semaphore_wait :: "bool \<Rightarrow> nat \<Rightarrow> (nat res) option" where
  "Semaphore_wait interrupted sem =
     (if interrupted then Some (Inl Logic_Error) else if sem = 0 then None else Some (Inr (sem - 1)))"

definition Semaphore_notify :: "bool \<Rightarrow> nat \<Rightarrow> nat res" where
  "Semaphore_notify post_ok sem = (if post_ok then Inr (sem + 1) else Inl Logic_Error)"

section \<open>Threads\<close>

record thread =
  th_id :: int
  th_thread :: nat
  th_cb :: "callback option"
  th_name :: string
  th_semaphore :: nat

record threads =
  th_heap :: "nat \<Rightarrow> thread option"
  t_thread :: "int \<Rightarrow> nat option"
  t_thread_name :: "int \<Rightarrow> string"

definition threads_init :: threads where
  "threads_init = \<lparr>th_heap = (\<lambda>_. None), t_thread = (\<lambda>_. None), t_thread_name = (\<lambda>_. ''UNKNOW'')\<rparr>"

definition th_at :: "threads \<Rightarrow> nat \<Rightarrow> thread res" where
  "th_at w p = (case th_heap w p of None \<Rightarrow> Inl Bad_Access | Some t \<Rightarrow> Inr t)"

definition th_put :: "nat \<Rightarrow> thread \<Rightarrow> threads \<Rightarrow> threads" where
  "th_put p t w = w\<lparr>th_heap := (th_heap w)(p \<mapsto> t)\<rparr>"

definition Thread_GetThis :: "int \<Rightarrow> threads \<Rightarrow> nat option" where
  "Thread_GetThis tid w = t_thread w tid"

definition Thread_GetName :: "int \<Rightarrow> threads \<Rightarrow> string" where
  "Thread_GetName tid w = t_thread_name w tid"

definition Thread_SetName :: "int \<Rightarrow> string \<Rightarrow> threads \<Rightarrow> threads res" where
  "Thread_SetName tid name w =
     (if name = [] then Inr w
      else rbind (case t_thread w tid of
                    None \<Rightarrow> Inr w
                  | Some p \<Rightarrow> rbind (th_at w p) (\<lambda>t. Inr (th_put p (t\<lparr>th_name := name\<rparr>) w))) (\<lambda>w.
             Inr (w\<lparr>t_thread_name := (t_thread_name w)(tid := name)\<rparr>)))"

text \<open>The constructor up to its \<open>m_semaphore.wait()\<close>; \<open>handle\<close> is what \<open>pthread_create\<close> stores, \<open>None\<close> when it
  fails.\<close>

definition Thread_new :: "nat option \<Rightarrow> nat \<Rightarrow> callback option \<Rightarrow> string \<Rightarrow> threads \<Rightarrow> threads res" where
  "Thread_new handle p cb name w =
     (case handle of
        None \<Rightarrow> Inl Logic_Error
      | Some n \<Rightarrow> Inr (th_put p \<lparr>th_id = - 1, th_thread = n, th_cb = cb,
          th_name = (if name = [] then ''UNKNOW'' else name), th_semaphore = 0\<rparr> w))"

text \<open>Its end: the wait.\<close>

definition Thread_new_end :: "bool \<Rightarrow> nat \<Rightarrow> threads \<Rightarrow> (threads res) option" where
  "Thread_new_end interrupted p w =
     (case th_heap w p of
        None \<Rightarrow> Some (Inl Bad_Access)
      | Some t \<Rightarrow>
          map_option (\<lambda>r. rbind r (\<lambda>n. Inr (th_put p (t\<lparr>th_semaphore := n\<rparr>) w))) (Semaphore_wait interrupted (th_semaphore t)))"

text \<open>\<open>run\<close> up to the call of the function, which is the result.  The name that the system is given has at
  most 15 characters.\<close>

definition Thread_run :: "int \<Rightarrow> nat \<Rightarrow> threads \<Rightarrow> (string \<times> callback option \<times> threads) res" where
  "Thread_run tid p w =
     rbind (th_at w p) (\<lambda>t.
       let w = w\<lparr>t_thread := (t_thread w)(tid := Some p), t_thread_name := (t_thread_name w)(tid := th_name t)\<rparr>;
           t = t\<lparr>th_id := tid\<rparr>;
           cb = th_cb t;
           t = t\<lparr>th_cb := None\<rparr>
       in rbind (Semaphore_notify True (th_semaphore t)) (\<lambda>n.
            Inr (take 15 (th_name t), cb, th_put p (t\<lparr>th_semaphore := n\<rparr>) w)))"

definition Thread_delete :: "nat \<Rightarrow> threads \<Rightarrow> (bool \<times> threads) res" where
  "Thread_delete p w = rbind (th_at w p) (\<lambda>t. Inr (th_thread t \<noteq> 0, w\<lparr>th_heap := (th_heap w)(p := None)\<rparr>))"

definition Thread_join :: "bool \<Rightarrow> nat \<Rightarrow> threads \<Rightarrow> threads res" where
  "Thread_join join_ok p w =
     rbind (th_at w p) (\<lambda>t.
       if th_thread t \<noteq> 0
       then (if join_ok then Inr (th_put p (t\<lparr>th_thread := 0\<rparr>) w) else Inl Logic_Error)
       else Inr w)"

text \<open>When the constructor returns, the thread runs: whatever other threads did to other objects in between,
  the constructor's wait goes on only after the new thread has its name, its number in the object, and
  its function out of it.\<close>

definition started :: "int \<Rightarrow> nat \<Rightarrow> threads \<Rightarrow> bool" where
  "started tid p w \<longleftrightarrow> (\<exists>t. th_heap w p = Some t \<and> th_id t = tid \<and> th_cb t = None \<and> t_thread w tid = Some p \<and>
     t_thread_name w tid = th_name t)"

lemma run_starts:
  "Thread_run tid p w = Inr (sysname, cb, w') \<Longrightarrow>
   started tid p w' \<and> (\<exists>t. th_heap w p = Some t \<and> cb = th_cb t \<and> sysname = take 15 (th_name t))"
  by (auto simp: Thread_run_def th_at_def Semaphore_notify_def started_def th_put_def Let_def split: option.splits)

lemma constructor_waits:
  assumes "Thread_new (Some n) p cb name w0 = Inr w1" "th_heap w p = th_heap w1 p"
  shows "Thread_new_end False p w = None"
    "\<exists>sysname w2 w3. Thread_run tid p w = Inr (sysname, cb, w2) \<and> Thread_new_end False p w2 = Some (Inr w3) \<and> started tid p w3"
  using assms
  by (auto simp: Thread_new_def Thread_new_end_def Thread_run_def th_at_def th_put_def Semaphore_wait_def Semaphore_notify_def
    started_def Let_def)

section \<open>Where the code breaks\<close>

text \<open>A thread whose object has been destroyed still points to it: naming it is an access to freed memory.\<close>

lemma name_after_delete:
  "Thread_delete p w = Inr (b, w') \<Longrightarrow> t_thread w tid = Some p \<Longrightarrow> name \<noteq> [] \<Longrightarrow> Thread_SetName tid name w' = Inl Bad_Access"
  by (auto simp: Thread_delete_def Thread_SetName_def th_at_def split: option.splits)

text \<open>A signal that interrupts a waiting thread becomes an exception.\<close>

lemma interrupted_wait_throws: "Semaphore_wait True sem = Some (Inl Logic_Error)"
  by (simp add: Semaphore_wait_def)

end
