(* ===== verification/Proc_Util.thy ===== *)
theory Proc_Util
  imports HPGS_Prelude
begin

text \<open>
  The functions of \<open>src/util/util.cc\<close> that query the process and the clock.  The system and C library calls
  are parameters; the broken-down time is a record with the members that the code touches.
\<close>

section \<open>Clock\<close>

text \<open>\<open>tv_sec\<close> and \<open>tv_usec\<close> are \<open>long\<close>, the factors unsigned.\<close>

definition GetCurrentMs :: "int \<Rightarrow> int \<Rightarrow> u64" where
  "GetCurrentMs tv_sec tv_usec = word_of_int tv_sec * 1000 + word_of_int (tv_usec div 1000)"

definition GetCurrentUs :: "int \<Rightarrow> int \<Rightarrow> u64" where
  "GetCurrentUs tv_sec tv_usec = word_of_int (tv_sec * 1000) * 1000 + word_of_int tv_usec"

text \<open>The two clocks agree, until the microseconds wrap around.\<close>

lemma clocks_agree:
  assumes "0 \<le> tv_sec" "0 \<le> tv_usec" "tv_usec < 1000000" "tv_sec * 1000000 + tv_usec < 2 ^ 64"
  shows "GetCurrentMs tv_sec tv_usec = GetCurrentUs tv_sec tv_usec div 1000"
proof -
  have us: "uint (GetCurrentUs tv_sec tv_usec) = tv_sec * 1000000 + tv_usec"
    using assms by (simp add: GetCurrentUs_def uint_word_ariths uint_word_of_int take_bit_eq_mod mod_simps)
  have ms: "uint (GetCurrentMs tv_sec tv_usec) = tv_sec * 1000 + tv_usec div 1000"
    using assms by (simp add: GetCurrentMs_def uint_word_ariths uint_word_of_int take_bit_eq_mod mod_simps)
  have "(tv_sec * 1000000 + tv_usec) div 1000 = tv_sec * 1000 + tv_usec div 1000" by simp
  then show ?thesis by (simp add: us ms word_uint_eq_iff uint_div_distrib)
qed

section \<open>Broken-down time\<close>

record tm =
  tm_sec :: int
  tm_min :: int
  tm_hour :: int
  tm_mday :: int
  tm_mon :: int
  tm_year :: int
  tm_isdst :: int

text \<open>The C library: \<open>strftime\<close> is \<open>None\<close> when the text does not fit, and then the buffer is indeterminate;
  \<open>strptime\<close> fills a structure and is \<open>None\<close> when the text does not match.\<close>

record time_lib =
  localtime :: "int \<Rightarrow> tm"
  mktime :: "tm \<Rightarrow> int"
  strftime :: "nat \<Rightarrow> string \<Rightarrow> tm \<Rightarrow> string option"
  strptime :: "string \<Rightarrow> string \<Rightarrow> tm \<Rightarrow> tm option"

definition Time2Str :: "time_lib \<Rightarrow> int \<Rightarrow> string \<Rightarrow> string res" where
  "Time2Str c ts format =
     (case strftime c 64 format (localtime c ts) of None \<Rightarrow> Inl Undefined | Some s \<Rightarrow> Inr s)"

definition tm_zero :: tm where
  "tm_zero = \<lparr>tm_sec = 0, tm_min = 0, tm_hour = 0, tm_mday = 0, tm_mon = 0, tm_year = 0, tm_isdst = 0\<rparr>"

definition Str2Time :: "time_lib \<Rightarrow> string \<Rightarrow> string \<Rightarrow> int" where
  "Str2Time c str format = (case strptime c str format tm_zero of None \<Rightarrow> 0 | Some t \<Rightarrow> mktime c t)"

text \<open>A time that is printed is read back, when its format writes and reads the whole time and daylight
  saving is not in force.  (\<open>strptime\<close> does not set \<open>tm_isdst\<close>, which is then 0.)\<close>

lemma time_text_roundtrip:
  assumes "strftime c 64 fmt (localtime c ts) = Some s"
    and "strptime c s fmt tm_zero = Some (localtime c ts\<lparr>tm_isdst := 0\<rparr>)"
    and "mktime c (localtime c ts) = ts" "tm_isdst (localtime c ts) = 0"
  shows "\<exists>s. Time2Str c ts fmt = Inr s \<and> Str2Time c s fmt = ts"
proof -
  have "localtime c ts\<lparr>tm_isdst := 0\<rparr> = localtime c ts" using assms(4) by (cases "localtime c ts") simp
  then have "mktime c (localtime c ts\<lparr>tm_isdst := 0\<rparr>) = ts" using assms(3) by metis
  then show ?thesis using assms(1,2) by (simp add: Time2Str_def Str2Time_def)
qed

section \<open>Call stack\<close>

text \<open>\<open>abi::__cxa_demangle\<close> is a parameter that gives its status and text; \<open>sz\<close> (\<open>size\<close>) and \<open>skip\<close> are \<open>int\<close> and
  compared as \<open>size_t\<close>.  Beside the lines, the result is the number of blocks that stay allocated.\<close>

definition demangle :: "(string \<Rightarrow> int \<times> string) \<Rightarrow> string \<Rightarrow> string" where
  "demangle cxa_demangle str = (let (status, text_res) = cxa_demangle str in if status = 0 then text_res else str)"

definition BackTrace ::
  "(int \<Rightarrow> nat list) \<Rightarrow> (nat list \<Rightarrow> string list option) \<Rightarrow> (string \<Rightarrow> int \<times> string) \<Rightarrow> string list \<Rightarrow> int \<Rightarrow> int \<Rightarrow>
   string list \<times> nat" where
  "BackTrace backtrace backtrace_symbols cxa_demangle bt sz skip =
     (let array = backtrace sz;
          s = length array
      in case backtrace_symbols array of
           None \<Rightarrow> (bt, 1)
         | Some strings \<Rightarrow> (bt @ map (\<lambda>i. demangle cxa_demangle (strings ! i)) [nat (skip mod 2 ^ 64)..<s], 0))"

definition BacktraceToString ::
  "(int \<Rightarrow> nat list) \<Rightarrow> (nat list \<Rightarrow> string list option) \<Rightarrow> (string \<Rightarrow> int \<times> string) \<Rightarrow> int \<Rightarrow> int \<Rightarrow> string \<Rightarrow>
   string \<times> nat" where
  "BacktraceToString backtrace backtrace_symbols cxa_demangle sz skip prefix =
     (let (bt, live) = BackTrace backtrace backtrace_symbols cxa_demangle [] sz skip
      in (concat (map (\<lambda>l. prefix @ l @ [CHR 0x0A]) bt), live))"

text \<open>The lines are those of the frames above the skipped ones.\<close>

lemma BackTrace_lines:
  assumes "backtrace_symbols (backtrace sz) = Some strings" "length strings = length (backtrace sz)" "0 \<le> skip" "skip < 2 ^ 31"
  shows "BackTrace backtrace backtrace_symbols cxa bt sz skip = (bt @ map (demangle cxa) (drop (nat skip) strings), 0)"
proof -
  have "map (\<lambda>i. demangle cxa (strings ! i)) [nat skip..<length strings] = map (demangle cxa) (drop (nat skip) strings)"
    by (simp add: list_eq_iff_nth_eq)
  moreover have "skip mod 2 ^ 64 = skip" using assms(3,4) by simp
  ultimately show ?thesis using assms(1,2) by (simp add: BackTrace_def)
qed

text \<open>When the symbols cannot be had, the array of addresses is never freed.\<close>

lemma BackTrace_leaks: "backtrace_symbols (backtrace sz) = None \<Longrightarrow> BackTrace backtrace backtrace_symbols cxa bt sz skip = (bt, 1)"
  by (simp add: BackTrace_def Let_def)

section \<open>Host name\<close>

definition until_nul :: "string \<Rightarrow> string" where
  "until_nul buf = takeWhile (\<lambda>c. c \<noteq> CHR 0x00) buf"

text \<open>\<open>gethostname\<close> is the bytes that the call writes into a buffer of the given length.\<close>

definition GetHostName :: "(nat \<Rightarrow> string) \<Rightarrow> string res" where
  "GetHostName gethostname =
     rbind (mem_put (replicate 512 (CHR 0x00)) 0 (gethostname 511)) (\<lambda>host. Inr (until_nul host))"

text \<open>The last byte stays zero, so the text ends inside the buffer even when the name is cut off.\<close>

lemma until_nul_put: "length xs < n \<Longrightarrow> until_nul (list_put (replicate n (CHR 0x00)) 0 xs) = until_nul xs"
proof -
  assume "length xs < n"
  then obtain k where "n - length xs = Suc k" by (metis Suc_diff_Suc)
  moreover have "takeWhile (\<lambda>c. c \<noteq> CHR 0x00) (ys @ CHR 0x00 # zs) = takeWhile (\<lambda>c. c \<noteq> CHR 0x00) ys" for ys zs
    by (induction ys) auto
  ultimately show ?thesis by (simp add: list_put_def until_nul_def)
qed

lemma GetHostName_exact:
  assumes "length (gethostname 511) \<le> 511"
  shows "GetHostName gethostname = Inr (until_nul (gethostname 511))"
proof -
  have l: "length (gethostname 511) < 512" using assms by simp
  have "mem_put (replicate 512 (CHR 0x00)) 0 (gethostname 511) = Inr (list_put (replicate 512 (CHR 0x00)) 0 (gethostname 511))"
    using l unfolding mem_put_def length_replicate by simp
  then show ?thesis unfolding GetHostName_def by (simp only: rbind_Inr until_nul_put [OF l])
qed

section \<open>Text that the C library converts\<close>

text \<open>\<open>atof\<close> and \<open>vasprintf\<close> are parameters: a \<open>double\<close> is its 64 bits, and a failing \<open>vasprintf\<close> is \<open>None\<close>.\<close>

definition Atof :: "(string \<Rightarrow> u64) \<Rightarrow> string \<Rightarrow> u64" where
  "Atof atof str = (if str = [] then 0 else atof (until_nul str))"

definition Atof_ptr :: "(string \<Rightarrow> u64) \<Rightarrow> string option \<Rightarrow> u64" where
  "Atof_ptr atof str = (case str of None \<Rightarrow> 0 | Some s \<Rightarrow> atof s)"

definition Formatv :: "string option \<Rightarrow> string" where
  "Formatv vasprintf = (case vasprintf of None \<Rightarrow> [] | Some buf \<Rightarrow> buf)"

definition Format :: "string option \<Rightarrow> string" where
  "Format vasprintf = Formatv vasprintf"

section \<open>Wide strings\<close>

text \<open>\<open>wl_env_locale\<close> is what \<open>setlocale(LC_ALL, "")\<close> returns, the locale that it has just set; the conversions depend on the
  locale in force and are \<open>None\<close> when they return -1.  The result of a conversion comes with the locale of the process
  afterwards; \<open>loc\<close> is the one before.\<close>

record wide_lib =
  wl_env_locale :: "string option"
  wcstombs :: "string \<Rightarrow> u32 list \<Rightarrow> string option"
  mbstowcs :: "string \<Rightarrow> string \<Rightarrow> u32 list option"

definition wide_until_nul :: "u32 list \<Rightarrow> u32 list" where
  "wide_until_nul buf = takeWhile (\<lambda>c. c \<noteq> 0) buf"

text \<open>A conversion that fails makes the size -1 + 1, and the text is read from an array without elements.\<close>

definition WStringToString :: "wide_lib \<Rightarrow> u32 list \<Rightarrow> string \<Rightarrow> (string \<times> string) res" where
  "WStringToString wl ws loc =
     (case wl_env_locale wl of
        None \<Rightarrow> Inl Logic_Error
      | Some str_locale \<Rightarrow>
          (case wcstombs wl str_locale (wide_until_nul ws) of
             None \<Rightarrow> Inl Bad_Access
           | Some s \<Rightarrow>
               let n_dest_size = length s + 1
               in rbind (mem_put (replicate n_dest_size (CHR 0x00)) 0 s) (\<lambda>ch_dest.
                    Inr (until_nul ch_dest, str_locale))))"

definition StringToWString :: "wide_lib \<Rightarrow> string \<Rightarrow> string \<Rightarrow> (u32 list \<times> string) res" where
  "StringToWString wl s loc =
     (case wl_env_locale wl of
        None \<Rightarrow> Inl Logic_Error
      | Some str_locale \<Rightarrow>
          (case mbstowcs wl str_locale (until_nul s) of
             None \<Rightarrow> Inl Bad_Access
           | Some ws \<Rightarrow>
               let n_dest_size = length ws + 1
               in rbind (mem_put (replicate n_dest_size 0) 0 ws) (\<lambda>wch_dest.
                    Inr (wide_until_nul wch_dest, str_locale))))"

lemma wide_until_nul_put: "length xs < n \<Longrightarrow> wide_until_nul (list_put (replicate n 0) 0 xs) = wide_until_nul xs"
proof -
  assume "length xs < n"
  then obtain k where "n - length xs = Suc k" by (metis Suc_diff_Suc)
  moreover have "takeWhile (\<lambda>c. c \<noteq> 0) (ys @ 0 # zs) = takeWhile (\<lambda>c. c \<noteq> 0) ys" for ys zs :: "u32 list"
    by (induction ys) auto
  ultimately show ?thesis by (simp add: list_put_def wide_until_nul_def)
qed

lemma until_nul_idem [simp]: "until_nul (until_nul s) = until_nul s" "wide_until_nul (wide_until_nul ws) = wide_until_nul ws"
  by (simp_all add: until_nul_def wide_until_nul_def takeWhile_idem)

text \<open>The narrow form is converted back to the text up to its first NUL, when the library converts it in both directions.\<close>

lemma wide_roundtrip:
  assumes "wl_env_locale wl = Some l" "wcstombs wl l (wide_until_nul ws) = Some s" "until_nul s = s"
    and "mbstowcs wl l s = Some (wide_until_nul ws)"
  shows "WStringToString wl ws loc = Inr (s, l) \<and> StringToWString wl s loc' = Inr (wide_until_nul ws, l)"
  using assms by (simp add: WStringToString_def StringToWString_def mem_put_def until_nul_put wide_until_nul_put del: replicate_Suc)

text \<open>The locale that is set at the end is the one that the first call has set: that of the process is lost.  A character that
  the locale cannot express is read out of bounds.\<close>

lemma locale_lost:
  "WStringToString wl ws loc = Inr (s, loc') \<Longrightarrow> wl_env_locale wl = Some loc'"
  "StringToWString wl s loc = Inr (ws, loc') \<Longrightarrow> wl_env_locale wl = Some loc'"
  by (auto simp: WStringToString_def StringToWString_def rbind_eq_Inr Let_def split: option.splits)

lemma failed_conversion_out_of_bounds:
  "wl_env_locale wl = Some l \<Longrightarrow> wcstombs wl l (wide_until_nul ws) = None \<Longrightarrow> WStringToString wl ws loc = Inl Bad_Access"
  by (simp add: WStringToString_def)

end
