(* ===== verification/MySQL.thy ===== *)
theory MySQL
  imports Proc_Util Util_Algo
begin

text \<open>
  The MySQL client (\<open>src/db/mysql.cc\<close>, \<open>include/db/HPmysql.h\<close>): one connection object over the C client
  library, and the conversion of times.  The library is a record of functions of its state \<open>'w\<close>; a
  connection handle is a number.  A \<open>std::shared_ptr\<close> with one owner is an optional handle that is closed
  when it is replaced.  Statements, transactions and results are declared only; what
  the templates and the forwarding members need of them are parameters.
\<close>

section \<open>Times\<close>

record mysql_time =
  mt_year :: u32
  mt_month :: u32
  mt_day :: u32
  mt_hour :: u32
  mt_minute :: u32
  mt_second :: u32

text \<open>The members of \<open>MYSQL_TIME\<close> are \<open>unsigned\<close>, those of \<open>tm\<close> are \<open>int\<close>.  Of the broken-down time of
  the epoch only \<open>tm_isdst\<close> survives.\<close>

definition mysql_time_to_time_t :: "time_lib \<Rightarrow> mysql_time \<Rightarrow> bool \<times> int" where
  "mysql_time_to_time_t c mt =
     (let tm = localtime c 0;
          tm = tm\<lparr>tm_year := sint (mt_year mt - 1900), tm_mon := sint (mt_month mt - 1), tm_mday := sint (mt_day mt),
                 tm_hour := sint (mt_hour mt), tm_min := sint (mt_minute mt), tm_sec := sint (mt_second mt)\<rparr>;
          ts = mktime c tm
      in (True, if ts < 0 then 0 else ts))"

definition time_t_to_mysql_time :: "time_lib \<Rightarrow> int \<Rightarrow> bool \<times> mysql_time" where
  "time_t_to_mysql_time c ts =
     (let tm = localtime c ts
      in (True, \<lparr>mt_year = word_of_int (tm_year tm + 1900), mt_month = word_of_int (tm_mon tm + 1),
                 mt_day = word_of_int (tm_mday tm), mt_hour = word_of_int (tm_hour tm),
                 mt_minute = word_of_int (tm_min tm), mt_second = word_of_int (tm_sec tm)\<rparr>))"

section \<open>The connection\<close>

datatype my_option = MYSQL_OPT_CONNECT_TIMEOUT int | MYSQL_OPT_RECONNECT bool | MYSQL_SET_CHARSET_NAME string

text \<open>\<open>my_connect\<close> is \<open>mysql_real_connect\<close> on a handle with host, user, password, database and port.\<close>

record 'w mysql_lib =
  my_thread_init :: "'w \<Rightarrow> 'w"
  my_init :: "'w \<Rightarrow> nat option \<times> 'w"
  my_options :: "nat \<Rightarrow> my_option \<Rightarrow> 'w \<Rightarrow> 'w"
  my_connect :: "nat \<Rightarrow> string \<Rightarrow> string \<Rightarrow> string \<Rightarrow> string \<Rightarrow> int \<Rightarrow> 'w \<Rightarrow> bool \<times> 'w"
  my_close :: "nat \<Rightarrow> 'w \<Rightarrow> 'w"
  my_ping :: "nat \<Rightarrow> 'w \<Rightarrow> int \<times> 'w"
  my_query :: "nat \<Rightarrow> string \<Rightarrow> 'w \<Rightarrow> int \<times> 'w"
  my_insert_id :: "nat \<Rightarrow> 'w \<Rightarrow> u64"

text \<open>\<open>my_threads\<close> are the threads whose \<open>s_thread_initer\<close> has been made.\<close>

record 'w my_world =
  my_threads :: "int set"
  my_lib :: 'w

record mysql =
  m_params :: "string \<Rightarrow> string option"
  m_mysql :: "nat option"
  m_cmd :: string
  m_dbname :: string
  m_lastUsedTime :: u64
  m_hasError :: bool
  m_poolSize :: int

text \<open>\<open>as_int\<close> is \<open>boost::lexical_cast<int>\<close>; to a string the cast is the identity.\<close>

definition MySQLThreadIniter_new :: "'w mysql_lib \<Rightarrow> int \<Rightarrow> 'w my_world \<Rightarrow> 'w my_world" where
  "MySQLThreadIniter_new lib tid w =
     (if tid \<in> my_threads w then w
      else w\<lparr>my_threads := insert tid (my_threads w), my_lib := my_thread_init lib (my_lib w)\<rparr>)"

definition mysql_init ::
  "'w mysql_lib \<Rightarrow> (string \<Rightarrow> int option) \<Rightarrow> int \<Rightarrow> (string \<Rightarrow> string option) \<Rightarrow> int \<Rightarrow> 'w my_world \<Rightarrow> nat option \<times> 'w my_world" where
  "mysql_init lib as_int tid params timeout w =
     (let w = MySQLThreadIniter_new lib tid w;
          (r, l) = my_init lib (my_lib w)
      in case r of
           None \<Rightarrow> (None, w\<lparr>my_lib := l\<rparr>)
         | Some mysql \<Rightarrow>
             let l = (if timeout > 0 then my_options lib mysql (MYSQL_OPT_CONNECT_TIMEOUT timeout) l else l);
                 l = my_options lib mysql (MYSQL_OPT_RECONNECT False) l;
                 l = my_options lib mysql (MYSQL_SET_CHARSET_NAME ''utf8mb4'') l;
                 port = GetParamValue as_int params ''port'' 0;
                 host = GetParamValue Some params ''host'' [];
                 user = GetParamValue Some params ''user'' [];
                 passwd = GetParamValue Some params ''passwd'' [];
                 dbname = GetParamValue Some params ''dbname'' [];
                 (ok, l) = my_connect lib mysql host user passwd dbname port l
             in if \<not> ok then (None, w\<lparr>my_lib := my_close lib mysql l\<rparr>) else (Some mysql, w\<lparr>my_lib := l\<rparr>))"

definition MySQL_new :: "(string \<Rightarrow> string option) \<Rightarrow> mysql" where
  "MySQL_new args =
     \<lparr>m_params = args, m_mysql = None, m_cmd = [], m_dbname = [], m_lastUsedTime = 0, m_hasError = False, m_poolSize = 10\<rparr>"

text \<open>\<open>reset_mysql\<close> is \<open>m_mysql.reset(m, mysql_close)\<close>, \<open>MySQL_delete\<close> the implicit destructor.\<close>

definition close_opt :: "'w mysql_lib \<Rightarrow> nat option \<Rightarrow> 'w my_world \<Rightarrow> 'w my_world" where
  "close_opt lib p w = (case p of None \<Rightarrow> w | Some h \<Rightarrow> w\<lparr>my_lib := my_close lib h (my_lib w)\<rparr>)"

definition reset_mysql :: "'w mysql_lib \<Rightarrow> nat \<Rightarrow> mysql \<Rightarrow> 'w my_world \<Rightarrow> mysql \<times> 'w my_world" where
  "reset_mysql lib m s w = (s\<lparr>m_mysql := Some m\<rparr>, close_opt lib (m_mysql s) w)"

definition MySQL_delete :: "'w mysql_lib \<Rightarrow> mysql \<Rightarrow> 'w my_world \<Rightarrow> 'w my_world" where
  "MySQL_delete lib s w = close_opt lib (m_mysql s) w"

definition connect_db :: "'w mysql_lib \<Rightarrow> (string \<Rightarrow> int option) \<Rightarrow> int \<Rightarrow> mysql \<Rightarrow> 'w my_world \<Rightarrow> bool \<times> mysql \<times> 'w my_world" where
  "connect_db lib as_int tid s w =
     (if m_mysql s \<noteq> None \<and> \<not> m_hasError s then (True, s, w)
      else
        let (m, w) = mysql_init lib as_int tid (m_params s) 0 w
        in case m of
             None \<Rightarrow> (False, s\<lparr>m_hasError := True\<rparr>, w)
           | Some m \<Rightarrow>
               let s = s\<lparr>m_hasError := False\<rparr>;
                   s = s\<lparr>m_poolSize := GetParamValue as_int (m_params s) ''pool'' 5\<rparr>;
                   (s, w) = reset_mysql lib m s w
               in (True, s, w))"

text \<open>The difference of the times is computed in \<open>uint64_t\<close>.\<close>

definition isNeedCheck :: "int \<Rightarrow> mysql \<Rightarrow> bool" where
  "isNeedCheck now s = (if (word_of_int now :: u64) - m_lastUsedTime s < 5 \<and> \<not> m_hasError s then False else True)"

definition ping_db :: "'w mysql_lib \<Rightarrow> mysql \<Rightarrow> 'w my_world \<Rightarrow> bool \<times> mysql \<times> 'w my_world" where
  "ping_db lib s w =
     (case m_mysql s of
        None \<Rightarrow> (False, s, w)
      | Some h \<Rightarrow>
          let (rt, l) = my_ping lib h (my_lib w); w = w\<lparr>my_lib := l\<rparr>
          in if rt \<noteq> 0 then (False, s\<lparr>m_hasError := True\<rparr>, w) else (True, s\<lparr>m_hasError := False\<rparr>, w))"

text \<open>A call of the library with a null handle is a null dereference.\<close>

definition execute_db :: "'w mysql_lib \<Rightarrow> string option \<Rightarrow> mysql \<Rightarrow> 'w my_world \<Rightarrow> (int \<times> mysql \<times> 'w my_world) res" where
  "execute_db lib vasprintf s w =
     (let s = s\<lparr>m_cmd := Formatv vasprintf\<rparr>
      in case m_mysql s of
           None \<Rightarrow> Inl Null_Deref
         | Some h \<Rightarrow>
             let (r, l) = my_query lib h (m_cmd s) (my_lib w)
             in Inr (r, s\<lparr>m_hasError := (r \<noteq> 0)\<rparr>, w\<lparr>my_lib := l\<rparr>))"

definition getLastInsertId :: "'w mysql_lib \<Rightarrow> mysql \<Rightarrow> 'w my_world \<Rightarrow> int res" where
  "getLastInsertId lib s w = (case m_mysql s of None \<Rightarrow> Inl Null_Deref | Some h \<Rightarrow> Inr (sint (my_insert_id lib h (my_lib w))))"

section \<open>Prepared statements\<close>

text \<open>The templates that bind the arguments of a statement.  What is declared without an implementation is a parameter: \<open>create\<close>
  and \<open>transaction\<close> (\<open>MySQLStmt::Create\<close>, \<open>MySQLTransaction::Create\<close>, null when they fail), \<open>bind\<close>, \<open>exec\<close> and \<open>query\<close> of a
  statement.\<close>

fun MySQLBinder :: "(nat \<Rightarrow> 'v \<Rightarrow> 's \<Rightarrow> int \<times> 's) \<Rightarrow> nat \<Rightarrow> 'v list \<Rightarrow> 's \<Rightarrow> int \<times> 's" where
  "MySQLBinder bind n [] s = (0, s)"
| "MySQLBinder bind n (v # tail) s =
     (let (rt, s) = bind n v s in if rt \<noteq> 0 then (rt, s) else MySQLBinder bind (n + 1) tail s)"

definition bindX :: "(nat \<Rightarrow> 'v \<Rightarrow> 's \<Rightarrow> int \<times> 's) \<Rightarrow> 'v list \<Rightarrow> 's \<Rightarrow> int \<times> 's" where
  "bindX bind args s = MySQLBinder bind 1 args s"

definition prepare :: "(string \<Rightarrow> 's \<Rightarrow> nat option \<times> 's) \<Rightarrow> string \<Rightarrow> 's \<Rightarrow> nat option \<times> 's" where
  "prepare create sql s = create sql s"

definition openTransaction :: "(bool \<Rightarrow> 's \<Rightarrow> nat option \<times> 's) \<Rightarrow> bool \<Rightarrow> 's \<Rightarrow> nat option \<times> 's" where
  "openTransaction transaction auto_commit s = transaction auto_commit s"

definition execStmt ::
  "(string \<Rightarrow> 's \<Rightarrow> nat option \<times> 's) \<Rightarrow> (nat \<Rightarrow> nat \<Rightarrow> 'v \<Rightarrow> 's \<Rightarrow> int \<times> 's) \<Rightarrow> (nat \<Rightarrow> 's \<Rightarrow> int \<times> 's) \<Rightarrow>
   string \<Rightarrow> 'v list \<Rightarrow> 's \<Rightarrow> int \<times> 's" where
  "execStmt create bind exec stmt args s =
     (let (st, s) = create stmt s
      in case st of None \<Rightarrow> (- 1, s)
         | Some st \<Rightarrow> let (rt, s) = bindX (bind st) args s in if rt \<noteq> 0 then (rt, s) else exec st s)"

definition queryStmt ::
  "(string \<Rightarrow> 's \<Rightarrow> nat option \<times> 's) \<Rightarrow> (nat \<Rightarrow> nat \<Rightarrow> 'v \<Rightarrow> 's \<Rightarrow> int \<times> 's) \<Rightarrow> (nat \<Rightarrow> 's \<Rightarrow> 'r option \<times> 's) \<Rightarrow>
   string \<Rightarrow> 'v list \<Rightarrow> 's \<Rightarrow> 'r option \<times> 's" where
  "queryStmt create bind query stmt args s =
     (let (st, s) = create stmt s
      in case st of None \<Rightarrow> (None, s)
         | Some st \<Rightarrow> let (rt, s) = bindX (bind st) args s in if rt \<noteq> 0 then (None, s) else query st s)"

end
