(* ===== verification/MySQL_Props.thy ===== *)
theory MySQL_Props
  imports MySQL
begin

text \<open>
  What a connection object guarantees: it owns at most one open handle of the client library, whatever
  is done with it and however the library fails, and gives it back when it is destroyed.  The section on times
  says when they survive the conversion to the library's structure and back.
\<close>

section \<open>The client library\<close>

text \<open>The documented behaviour of the library, on the set of handles that are open: \<open>mysql_init\<close> gives a new
  one, \<open>mysql_close\<close> takes it away, and nothing else opens or closes any.\<close>

definition client_ok :: "'w mysql_lib \<Rightarrow> ('w \<Rightarrow> nat set) \<Rightarrow> bool" where
  "client_ok lib opened \<longleftrightarrow>
     (\<forall>w. opened (my_thread_init lib w) = opened w) \<and>
     (\<forall>w. case my_init lib w of (None, w') \<Rightarrow> opened w' = opened w
        | (Some h, w') \<Rightarrow> h \<notin> opened w \<and> opened w' = insert h (opened w)) \<and>
     (\<forall>w h x. opened (my_options lib h x w) = opened w) \<and>
     (\<forall>w h host user passwd db port. opened (snd (my_connect lib h host user passwd db port w)) = opened w) \<and>
     (\<forall>w h. opened (my_close lib h w) = opened w - {h}) \<and>
     (\<forall>w h. opened (snd (my_ping lib h w)) = opened w) \<and>
     (\<forall>w h q. opened (snd (my_query lib h q w)) = opened w)"

lemma client_okD:
  assumes "client_ok lib opened"
  shows client_thread_init: "opened (my_thread_init lib w) = opened w"
    and client_init_fails: "my_init lib w = (None, w') \<Longrightarrow> opened w' = opened w"
    and client_init_opens: "my_init lib w = (Some h, w') \<Longrightarrow> h \<notin> opened w \<and> opened w' = insert h (opened w)"
    and client_options: "opened (my_options lib h x w) = opened w"
    and client_connect: "my_connect lib h host user passwd db port w = (ok, w') \<Longrightarrow> opened w' = opened w"
    and client_close: "opened (my_close lib h w) = opened w - {h}"
    and client_ping: "my_ping lib h w = (rt, w') \<Longrightarrow> opened w' = opened w"
    and client_query: "my_query lib h q w = (rt, w') \<Longrightarrow> opened w' = opened w"
proof -
  show "opened (my_thread_init lib w) = opened w" using assms by (simp add: client_ok_def)
  have i: "case my_init lib w of (None, w') \<Rightarrow> opened w' = opened w
      | (Some h, w') \<Rightarrow> h \<notin> opened w \<and> opened w' = insert h (opened w)" by (rule assms [unfolded client_ok_def, THEN conjunct2, THEN conjunct1, THEN spec])
  then show "my_init lib w = (None, w') \<Longrightarrow> opened w' = opened w" by simp
  from i show "my_init lib w = (Some h, w') \<Longrightarrow> h \<notin> opened w \<and> opened w' = insert h (opened w)" by simp
  show "opened (my_options lib h x w) = opened w" using assms by (simp add: client_ok_def)
  show "my_connect lib h host user passwd db port w = (ok, w') \<Longrightarrow> opened w' = opened w"
    using assms by (metis client_ok_def snd_conv)
  show "opened (my_close lib h w) = opened w - {h}" using assms by (simp add: client_ok_def)
  show "my_ping lib h w = (rt, w') \<Longrightarrow> opened w' = opened w" using assms by (metis client_ok_def snd_conv)
  show "my_query lib h q w = (rt, w') \<Longrightarrow> opened w' = opened w" using assms by (metis client_ok_def snd_conv)
qed

text \<open>What a client can do with a connection object.\<close>

datatype db_op = Connect | Ping | Execute "string option"

definition db_step :: "'w mysql_lib \<Rightarrow> (string \<Rightarrow> int option) \<Rightarrow> int \<Rightarrow> db_op \<Rightarrow> mysql \<times> 'w my_world \<Rightarrow> (mysql \<times> 'w my_world) res" where
  "db_step lib as_int tid x sw =
     (case x of
        Connect \<Rightarrow> Inr (snd (connect_db lib as_int tid (fst sw) (snd sw)))
      | Ping \<Rightarrow> Inr (snd (ping_db lib (fst sw) (snd sw)))
      | Execute q \<Rightarrow> rbind (execute_db lib q (fst sw) (snd sw)) (\<lambda>(r, sw). Inr sw))"

fun db_run :: "'w mysql_lib \<Rightarrow> (string \<Rightarrow> int option) \<Rightarrow> int \<Rightarrow> db_op list \<Rightarrow> mysql \<times> 'w my_world \<Rightarrow> (mysql \<times> 'w my_world) res" where
  "db_run lib as_int tid [] sw = Inr sw"
| "db_run lib as_int tid (x # xs) sw = rbind (db_step lib as_int tid x sw) (db_run lib as_int tid xs)"

definition handle_set :: "mysql \<Rightarrow> nat set" where
  "handle_set s = set_option (m_mysql s)"

lemma handle_set_simps [simp]:
  "handle_set (s\<lparr>m_mysql := Some h\<rparr>) = {h}" "handle_set (s\<lparr>m_hasError := b\<rparr>) = handle_set s"
  "handle_set (s\<lparr>m_cmd := c\<rparr>) = handle_set s" "handle_set (s\<lparr>m_poolSize := n\<rparr>) = handle_set s"
  "handle_set (MySQL_new args) = {}"
  by (simp_all add: handle_set_def MySQL_new_def)

section \<open>Ownership\<close>

text \<open>The handles that are open beside those of \<open>rest\<close> are the object's own.\<close>

definition owns :: "('w \<Rightarrow> nat set) \<Rightarrow> nat set \<Rightarrow> mysql \<Rightarrow> 'w my_world \<Rightarrow> bool" where
  "owns opened rest s w \<longleftrightarrow> opened (my_lib w) = rest \<union> handle_set s \<and> rest \<inter> handle_set s = {}"

lemma owns_None: "m_mysql s = None \<Longrightarrow> owns opened rest s w \<longleftrightarrow> opened (my_lib w) = rest"
  by (simp add: owns_def handle_set_def)

lemma owns_Some: "m_mysql s = Some h \<Longrightarrow> owns opened rest s w \<longleftrightarrow> opened (my_lib w) = insert h rest \<and> h \<notin> rest"
  by (auto simp: owns_def handle_set_def)

lemma owns_cong: "m_mysql s' = m_mysql s \<Longrightarrow> opened (my_lib w') = opened (my_lib w) \<Longrightarrow> owns opened rest s' w' = owns opened rest s w"
  by (simp add: owns_def handle_set_def)

lemma thread_initer_opened:
  "client_ok lib opened \<Longrightarrow> opened (my_lib (MySQLThreadIniter_new lib tid w)) = opened (my_lib w)"
  by (simp add: MySQLThreadIniter_new_def client_thread_init)

lemma mysql_init_opened:
  assumes ok: "client_ok lib opened" and r: "mysql_init lib as_int tid params timeout w = (r, w')"
  shows "case r of None \<Rightarrow> opened (my_lib w') = opened (my_lib w)
    | Some h \<Rightarrow> h \<notin> opened (my_lib w) \<and> opened (my_lib w') = insert h (opened (my_lib w))"
proof -
  define w0 where "w0 = MySQLThreadIniter_new lib tid w"
  have o0: "opened (my_lib w0) = opened (my_lib w)" by (simp add: w0_def thread_initer_opened [OF ok])
  obtain p l where p: "my_init lib (my_lib w0) = (p, l)" by fastforce
  show ?thesis
  proof (cases p)
    case None
    then have "r = None" "my_lib w' = l" using r p by (auto simp: mysql_init_def w0_def [symmetric] Let_def)
    then show ?thesis using client_init_fails [OF ok p [unfolded None]] o0 by simp
  next
    case (Some h)
    note o = client_init_opens [OF ok p [unfolded Some], unfolded o0]
    define l1 where "l1 = my_options lib h (MYSQL_SET_CHARSET_NAME ''utf8mb4'') (my_options lib h (MYSQL_OPT_RECONNECT False)
      (if timeout > 0 then my_options lib h (MYSQL_OPT_CONNECT_TIMEOUT timeout) l else l))"
    obtain b l2 where c: "my_connect lib h (GetParamValue Some params ''host'' []) (GetParamValue Some params ''user'' [])
      (GetParamValue Some params ''passwd'' []) (GetParamValue Some params ''dbname'' [])
      (GetParamValue as_int params ''port'' 0) l1 = (b, l2)" by fastforce
    have "opened l1 = opened l" by (simp add: l1_def client_options [OF ok])
    then have l2: "opened l2 = insert h (opened (my_lib w))" using client_connect [OF ok c] o by simp
    have "(r, w') = (if \<not> b then (None, w0\<lparr>my_lib := my_close lib h l2\<rparr>) else (Some h, w0\<lparr>my_lib := l2\<rparr>))"
      using r p Some c by (simp add: mysql_init_def Let_def l1_def w0_def [symmetric])
    then show ?thesis using o l2 client_close [OF ok, of h l2] by (cases b) auto
  qed
qed

lemma connect_owns:
  assumes ok: "client_ok lib opened" and inv: "owns opened rest s w" and r: "connect_db lib as_int tid s w = (b, s', w')"
  shows "owns opened rest s' w'"
proof (cases "m_mysql s \<noteq> None \<and> \<not> m_hasError s")
  case True
  then show ?thesis using r inv by (simp add: connect_db_def)
next
  case False
  obtain p w1 where i: "mysql_init lib as_int tid (m_params s) 0 w = (p, w1)" by fastforce
  note o = mysql_init_opened [OF ok i]
  show ?thesis
  proof (cases p)
    case None
    then have "m_mysql s' = m_mysql s" "w' = w1" using False i r by (auto simp: connect_db_def)
    then show ?thesis using o None inv owns_cong [of s' s opened w1 w rest] by simp
  next
    case (Some h)
    then have s': "m_mysql s' = Some h" "w' = close_opt lib (m_mysql s) w1"
      using False i r by (auto simp: connect_db_def reset_mysql_def Let_def)
    have h: "h \<notin> opened (my_lib w)" "opened (my_lib w1) = insert h (opened (my_lib w))" using o Some by auto
    show ?thesis
    proof (cases "m_mysql s")
      case None
      then show ?thesis using inv h s' by (simp add: owns_None owns_Some close_opt_def)
    next
      case (Some g)
      then show ?thesis using inv h s' client_close [OF ok, of g "my_lib w1"] by (auto simp: owns_Some close_opt_def)
    qed
  qed
qed

lemma ping_owns:
  assumes "client_ok lib opened" "owns opened rest s w" "ping_db lib s w = (b, s', w')"
  shows "owns opened rest s' w'"
proof (cases "m_mysql s")
  case (Some h)
  obtain rt l where p: "my_ping lib h (my_lib w) = (rt, l)" by fastforce
  then have "m_mysql s' = m_mysql s" "my_lib w' = l" using assms(3) Some by (auto simp: ping_db_def Let_def split: if_splits)
  then show ?thesis using assms(2) client_ping [OF assms(1) p] owns_cong [of s' s opened w' w rest] by simp
qed (use assms in \<open>simp add: ping_db_def\<close>)

lemma execute_owns:
  assumes "client_ok lib opened" "owns opened rest s w" "execute_db lib q s w = Inr (r, s', w')"
  shows "owns opened rest s' w'"
proof (cases "m_mysql s")
  case (Some h)
  obtain rt l where p: "my_query lib h (Formatv q) (my_lib w) = (rt, l)" by fastforce
  then have "m_mysql s' = m_mysql s" "my_lib w' = l" using assms(3) Some by (auto simp: execute_db_def)
  then show ?thesis using assms(2) client_query [OF assms(1) p] owns_cong [of s' s opened w' w rest] by simp
qed (use assms in \<open>simp add: execute_db_def\<close>)

lemma db_step_owns:
  assumes "client_ok lib opened" "owns opened rest s w" "db_step lib as_int tid x (s, w) = Inr (s', w')"
  shows "owns opened rest s' w'"
proof (cases x)
  case Connect
  obtain b where "connect_db lib as_int tid s w = (b, s', w')"
    using assms(3) Connect by (cases "connect_db lib as_int tid s w") (auto simp: db_step_def)
  then show ?thesis by (rule connect_owns [OF assms(1,2)])
next
  case Ping
  obtain b where "ping_db lib s w = (b, s', w')" using assms(3) Ping by (cases "ping_db lib s w") (auto simp: db_step_def)
  then show ?thesis by (rule ping_owns [OF assms(1,2)])
next
  case (Execute q)
  then obtain r where "execute_db lib q s w = Inr (r, s', w')" using assms(3) by (auto simp: db_step_def rbind_eq_Inr)
  then show ?thesis by (rule execute_owns [OF assms(1,2)])
qed

lemma db_run_owns:
  "client_ok lib opened \<Longrightarrow> owns opened rest s w \<Longrightarrow> db_run lib as_int tid xs (s, w) = Inr (s', w') \<Longrightarrow> owns opened rest s' w'"
proof (induction xs arbitrary: s w)
  case (Cons x xs)
  then obtain s1 w1 where "db_step lib as_int tid x (s, w) = Inr (s1, w1)" "db_run lib as_int tid xs (s1, w1) = Inr (s', w')"
    by (auto simp: rbind_eq_Inr)
  then show ?case using Cons.IH [OF Cons.prems(1)] db_step_owns [OF Cons.prems(1,2)] by blast
qed simp

text \<open>C16: Whatever is done with a connection object, and wherever the client library fails, the object owns at most
  one open handle, all handles opened for it and not kept have been closed, and its destructor closes
  the last one.\<close>

theorem no_handle_leaked:
  assumes "client_ok lib opened" "db_run lib as_int tid xs (MySQL_new args, w) = Inr (s, w')"
  shows "opened (my_lib w') = opened (my_lib w) \<union> set_option (m_mysql s) \<and>
    opened (my_lib w) \<inter> set_option (m_mysql s) = {} \<and> opened (my_lib (MySQL_delete lib s w')) = opened (my_lib w)"
proof -
  have "owns opened (opened (my_lib w)) (MySQL_new args) w" by (simp add: owns_def)
  from db_run_owns [OF assms(1) this assms(2)] have o: "owns opened (opened (my_lib w)) s w'" .
  have "opened (my_lib (MySQL_delete lib s w')) = opened (my_lib w)"
    using o client_close [OF assms(1)] by (cases "m_mysql s") (auto simp: owns_None owns_Some MySQL_delete_def close_opt_def)
  then show ?thesis using o by (simp add: owns_def handle_set_def)
qed

text \<open>A server on one host, whose answer to every second query is an error: the state is the list of the open handles
  and whether the next query succeeds.\<close>

definition toy_client :: "(nat list \<times> bool) mysql_lib" where
  "toy_client = \<lparr>my_thread_init = (\<lambda>w. w), my_init = (\<lambda>w. (Some (Suc (sum_list (fst w))), (Suc (sum_list (fst w)) # fst w, snd w))),
     my_options = (\<lambda>h x w. w), my_connect = (\<lambda>h host user passwd db port w. (host = ''db'', w)),
     my_close = (\<lambda>h w. (filter (\<lambda>x. x \<noteq> h) (fst w), snd w)), my_ping = (\<lambda>h w. (0, w)),
     my_query = (\<lambda>h q w. (if snd w then 0 else 1, (fst w, \<not> snd w))), my_insert_id = (\<lambda>h w. 0)\<rparr>"

lemma toy_client_ok: "client_ok toy_client (set \<circ> fst)"
proof -
  have "Suc (sum_list hs) \<notin> set hs" for hs :: "nat list" using member_le_sum_list [of "Suc (sum_list hs)" hs] by auto
  then show ?thesis by (auto simp: client_ok_def toy_client_def)
qed

lemma no_handle_leaked_witness:
  "\<exists>s w'. db_run toy_client (\<lambda>_. None) 1 [Connect, Execute (Some ''q''), Execute (Some ''q''), Connect]
      (MySQL_new [''host'' \<mapsto> ''db''], \<lparr>my_threads = {}, my_lib = ([7], True)\<rparr>) = Inr (s, w') \<and>
    m_mysql s = Some 16 \<and> set (fst (my_lib w')) = {7, 16} \<and> set (fst (my_lib (MySQL_delete toy_client s w'))) = {7}"
proof -
  let ?r = "db_run toy_client (\<lambda>_. None) 1 [Connect, Execute (Some ''q''), Execute (Some ''q''), Connect]
      (MySQL_new [''host'' \<mapsto> ''db''], \<lparr>my_threads = {}, my_lib = ([7], True)\<rparr>)"
  obtain s w' where r: "?r = Inr (s, w')" "m_mysql s = Some 16"
    by (simp add: db_step_def connect_db_def mysql_init_def MySQLThreadIniter_new_def MySQL_new_def toy_client_def
        GetParamValue_def execute_db_def Formatv_def reset_mysql_def close_opt_def Let_def)
  from no_handle_leaked [OF toy_client_ok r(1)] r show ?thesis by auto
qed

section \<open>Times\<close>

definition u32_range :: "int \<Rightarrow> bool" where
  "u32_range x \<longleftrightarrow> - (2 ^ 31) \<le> x \<and> x < 2 ^ 31"

lemma sint_word_of_int: "u32_range x \<Longrightarrow> sint (word_of_int x :: u32) = x"
  by (simp add: u32_range_def sint_sbintrunc' signed_take_bit_int_eq_self_iff)

text \<open>What both conversions do to a time: it is read back as the one that has its members and the
  \<open>tm_isdst\<close> of the epoch.\<close>

lemma mysql_time_exact:
  assumes "u32_range (tm_year (localtime c ts))" "u32_range (tm_mon (localtime c ts))" "u32_range (tm_mday (localtime c ts))"
    "u32_range (tm_hour (localtime c ts))" "u32_range (tm_min (localtime c ts))" "u32_range (tm_sec (localtime c ts))"
  shows "mysql_time_to_time_t c (snd (time_t_to_mysql_time c ts)) =
    (True, max 0 (mktime c (localtime c ts\<lparr>tm_isdst := tm_isdst (localtime c 0)\<rparr>)))"
proof -
  have "word_of_int (y + 1900) - 1900 = (word_of_int y :: u32)" "word_of_int (m + 1) - 1 = (word_of_int m :: u32)" for y m by simp_all
  then have "mysql_time_to_time_t c (snd (time_t_to_mysql_time c ts)) =
      (True, let t = mktime c ((localtime c 0)\<lparr>tm_year := tm_year (localtime c ts), tm_mon := tm_mon (localtime c ts),
        tm_mday := tm_mday (localtime c ts), tm_hour := tm_hour (localtime c ts), tm_min := tm_min (localtime c ts),
        tm_sec := tm_sec (localtime c ts)\<rparr>) in if t < 0 then 0 else t)"
    using assms by (simp add: mysql_time_to_time_t_def time_t_to_mysql_time_def Let_def sint_word_of_int)
  moreover have "(localtime c 0)\<lparr>tm_year := tm_year (localtime c ts), tm_mon := tm_mon (localtime c ts),
        tm_mday := tm_mday (localtime c ts), tm_hour := tm_hour (localtime c ts), tm_min := tm_min (localtime c ts),
        tm_sec := tm_sec (localtime c ts)\<rparr> = localtime c ts\<lparr>tm_isdst := tm_isdst (localtime c 0)\<rparr>"
    by (cases "localtime c 0"; cases "localtime c ts") simp
  ultimately show ?thesis by (auto simp: Let_def max_def)
qed

section \<open>Where the code breaks\<close>

text \<open>A time with daylight saving, in a zone without it at the epoch, comes back wrong by what \<open>mktime\<close> adds
  for the other \<open>tm_isdst\<close>, usually an hour.\<close>

lemma daylight_saving_shifts:
  assumes "u32_range (tm_year (localtime c ts))" "u32_range (tm_mon (localtime c ts))" "u32_range (tm_mday (localtime c ts))"
    "u32_range (tm_hour (localtime c ts))" "u32_range (tm_min (localtime c ts))" "u32_range (tm_sec (localtime c ts))"
    and "tm_isdst (localtime c 0) = 0" "mktime c (localtime c ts\<lparr>tm_isdst := 0\<rparr>) = ts + 3600" "0 \<le> ts"
  shows "mysql_time_to_time_t c (snd (time_t_to_mysql_time c ts)) = (True, ts + 3600)"
  using mysql_time_exact [OF assms(1-6)] assms(7-9) by simp

text \<open>Nothing ever sets \<open>m_lastUsedTime\<close>, so that a check is always needed.\<close>

lemma db_step_used: "db_step lib as_int tid x sw = Inr sw' \<Longrightarrow> m_lastUsedTime (fst sw') = m_lastUsedTime (fst sw)"
  by (cases sw; cases x)
    (auto simp: db_step_def connect_db_def reset_mysql_def ping_db_def execute_db_def rbind_eq_Inr Let_def
      split: option.splits prod.splits if_splits)

lemma db_run_used: "db_run lib as_int tid xs sw = Inr sw' \<Longrightarrow> m_lastUsedTime (fst sw') = m_lastUsedTime (fst sw)"
  by (induction xs arbitrary: sw) (auto simp: rbind_eq_Inr dest: db_step_used)

lemma always_checked:
  assumes "db_run lib as_int tid xs (MySQL_new args, w) = Inr (s, w')" "5 \<le> now" "now < 2 ^ 64"
  shows "isNeedCheck now s"
proof -
  have "m_lastUsedTime s = 0" using db_run_used [OF assms(1)] by (simp add: MySQL_new_def)
  then show ?thesis using assms(2,3) by (simp add: isNeedCheck_def word_less_def uint_word_of_int take_bit_int_eq_self_iff)
qed

text \<open>A query on an object that was never connected hands a null handle to the library.\<close>

lemma query_unconnected: "execute_db lib q (MySQL_new args) w = Inl Null_Deref"
  by (simp add: execute_db_def MySQL_new_def)

section \<open>Prepared statements\<close>

text \<open>The arguments are bound in order, each at its position from 1 on, up to the first that fails, whose error is the result; only
  when all are bound does the statement run.\<close>

lemma binder_exact:
  "MySQLBinder (\<lambda>i v log. (f i v, log @ [(i, v)])) n vs log =
     (case dropWhile (\<lambda>(i, v). f i v = 0) (enumerate n vs) of
        [] \<Rightarrow> (0, log @ enumerate n vs)
      | (i, v) # rest \<Rightarrow> (f i v, log @ takeWhile (\<lambda>(i, v). f i v = 0) (enumerate n vs) @ [(i, v)]))"
proof (induction vs arbitrary: n log)
  case (Cons v vs)
  show ?case
  proof (cases "f n v = 0")
    case True
    then show ?thesis using Cons.IH [of "Suc n" "log @ [(n, v)]"]
      by (cases "dropWhile (\<lambda>(i, v). f i v = 0) (enumerate (Suc n) vs)") (auto simp del: dropWhile_eq_Nil_conv)
  qed simp
qed simp

lemma execStmt_order:
  assumes "\<And>i v. v \<in> set args \<Longrightarrow> f i v = 0"
  shows "execStmt (\<lambda>sql s. (Some 0, s)) (\<lambda>st i v s. (f i v, s @ [(i, v)])) (\<lambda>st s. (rt, s)) sql args [] = (rt, enumerate 1 args)"
proof -
  have "\<forall>(i, v) \<in> set (enumerate n args). f i v = 0" for n
    using assms by (auto simp: in_set_enumerate_eq)
  then have "dropWhile (\<lambda>(i, v). f i v = 0) (enumerate 1 args) = []" by simp
  then show ?thesis by (simp add: execStmt_def bindX_def binder_exact del: dropWhile_eq_Nil_conv)
qed

end
