(* ===== verification/Server_Conf.thy ===== *)
theory Server_Conf
  imports TcpServer Config
begin

text \<open>
  The conversions of a server's configuration to and from YAML text (\<open>include/network/tcp_server.h\<close>).  The
  YAML library is a parameter: loading and emitting as for the configuration system, and for a node the
  lookup of a key (the outer \<open>None\<close> is a bad subscript, the inner one an undefined node), the conversions to a
  string and an integer, and the text that an integer is stored as.
\<close>

section \<open>The conversions\<close>

record yaml_node =
  yn_field :: "yaml \<Rightarrow> string \<Rightarrow> yaml option option"
  yn_string :: "yaml \<Rightarrow> string option"
  yn_int :: "yaml \<Rightarrow> int option"
  yn_of_int :: "int \<Rightarrow> string"

text \<open>\<open>node[key].as<T>(fallback)\<close> and \<open>node[key].as<T>()\<close>; \<open>None\<close> is an exception.\<close>

definition as_default :: "yaml_node \<Rightarrow> (yaml \<Rightarrow> 'a option) \<Rightarrow> yaml \<Rightarrow> string \<Rightarrow> 'a \<Rightarrow> 'a option" where
  "as_default yn conv node fld fallback =
     (case yn_field yn node fld of None \<Rightarrow> None
      | Some None \<Rightarrow> Some fallback
      | Some (Some x) \<Rightarrow> (case conv x of None \<Rightarrow> Some fallback | Some v \<Rightarrow> Some v))"

definition as_required :: "yaml_node \<Rightarrow> (yaml \<Rightarrow> 'a option) \<Rightarrow> yaml \<Rightarrow> string \<Rightarrow> 'a option" where
  "as_required yn conv node fld =
     (case yn_field yn node fld of Some (Some x) \<Rightarrow> conv x | _ \<Rightarrow> None)"

text \<open>The list of addresses.\<close>

definition conf_address :: "yaml_lib \<Rightarrow> yaml_node \<Rightarrow> yaml \<Rightarrow> string list option" where
  "conf_address yl yn node =
     (case yn_field yn node ''address'' of None \<Rightarrow> None
      | Some None \<Rightarrow> Some []
      | Some (Some a) \<Rightarrow> those_map (\<lambda>i. yn_string yn (yaml_index yl a i)) [0..<node_size a])"

definition conf_fields :: "yaml_lib \<Rightarrow> yaml_node \<Rightarrow> yaml \<Rightarrow> tcp_server_conf \<Rightarrow> tcp_server_conf option" where
  "conf_fields yl yn node conf =
     Option.bind (as_default yn (yn_string yn) node ''id'' (tc_id conf)) (\<lambda>v. let conf = conf\<lparr>tc_id := v\<rparr> in
     Option.bind (as_default yn (yn_string yn) node ''type'' (tc_type conf)) (\<lambda>v. let conf = conf\<lparr>tc_type := v\<rparr> in
     Option.bind (as_default yn (yn_int yn) node ''keepalive'' (tc_keepalive conf)) (\<lambda>v. let conf = conf\<lparr>tc_keepalive := v\<rparr> in
     Option.bind (as_default yn (yn_int yn) node ''timeout'' (tc_timeout conf)) (\<lambda>v. let conf = conf\<lparr>tc_timeout := v\<rparr> in
     Option.bind (as_default yn (yn_string yn) node ''name'' (tc_name conf)) (\<lambda>v. let conf = conf\<lparr>tc_name := v\<rparr> in
     Option.bind (as_default yn (yn_int yn) node ''ssl'' (tc_ssl conf)) (\<lambda>v. let conf = conf\<lparr>tc_ssl := v\<rparr> in
     Option.bind (as_default yn (yn_string yn) node ''cert_file'' (tc_cert_file conf)) (\<lambda>v. let conf = conf\<lparr>tc_cert_file := v\<rparr> in
     Option.bind (as_default yn (yn_string yn) node ''key_file'' (tc_key_file conf)) (\<lambda>v. let conf = conf\<lparr>tc_key_file := v\<rparr> in
     Option.bind (as_required yn (yn_string yn) node ''accept_worker'') (\<lambda>v. let conf = conf\<lparr>tc_accept_worker := v\<rparr> in
     Option.bind (as_required yn (yn_string yn) node ''io_worker'') (\<lambda>v. let conf = conf\<lparr>tc_io_worker := v\<rparr> in
     Option.bind (as_required yn (yn_string yn) node ''process_worker'') (\<lambda>v. let conf = conf\<lparr>tc_process_worker := v\<rparr> in
     Option.bind (Option.bind (as_default yn (yn_string yn) node ''args'' []) (cast_to_map yl Some)) (\<lambda>v.
     let conf = conf\<lparr>tc_args := v\<rparr> in
     Option.bind (conf_address yl yn node) (\<lambda>v.
       Some (conf\<lparr>tc_address := tc_address conf @ v\<rparr>))))))))))))))"

definition conf_of_string :: "yaml_lib \<Rightarrow> yaml_node \<Rightarrow> string \<Rightarrow> tcp_server_conf option" where
  "conf_of_string yl yn v = Option.bind (yaml_load yl v) (\<lambda>node. conf_fields yl yn node TcpServerConf_new)"

text \<open>The document that is emitted; \<open>args\<close> is the loaded text of the map of arguments.\<close>

definition conf_node :: "yaml_node \<Rightarrow> yaml \<Rightarrow> tcp_server_conf \<Rightarrow> yaml" where
  "conf_node yn args conf =
     YMap ([(YScalar ''id'', YScalar (tc_id conf)), (YScalar ''type'', YScalar (tc_type conf)),
       (YScalar ''name'', YScalar (tc_name conf)), (YScalar ''keepalive'', YScalar (yn_of_int yn (tc_keepalive conf))),
       (YScalar ''timeout'', YScalar (yn_of_int yn (tc_timeout conf))), (YScalar ''ssl'', YScalar (yn_of_int yn (tc_ssl conf))),
       (YScalar ''cert_file'', YScalar (tc_cert_file conf)), (YScalar ''key_file'', YScalar (tc_key_file conf)),
       (YScalar ''accept_worker'', YScalar (tc_accept_worker conf)), (YScalar ''io_worker'', YScalar (tc_io_worker conf)),
       (YScalar ''process_worker'', YScalar (tc_process_worker conf)), (YScalar ''args'', args)] @
       (if tc_address conf = [] then [] else [(YScalar ''address'', YSeq (map YScalar (tc_address conf)))]))"

definition conf_to_string :: "yaml_lib \<Rightarrow> yaml_node \<Rightarrow> tcp_server_conf \<Rightarrow> string option" where
  "conf_to_string yl yn conf =
     Option.bind (cast_from_map yl Some (tc_args conf)) (\<lambda>s.
     Option.bind (yaml_load yl s) (\<lambda>args. Some (yaml_emit yl (conf_node yn args conf))))"

section \<open>What survives\<close>

text \<open>The documented behaviour of nodes: a key of a map, the elements of a sequence, scalars as strings and
  numbers; the empty document is null.\<close>

definition node_ok :: "yaml_lib \<Rightarrow> yaml_node \<Rightarrow> bool" where
  "node_ok yl yn \<longleftrightarrow>
     (\<forall>es k. yn_field yn (YMap es) k = Some (map_of es (YScalar k))) \<and>
     (\<forall>s. yn_string yn (YScalar s) = Some s) \<and> (\<forall>es. yn_string yn (YMap es) = None) \<and>
     (\<forall>i. yn_int yn (YScalar (yn_of_int yn i)) = Some i) \<and>
     (\<forall>ns i. i < length ns \<longrightarrow> yaml_index yl (YSeq ns) i = ns ! i) \<and>
     yaml_load yl [] = Some YNull"

definition reads_back :: "yaml_lib \<Rightarrow> yaml \<Rightarrow> bool" where
  "reads_back yl n \<longleftrightarrow> yaml_load yl (yaml_emit yl n) = Some n"

lemma node_okD:
  assumes "node_ok yl yn"
  shows node_field: "yn_field yn (YMap es) k = Some (map_of es (YScalar k))"
    and node_string: "yn_string yn (YScalar s) = Some s"
    and node_map_string: "yn_string yn (YMap es) = None"
    and node_int: "yn_int yn (YScalar (yn_of_int yn i)) = Some i"
    and node_index: "j < length ns \<Longrightarrow> yaml_index yl (YSeq ns) j = ns ! j"
    and node_null: "yaml_load yl [] = Some YNull"
  using assms by (simp_all add: node_ok_def)

lemma those_map_total: "(\<And>x. x \<in> set xs \<Longrightarrow> f x = Some (g x)) \<Longrightarrow> those_map f xs = Some (map g xs)"
  by (induction xs) auto

lemma address_back:
  assumes "node_ok yl yn"
  shows "those_map (\<lambda>i. yn_string yn (yaml_index yl (YSeq (map YScalar as)) i)) [0..<length as] = Some as"
proof -
  have "those_map (\<lambda>i. yn_string yn (yaml_index yl (YSeq (map YScalar as)) i)) [0..<length as] = Some (map (\<lambda>i. as ! i) [0..<length as])"
    by (rule those_map_total) (simp add: node_index [OF assms] node_string [OF assms])
  then show ?thesis by (simp add: map_nth)
qed

lemma as_default_field:
  "yn_field yn node fld = Some (Some x) \<Longrightarrow> conv x = Some v \<Longrightarrow> as_default yn conv node fld d = Some v"
  by (simp add: as_default_def)

lemma args_dropped:
  assumes "node_ok yl yn" "yn_field yn node ''args'' = Some (Some (YMap es))"
  shows "Option.bind (as_default yn (yn_string yn) node ''args'' []) (cast_to_map yl Some) = Some []"
  using assms(2) by (simp add: as_default_def node_map_string [OF assms(1)] cast_to_map_def node_null [OF assms(1)])


text \<open>A library for one configuration: it emits the document of the arguments, and that of the configuration, as one
  character each.\<close>

definition demo_conf :: tcp_server_conf where
  "demo_conf = TcpServerConf_new\<lparr>tc_address := [''0.0.0.0:80'', ''/tmp/s''], tc_name := ''web'', tc_args := [(''k'', ''v'')]\<rparr>"

fun unary :: "nat \<Rightarrow> string" where
  "unary 0 = []"
| "unary (Suc n) = CHR ''1'' # unary n"

lemma length_unary [simp]: "length (unary n) = n"
  by (induction n) auto

definition demo_node :: yaml_node where
  "demo_node = \<lparr>yn_field = (\<lambda>n k. case n of YMap es \<Rightarrow> Some (map_of es (YScalar k)) | _ \<Rightarrow> None),
     yn_string = (\<lambda>n. case n of YScalar s \<Rightarrow> Some s | _ \<Rightarrow> None),
     yn_int = (\<lambda>n. case n of YScalar (CHR ''-'' # s) \<Rightarrow> Some (- int (length s)) | YScalar s \<Rightarrow> Some (int (length s)) | _ \<Rightarrow> None),
     yn_of_int = (\<lambda>i. if i < 0 then CHR ''-'' # unary (nat (- i)) else unary (nat i))\<rparr>"

definition demo_yaml :: yaml_lib where
  "demo_yaml = \<lparr>yaml_load = (\<lambda>s. if s = ''d'' then Some (conf_node demo_node (YMap [(YScalar ''k'', YScalar ''v'')]) demo_conf)
       else if s = ''a'' then Some (YMap [(YScalar ''k'', YScalar ''v'')]) else if s = [] then Some YNull else Some (YScalar s)),
     yaml_emit = (\<lambda>n. case n of YMap [e] \<Rightarrow> ''a'' | _ \<Rightarrow> ''d''), yaml_index = (\<lambda>n i. case n of YSeq ns \<Rightarrow> ns ! i | _ \<Rightarrow> YNull)\<rparr>"

lemma demo_node_ok: "node_ok demo_yaml demo_node"
proof -
  have "yn_int demo_node (YScalar (unary n)) = Some (int n)" for n by (cases n) (simp_all add: demo_node_def)
  then have "yn_int demo_node (YScalar (yn_of_int demo_node i)) = Some i" for i by (simp add: demo_node_def)
  then show ?thesis by (simp add: node_ok_def) (simp add: demo_node_def demo_yaml_def)
qed


text \<open>The three workers have no fallback, unlike all other members: a document that leaves one out cannot be
  read at all.\<close>

lemma worker_required:
  assumes "node_ok yl yn" "yaml_load yl v = Some (YMap es)" "map_of es (YScalar ''io_worker'') = None"
  shows "conf_of_string yl yn v = None"
  using assms(2,3)
  by (auto simp: conf_of_string_def conf_fields_def as_required_def node_field [OF assms(1)] Let_def split: bind_splits)

end
