(* ===== verification/Runtime.thy ===== *)
theory Runtime
  imports Scheduler_Props IOManager_Props Timer_Props
begin

text \<open>
  The scheduler, the IO manager and the timers at work together (\<open>src/concurrency/iomanager.cc\<close>): any
  number of threads in \<open>run\<close>, each with its own turn of \<open>IOManager::idle\<close>, which is cut at every point
  where it takes a lock or reads shared state, so that all interleavings of them are covered.
\<close>

section \<open>The idle loop, cut into pieces\<close>

text \<open>Where a thread is in \<open>idle\<close>: at the top of the loop, where \<open>stopping\<close> asks for the next timer; at its
  second test, the pending events; at its third, \<open>Scheduler::stopping\<close>; before \<open>epoll_wait\<close>; behind it, with the
  events that it returned; with the callbacks of the expired timers, not yet scheduled; at the loop over the
  events; before \<open>swapOut\<close>; and out of the loop.\<close>

datatype idle_pc =
    At_Top
  | At_Pending u64
  | At_Sched u64
  | At_Wait u64
  | At_Expire "ready list"
  | At_Schedule "callback option list" "ready list"
  | At_Ready "ready list"
  | At_Out
  | Left

text \<open>The clock readings, the address of the temporary timer and the events of \<open>epoll_wait\<close> are arguments.\<close>

fun idle_piece ::
  "'w epoll \<Rightarrow> u64 \<Rightarrow> u64 \<Rightarrow> nat \<Rightarrow> ready list \<Rightarrow> idle_pc \<Rightarrow> 'w iomanager \<Rightarrow> (idle_pc \<times> 'w iomanager) res" where
  "idle_piece ep now now' q rs At_Top io =
     (let (timeout, tm) = getNextTimer now (io_timers io)
      in Inr (if timeout = - 1 then At_Pending timeout else At_Wait timeout, io\<lparr>io_timers := tm\<rparr>))"
| "idle_piece ep now now' q rs (At_Pending timeout) io =
     Inr (if m_pendingEventCount io = 0 then At_Sched timeout else At_Wait timeout, io)"
| "idle_piece ep now now' q rs (At_Sched timeout) io =
     Inr (if Scheduler.stopping (io_sched io) then Left else At_Wait timeout, io)"
| "idle_piece ep now now' q rs (At_Wait timeout) io = Inr (At_Expire rs, io)"
| "idle_piece ep now now' q rs (At_Expire es) io =
     (let (cbs, tm) = listExpiredCb now' q (io_timers io)
      in Inr (if cbs \<noteq> [] then At_Schedule cbs es else At_Ready es, io\<lparr>io_timers := tm\<rparr>))"
| "idle_piece ep now now' q rs (At_Schedule cbs es) io = Inr (At_Ready es, own_schedule_range cbs io)"
| "idle_piece ep now now' q rs (At_Ready []) io = Inr (At_Out, io)"
| "idle_piece ep now now' q rs (At_Ready (e # es)) io = rbind (handle_ready ep e io) (\<lambda>io. Inr (At_Ready es, io))"
| "idle_piece ep now now' q rs At_Out io = Inr (At_Out, io)"
| "idle_piece ep now now' q rs Left io = Inr (Left, io)"

fun idle_pieces ::
  "nat \<Rightarrow> 'w epoll \<Rightarrow> u64 \<Rightarrow> u64 \<Rightarrow> nat \<Rightarrow> ready list \<Rightarrow> idle_pc \<Rightarrow> 'w iomanager \<Rightarrow> (idle_pc \<times> 'w iomanager) res" where
  "idle_pieces 0 ep now now' q rs pc io = Inr (pc, io)"
| "idle_pieces (Suc n) ep now now' q rs pc io =
     rbind (idle_piece ep now now' q rs pc io) (\<lambda>(pc, io). idle_pieces n ep now now' q rs pc io)"

section \<open>The whole\<close>

text \<open>\<open>rt_sys\<close> holds the threads and fibres, \<open>rt_io\<close> the tables of the IO manager; the scheduler's state is in
  both, and the operations of either side carry it over.\<close>

record 'w runtime =
  rt_sys :: sys
  rt_io :: "'w iomanager"
  rt_idle :: "int \<Rightarrow> idle_pc"

definition put_io :: "'w iomanager \<Rightarrow> 'w runtime \<Rightarrow> 'w runtime" where
  "put_io io r = r\<lparr>rt_io := io, rt_sys := (rt_sys r)\<lparr>sch := io_sched io\<rparr>\<rparr>"

text \<open>The scheduler's \<open>tickle\<close> is virtual: each one writes a byte when a thread is idle.\<close>

definition put_sys :: "sys \<Rightarrow> 'w runtime \<Rightarrow> 'w runtime" where
  "put_sys w r = r\<lparr>rt_sys := w, rt_io := (rt_io r)\<lparr>io_sched := sch w,
     io_pipe := io_pipe (rt_io r) + (if hasIdleThreads (sch w) then tickles (sch w) - tickles (sch (rt_sys r)) else 0)\<rparr>\<rparr>"

definition put_idle :: "int \<Rightarrow> idle_pc \<Rightarrow> 'w runtime \<Rightarrow> 'w runtime" where
  "put_idle tid pc r = r\<lparr>rt_idle := (rt_idle r)(tid := pc)\<rparr>"

text \<open>A step of the scheduler that is not one of an idle fibre, whose code is the subclass's.\<close>

definition idle_kept :: "sys \<Rightarrow> sys \<Rightarrow> bool" where
  "idle_kept w w' \<longleftrightarrow> (\<forall>tid l f. loc w tid = Some l \<longrightarrow> rl_pc l = Inside Idling f \<longrightarrow> loc w' tid = Some l)"

text \<open>What a step brings in, takes out or drops: a step of the scheduler, a waiter, callbacks of timers, a
  waiter that is deleted, nothing.\<close>

datatype rt_label = Task label | Await "nat \<times> task" | Fire "callback option list" | Forget "nat \<times> task" | Inner

definition fired_label :: "idle_pc \<Rightarrow> idle_pc \<Rightarrow> rt_label" where
  "fired_label pc pc' = (case pc of At_Expire es \<Rightarrow> (case pc' of At_Schedule cbs es \<Rightarrow> Fire cbs | _ \<Rightarrow> Inner) | _ \<Rightarrow> Inner)"

text \<open>The idle fibre switches back without writing its state, and starts over when it comes back; or its
  function returns.\<close>

definition idle_leaves :: "idle_pc \<Rightarrow> (leaving \<times> idle_pc) option" where
  "idle_leaves pc = (case pc of At_Out \<Rightarrow> Some (Bare, At_Top) | Left \<Rightarrow> Some (At_End Returned, Left) | _ \<Rightarrow> None)"

fun client_op :: "timer_op \<Rightarrow> bool" where
  "client_op (ListExpired now q) = False"
| "client_op op = True"

definition new_addr :: "idle_pc \<Rightarrow> nat \<Rightarrow> timer_manager \<Rightarrow> bool" where
  "new_addr pc q tm = (case pc of At_Expire es \<Rightarrow> q \<notin> set (m_live tm) | _ \<Rightarrow> True)"

inductive rt_step :: "'w epoll \<Rightarrow> 'w runtime \<Rightarrow> rt_label \<Rightarrow> 'w runtime \<Rightarrow> bool" for ep :: "'w epoll" where
  r_sched: "rt_step ep r (Task a) (put_sys w' r)" if "sched_step (rt_sys r) a w'" "idle_kept (rt_sys r) w'"
| r_add: "rt_step ep r (if rt = 0 then Await (new_waiter s f cb) else Inner) (put_io io' r)"
    if "is_event event" "addEvent ep (Some s) f st fd event cb (rt_io r) = Inr (rt, io')"
| r_del: "rt_step ep r (if b then Forget (waiter (event_ctx event (m_fdContexts (rt_io r) ! nat fd))) else Inner) (put_io io' r)"
    if "is_event event" "delEvent ep fd event (rt_io r) = Inr (b, io')"
| r_cancel: "rt_step ep r Inner (put_io io' r)" if "is_event event" "0 \<le> fd" "cancelEvent ep fd event (rt_io r) = Inr (b, io')"
| r_cancel_all: "rt_step ep r Inner (put_io io' r)" if "0 \<le> fd" "cancelAll ep fd (rt_io r) = Inr (b, io')"
| r_timer: "rt_step ep r Inner (put_io ((rt_io r)\<lparr>io_timers := tm\<rparr>) r)"
    if "client_op op" "legal op (io_timers (rt_io r))" "exec_op op (io_timers (rt_io r)) = Inr (b, tm)"
| r_tickle: "rt_step ep r Inner (put_io io' r)" if "tickle_io True (rt_io r) = Inr io'"
| r_idle: "rt_step ep r (fired_label (rt_idle r tid) pc') (put_idle tid pc' (put_io io' r))"
    if "loc (rt_sys r) tid = Some l" "rl_pc l = Inside Idling f" "idle_leaves (rt_idle r tid) = None"
       "new_addr (rt_idle r tid) q (io_timers (rt_io r))"
       "idle_piece ep now now q rs (rt_idle r tid) (rt_io r) = Inr (pc', io')"
| r_out: "rt_step ep r Inner (put_idle tid pc' (put_sys w' r))"
    if "loc (rt_sys r) tid = Some l" "rl_pc l = Inside Idling f" "idle_leaves (rt_idle r tid) = Some (how, pc')"
       "run_mark how tid p Idling (rt_sys r) = Inr w'"

inductive rt_run :: "'w epoll \<Rightarrow> 'w runtime \<Rightarrow> rt_label list \<Rightarrow> 'w runtime \<Rightarrow> bool" for ep :: "'w epoll" where
  rt_nil: "rt_run ep r [] r"
| rt_snoc: "rt_run ep r (tr @ [a]) r'" if "rt_run ep r tr r''" "rt_step ep r'' a r'"

end
