(* ===== verification/Runtime_Props.thy ===== *)
theory Runtime_Props
  imports Runtime "HOL-Library.Sublist"
begin

text \<open>
  What the scheduler, the IO manager and the timers guarantee together, under every interleaving of the
  threads: nothing that a client has handed in is lost or run twice on its way through the tables, the
  idle loops and the queue; and what it means that an idle loop ends.
\<close>

section \<open>The pieces and the turn\<close>

lemma idle_pieces_add:
  "idle_pieces (m + n) ep now now' q rs pc io =
     rbind (idle_pieces m ep now now' q rs pc io) (\<lambda>(pc, io). idle_pieces n ep now now' q rs pc io)"
proof (induction m arbitrary: pc io)
  case (Suc m)
  then show ?case by (cases "idle_piece ep now now' q rs pc io") auto
qed simp

lemma pieces_ready:
  "handle_all ep es io = Inr io' \<Longrightarrow> idle_pieces (Suc (length es)) ep now now' q rs (At_Ready es) io = Inr (At_Out, io')"
proof (induction es arbitrary: io)
  case (Cons e es)
  then obtain io1 where "handle_ready ep e io = Inr io1" "handle_all ep es io1 = Inr io'" by (auto simp: rbind_eq_Inr)
  then show ?case using Cons.IH [of io1] by simp
qed simp

lemma pieces_wait:
  assumes "listExpiredCb now' q (io_timers io) = (cbs, tm)"
    and "handle_all ep rs (if cbs \<noteq> [] then own_schedule_range cbs (io\<lparr>io_timers := tm\<rparr>) else io\<lparr>io_timers := tm\<rparr>) = Inr io'"
  shows "\<exists>n. idle_pieces n ep now now' q rs (At_Wait timeout) io = Inr (At_Out, io')"
proof -
  let ?n = "if cbs \<noteq> [] then 3 else 2"
  have "idle_pieces ?n ep now now' q rs (At_Wait timeout) io =
      Inr (At_Ready rs, if cbs \<noteq> [] then own_schedule_range cbs (io\<lparr>io_timers := tm\<rparr>) else io\<lparr>io_timers := tm\<rparr>)"
    using assms(1) by (simp add: numeral_eq_Suc)
  then show ?thesis
    using pieces_ready [OF assms(2), of now now' q rs] idle_pieces_add [of ?n "Suc (length rs)" ep now now' q rs "At_Wait timeout" io]
    by (intro exI [of _ "?n + Suc (length rs)"]) (simp only: rbind_Inr prod.case)
qed



section \<open>What the IO manager does to the scheduler\<close>

text \<open>The tables only append to the queue.\<close>

definition sched_frame :: "sched \<Rightarrow> sched \<Rightarrow> bool" where
  "sched_frame s s' \<longleftrightarrow> m_this s' = m_this s \<and> m_activeThreadCount s' = m_activeThreadCount s \<and>
     m_idleThreadCount s' = m_idleThreadCount s \<and> prefix (m_fibres s) (m_fibres s')"

lemma frame_refl [simp]: "sched_frame s s"
  by (simp add: sched_frame_def)

lemma frame_trans: "sched_frame s s' \<Longrightarrow> sched_frame s' s'' \<Longrightarrow> sched_frame s s''"
  by (auto simp: sched_frame_def intro: prefix_order.trans)

lemma frame_tickle [simp]: "sched_frame s (tickle s') = sched_frame s s'"
  by (simp add: sched_frame_def tickle_def)

lemma frame_scheduleNoLock: "sched_frame s (snd (scheduleNoLock t s))"
  by (simp add: sched_frame_def scheduleNoLock_def)

lemma frame_loop: "sched_frame s (snd (schedule_loop cbs b s))"
proof (induction cbs arbitrary: b s)
  case (Cons cb cbs)
  obtain n s1 where n: "scheduleNoLock \<lparr>ft_fibre = None, ft_cb = cb, ft_thread = - 1\<rparr> s = (n, s1)" by fastforce
  then have "sched_frame s s1" using frame_scheduleNoLock [of s "\<lparr>ft_fibre = None, ft_cb = cb, ft_thread = - 1\<rparr>"] by simp
  then show ?case using n Cons.IH [of s1 "n \<or> b"] by (auto intro: frame_trans)
qed simp

lemma frame_range: "sched_frame (io_sched io) (io_sched (own_schedule_range cbs io))"
  using frame_loop [of "io_sched io" cbs False] by (auto simp: own_schedule_range_def split: prod.splits)

lemma frame_add:
  assumes "addEvent ep (Some s) f st fd event cb io = Inr (rt, io')"
  shows "io_sched io' = io_sched io" "io_timers io' = io_timers io" "io_foreign io' = io_foreign io"
proof -
  have at: "io_sched j' = io_sched j \<and> io_timers j' = io_timers j \<and> io_foreign j' = io_foreign j"
    if "addEvent_at ep (Some s) f st fd event cb j = Inr (rt, j')" for j j'
    using that by (auto simp: addEvent_at_def Let_def res_simps put_ctx_def split: if_splits prod.splits)
  show "io_sched io' = io_sched io" "io_timers io' = io_timers io" "io_foreign io' = io_foreign io"
    using assms at by (auto simp: addEvent_def split: if_splits dest!: at)
qed

lemma frame_del:
  assumes "delEvent ep fd event io = Inr (b, io')"
  shows "io_sched io' = io_sched io" "io_timers io' = io_timers io" "io_foreign io' = io_foreign io"
  by (rule with_ctxE [OF assms [unfolded delEvent_def]];
      auto simp: Let_def rbind_eq_Inr put_ctx_def split: if_splits prod.splits)+

lemma deliver_timers [simp]: "io_timers (deliver s t io) = io_timers io" "io_timers (put_ctx i c io) = io_timers io"
  by (simp_all add: deliver_def own_schedule_def put_ctx_def split: prod.split)

text \<open>What firing events leaves alone: the scheduler's counters and the timers; and no task that has been delivered goes away.\<close>

definition io_frame :: "'w iomanager \<Rightarrow> 'w iomanager \<Rightarrow> bool" where
  "io_frame io io' \<longleftrightarrow> sched_frame (io_sched io) (io_sched io') \<and> io_timers io' = io_timers io \<and> delivered io \<subseteq># delivered io'"

lemma io_frame_world [simp]: "io_frame io io" "io_frame (io\<lparr>io_world := w\<rparr>) io' = io_frame io io'" "io_frame io (io'\<lparr>io_world := w\<rparr>) = io_frame io io'"
  "io_frame io (io'\<lparr>io_pipe := n\<rparr>) = io_frame io io'"
  by (simp_all add: io_frame_def delivered_def)

lemma io_frame_trans: "io_frame io io1 \<Longrightarrow> io_frame io1 io2 \<Longrightarrow> io_frame io io2"
  by (auto simp: io_frame_def intro: frame_trans subset_mset.trans)

lemma frame_deliver: "io_frame io (deliver s t io)"
  using frame_scheduleNoLock [of "io_sched io" t]
  by (auto simp: io_frame_def deliver_def own_schedule_def delivered_def scheduleNoLock_def sched_frame_def tickle_def split: prod.splits)

lemma frame_trigger: "trigger_at i event io = Inr io' \<Longrightarrow> io_frame io io'"
  using frame_deliver [of "put_ctx i c io" for c] by (auto simp: trigger_at_def rbind_eq_Inr io_frame_def delivered_def)

lemma frame_trigger_if: "trigger_if b i event io = Inr io' \<Longrightarrow> io_frame io io'"
  by (auto simp: trigger_if_def frame_trigger split: if_splits)

lemma frame_cancel:
  assumes "cancelEvent ep fd event io = Inr (b, io')"
  shows "io_frame io io'"
proof (rule with_ctxE [OF assms [unfolded cancelEvent_def]])
  let ?c = "m_fdContexts io ! nat fd"
  assume k: "(if c_events ?c AND event = 0 then Inr (False, io)
    else let new_events = c_events ?c AND NOT event; op = if new_events \<noteq> 0 then EPOLL_CTL_MOD else EPOLL_CTL_DEL;
      (rt, w) = ep (io_world io) op fd (EPOLLET OR new_events)
      in if rt \<noteq> 0 then Inr (False, io\<lparr>io_world := w\<rparr>)
         else rbind (trigger_at (nat fd) event (io\<lparr>io_world := w\<rparr>)) (\<lambda>io. Inr (True, io))) = Inr (b, io')"
  obtain rt w where ep: "ep (io_world io) (if c_events ?c AND NOT event \<noteq> 0 then EPOLL_CTL_MOD else EPOLL_CTL_DEL) fd
      (EPOLLET OR (c_events ?c AND NOT event)) = (rt, w)" by fastforce
  then have "io' = io \<or> io' = io\<lparr>io_world := w\<rparr> \<or> trigger_at (nat fd) event (io\<lparr>io_world := w\<rparr>) = Inr io'"
    using k by (auto simp: Let_def rbind_eq_Inr split: if_splits)
  then show ?thesis by (auto dest: frame_trigger)
qed simp

lemma frame_both:
  assumes "trigger_if a i READ io = Inr io1" "trigger_if b i WRITE io1 = Inr io'"
  shows "io_frame io io'"
  using io_frame_trans [OF frame_trigger_if [OF assms(1)] frame_trigger_if [OF assms(2)]] .

lemma frame_cancel_all:
  assumes "cancelAll ep fd io = Inr (b, io')"
  shows "io_frame io io'"
proof (rule with_ctxE [OF assms [unfolded cancelAll_def]])
  let ?c = "m_fdContexts io ! nat fd"
  assume k: "(if c_events ?c = 0 then Inr (False, io)
       else let (rt, w) = ep (io_world io) EPOLL_CTL_DEL fd 0
         in if rt \<noteq> 0 then Inr (False, io\<lparr>io_world := w\<rparr>)
            else rbind (trigger_if (c_events ?c AND READ \<noteq> 0) (nat fd) READ (io\<lparr>io_world := w\<rparr>)) (\<lambda>io.
              rbind (trigger_if (c_events (m_fdContexts io ! nat fd) AND WRITE \<noteq> 0) (nat fd) WRITE io) (\<lambda>io.
                cpp_assert (c_events (m_fdContexts io ! nat fd) = 0) (Inr (True, io))))) = Inr (b, io')"
  obtain rt w where "ep (io_world io) EPOLL_CTL_DEL fd 0 = (rt, w)" by fastforce
  then have "io' = io \<or> io' = io\<lparr>io_world := w\<rparr> \<or> (\<exists>a c io1. trigger_if a (nat fd) READ (io\<lparr>io_world := w\<rparr>) = Inr io1 \<and>
      trigger_if c (nat fd) WRITE io1 = Inr io')"
    using k by (auto simp: res_simps split: if_splits)
  then show ?thesis by (auto dest: frame_both)
qed simp

lemma frame_ready:
  assumes "handle_ready ep e io = Inr io'"
  shows "io_frame io io'"
proof (cases e)
  case (Ready i ev)
  let ?c = "m_fdContexts io ! i"
  define re where "re = real_events_of ev (c_events ?c)"
  obtain rt w where ep: "ep (io_world io) (if c_events ?c AND NOT re \<noteq> 0 then EPOLL_CTL_MOD else EPOLL_CTL_DEL) (c_fd ?c)
      (EPOLLET OR (c_events ?c AND NOT re)) = (rt, w)" by fastforce
  then have "io' = io \<or> io' = io\<lparr>io_world := w\<rparr> \<or> (\<exists>a c io1. trigger_if a i READ (io\<lparr>io_world := w\<rparr>) = Inr io1 \<and>
      trigger_if c i WRITE io1 = Inr io')"
    using assms Ready by (auto simp: handle_ready_def Let_def re_def [symmetric] rbind_eq_Inr split: if_splits)
  then show ?thesis by (auto dest: frame_both)
qed (use assms in \<open>auto simp: handle_ready_def\<close>)

text \<open>The steps of the scheduler keep its address.\<close>

lemma schedule_this [simp]: "m_this (schedule t s) = m_this s" "m_this (tickle s) = m_this s"
  by (simp_all add: schedule_def scheduleNoLock_def tickle_def)

lemma enter_this: "enter_fibre j tid f w = Inr w' \<Longrightarrow> m_this (sch w') = m_this (sch w)"
  using enter_fibre_sch by fastforce

lemma dispatch_cb_this: "dispatch_cb tid p l w = Inr w' \<Longrightarrow> m_this (sch w') = m_this (sch w)"
  by (auto simp: dispatch_cb_def rbind_eq_Inr dest!: enter_this)

lemma dispatch_idle_this:
  assumes "dispatch_idle tid l w = Inr w'"
  shows "m_this (sch w') = m_this (sch w)"
proof (cases "rl_active l")
  case False
  then obtain st where "(if st = TERMINATED then Inr (upd_loc tid (\<lambda>l. l\<lparr>rl_pc := Ended\<rparr>) w)
      else enter_fibre Idling tid (rl_idle l)
        (w\<lparr>sch := (sch w)\<lparr>m_idleThreadCount := m_idleThreadCount (sch w) + 1\<rparr>\<rparr>)) = Inr w'"
    using assms by (auto simp: dispatch_idle_def rbind_eq_Inr)
  then show ?thesis by (cases "st = TERMINATED") (auto dest!: enter_this)
qed (use assms in \<open>auto simp: dispatch_idle_def\<close>)

lemma dispatch_this:
  assumes "run_dispatch tid p l w = Inr w'"
  shows "m_this (sch w') = m_this (sch w)"
proof -
  obtain x where "(case x of Some f \<Rightarrow> enter_fibre Queued tid f w
      | None \<Rightarrow> if ft_cb (rl_ft l) \<noteq> None then dispatch_cb tid p l w else dispatch_idle tid l w) = Inr w'"
    using assms by (auto simp: run_dispatch_def rbind_eq_Inr)
  then show ?thesis
    by (cases x; cases "ft_cb (rl_ft l)") (simp_all add: enter_this dispatch_cb_this dispatch_idle_this)
qed

lemma after_this: "run_after tid j f w = Inr w' \<Longrightarrow> m_this (sch w') = m_this (sch w)"
  by (cases j) (auto simp: run_after_def after_fibre_def after_cb_def after_idle_def rbind_eq_Inr Let_def split: if_splits)

lemma pick_this: "run_pick tid w = Inr (r, w') \<Longrightarrow> m_this (sch w') = m_this (sch w)"
  by (auto simp: run_pick_def rbind_eq_Inr Let_def split: option.splits)

lemma sched_step_this: "sched_step w a w' \<Longrightarrow> m_this (sch w') = m_this (sch w)"
  by (induction rule: sched_step.induct)
    (auto simp: run_back_def dest!: run_enter_sch pick_this dispatch_this run_mark_sch run_leave_sch after_this)

section \<open>Accounting\<close>

text \<open>The tasks that callbacks of timers become; empty ones are dropped by the scheduler.\<close>

definition callback_tasks :: "nat \<Rightarrow> callback option list \<Rightarrow> (nat \<times> task) multiset" where
  "callback_tasks own cbs =
     mset (map (\<lambda>cb. (own, \<lparr>ft_fibre = None, ft_cb = cb, ft_thread = - 1\<rparr>)) (filter (\<lambda>cb. cb \<noteq> None) cbs))"

definition own_tasks :: "nat \<Rightarrow> task multiset \<Rightarrow> (nat \<times> task) multiset" where
  "own_tasks own ts = image_mset (Pair own) ts"

definition arrives :: "nat \<Rightarrow> rt_label \<Rightarrow> (nat \<times> task) multiset" where
  "arrives own a = (case a of Task x \<Rightarrow> own_tasks own (submitted [x]) | Await w \<Rightarrow> {#w#} | Fire cbs \<Rightarrow> callback_tasks own cbs | _ \<Rightarrow> {#})"

definition departs :: "nat \<Rightarrow> rt_label \<Rightarrow> (nat \<times> task) multiset" where
  "departs own a = (case a of Task x \<Rightarrow> own_tasks own (started [x]) | Forget w \<Rightarrow> {#w#} | _ \<Rightarrow> {#})"

definition total_of :: "(rt_label \<Rightarrow> (nat \<times> task) multiset) \<Rightarrow> rt_label list \<Rightarrow> (nat \<times> task) multiset" where
  "total_of g tr = sum_list (map g tr)"

lemma total_of_simps [simp]: "total_of g [] = {#}" "total_of g (tr @ [a]) = total_of g tr + g a"
  by (simp_all add: total_of_def)

text \<open>Callbacks that an idle loop has taken out of the timers and not yet scheduled.\<close>

definition in_flight :: "nat \<Rightarrow> idle_pc \<Rightarrow> (nat \<times> task) multiset" where
  "in_flight own pc = (case pc of At_Schedule cbs es \<Rightarrow> callback_tasks own cbs | _ \<Rightarrow> {#})"

definition all_in_flight :: "nat \<Rightarrow> 'w runtime \<Rightarrow> (nat \<times> task) multiset" where
  "all_in_flight own r = (\<Sum>t\<in>dom (loc (rt_sys r)). in_flight own (rt_idle r t))"

definition rt_inv :: "('w \<Rightarrow> int \<Rightarrow> u32 option) \<Rightarrow> int \<Rightarrow> nat \<Rightarrow> 'w runtime \<Rightarrow> bool" where
  "rt_inv interest tick own r \<longleftrightarrow>
     io_sched (rt_io r) = sch (rt_sys r) \<and> m_this (sch (rt_sys r)) = own \<and> sched_inv (rt_sys r) \<and>
     io_inv interest tick (rt_io r) \<and> timers_reachable (io_timers (rt_io r)) \<and>
     (\<forall>t. loc (rt_sys r) t = None \<longrightarrow> rt_idle r t = At_Top)"

text \<open>Everything that is inside.\<close>

definition content_of :: "nat \<Rightarrow> 'w runtime \<Rightarrow> (nat \<times> task) multiset" where
  "content_of own r = acct (rt_io r) + all_in_flight own r"

lemma put_io_simps [simp]:
  "rt_io (put_io io r) = io" "loc (rt_sys (put_io io r)) = loc (rt_sys r)" "sch (rt_sys (put_io io r)) = io_sched io"
  "rt_idle (put_io io r) = rt_idle r" "all_in_flight own (put_io io r) = all_in_flight own r"
  by (simp_all add: put_io_def all_in_flight_def)

lemma put_idle_simps [simp]:
  "rt_io (put_idle tid pc r) = rt_io r" "rt_sys (put_idle tid pc r) = rt_sys r"
  "rt_idle (put_idle tid pc r) = (rt_idle r)(tid := pc)"
  by (simp_all add: put_idle_def)

lemma put_sys_simps [simp]:
  "rt_sys (put_sys w r) = w" "rt_idle (put_sys w r) = rt_idle r" "io_sched (rt_io (put_sys w r)) = sch w"
  "io_timers (rt_io (put_sys w r)) = io_timers (rt_io r)" "io_inv interest tick (rt_io (put_sys w r)) = io_inv interest tick (rt_io r)"
  "io_foreign (rt_io (put_sys w r)) = io_foreign (rt_io r)" "waiters (rt_io (put_sys w r)) = waiters (rt_io r)"
  by (simp_all add: put_sys_def io_inv_def tab_inv_def agree_def waiters_def)

lemma acct_put_sys:
  "m_this (sch w) = own \<Longrightarrow>
   acct (rt_io (put_sys w r)) = waiters (rt_io r) + own_tasks own (mset (m_fibres (sch w))) + mset (io_foreign (rt_io r))"
  by (simp add: acct_def delivered_def own_tasks_def)

lemma sched_inv_frame:
  "sched_inv w \<Longrightarrow> sched_frame (sch w) s \<Longrightarrow> sched_inv (w\<lparr>sch := s\<rparr>)"
  by (auto simp: sched_inv_def sched_frame_def)

lemma in_flight_upd:
  assumes "finite (dom (loc (rt_sys r)))" "loc (rt_sys r) tid = Some l"
  shows "all_in_flight own (put_idle tid pc r) + in_flight own (rt_idle r tid) = all_in_flight own r + in_flight own pc"
proof -
  let ?D = "dom (loc (rt_sys r))"
  have t: "tid \<in> ?D" using assms(2) by blast
  have "(\<Sum>t\<in>?D - {tid}. in_flight own (((rt_idle r)(tid := pc)) t)) = (\<Sum>t\<in>?D - {tid}. in_flight own (rt_idle r t))"
    by (rule sum.cong) auto
  then show ?thesis
    using sum.remove [OF assms(1) t, of "\<lambda>t. in_flight own (rt_idle r t)"]
      sum.remove [OF assms(1) t, of "\<lambda>t. in_flight own (((rt_idle r)(tid := pc)) t)"]
    by (simp add: all_in_flight_def ac_simps)
qed

text \<open>A step on the tables.\<close>

lemma put_io_step:
  assumes inv: "rt_inv interest tick own r" and io: "io_inv interest tick io'" "timers_reachable (io_timers io')"
    and fr: "sched_frame (io_sched (rt_io r)) (io_sched io')" and acc: "acct (rt_io r) + a = acct io' + d"
  shows "rt_inv interest tick own (put_io io' r) \<and> content_of own r + a = content_of own (put_io io' r) + d"
proof -
  have "sched_inv (rt_sys (put_io io' r))"
    using inv fr sched_inv_frame [of "rt_sys r" "io_sched io'"] by (simp add: rt_inv_def put_io_def)
  then have "rt_inv interest tick own (put_io io' r)" using inv io fr by (simp add: rt_inv_def sched_frame_def)
  moreover have "content_of own r + a = (acct (rt_io r) + a) + all_in_flight own r" by (simp add: content_of_def ac_simps)
  then have "content_of own r + a = content_of own (put_io io' r) + d" unfolding acc by (simp add: content_of_def ac_simps)
  ultimately show ?thesis ..
qed

lemma sched_step_dom:
  "sched_step w a w' \<Longrightarrow> dom (loc w) \<subseteq> dom (loc w')"
proof (induction rule: sched_step.induct)
  case (dispatch w tid l p w')
  then show ?case using run_dispatch_dispatched [OF dispatch(1,3)] by (auto simp: dispatched_def)
next
  case (after_requeue w tid l j f w')
  then show ?case using run_after_sch [OF after_requeue(1,5)] by auto
next
  case (after w tid l j f w')
  then show ?case using run_after_sch [OF after(1,4)] by auto
qed (auto simp: run_back_def dest!: run_enter_sch run_pick_sch run_mark_sch run_leave_sch)

lemma in_flight_dom:
  assumes "\<And>t. loc w t = None \<Longrightarrow> idle t = At_Top" "dom (loc w) \<subseteq> dom (loc w')" "finite (dom (loc w'))"
  shows "(\<Sum>t\<in>dom (loc w'). in_flight own (idle t)) = (\<Sum>t\<in>dom (loc w). in_flight own (idle t))"
proof (rule sum.mono_neutral_right [OF assms(3,2)], rule ballI)
  fix t assume "t \<in> dom (loc w') - dom (loc w)"
  then have "idle t = At_Top" using assms(1) by (auto simp: domIff)
  then show "in_flight own (idle t) = {#}" by (simp add: in_flight_def)
qed

lemma own_tasks_add [simp]: "own_tasks own (x + y) = own_tasks own x + own_tasks own y"
  by (simp add: own_tasks_def)

text \<open>A step of the scheduler.\<close>

lemma put_sys_step:
  assumes inv: "rt_inv interest tick own r" and st: "sched_step (rt_sys r) a w'"
  shows "rt_inv interest tick own (put_sys w' r) \<and>
    content_of own r + arrives own (Task a) = content_of own (put_sys w' r) + departs own (Task a)"
proof -
  let ?w = "rt_sys r"
  have ow: "m_this (sch w') = own" using inv sched_step_this [OF st] by (simp add: rt_inv_def)
  have si: "sched_inv w'" using inv sched_step_inv [OF st] by (simp add: rt_inv_def)
  have top: "loc ?w t = None \<Longrightarrow> rt_idle r t = At_Top" for t using inv by (simp add: rt_inv_def)
  have dom: "dom (loc ?w) \<subseteq> dom (loc w')" by (rule sched_step_dom [OF st])
  then have "\<forall>t. loc w' t = None \<longrightarrow> rt_idle r t = At_Top" using top by (metis domIff subset_iff)
  then have 1: "rt_inv interest tick own (put_sys w' r)" using inv ow si by (simp add: rt_inv_def)
  have fl: "all_in_flight own (put_sys w' r) = all_in_flight own r"
    using in_flight_dom [where own = own, OF top dom] si by (simp add: all_in_flight_def sched_inv_def)
  have q: "mset (m_fibres (sch ?w)) + submitted [a] = mset (m_fibres (sch w')) + started [a]"
    using sched_step_queue [OF st] by simp
  have "acct (rt_io r) = waiters (rt_io r) + own_tasks own (mset (m_fibres (sch ?w))) + mset (io_foreign (rt_io r))"
    using inv by (simp add: rt_inv_def acct_def delivered_def own_tasks_def)
  then have "content_of own r + arrives own (Task a) =
      waiters (rt_io r) + own_tasks own (mset (m_fibres (sch ?w)) + submitted [a]) + mset (io_foreign (rt_io r)) + all_in_flight own r"
    by (simp add: content_of_def arrives_def ac_simps)
  also have "\<dots> = content_of own (put_sys w' r) + departs own (Task a)"
    unfolding q content_of_def acct_put_sys [OF ow] fl by (simp add: departs_def ac_simps)
  finally show ?thesis using 1 by simp
qed

text \<open>A piece of the idle loop.\<close>

lemma piece_inv:
  assumes ok: "epoll_ok ep interest" and io: "io_inv interest tick io" "timers_reachable (io_timers io)"
    and q: "new_addr pc q (io_timers io)" and r: "idle_piece ep now now q rs pc io = Inr (pc', io')"
  shows "io_inv interest tick io' \<and> timers_reachable (io_timers io') \<and> sched_frame (io_sched io) (io_sched io') \<and>
    acct io + in_flight (m_this (io_sched io)) pc + arrives (m_this (io_sched io)) (fired_label pc pc') =
    acct io' + in_flight (m_this (io_sched io)) pc'"
proof -
  let ?own = "m_this (io_sched io)"
  have tm: "io_inv interest tick (io\<lparr>io_timers := tm\<rparr>) \<and> acct (io\<lparr>io_timers := tm\<rparr>) = acct io" for tm
    using io(1) by (simp add: io_inv_def tab_inv_def agree_def waiters_def acct_def delivered_def)
  show ?thesis
  proof (cases "(ep, now, now, q, rs, pc, io)" rule: idle_piece.cases)
    case 1
    have "timers_reachable (snd (getNextTimer now (io_timers io)))" using tr_step [OF io(2), of "NextTimer now" False] by simp
    then show ?thesis using 1 r tm by (auto simp: in_flight_def fired_label_def arrives_def split: prod.splits)
  next
    case (5 ep1 now1 now1' q1 rs1 es io1)
    obtain cbs t where c: "listExpiredCb now q (io_timers io) = (cbs, t)" by fastforce
    have "timers_reachable t" using tr_step [OF io(2), of "ListExpired now q" False] q 5 c by (simp add: new_addr_def)
    then show ?thesis using 5 r tm c
      by (auto simp: in_flight_def fired_label_def arrives_def callback_tasks_def split: if_splits)
  next
    case (6 ep1 now1 now1' q1 rs1 cbs es io1)
    have "io_inv interest tick (own_schedule_range cbs io) \<and> io_timers (own_schedule_range cbs io) = io_timers io"
      using io(1) by (simp add: own_schedule_range_def io_inv_def tab_inv_def agree_def waiters_def split: prod.split)
    then show ?thesis using 6 r io frame_range [of io cbs]
      by (auto simp: in_flight_def fired_label_def arrives_def own_schedule_range_acct callback_tasks_def)
  next
    case (8 ep1 now1 now1' q1 rs1 e es io1)
    then have h: "handle_ready ep e io = Inr io'" "pc' = At_Ready es" using r by (auto simp: rbind_eq_Inr)
    from handle_ready_inv [OF ok io(1) h(1)] frame_ready [OF h(1)] io h(2) 8 show ?thesis
      by (simp add: io_frame_def in_flight_def fired_label_def arrives_def)
  qed (use r io in \<open>auto simp: in_flight_def fired_label_def arrives_def\<close>)
qed

lemma acct_pipe [simp]:
  "acct (io\<lparr>io_pipe := n\<rparr>) = acct io" "io_inv interest tick (io\<lparr>io_pipe := n\<rparr>) = io_inv interest tick io"
  "acct (io\<lparr>io_timers := tm\<rparr>) = acct io" "io_inv interest tick (io\<lparr>io_timers := tm\<rparr>) = io_inv interest tick io"
  by (simp_all add: io_inv_def tab_inv_def agree_def waiters_def acct_def delivered_def)

lemma rt_step_inv:
  assumes "rt_step ep r a r'" "epoll_ok ep interest" "rt_inv interest tick own r"
  shows "rt_inv interest tick own r' \<and> content_of own r + arrives own a = content_of own r' + departs own a"
  using assms
proof (induction rule: rt_step.induct)
  case (r_sched r a w')
  then show ?case using put_sys_step by blast
next
  case (r_add event s f st fd cb r rt io')
  have io: "io_inv interest tick (rt_io r)" "timers_reachable (io_timers (rt_io r))" using r_add(4) by (simp_all add: rt_inv_def)
  note fr = frame_add [OF r_add(2)]
  from addEvent_inv [OF r_add(3) io(1) r_add(1,2)]
  show ?case by (intro put_io_step [OF r_add(4)]) (auto simp: fr io(2) arrives_def departs_def)
next
  case (r_del event fd r b io')
  have io: "io_inv interest tick (rt_io r)" "timers_reachable (io_timers (rt_io r))" using r_del(4) by (simp_all add: rt_inv_def)
  note fr = frame_del [OF r_del(2)]
  from delEvent_inv [OF r_del(3) io(1) r_del(1,2)]
  show ?case by (intro put_io_step [OF r_del(4)]) (auto simp: fr io(2) arrives_def departs_def)
next
  case (r_cancel event fd r b io')
  have io: "io_inv interest tick (rt_io r)" "timers_reachable (io_timers (rt_io r))" using r_cancel(5) by (simp_all add: rt_inv_def)
  from cancelEvent_inv [OF r_cancel(4) io(1) r_cancel(1,2)] frame_cancel [OF r_cancel(3)] r_cancel(3)
  show ?case by (intro put_io_step [OF r_cancel(5)]) (auto simp: io_frame_def io(2) arrives_def departs_def)
next
  case (r_cancel_all fd r b io')
  have io: "io_inv interest tick (rt_io r)" "timers_reachable (io_timers (rt_io r))" using r_cancel_all(4) by (simp_all add: rt_inv_def)
  from cancelAll_inv [OF r_cancel_all(3) io(1) r_cancel_all(1)] frame_cancel_all [OF r_cancel_all(2)] r_cancel_all(2)
  show ?case by (intro put_io_step [OF r_cancel_all(4)]) (auto simp: io_frame_def io(2) arrives_def departs_def)
next
  case (r_timer op r b tm)
  have io: "io_inv interest tick (rt_io r)" "timers_reachable (io_timers (rt_io r))" using r_timer(5) by (simp_all add: rt_inv_def)
  from tr_step [OF io(2) r_timer(2,3)] show ?case
    by (intro put_io_step [OF r_timer(5)]) (simp_all add: io(1) arrives_def departs_def)
next
  case (r_tickle r io')
  have io: "io_inv interest tick (rt_io r)" "timers_reachable (io_timers (rt_io r))" using r_tickle(3) by (simp_all add: rt_inv_def)
  have "\<exists>n. io' = (rt_io r)\<lparr>io_pipe := n\<rparr>"
    using r_tickle(1) by (auto simp: tickle_io_def split: if_splits intro: exI [of _ "io_pipe (rt_io r)"])
  then show ?case by (intro put_io_step [OF r_tickle(3)]) (auto simp: io arrives_def departs_def)
next
  case (r_idle r tid l f q now rs pc' io')
  have io: "io_inv interest tick (rt_io r)" "timers_reachable (io_timers (rt_io r))" "m_this (io_sched (rt_io r)) = own"
    using r_idle(7) by (simp_all add: rt_inv_def)
  note p = piece_inv [OF r_idle(6) io(1,2) r_idle(4,5), unfolded io(3)]
  let ?r = "put_io io' r" and ?fl = "in_flight own"
  have s: "rt_inv interest tick own ?r" "content_of own r + (?fl (rt_idle r tid) + arrives own (fired_label (rt_idle r tid) pc')) =
      content_of own ?r + ?fl pc'"
    using put_io_step [OF r_idle(7), of io' "?fl (rt_idle r tid) + arrives own (fired_label (rt_idle r tid) pc')" "?fl pc'"] p
    by (simp_all add: add.assoc)
  have fin: "finite (dom (loc (rt_sys ?r)))" using s(1) by (simp add: rt_inv_def sched_inv_def)
  have u: "all_in_flight own (put_idle tid pc' ?r) + ?fl (rt_idle r tid) = all_in_flight own ?r + ?fl pc'"
    using in_flight_upd [OF fin, of tid l own pc'] r_idle(1) by simp
  have "content_of own r + arrives own (fired_label (rt_idle r tid) pc') = content_of own (put_idle tid pc' ?r)"
  proof -
    have "content_of own (put_idle tid pc' ?r) + ?fl (rt_idle r tid) = content_of own ?r + ?fl pc'"
      unfolding content_of_def using u by (simp add: ac_simps)
    then have "content_of own (put_idle tid pc' ?r) + ?fl (rt_idle r tid) =
        (content_of own r + arrives own (fired_label (rt_idle r tid) pc')) + ?fl (rt_idle r tid)"
      using s(2) by (simp add: ac_simps)
    then show ?thesis by (simp only: add_right_cancel)
  qed
  moreover have "rt_inv interest tick own (put_idle tid pc' ?r)" using s(1) r_idle(1) by (auto simp: rt_inv_def)
  moreover have "departs own (fired_label (rt_idle r tid) pc') = {#}" by (simp add: departs_def fired_label_def split: idle_pc.split)
  ultimately show ?case by simp
next
  case (r_out r tid l f how pc' p w')
  have w: "sch w' = sch (rt_sys r)" "dom (loc w') = dom (loc (rt_sys r))"
    using run_mark_sch [OF r_out(4)] r_out(1) by (auto split: if_splits)
  have si: "sched_inv w'" using mark_inv [OF _ r_out(1,2,4)] r_out(6) by (simp add: rt_inv_def)
  have pc: "in_flight own pc' = {#}" "in_flight own (rt_idle r tid) = {#}"
    using r_out(3) by (auto simp: idle_leaves_def in_flight_def split: idle_pc.splits)
  have fl: "all_in_flight own (put_idle tid pc' (put_sys w' r)) = all_in_flight own r"
    unfolding all_in_flight_def using w(2) pc by (auto intro!: sum.cong)
  have "rt_inv interest tick own (put_idle tid pc' (put_sys w' r))"
    using r_out(6,1) si w by (auto simp: rt_inv_def domIff)
  moreover have "acct (rt_io (put_sys w' r)) = acct (rt_io r)"
    using r_out(6) w(1) by (simp add: acct_def delivered_def rt_inv_def)
  ultimately show ?case using fl by (simp add: content_of_def arrives_def departs_def)
qed

lemma rt_run_inv:
  assumes "rt_run ep r0 tr r" "epoll_ok ep interest" "rt_inv interest tick own r0"
  shows "rt_inv interest tick own r \<and>
    content_of own r0 + total_of (arrives own) tr = content_of own r + total_of (departs own) tr"
  using assms
proof (induction rule: rt_run.induct)
  case (rt_snoc r tr r'' a r')
  then have i: "rt_inv interest tick own r''"
    and e: "content_of own r + total_of (arrives own) tr = content_of own r'' + total_of (departs own) tr" by simp_all
  from rt_step_inv [OF rt_snoc(2,4) i] have i': "rt_inv interest tick own r'"
    and e': "content_of own r'' + arrives own a = content_of own r' + departs own a" by simp_all
  have "content_of own r + total_of (arrives own) (tr @ [a]) = (content_of own r'' + arrives own a) + total_of (departs own) tr"
    using e by (simp add: ac_simps)
  then show ?case using i' e' by (simp add: ac_simps)
qed simp

section \<open>From construction on\<close>

definition Runtime_new :: "sys \<Rightarrow> (nat \<Rightarrow> timer) \<Rightarrow> u64 \<Rightarrow> 'w \<Rightarrow> 'w runtime" where
  "Runtime_new w heap now wld =
     \<lparr>rt_sys = w, rt_io = IOManager_new (sch w) (TimerManager_new heap now) wld, rt_idle = (\<lambda>_. At_Top)\<rparr>"

lemma Runtime_new_inv:
  assumes "interest wld tick \<noteq> None" "\<And>fd. 0 \<le> fd \<Longrightarrow> fd \<noteq> tick \<Longrightarrow> interest wld fd = None" "sched_start w"
  shows "rt_inv interest tick (m_this (sch w)) (Runtime_new w heap now wld) \<and>
    content_of (m_this (sch w)) (Runtime_new w heap now wld) = {#}"
proof -
  let ?io = "IOManager_new (sch w) (TimerManager_new heap now) wld"
  have "io_inv interest tick ?io" using io_inv_new assms(1,2) .
  moreover have "io_sched ?io = sch w" "io_timers ?io = TimerManager_new heap now" by (simp_all add: IOManager_new_def)
  moreover have "waiters ?io = {#}" using waiters_resize [of "[]" 32] by (simp add: waiters_def IOManager_new_def)
  moreover have "delivered ?io = {#}" using assms(3) by (simp add: delivered_def IOManager_new_def sched_start_def)
  ultimately show ?thesis
    using assms(3) sched_start_inv [OF assms(3)] tr_new [of heap now]
    by (simp add: rt_inv_def Runtime_new_def content_of_def acct_def all_in_flight_def) (simp add: sched_start_def)
qed

lemma runtime_facts:
  assumes "epoll_ok ep interest" "interest wld tick \<noteq> None" "\<And>fd. 0 \<le> fd \<Longrightarrow> fd \<noteq> tick \<Longrightarrow> interest wld fd = None"
    and "sched_start w" "rt_run ep (Runtime_new w heap now wld) tr r"
  shows "rt_inv interest tick (m_this (sch w)) r \<and>
    total_of (arrives (m_this (sch w))) tr = waiters (rt_io r) + own_tasks (m_this (sch w)) (mset (m_fibres (sch (rt_sys r)))) +
      mset (io_foreign (rt_io r)) + all_in_flight (m_this (sch w)) r + total_of (departs (m_this (sch w))) tr"
proof -
  let ?own = "m_this (sch w)"
  have n: "rt_inv interest tick ?own (Runtime_new w heap now wld)" "content_of ?own (Runtime_new w heap now wld) = {#}"
    using Runtime_new_inv [of interest wld tick w heap now] assms(2-4) by simp_all
  from rt_run_inv [OF assms(5,1) n(1)] n(2)
  have r: "rt_inv interest tick ?own r" "total_of (arrives ?own) tr = content_of ?own r + total_of (departs ?own) tr" by simp_all
  have "acct (rt_io r) = waiters (rt_io r) + own_tasks ?own (mset (m_fibres (sch (rt_sys r)))) + mset (io_foreign (rt_io r))"
    using r(1) by (simp add: rt_inv_def acct_def delivered_def own_tasks_def)
  then show ?thesis using r by (simp add: content_of_def)
qed


lemma quiet_add_run:
  "\<exists>r. rt_run simple_epoll (Runtime_new quiet (\<lambda>_. Timer_at 0) 0 [9 \<mapsto> EPOLLIN OR EPOLLET]) [Await (new_waiter 3 0 (Some (Function 8)))] r"
proof -
  let ?r = "Runtime_new quiet (\<lambda>_. Timer_at 0) 0 [9 \<mapsto> EPOLLIN OR EPOLLET] :: (int \<Rightarrow> u32 option) runtime"
  have c: "m_fdContexts (rt_io ?r) ! 5 = new_context 5" "length (m_fdContexts (rt_io ?r)) = 32" "io_world (rt_io ?r) 5 = None"
    by (simp_all add: Runtime_new_def IOManager_new_def contextResize_def)
  have "ctx_inv 5 (new_context 5)" by (rule new_context_inv)
  from register_ctx [OF this, of READ "Some (Function 8)" INIT 3 0] c
  obtain io' where "addEvent simple_epoll (Some 3) 0 INIT 5 READ (Some (Function 8)) (rt_io ?r) = Inr (0, io')"
    by (auto simp: addEvent_def addEvent_at_def Let_def is_event_def simple_epoll_def new_context_def NONE_def)
  from rt_snoc [OF rt_nil r_add [OF _ this]] show ?thesis by (auto simp: is_event_def)
qed


text \<open>When the last test of an idle loop lets the thread go, no task is queued and no thread holds one: all
  that was ever handed in has been taken by a thread or dropped, except for what waits in the table, went to another
  scheduler, or is in an idle loop between the timers and the queue.\<close>

theorem idle_exit_is_quiet:
  assumes "epoll_ok ep interest" "interest wld tick \<noteq> None" "\<And>fd. 0 \<le> fd \<Longrightarrow> fd \<noteq> tick \<Longrightarrow> interest wld fd = None"
    and "sched_start w" "rt_run ep (Runtime_new w heap now0 wld) tr r" "card (dom (loc (rt_sys r))) < 2 ^ 64"
    and "idle_piece ep now now q rs (At_Sched timeout) (rt_io r) = Inr (Left, io')"
  shows "m_fibres (sch (rt_sys r)) = [] \<and> threads_at busy (loc (rt_sys r)) = {} \<and>
    total_of (arrives (m_this (sch w))) tr = waiters (rt_io r) + mset (io_foreign (rt_io r)) +
      all_in_flight (m_this (sch w)) r + total_of (departs (m_this (sch w))) tr"
proof -
  note f = runtime_facts [OF assms(1-5)]
  have "Scheduler.stopping (sch (rt_sys r))" using assms(7) f by (auto simp: rt_inv_def split: if_splits)
  then have q: "m_fibres (sch (rt_sys r)) = []" "m_activeThreadCount (sch (rt_sys r)) = 0" by (simp_all add: stopping_def)
  have "threads_at busy (loc (rt_sys r)) = {}" using none_busy [OF _ q(2) assms(6)] f by (simp add: rt_inv_def)
  then show ?thesis using q f by (simp add: own_tasks_def)
qed

lemma idle_exit_is_quiet_witness:
  "\<exists>(r :: (int \<Rightarrow> u32 option) runtime) io'. idle_piece simple_epoll 5 5 1 [] (At_Sched (- 1)) (rt_io r) = Inr (Left, io') \<and>
     m_fibres (sch (rt_sys r)) = [] \<and> threads_at busy (loc (rt_sys r)) = {}"
proof -
  let ?r = "Runtime_new quiet (\<lambda>_. Timer_at 0) 0 [9 \<mapsto> EPOLLIN OR EPOLLET] :: (int \<Rightarrow> u32 option) runtime"
  let ?w = "quiet\<lparr>sch := (sch quiet)\<lparr>m_autoStop := True, m_stopping := True\<rparr>\<rparr>"
  have "sched_step (rt_sys ?r) Silent ?w" using request_stop [of quiet True] by (simp add: Runtime_new_def)
  then have r: "rt_run simple_epoll ?r [Task Silent] (put_sys ?w ?r)"
    using rt_snoc [OF rt_nil r_sched, of ?r Silent ?w simple_epoll] by (simp add: idle_kept_def Runtime_new_def quiet_def)
  have s: "idle_piece simple_epoll 5 5 1 [] (At_Sched (- 1)) (rt_io (put_sys ?w ?r)) = Inr (Left, rt_io (put_sys ?w ?r))"
    by (simp add: stopping_def quiet_def)
  have "card (dom (loc (rt_sys (put_sys ?w ?r)))) < 2 ^ 64" by (simp add: quiet_def)
  then have "m_fibres (sch (rt_sys (put_sys ?w ?r))) = [] \<and> threads_at busy (loc (rt_sys (put_sys ?w ?r))) = {}"
    using idle_exit_is_quiet [OF simple_epoll_ok _ _ quiet_start r _ s, of 9] by auto
  with s show ?thesis by blast
qed

section \<open>Where the code breaks\<close>

text \<open>\<open>stopping\<close> reads the timers, the pending events and the scheduler one after the other, and a fibre that
  yields to be scheduled again is neither active nor queued between two steps of \<open>run\<close>.  Thread 11 is in its idle loop and
  sees no timer; the fibre in thread 10 then adds one and yields; thread 11 sees no event, no queued task and no active
  thread, and leaves, with a timer armed and a fibre that is ready to run.\<close>

definition draining_sys :: sys where
  "draining_sys = quiet\<lparr>sch := (sch quiet)\<lparr>m_activeThreadCount := 1, m_idleThreadCount := 1, m_stopping := True, m_autoStop := True\<rparr>,
   fbs := \<lparr>
     fb_heap = [0 \<mapsto> \<lparr>f_id = 0, f_stacksize = 0, f_state = EXEC, f_ctx = Suspended, f_stack = False, f_cb = None\<rparr>,
       1 \<mapsto> \<lparr>f_id = 0, f_stacksize = 0, f_state = EXEC, f_ctx = Suspended, f_stack = False, f_cb = None\<rparr>,
       2 \<mapsto> \<lparr>f_id = 1, f_stacksize = 0, f_state = EXEC, f_ctx = Running, f_stack = True, f_cb = Some (Function 7)\<rparr>,
       6 \<mapsto> \<lparr>f_id = 2, f_stacksize = 0, f_state = EXEC, f_ctx = Running, f_stack = True, f_cb = Some (Function 1)\<rparr>],
     s_fibre_id = 2, s_fibre_count = 4, t_fibre = [10 \<mapsto> 2, 11 \<mapsto> 6], t_threadFibre = [10 \<mapsto> 0, 11 \<mapsto> 1],
     t_scheduler_fibre = [10 \<mapsto> 0, 11 \<mapsto> 1]\<rparr>,
   loc := [10 \<mapsto> \<lparr>rl_pc = Inside Queued 2, rl_ft = ft_reset, rl_active = True, rl_cb = None, rl_idle = 5\<rparr>,
           11 \<mapsto> \<lparr>rl_pc = Inside Idling 6, rl_ft = ft_reset, rl_active = False, rl_cb = None, rl_idle = 6\<rparr>]\<rparr>"

definition draining :: "(int \<Rightarrow> u32 option) runtime" where
  "draining = Runtime_new draining_sys (\<lambda>_. Timer_at 0) 0 [9 \<mapsto> EPOLLIN OR EPOLLET]"

lemma draining_inv: "rt_inv (\<lambda>w. w) 9 0 draining"
proof -
  have "threads_at busy (loc draining_sys) = {10}" "threads_at in_idle (loc draining_sys) = {11}"
    by (auto simp: threads_at_def draining_sys_def split: option.splits if_splits)
  then have "sched_inv draining_sys"
    by (auto simp: sched_inv_def counted_def) (auto simp: draining_sys_def quiet_def split: if_splits)
  moreover have "io_inv (\<lambda>w. w) 9 (IOManager_new (sch draining_sys) (TimerManager_new (\<lambda>_. Timer_at 0) 0) [9 \<mapsto> EPOLLIN OR EPOLLET])"
    by (rule io_inv_new) auto
  ultimately show ?thesis
    by (simp add: rt_inv_def draining_def Runtime_new_def tr_new) (simp add: IOManager_new_def tr_new draining_sys_def quiet_def)
qed

lemma idle_stepI:
  "loc (rt_sys r) tid = Some l \<Longrightarrow> rl_pc l = Inside Idling f \<Longrightarrow> idle_leaves (rt_idle r tid) = None \<Longrightarrow>
   new_addr (rt_idle r tid) q (io_timers (rt_io r)) \<Longrightarrow> idle_piece ep now now q rs (rt_idle r tid) (rt_io r) = Inr (pc', io') \<Longrightarrow>
   rt_run ep r0 tr r \<Longrightarrow> rt_run ep r0 (tr @ [fired_label (rt_idle r tid) pc']) (put_idle tid pc' (put_io io' r))"
  by (rule rt_snoc, assumption, rule r_idle)

lemma leaves_with_armed_timer:
  "\<exists>tr r. rt_run simple_epoll draining tr r \<and> rt_idle r 11 = Left \<and> m_timers (io_timers (rt_io r)) \<noteq> [] \<and>
     map_option rl_pc (loc (rt_sys r) 10) = Some (After Queued 2) \<and> getState 2 (fbs (rt_sys r)) = Inr READY"
proof -
  let ?ep = "simple_epoll"
  let ?l = "\<lparr>rl_pc = Inside Idling 6, rl_ft = ft_reset, rl_active = False, rl_cb = None, rl_idle = 6\<rparr>"
  let ?m = "\<lparr>rl_pc = Inside Queued 2, rl_ft = ft_reset, rl_active = True, rl_cb = None, rl_idle = 5\<rparr>"
  have l0: "loc draining_sys 11 = Some ?l" "loc draining_sys 10 = Some ?m" by (simp_all add: draining_sys_def)
  have io0: "m_timers (io_timers (rt_io draining)) = []" "m_pendingEventCount (rt_io draining) = 0" "m_live (io_timers (rt_io draining)) = []"
    "rt_sys draining = draining_sys" "io_sched (rt_io draining) = sch draining_sys" "rt_idle draining 11 = At_Top"
    by (simp_all add: draining_def Runtime_new_def IOManager_new_def TimerManager_new_def)
  define r1 where "r1 = put_idle 11 (At_Pending (- 1)) (put_io ((rt_io draining)\<lparr>io_timers := (io_timers (rt_io draining))\<lparr>m_tickled := False\<rparr>\<rparr>) draining)"
  have 1: "rt_run ?ep draining [Inner] r1"
    using idle_stepI [of draining 11 ?l 6 0 ?ep 0 "[]" "At_Pending (- 1)", OF _ _ _ _ _ rt_nil] io0 l0
    by (simp add: idle_leaves_def new_addr_def getNextTimer_def fired_label_def r1_def)
  obtain b tm where tm: "exec_op (AddTimer 0 1 1000 None False) (io_timers (rt_io r1)) = Inr (b, tm)" "m_timers tm \<noteq> []"
    using io0 by (simp add: r1_def addTimer_def insertTimer_def Let_def)
  define r2 where "r2 = put_io ((rt_io r1)\<lparr>io_timers := tm\<rparr>) r1"
  have 2: "rt_run ?ep draining [Inner, Inner] r2"
    using rt_snoc [OF 1 r_timer [OF _ _ tm(1)]] io0 by (simp add: r2_def r1_def)
  have s2: "rt_sys r2 = draining_sys" using io0 by (simp add: r2_def r1_def put_io_def put_idle_def)
  obtain w3 where w3: "run_mark To_Ready 10 9 Queued draining_sys = Inr w3" "sch w3 = sch draining_sys"
    "loc w3 = (loc draining_sys)(10 \<mapsto> ?m\<lparr>rl_pc := Leaving Queued 2 Suspended\<rparr>)"
    "fbs w3 = fib_upd 2 (\<lambda>b. b\<lparr>f_state := READY\<rparr>) (fbs draining_sys)"
    by (simp add: run_mark_def fibre_mark_def yield_mark_def GetThis_def getState_def setState_def fib_at_def draining_sys_def)
  define r3 where "r3 = put_sys w3 r2"
  have kept: "idle_kept w w'" if "loc w' = (loc w)(10 := x)" "loc w 10 = Some m" "\<And>f. rl_pc m \<noteq> Inside Idling f" for w w' x m
    using that unfolding idle_kept_def by (metis fun_upd_other option.inject)
  have "sched_step (rt_sys r2) Silent w3" unfolding s2 by (rule mark [OF l0(2) _ _ w3(1)]) simp_all
  from rt_snoc [OF 2 r_sched [OF this]] have 3: "rt_run ?ep draining [Inner, Inner, Task Silent] r3"
    using kept [OF w3(3) l0(2)] by (simp add: r3_def s2)
  have sw: "\<exists>fs. swapOut Suspended 10 2 (fbs w3) = Inr (Suspended, fs) \<and> fb_heap fs 2 = map_option (\<lambda>b. b\<lparr>f_ctx := Suspended\<rparr>) (fb_heap (fbs w3) 2)"
    using swapOut_ok [of "fbs w3" 2 _ 10 0] by (auto simp: w3(4) draining_sys_def)
  then obtain w4 where w4: "run_leave 10 Queued 2 Suspended w3 = Inr w4" "sch w4 = sch draining_sys"
    "loc w4 = (loc w3)(10 \<mapsto> ?m\<lparr>rl_pc := Back Queued 2\<rparr>)" "getState 2 (fbs w4) = Inr READY"
    by (auto simp: run_leave_def w3 getState_def fib_at_def) (simp add: draining_sys_def)
  define r4 where "r4 = put_sys w4 r3"
  have "sched_step (rt_sys r3) Silent w4"
    by (rule leaves [where tid = 10 and l = "?m\<lparr>rl_pc := Leaving Queued 2 Suspended\<rparr>" and j = Queued and f = 2 and k = Suspended])
      (simp_all add: r3_def w3(3) w4(1))
  from rt_snoc [OF 3 r_sched [OF this]] have 4: "rt_run ?ep draining [Inner, Inner, Task Silent, Task Silent] r4"
    using kept [OF w4(3), of "?m\<lparr>rl_pc := Leaving Queued 2 Suspended\<rparr>"] w3(3) by (simp add: r4_def r3_def)
  define r5 where "r5 = put_sys (run_back 10 Queued 2 w4) r4"
  have "sched_step (rt_sys r4) Silent (run_back 10 Queued 2 w4)"
    unfolding r4_def put_sys_simps by (rule came_back [where l = "?m\<lparr>rl_pc := Back Queued 2\<rparr>"]) (simp_all add: w4(3))
  from rt_snoc [OF 4 r_sched [OF this]] have 5: "rt_run ?ep draining [Inner, Inner, Task Silent, Task Silent, Task Silent] r5"
    using kept [of "run_back 10 Queued 2 w4" w4 "Some (?m\<lparr>rl_pc := After Queued 2\<rparr>)" "?m\<lparr>rl_pc := Back Queued 2\<rparr>"] w4(3)
    by (simp add: r5_def r4_def run_back_def)
  have i5: "rt_idle r5 11 = At_Pending (- 1)" "m_pendingEventCount (rt_io r5) = 0" "io_timers (rt_io r5) = tm"
    "loc (rt_sys r5) 11 = Some ?l" "io_sched (rt_io r5) = sch (rt_sys r5)"
    using io0 l0 by (simp_all add: r5_def r4_def r3_def r2_def r1_def put_sys_def run_back_def w4(3) w3(3))
  define r6 where "r6 = put_idle 11 (At_Sched (- 1)) (put_io (rt_io r5) r5)"
  have 6: "rt_run ?ep draining ([Inner, Inner, Task Silent, Task Silent, Task Silent] @ [Inner]) r6"
    using idle_stepI [of r5 11 ?l 6 0 ?ep 0 "[]" "At_Sched (- 1)", OF _ _ _ _ _ 5] i5
    by (simp add: idle_leaves_def new_addr_def fired_label_def r6_def)
  have st: "Scheduler.stopping (sch (rt_sys r5))"
    by (simp add: r5_def run_back_def w4(2) stopping_def) (simp add: draining_sys_def quiet_def)
  define r7 where "r7 = put_idle 11 Left (put_io (rt_io r6) r6)"
  have "rt_run ?ep draining (([Inner, Inner, Task Silent, Task Silent, Task Silent] @ [Inner]) @ [Inner]) r7"
    using idle_stepI [of r6 11 ?l 6 0 ?ep 0 "[]" Left, OF _ _ _ _ _ 6] i5 st
    by (simp add: idle_leaves_def new_addr_def fired_label_def r7_def r6_def)
  moreover have "rt_idle r7 11 = Left" "m_timers (io_timers (rt_io r7)) \<noteq> []" using i5 tm by (simp_all add: r7_def r6_def)
  moreover have "map_option rl_pc (loc (rt_sys r7) 10) = Some (After Queued 2)" "getState 2 (fbs (rt_sys r7)) = Inr READY"
    using w4 by (simp_all add: r7_def r6_def r5_def put_io_def run_back_def)
  ultimately show ?thesis by blast
qed

end
