(* ===== verification/Hook_Runtime.thy ===== *)
theory Hook_Runtime
  imports Hook_Props Runtime_Props
begin

text \<open>
  Programs: fibres that use the hooked calls (\<open>src/util/hook.cc\<close>) in a runtime of any number of threads
  (\<open>Runtime\<close>).  Every hooked call is one of the transitions between which the other threads work; a call that
  yields is resumed by a later transition.
\<close>

section \<open>The calls\<close>

text \<open>The hooked functions with their arguments; the three behind a yield, with what the call holds on its stack;
  and the callback of a timer, when a thread has taken it from the queue.  The calls that end in \<open>do_io\<close> are one
  case: they differ in the original function, the event and the time limit.\<close>

datatype 'w hook_call =
    Sleep u32
  | Usleep u32
  | Nanosleep int int
  | Slept
  | Make_Socket int int int
  | Connect int "byte list"
  | Connect_Resumed int nat "nat option"
  | Accept "'w sysfun" int
  | Accept_Resumed "'w sysfun" int u64 nat "nat option"
  | Transfer "'w sysfun" int u32 int
  | Transfer_Resumed "'w sysfun" int u32 u64 nat "nat option"
  | Close int
  | Fcntl int int fcntl_arg
  | Ioctl int u64 int
  | Getsockopt int int int
  | Setsockopt int int int optval
  | Timer_Callback callback

fun perform :: "'w libc \<Rightarrow> caller \<Rightarrow> 'w hook_call \<Rightarrow> 'w hooks \<Rightarrow> (progress \<times> 'w hooks) res" where
  "perform lc c (Sleep seconds) h = hook_sleep lc c seconds h"
| "perform lc c (Usleep usec) h = hook_usleep lc c usec h"
| "perform lc c (Nanosleep s n) h = hook_nanosleep lc c s n h"
| "perform lc c Slept h = sleep_resume h"
| "perform lc c (Make_Socket d t p) h = hook_socket lc c d t p h"
| "perform lc c (Connect fd addr) h = hook_connect lc c fd addr h"
| "perform lc c (Connect_Resumed fd tinfo timer) h = connect_resume lc c fd tinfo timer h"
| "perform lc c (Accept f fd) h = hook_accept lc c f fd h"
| "perform lc c (Accept_Resumed f fd to tinfo timer) h =
     rbind (do_io_resume lc c f fd READ to tinfo timer h) (accept_finish lc)"
| "perform lc c (Transfer f fd event so) h = do_io lc c f fd event so h"
| "perform lc c (Transfer_Resumed f fd event to tinfo timer) h = do_io_resume lc c f fd event to tinfo timer h"
| "perform lc c (Close fd) h = hook_close lc c fd h"
| "perform lc c (Fcntl fd cmd a) h = rbind (hook_fcntl lc fd cmd a h) (\<lambda>(r, h). Inr (Done (sint r), h))"
| "perform lc c (Ioctl fd request a) h = hook_ioctl lc c fd request a h"
| "perform lc c (Getsockopt fd level optname) h = (let (n, v, h) = hook_getsockopt lc c fd level optname h in Inr (Done n, h))"
| "perform lc c (Setsockopt fd level optname v) h = hook_setsockopt lc c fd level optname v h"
| "perform lc c (Timer_Callback cb) h = rbind (fire_timer lc cb h) (\<lambda>h. Inr (Done 0, h))"

lemma transfers:
  "hook_read lc c f fd = perform lc c (Transfer f fd READ SO_RCVTIMEO)"
  "hook_readv lc c f fd = perform lc c (Transfer f fd READ SO_RCVTIMEO)"
  "hook_recv lc c f fd = perform lc c (Transfer f fd READ SO_RCVTIMEO)"
  "hook_recvfrom lc c f fd = perform lc c (Transfer f fd READ SO_RCVTIMEO)"
  "hook_recvmsg lc c f fd = perform lc c (Transfer f fd READ SO_RCVTIMEO)"
  "hook_write lc c f fd = perform lc c (Transfer f fd WRITE SO_RCVTIMEO)"
  "hook_writev lc c f fd = perform lc c (Transfer f fd WRITE SO_SNDTIMEO)"
  "hook_send lc c f fd = perform lc c (Transfer f fd WRITE SO_SNDTIMEO)"
  "hook_sendto lc c f fd = perform lc c (Transfer f fd WRITE SO_SNDTIMEO)"
  "hook_sendmsg lc c f fd = perform lc c (Transfer f fd WRITE SO_SNDTIMEO)"
  by (rule ext, simp add: hook_read_def hook_readv_def hook_recv_def hook_recvfrom_def hook_recvmsg_def hook_write_def
      hook_writev_def hook_send_def hook_sendto_def hook_sendmsg_def)+

section \<open>Their use\<close>

text \<open>A function of the system that leaves alone what the kernel watches.\<close>

definition calm :: "('w \<Rightarrow> int \<Rightarrow> u32 option) \<Rightarrow> 'w sysfun \<Rightarrow> bool" where
  "calm interest f \<longleftrightarrow> (\<forall>w. interest (after f w) = interest w)"

text \<open>The system, as documented: only \<open>epoll_ctl\<close> changes what is watched, and \<open>close\<close>, which removes the
  descriptor.\<close>

definition libc_ok :: "('w \<Rightarrow> int \<Rightarrow> u32 option) \<Rightarrow> 'w libc \<Rightarrow> bool" where
  "libc_ok interest lc \<longleftrightarrow>
     epoll_ok (lc_epoll_ctl lc) interest \<and> epoll_reduces (lc_epoll_ctl lc) interest \<and>
     (\<forall>w fd cmd a. interest (snd (lc_fcntl lc w fd cmd a)) = interest w) \<and>
     (\<forall>w n. interest (snd (sleep_f lc n w)) = interest w) \<and>
     (\<forall>n. calm interest (usleep_f lc n)) \<and> (\<forall>s n. calm interest (nanosleep_f lc s n)) \<and>
     (\<forall>d t p. calm interest (socket_f lc d t p)) \<and> (\<forall>fd a. calm interest (connect_f lc fd a)) \<and>
     (\<forall>fd r a. calm interest (ioctl_f lc fd r a)) \<and>
     (\<forall>fd l n w. interest (snd (snd (snd (getsockopt_f lc fd l n w)))) = interest w) \<and>
     (\<forall>fd l n v. calm interest (setsockopt_f lc fd l n v)) \<and>
     (\<forall>fd w. interest (after (close_f lc fd) w) \<in> {interest w, (interest w)(fd := None)})"

text \<open>The rules for a caller: the address of its next timer is fresh, the timer that it holds lives, its transfers
  are of one of the two events; it closes a descriptor with the hooks, or one on which no fibre waits, and never the
  pipe.\<close>

definition alive_timer :: "nat option \<Rightarrow> 'w hooks \<Rightarrow> bool" where
  "alive_timer timer h = (case timer of None \<Rightarrow> True | Some p \<Rightarrow> p \<in> set (m_live (timers_of h)))"

fun call_ok :: "('w \<Rightarrow> int \<Rightarrow> u32 option) \<Rightarrow> int \<Rightarrow> caller \<Rightarrow> 'w hook_call \<Rightarrow> 'w hooks \<Rightarrow> bool" where
  "call_ok interest tick c (Connect_Resumed fd tinfo timer) h = alive_timer timer h"
| "call_ok interest tick c (Accept f fd) h = calm interest f"
| "call_ok interest tick c (Accept_Resumed f fd to tinfo timer) h = (calm interest f \<and> 0 \<le> fd \<and> alive_timer timer h)"
| "call_ok interest tick c (Transfer f fd event so) h = (calm interest f \<and> is_event event)"
| "call_ok interest tick c (Transfer_Resumed f fd event to tinfo timer) h =
     (calm interest f \<and> is_event event \<and> 0 \<le> fd \<and> alive_timer timer h)"
| "call_ok interest tick c (Close fd) h =
     (0 \<le> fd \<and> fd \<noteq> tick \<and>
      (watched (m_fdContexts (hk_io h)) fd = None \<or>
       hooks.t_hook_enable h (hc_tid c) \<and> hc_iom c \<and> fd_abs (hk_fds h) fd \<noteq> None))"
| "call_ok interest tick c k h = True"

section \<open>Steps of a program\<close>

text \<open>The IO manager is part of the runtime and of the state of the hooks; either side carries it over.\<close>

record 'w program =
  pg_run :: "'w runtime"
  pg_hooks :: "'w hooks"

definition put_hooks :: "'w hooks \<Rightarrow> 'w program \<Rightarrow> 'w program" where
  "put_hooks h p = p\<lparr>pg_hooks := h, pg_run := put_io (hk_io h) (pg_run p)\<rparr>"

definition put_run :: "'w runtime \<Rightarrow> 'w program \<Rightarrow> 'w program" where
  "put_run r p = p\<lparr>pg_run := r, pg_hooks := (pg_hooks p)\<lparr>hk_io := rt_io r\<rparr>\<rparr>"

text \<open>What a call hands in: its own fibre, when it waits for an event; the fibres that the closures of the timer
  wake up; or nothing.\<close>

definition woken :: "'w hooks \<Rightarrow> nat list \<Rightarrow> nat list" where
  "woken h ks = List.map_filter (\<lambda>k. case hk_closures h k of Some (Wake f) \<Rightarrow> Some f | _ \<Rightarrow> None) ks"

definition fibre_task :: "nat \<Rightarrow> task" where
  "fibre_task f = \<lparr>ft_fibre = Some f, ft_cb = None, ft_thread = - 1\<rparr>"

definition own_wait :: "caller \<Rightarrow> progress \<Rightarrow> 'w hooks \<Rightarrow> rt_label list" where
  "own_wait c pr h = (case pr of Wait timer \<Rightarrow> [Await (fibre_waiter c h)] | Done n \<Rightarrow> [])"

fun hands_in :: "caller \<Rightarrow> 'w hook_call \<Rightarrow> progress \<Rightarrow> 'w hooks \<Rightarrow> rt_label list" where
  "hands_in c (Timer_Callback cb) pr h =
     map (\<lambda>f. Task (Submit (fibre_task f))) (woken h (run_callback (\<lambda>p. hk_infos h p \<noteq> None) cb))"
| "hands_in c (Sleep n) pr h = []"
| "hands_in c (Usleep n) pr h = []"
| "hands_in c (Nanosleep s n) pr h = []"
| "hands_in c k pr h = own_wait c pr h"

inductive pg_step :: "'w libc \<Rightarrow> ('w \<Rightarrow> int \<Rightarrow> u32 option) \<Rightarrow> int \<Rightarrow> 'w program \<Rightarrow> rt_label list \<Rightarrow> 'w program \<Rightarrow> bool"
  for lc :: "'w libc" and interest :: "'w \<Rightarrow> int \<Rightarrow> u32 option" and tick :: int where
  p_runtime: "pg_step lc interest tick p (filter (\<lambda>a. a \<noteq> Inner) [a]) (put_run r' p)" if "rt_step (lc_epoll_ctl lc) (pg_run p) a r'"
| p_call: "pg_step lc interest tick p (hands_in c k pr (pg_hooks p)) (put_hooks h' p)"
    if "call_ok interest tick c k (pg_hooks p)" "hc_timer c \<notin> set (m_live (timers_of (pg_hooks p)))"
       "perform lc c k (pg_hooks p) = Inr (pr, h')"

inductive pg_runs :: "'w libc \<Rightarrow> ('w \<Rightarrow> int \<Rightarrow> u32 option) \<Rightarrow> int \<Rightarrow> 'w program \<Rightarrow> rt_label list \<Rightarrow> 'w program \<Rightarrow> bool"
  for lc :: "'w libc" and interest :: "'w \<Rightarrow> int \<Rightarrow> u32 option" and tick :: int where
  pg_nil: "pg_runs lc interest tick p [] p"
| pg_snoc: "pg_runs lc interest tick p (vs @ ws) p'"
    if "pg_runs lc interest tick p vs p''" "pg_step lc interest tick p'' ws p'"

text \<open>The abstract side: the runtime in a system that also changes by itself, except for what the kernel watches.\<close>

inductive open_run :: "'w epoll \<Rightarrow> ('w \<Rightarrow> int \<Rightarrow> u32 option) \<Rightarrow> 'w runtime \<Rightarrow> rt_label list \<Rightarrow> 'w runtime \<Rightarrow> bool"
  for ep :: "'w epoll" and interest :: "'w \<Rightarrow> int \<Rightarrow> u32 option" where
  o_nil: "open_run ep interest r [] r"
| o_step: "open_run ep interest r (tr @ [a]) r'" if "open_run ep interest r tr r''" "rt_step ep r'' a r'"
| o_world: "open_run ep interest r tr (put_io ((rt_io r'')\<lparr>io_world := w\<rparr>) r'')"
    if "open_run ep interest r tr r''" "interest w = interest (io_world (rt_io r''))"

end
