(* ===== verification/Hook_Runtime_Props.thy ===== *)
theory Hook_Runtime_Props
  imports Hook_Runtime
begin

text \<open>
  Programs that use the hooked calls are programs of the runtime: every hooked call is a sequence of
  transitions of the runtime (\<open>hooked_calls_refine\<close>), so that what holds for these under every interleaving holds for
  the programs (\<open>program_accounted\<close>); and a fibre that sleeps is woken, in time and once (\<open>sleep_wakes\<close>).
\<close>

section \<open>Open runs\<close>

lemma put_io_put_io [simp]: "put_io io (put_io io' r) = put_io io r"
  by (simp add: put_io_def)

lemma open_trans:
  "open_run ep interest r' tr' r'' \<Longrightarrow> open_run ep interest r tr r' \<Longrightarrow> open_run ep interest r (tr @ tr') r''"
proof (induction rule: open_run.induct)
  case (o_step r1 tr r2 a r3)
  then show ?case using open_run.o_step [of ep interest r _ r2 a r3] by fastforce
next
  case (o_world r1 tr r2 w)
  then show ?case by (blast intro: open_run.o_world)
qed simp

lemma open_of_run: "rt_run ep r tr r' \<Longrightarrow> open_run ep interest r tr r'"
  by (induction rule: rt_run.induct) (auto intro: open_run.intros)

definition visible :: "rt_label list \<Rightarrow> rt_label list" where
  "visible tr = filter (\<lambda>a. a \<noteq> Inner) tr"

lemma visible_simps [simp]:
  "visible [] = []" "visible (tr @ tr') = visible tr @ visible tr'" "visible (Inner # tr) = visible tr"
  "a \<noteq> Inner \<Longrightarrow> visible (a # tr) = a # visible tr" "visible (visible tr) = visible tr"
  by (simp_all add: visible_def)

lemma total_visible:
  "g Inner = {#} \<Longrightarrow> total_of g (visible tr) = total_of g tr"
  by (induction tr) (auto simp: total_of_def visible_def)

lemma total_Inner [simp]: "arrives own Inner = {#}" "departs own Inner = {#}"
  by (simp_all add: arrives_def departs_def)

lemma world_inv:
  assumes "rt_inv interest tick own r" "interest w = interest (io_world (rt_io r))"
  shows "rt_inv interest tick own (put_io ((rt_io r)\<lparr>io_world := w\<rparr>) r) \<and>
    content_of own (put_io ((rt_io r)\<lparr>io_world := w\<rparr>) r) = content_of own r"
  using put_io_step [OF assms(1), of "(rt_io r)\<lparr>io_world := w\<rparr>" "{#}" "{#}"] assms io_inv_world [OF _ assms(2), of tick]
  by (simp add: rt_inv_def acct_def delivered_def waiters_def)

lemma open_run_inv:
  assumes "open_run ep interest r tr r'" "epoll_ok ep interest" "rt_inv interest tick own r"
  shows "rt_inv interest tick own r' \<and>
    content_of own r + total_of (arrives own) tr = content_of own r' + total_of (departs own) tr"
  using assms
proof (induction rule: open_run.induct)
  case (o_step r tr r'' a r')
  then have i: "rt_inv interest tick own r''" "content_of own r + total_of (arrives own) tr = content_of own r'' + total_of (departs own) tr"
    by simp_all
  from rt_step_inv [OF o_step(2,4) i(1)] have i': "rt_inv interest tick own r'"
    and e: "content_of own r'' + arrives own a = content_of own r' + departs own a" by simp_all
  have "content_of own r + total_of (arrives own) (tr @ [a]) = (content_of own r'' + arrives own a) + total_of (departs own) tr"
    using i(2) by (simp add: ac_simps)
  then show ?case using i' e by (simp add: ac_simps)
next
  case (o_world r tr r'' w)
  then show ?case using world_inv [of interest tick own r'' w] by simp
qed simp

section \<open>What the calls are made of\<close>

text \<open>The closures name a descriptor and an event.\<close>

definition closures_ok :: "'w hooks \<Rightarrow> bool" where
  "closures_ok h \<longleftrightarrow> (\<forall>k tinfo fd event. hk_closures h k = Some (Io_Timeout tinfo fd event) \<longrightarrow> 0 \<le> fd \<and> is_event event)"

text \<open>A change of the hooks' state that is a run of the runtime, with its visible labels.\<close>

definition moves :: "'w epoll \<Rightarrow> ('w \<Rightarrow> int \<Rightarrow> u32 option) \<Rightarrow> 'w runtime \<Rightarrow> 'w hooks \<Rightarrow> rt_label list \<Rightarrow> 'w hooks \<Rightarrow> bool" where
  "moves ep interest r h vs h' \<longleftrightarrow>
     (\<exists>tr. open_run ep interest (put_io (hk_io h) r) tr (put_io (hk_io h') r) \<and> visible tr = vs) \<and>
     (closures_ok h \<longrightarrow> closures_ok h') \<and> m_this (io_sched (hk_io h')) = m_this (io_sched (hk_io h))"

lemma moves_refl: "hk_io h' = hk_io h \<Longrightarrow> hk_closures h' = hk_closures h \<Longrightarrow> moves ep interest r h [] h'"
  by (auto simp: moves_def closures_ok_def intro!: exI [of _ "[]"] o_nil)

lemma moves_trans:
  "moves ep interest r h vs h1 \<Longrightarrow> moves ep interest r h1 ws h' \<Longrightarrow> moves ep interest r h (vs @ ws) h'"
  unfolding moves_def by (metis open_trans visible_simps(2))

lemmas moves_quiet = moves_trans [where vs = "[]", simplified] moves_trans [where ws = "[]", simplified]

lemma moves_step:
  "rt_step ep (put_io (hk_io h) r) a (put_io (hk_io h') r) \<Longrightarrow> closures_ok h \<longrightarrow> closures_ok h' \<Longrightarrow>
   m_this (io_sched (hk_io h')) = m_this (io_sched (hk_io h)) \<Longrightarrow> moves ep interest r h (visible [a]) h'"
  unfolding moves_def by (metis append_Nil o_nil o_step)

lemma moves_io:
  assumes "rt_step ep (put_io (hk_io h) r) a (put_io io' r)" "sched_frame (io_sched (hk_io h)) (io_sched io')"
  shows "moves ep interest r h (visible [a]) (h\<lparr>hk_io := io'\<rparr>)"
  using moves_step [of ep h r a "h\<lparr>hk_io := io'\<rparr>" interest] assms by (simp add: closures_ok_def sched_frame_def)

lemma moves_world:
  assumes "interest w = interest (hk_world h)" "hk_io h' = (hk_io h)\<lparr>io_world := w\<rparr>" "hk_closures h' = hk_closures h"
  shows "moves ep interest r h [] h'"
proof -
  have "open_run ep interest (put_io (hk_io h) r) [] (put_io (hk_io h') r)"
    using o_world [OF o_nil, of interest w "put_io (hk_io h) r" ep] assms by (simp add: hk_world_def)
  then show ?thesis using assms by (auto simp: moves_def closures_ok_def intro!: exI [of _ "[]"])
qed

text \<open>Changes of no more than the world, and not of what the kernel watches.\<close>

definition calm_step :: "('w \<Rightarrow> int \<Rightarrow> u32 option) \<Rightarrow> 'w hooks \<Rightarrow> 'w hooks \<Rightarrow> bool" where
  "calm_step interest h h' \<longleftrightarrow> hk_closures h' = hk_closures h \<and>
     (\<exists>w. hk_io h' = (hk_io h)\<lparr>io_world := w\<rparr> \<and> interest w = interest (hk_world h))"

lemma calm_refl: "hk_io h' = hk_io h \<Longrightarrow> hk_closures h' = hk_closures h \<Longrightarrow> calm_step interest h h'"
  by (auto simp: calm_step_def hk_world_def intro: exI [of _ "io_world (hk_io h)"])

lemma calm_trans: "calm_step interest h h1 \<Longrightarrow> calm_step interest h1 h' \<Longrightarrow> calm_step interest h h'"
  by (force simp: calm_step_def hk_world_def)

lemma calm_world: "interest w = interest (hk_world h) \<Longrightarrow> calm_step interest h (set_world w h)"
  by (auto simp: calm_step_def)

lemma calm_moves: "calm_step interest h h' \<Longrightarrow> moves ep interest r h [] h'"
  by (auto simp: calm_step_def intro: moves_world)

lemma calm_facts:
  assumes "calm_step interest h h'"
  shows "timers_of h' = timers_of h" "m_fdContexts (hk_io h') = m_fdContexts (hk_io h)" "interest (hk_world h') = interest (hk_world h)"
    "io_inv interest tick (hk_io h) \<Longrightarrow> io_inv interest tick (hk_io h')" "fibre_waiter c h' = fibre_waiter c h"
  using assms io_inv_world [of interest tick "hk_io h"]
  by (auto simp: calm_step_def timers_of_def hk_world_def fibre_waiter_def)

lemma calmD: "calm interest f \<Longrightarrow> f w = (n, e, w') \<Longrightarrow> interest w' = interest w"
  unfolding calm_def after_def by (metis snd_conv)

lemma sys_result_calm:
  assumes "sys_result tid (n, e, w) h = (n', h')" "interest w = interest (hk_world h)"
  shows "calm_step interest h h'"
  using assms by (auto simp: calm_step_def sys_result_def)

lemma sys_call_calm: "sys_call tid f h = (n, h') \<Longrightarrow> calm interest f \<Longrightarrow> calm_step interest h h'"
  unfolding sys_call_def by (metis prod_cases3 calmD sys_result_calm)

lemma passes_calm: "passes tid f h = Inr (pr, h') \<Longrightarrow> calm interest f \<Longrightarrow> (\<exists>n. pr = Done n) \<and> calm_step interest h h'"
  by (auto simp: passes_def dest: sys_call_calm split: prod.splits)

lemma FdCtx_init_calm:
  "(\<And>w fd cmd a. interest (snd (fcntl_f os w fd cmd a)) = interest w) \<Longrightarrow> interest (snd (snd (FdCtx_init os w ctx))) = interest w"
  unfolding FdCtx_init_def Let_def by (auto split: prod.splits option.splits) (metis snd_conv)+

lemma fd_get_calm:
  assumes "fd_get lc fd b h = Inr (ctx, h')" "\<And>w fd cmd a. interest (snd (lc_fcntl lc w fd cmd a)) = interest w"
  shows "calm_step interest h h'" "ctx \<noteq> None \<Longrightarrow> \<not> b \<Longrightarrow> 0 \<le> fd" "hk_infos h' = hk_infos h" "hooks.t_hook_enable h' = hooks.t_hook_enable h"
    "hk_errno h' = hk_errno h"
proof -
  obtain fds w where g: "FdManager_get (os_of lc) (hk_world h) (hk_fds h) fd b = Inr (ctx, fds, w)"
    and h': "h' = set_world w (h\<lparr>hk_fds := fds\<rparr>)"
    using assms(1) by (auto simp: fd_get_def res_simps)
  have n: "interest (snd (FdCtx_new (os_of lc) w fd)) = interest w" for w
    using FdCtx_init_calm [of interest "os_of lc" w] assms(2) by (simp add: FdCtx_new_def os_of_def)
  have "interest w = interest (hk_world h)"
    using g n [of "hk_world h"] by (auto simp: FdManager_get_def Let_def split: if_splits prod.splits)
  then have "calm_step interest (h\<lparr>hk_fds := fds\<rparr>) h'" unfolding h' by (intro calm_world) (simp add: hk_world_def)
  then show "calm_step interest h h'" by (rule calm_trans [OF calm_refl, rotated 2]) simp_all
  show "ctx \<noteq> None \<Longrightarrow> \<not> b \<Longrightarrow> 0 \<le> fd" using g by (auto simp: FdManager_get_def Let_def split: if_splits prod.splits)
  show "hk_infos h' = hk_infos h" "hooks.t_hook_enable h' = hooks.t_hook_enable h" "hk_errno h' = hk_errno h" by (simp_all add: h')
qed

text \<open>The pieces of a blocking call.\<close>

lemma tickle_moves:
  assumes "tickle_io b (hk_io h) = Inr io'" "h' = h\<lparr>hk_io := io'\<rparr>"
  shows "moves ep interest r h [] h'"
proof -
  have "tickle_io True (hk_io h) = Inr io'" using assms(1) by (auto simp: tickle_io_def res_simps split: if_splits)
  then have "rt_step ep (put_io (hk_io h) r) Inner (put_io (hk_io h') r)"
    using r_tickle [of "put_io (hk_io h) r" io' ep] assms(2) by simp
  moreover have "io_sched io' = io_sched (hk_io h)" using assms(1) by (auto simp: tickle_io_def res_simps split: if_splits)
  ultimately show ?thesis using moves_step [of ep h r Inner h' interest] assms(2) by (simp add: closures_ok_def)
qed

lemma timer_moves:
  assumes "client_op op" "legal op (timers_of h)" "exec_op op (timers_of h) = Inr (b, tm)"
  shows "moves ep interest r h [] (h\<lparr>hk_io := (hk_io h)\<lparr>io_timers := tm\<rparr>\<rparr>)"
  using r_timer [of op "put_io (hk_io h) r" b tm ep] moves_io [of ep h r Inner "(hk_io h)\<lparr>io_timers := tm\<rparr>" interest] assms
  by (simp add: timers_of_def)

lemma closure_moves:
  "(\<forall>tinfo fd event. cl = Io_Timeout tinfo fd event \<longrightarrow> 0 \<le> fd \<and> is_event event) \<Longrightarrow> moves ep interest r h [] (put_closure k cl h)"
  by (auto simp: moves_def put_closure_def closures_ok_def intro!: exI [of _ "[]"] o_nil)

lemma with_timers_moves:
  assumes "client_op op" "legal op (timers_of h)" "exec_op op (timers_of h) = Inr x" "with_timers c x h = Inr h'"
  shows "moves ep interest r h [] h'"
proof -
  obtain b tm where x: "x = (b, tm)" by fastforce
  let ?h = "h\<lparr>hk_io := (hk_io h)\<lparr>io_timers := tm\<rparr>\<rparr>"
  have 1: "moves ep interest r h [] ?h" using timer_moves assms(1-3) x by blast
  obtain io' where "h' = h\<lparr>hk_io := io'\<rparr>" "(if b then onTimerInsertAtFront (hc_pipe_ok c) ((hk_io h)\<lparr>io_timers := tm\<rparr>) else Inr ((hk_io h)\<lparr>io_timers := tm\<rparr>)) = Inr io'"
    using assms(4) x by (auto simp: with_timers_def rbind_eq_Inr Let_def)
  then have "moves ep interest r ?h [] h'"
    using tickle_moves [of "hc_pipe_ok c" ?h io' h'] moves_refl [of h' ?h] by (cases b) (simp_all add: onTimerInsertAtFront_def)
  then show ?thesis by (rule moves_quiet(1) [OF 1])
qed

lemma alive_timers: "timers_of h' = timers_of h \<Longrightarrow> alive_timer timer h' = alive_timer timer h"
  by (simp add: alive_timer_def split: option.split)

lemma cancel_live: "cancel p tm = Inr (b, tm') \<Longrightarrow> m_live tm' = m_live tm"
  by (auto simp: cancel_def eraseTimer_def Let_def split: if_splits sum.splits)

lemma with_timers_timers: "with_timers c x h = Inr h' \<Longrightarrow> timers_of h' = snd x"
  by (auto simp: with_timers_def timers_of_def onTimerInsertAtFront_def tickle_io_def Let_def res_simps split: prod.splits if_splits)

lemma addTimer_live: "m_live (snd (addTimer now p ms cb rec tm)) = p # m_live tm"
  by (simp add: addTimer_def insertTimer_def Let_def split: prod.split)

lemma arm_timeout_moves:
  assumes "arm_timeout c to fd event tinfo h = Inr (timer, h')" "hc_timer c \<notin> set (m_live (timers_of h))" "0 \<le> fd" "is_event event"
  shows "moves ep interest r h [] h'"
proof (cases "to = - 1")
  case True
  then show ?thesis using assms(1) by (simp add: arm_timeout_def moves_refl)
next
  case False
  let ?h = "put_closure (hc_fun c) (Io_Timeout tinfo fd event) h"
  have t: "timers_of ?h = timers_of h" by (simp add: timers_of_def put_closure_def)
  have 1: "moves ep interest r h [] ?h" using assms(3,4) by (intro closure_moves) simp
  let ?op = "AddConditionTimer (hc_now c) (hc_timer c) to (Function (hc_fun c)) tinfo False"
  obtain x where x: "exec_op ?op (timers_of ?h) = Inr x" "with_timers c x ?h = Inr h'"
    using assms(1) False by (auto simp: arm_timeout_def res_simps timers_of_def put_closure_def)
  from with_timers_moves [OF _ _ x] assms(2) t have "moves ep interest r ?h [] h'" by simp
  then show ?thesis by (rule moves_quiet(1) [OF 1])
qed

lemma cancel_timer_moves:
  assumes "cancel_timer timer h = Inr h'" "alive_timer timer h"
  shows "moves ep interest r h [] h'"
proof (cases timer)
  case None
  then show ?thesis using assms by (simp add: cancel_timer_def moves_refl)
next
  case (Some p)
  then obtain b tm where c: "cancel p (timers_of h) = Inr (b, tm)" "h' = h\<lparr>hk_io := (hk_io h)\<lparr>io_timers := tm\<rparr>\<rparr>"
    using assms(1) by (auto simp: cancel_timer_def res_simps timers_of_def)
  from timer_moves [of "Cancel p" h False tm] show ?thesis using c Some assms(2) by (simp add: alive_timer_def)
qed

lemma wait_event_moves:
  assumes "wait_event lc c fd event h = Inr (rt, h')" "is_event event"
  shows "moves (lc_epoll_ctl lc) interest r h (if rt = 0 then [Await (fibre_waiter c h)] else []) h'"
proof -
  let ?s = "m_this (io_sched (hk_io h))"
  obtain io' where a: "addEvent (lc_epoll_ctl lc) (Some ?s) (hc_fibre c) (hc_fstate c) fd event None (hk_io h) = Inr (rt, io')"
    and h': "hk_io h' = io'" "hk_closures h' = hk_closures h"
    using assms(1) by (auto simp: wait_event_def res_simps)
  have w: "fibre_waiter c h = new_waiter ?s (hc_fibre c) None" by (simp add: fibre_waiter_def new_waiter_def waiter_def)
  have "rt_step (lc_epoll_ctl lc) (put_io (hk_io h) r) (if rt = 0 then Await (fibre_waiter c h) else Inner) (put_io io' r)"
    using r_add [OF assms(2), of "lc_epoll_ctl lc" ?s "hc_fibre c" "hc_fstate c" fd None "put_io (hk_io h) r" rt io'] a w
    by (simp split: if_splits)
  from moves_step [of _ h r _ h' interest, unfolded h'(1), OF this] show ?thesis
    using h'(2) frame_add [OF a] by (auto simp: closures_ok_def split: if_splits)
qed

lemma cancel_event_moves:
  assumes "cancelEvent ep fd event (hk_io h) = Inr (b, io')" "0 \<le> fd" "is_event event"
  shows "moves ep interest r h [] (h\<lparr>hk_io := io'\<rparr>)"
  using r_cancel [of event fd ep "put_io (hk_io h) r" b io'] moves_io [of ep h r Inner io' interest] assms
    frame_cancel [OF assms(1)] by (simp add: io_frame_def)

lemma cancel_all_moves:
  assumes "cancelAll ep fd (hk_io h) = Inr (b, io')" "0 \<le> fd"
  shows "moves ep interest r h [] (h\<lparr>hk_io := io'\<rparr>)"
  using r_cancel_all [of fd ep "put_io (hk_io h) r" b io'] moves_io [of ep h r Inner io' interest] assms
    frame_cancel_all [OF assms(1)] by (simp add: io_frame_def)

lemma own_schedule_moves:
  "moves ep interest r h [Task (Submit (fibre_task f))] (h\<lparr>hk_io := own_schedule (fibre_task f) (hk_io h)\<rparr>)"
proof -
  let ?t = "fibre_task f" and ?r = "put_io (hk_io h) r"
  let ?w = "(rt_sys ?r)\<lparr>sch := schedule ?t (sch (rt_sys ?r))\<rparr>"
  have "sched_step (rt_sys ?r) (Submit ?t) ?w" by (rule submit) (simp add: fibre_task_def)
  moreover have "idle_kept (rt_sys ?r) ?w" by (simp add: idle_kept_def)
  ultimately have s: "rt_step ep ?r (Task (Submit ?t)) (put_sys ?w ?r)" by (rule r_sched)
  have "put_sys ?w ?r = put_io (own_schedule ?t (hk_io h)) r"
    by (simp add: put_sys_def put_io_def own_schedule_def schedule_def scheduleNoLock_def tickle_def hasIdleThreads_def Let_def
        split: prod.split)
  with s show ?thesis
    using moves_step [of ep h r "Task (Submit ?t)" "h\<lparr>hk_io := own_schedule ?t (hk_io h)\<rparr>" interest]
    by (simp add: closures_ok_def own_schedule_def scheduleNoLock_def tickle_def Let_def)
qed

lemma moves_waiter: "moves ep interest r h vs h' \<Longrightarrow> fibre_waiter c h' = fibre_waiter c h"
  by (simp add: moves_def fibre_waiter_def)

text \<open>Arming, registering, and what follows.\<close>

lemma block_moves:
  assumes "arm_timeout c to fd event tinfo h = Inr (timer, h1)" "wait_event lc c fd event h1 = Inr (rt, h')"
    and "hc_timer c \<notin> set (m_live (timers_of h))" "0 \<le> fd" "is_event event"
  shows "moves (lc_epoll_ctl lc) interest r h (if rt = 0 then [Await (fibre_waiter c h)] else []) h'"
    "cancel_timer timer h' = Inr h2 \<Longrightarrow> moves (lc_epoll_ctl lc) interest r h' [] h2"
proof -
  have 1: "moves (lc_epoll_ctl lc) interest r h [] h1" using arm_timeout_moves [OF assms(1,3-5)] .
  from moves_quiet(1) [OF 1 wait_event_moves [OF assms(2,5)]]
  show "moves (lc_epoll_ctl lc) interest r h (if rt = 0 then [Await (fibre_waiter c h)] else []) h'"
    by (cases "rt = 0") (simp_all add: moves_waiter [OF 1])
  have "alive_timer timer h1"
    using assms(1) by (auto simp: arm_timeout_def alive_timer_def addConditionTimer_def addTimer_live rbind_eq_Inr
        dest!: with_timers_timers split: if_splits)
  moreover have "timers_of h' = timers_of h1"
    using assms(2) frame_add(2) by (auto simp: wait_event_def timers_of_def res_simps)
  ultimately show "cancel_timer timer h' = Inr h2 \<Longrightarrow> moves (lc_epoll_ctl lc) interest r h' [] h2"
    by (intro cancel_timer_moves) (simp_all add: alive_timers [of h' h1])
qed

lemma eintr_calm:
  assumes "call_eintr f (hk_world h) = Some x" "calm interest f" "sys_result tid x h = (n, h')"
  shows "calm_step interest h h'"
proof -
  obtain n0 e w where x: "x = (n0, e, w)" by (metis prod_cases3)
  have "interest (after f v) = interest v" for v using assms(2) by (simp add: calm_def)
  then have "interest w = interest (hk_world h)" using assms(1) unfolding x by (rule eintr_interest)
  with sys_result_calm [OF assms(3) [unfolded x]] show ?thesis .
qed

lemma free_calm [simp]: "calm_step interest h (free_info t h) = True" "calm_step interest h (set_errno tid e h) = True"
  by (simp_all add: calm_refl)

lemma do_io_retry_moves:
  assumes "do_io_retry lc c f fd event to tinfo h = Inr (pr, h')" "calm interest f"
    and "hc_timer c \<notin> set (m_live (timers_of h))" "0 \<le> fd" "is_event event"
  shows "moves (lc_epoll_ctl lc) interest r h (own_wait c pr h) h'"
proof -
  obtain x where x: "call_eintr f (hk_world h) = Some x" using assms(1) by (auto simp: do_io_retry_def split: option.splits)
  obtain n h1 where 1: "sys_result (hc_tid c) x h = (n, h1)" by fastforce
  have c1: "calm_step interest h h1" by (rule eintr_calm [OF x assms(2) 1])
  note m1 = calm_moves [OF c1, of "lc_epoll_ctl lc" r]
  show ?thesis
  proof (cases "n = - 1 \<and> hk_errno h1 (hc_tid c) = EAGAIN")
    case False
    then have "pr = Done n" "h' = free_info tinfo h1" using assms(1) x 1 by (auto simp: do_io_retry_def Let_def)
    then show ?thesis using moves_quiet(1) [OF m1 calm_moves [of interest h1 h']] by (simp add: own_wait_def)
  next
    case True
    then obtain timer h2 rt h3 where b: "arm_timeout c to fd event tinfo h1 = Inr (timer, h2)" "wait_event lc c fd event h2 = Inr (rt, h3)"
      and k: "(if rt \<noteq> 0 then rbind (cancel_timer timer h3) (\<lambda>h. Inr (Done (- 1), free_info tinfo h)) else Inr (Wait timer, h3)) = Inr (pr, h')"
      using assms(1) x 1 by (auto simp: do_io_retry_def Let_def res_simps split: if_splits)
    have live: "hc_timer c \<notin> set (m_live (timers_of h1))" using assms(3) calm_facts(1) [OF c1] by simp
    note m3 = moves_quiet(1) [OF m1 block_moves(1) [OF b live assms(4,5)]]
    show ?thesis
    proof (cases "rt = 0")
      case True
      then show ?thesis using k m3 by (auto simp: own_wait_def calm_facts(5) [OF c1])
    next
      case False
      then obtain h4 where h4: "cancel_timer timer h3 = Inr h4" "pr = Done (- 1)" "h' = free_info tinfo h4"
        using k by (auto simp: rbind_eq_Inr)
      have "moves (lc_epoll_ctl lc) interest r h [] h4"
        using moves_quiet(1) [OF _ block_moves(2) [OF b live assms(4,5) h4(1)]] m3 False by simp
      then show ?thesis using moves_quiet(2) [OF _ calm_moves [of interest h4 h']] h4(2,3) by (simp add: own_wait_def)
    qed
  qed
qed

section \<open>Every call\<close>

lemma libc_calm:
  assumes "libc_ok interest lc"
  shows "interest (snd (lc_fcntl lc w fd cmd a)) = interest w" "interest (snd (sleep_f lc n w)) = interest w"
    "calm interest (usleep_f lc n)" "calm interest (nanosleep_f lc x y)" "calm interest (socket_f lc i j k)"
    "calm interest (connect_f lc fd adr)" "calm interest (ioctl_f lc fd rq z)"
    "interest (snd (snd (snd (getsockopt_f lc fd i j w)))) = interest w" "calm interest (setsockopt_f lc fd i j v)"
    "interest (after (close_f lc fd) w) \<in> {interest w, (interest w)(fd := None)}"
    "epoll_ok (lc_epoll_ctl lc) interest" "epoll_reduces (lc_epoll_ctl lc) interest"
  using assms by (simp_all add: libc_ok_def)

lemma sleep_for_moves:
  assumes "sleep_for c ms h = Inr (pr, h')" "hc_timer c \<notin> set (m_live (timers_of h))"
  shows "moves ep interest r h [] h'"
proof -
  let ?h = "put_closure (hc_fun c) (Wake (hc_fibre c)) h"
  have t: "timers_of ?h = timers_of h" by (simp add: timers_of_def put_closure_def)
  have 1: "moves ep interest r h [] ?h" by (intro closure_moves) simp
  obtain x where x: "exec_op (AddTimer (hc_now c) (hc_timer c) ms (Some (Function (hc_fun c))) False) (timers_of ?h) = Inr x"
    "with_timers c x ?h = Inr h'"
    using assms(1) by (auto simp: sleep_for_def timers_of_def put_closure_def res_simps split: if_splits)
  from with_timers_moves [OF _ _ x] assms(2) t have "moves ep interest r ?h [] h'" by simp
  then show ?thesis by (rule moves_quiet(1) [OF 1])
qed

lemma passes_moves:
  "passes tid f h = Inr (pr, h') \<Longrightarrow> calm interest f \<Longrightarrow> moves ep interest r h (own_wait c pr g) h'"
  by (auto dest!: passes_calm intro: calm_moves simp: own_wait_def)

lemma done_moves: "pr = Done n \<Longrightarrow> calm_step interest h h' \<Longrightarrow> moves ep interest r h (own_wait c pr g) h'"
  by (simp add: own_wait_def calm_moves)

text \<open>Behind a calm beginning.\<close>

lemma calm_first:
  "calm_step interest h h1 \<Longrightarrow> moves ep interest r h1 (own_wait c pr h1) h' \<Longrightarrow> moves ep interest r h (own_wait c pr h) h'"
  using moves_quiet(1) [OF calm_moves] calm_facts(5) by (fastforce simp: own_wait_def split: progress.splits)

lemma do_io_moves:
  assumes "do_io lc c f fd event so h = Inr (pr, h')" "libc_ok interest lc" "calm interest f" "is_event event"
    and "hc_timer c \<notin> set (m_live (timers_of h))"
  shows "moves (lc_epoll_ctl lc) interest r h (own_wait c pr h) h'"
proof (cases "hooks.t_hook_enable h (hc_tid c)")
  case False
  then have "passes (hc_tid c) f h = Inr (pr, h')" using assms(1) by (simp add: do_io_def)
  then show ?thesis using assms(3) by (rule passes_moves)
next
  case True
  then obtain ctx h1 where g: "fd_get lc fd False h = Inr (ctx, h1)" using assms(1) by (auto simp: do_io_def rbind_eq_Inr)
  note c1 = fd_get_calm [OF g, of interest, OF libc_calm(1) [OF assms(2)]]
  show ?thesis
  proof (rule calm_first [OF c1(1)], cases ctx)
    case None
    then have "passes (hc_tid c) f h1 = Inr (pr, h')" using assms(1) True g by (simp add: do_io_def)
    then show "moves (lc_epoll_ctl lc) interest r h1 (own_wait c pr h1) h'" using assms(3) by (rule passes_moves)
  next
    case (Some x)
    let ?h = "h1\<lparr>hk_infos := (hk_infos h1)(hc_info c \<mapsto> 0)\<rparr>"
    have live: "hc_timer c \<notin> set (m_live (timers_of ?h))" using assms(5) calm_facts(1) [OF c1(1)] by (simp add: timers_of_def)
    have eq: "(if m_isClosed x then Inr (Done (- 1), set_errno (hc_tid c) EBADF h1)
       else if \<not> m_isSocket x \<or> m_userNonblock x then passes (hc_tid c) f h1
       else do_io_retry lc c f fd event (getTimeout so x) (hc_info c) ?h) = Inr (pr, h')"
      using assms(1) True g Some by (simp add: do_io_def)
    consider "m_isClosed x" | "\<not> m_isClosed x" "\<not> m_isSocket x \<or> m_userNonblock x"
      | "\<not> m_isClosed x" "\<not> (\<not> m_isSocket x \<or> m_userNonblock x)" by blast
    then show "moves (lc_epoll_ctl lc) interest r h1 (own_wait c pr h1) h'"
    proof cases
      case 1
      then have "pr = Done (- 1)" "h' = set_errno (hc_tid c) EBADF h1" using eq by simp_all
      then show ?thesis using done_moves [of pr "- 1" interest h1 h'] by simp
    next
      case 2
      then have "passes (hc_tid c) f h1 = Inr (pr, h')" using eq by (simp only: if_True if_False)
      then show ?thesis using assms(3) by (rule passes_moves)
    next
      case 3
      then have d: "do_io_retry lc c f fd event (getTimeout so x) (hc_info c) ?h = Inr (pr, h')" using eq by (simp only: if_False)
      have "0 \<le> fd" using c1(2) Some by simp
      from do_io_retry_moves [OF d assms(3) live this assms(4)] show ?thesis by (rule calm_first [OF calm_refl, rotated 2]) simp_all
    qed
  qed
qed

lemma do_io_resume_moves:
  assumes "do_io_resume lc c f fd event to tinfo timer h = Inr (pr, h')" "calm interest f" "is_event event" "0 \<le> fd"
    and "alive_timer timer h" "hc_timer c \<notin> set (m_live (timers_of h))"
  shows "moves (lc_epoll_ctl lc) interest r h (own_wait c pr h) h'"
proof -
  obtain h1 where h1: "cancel_timer timer h = Inr h1" using assms(1) by (auto simp: do_io_resume_def rbind_eq_Inr)
  note m1 = cancel_timer_moves [OF h1 assms(5), of "lc_epoll_ctl lc" interest r]
  obtain x where x: "hk_infos h1 tinfo = Some x" using assms(1) h1 by (auto simp: do_io_resume_def split: option.splits)
  have "m_live (timers_of h1) = m_live (timers_of h)"
    using h1 by (auto simp: cancel_timer_def timers_of_def rbind_eq_Inr cancel_live split: option.splits)
  then have live: "hc_timer c \<notin> set (m_live (timers_of h1))" using assms(6) by simp
  have "moves (lc_epoll_ctl lc) interest r h1 (own_wait c pr h1) h'"
  proof (cases "x = 0")
    case True
    then show ?thesis using do_io_retry_moves [OF _ assms(2) live assms(4,3)] assms(1) h1 x by (auto simp: do_io_resume_def)
  next
    case False
    then have "pr = Done (- 1)" "h' = free_info tinfo (set_errno (hc_tid c) x h1)" using assms(1) h1 x by (auto simp: do_io_resume_def)
    then show ?thesis using done_moves [of pr "- 1" interest h1 h'] by (simp add: calm_refl)
  qed
  from moves_quiet(1) [OF m1 this] show ?thesis by (simp add: own_wait_def moves_waiter [OF m1] split: progress.splits)
qed

lemma moves_done: "moves ep interest r h (own_wait c pr h) h1 \<Longrightarrow> calm_step interest h1 h' \<Longrightarrow> moves ep interest r h (own_wait c pr h) h'"
  using moves_quiet(2) [OF _ calm_moves] .

lemma accept_moves:
  assumes "accept_finish lc (p0, h1) = Inr (pr, h')" "libc_ok interest lc" "moves ep interest r h (own_wait c p0 h) h1"
  shows "moves ep interest r h (own_wait c pr h) h'"
proof (cases p0)
  case (Done fd)
  have "pr = Done fd \<and> calm_step interest h1 h'"
    using assms(1) fd_get_calm(1) [OF _ libc_calm(1) [OF assms(2)]] Done
    by (auto simp: accept_finish_def rbind_eq_Inr calm_refl split: if_splits)
  then show ?thesis using moves_done [OF assms(3), of h'] Done by simp
next
  case (Wait t)
  then show ?thesis using assms(1,3) by (simp add: accept_finish_def)
qed

lemma getsockopt_calm:
  "hook_getsockopt lc c fd level optname h = (n, v, h') \<Longrightarrow> libc_ok interest lc \<Longrightarrow> calm_step interest h h'"
  using sys_result_calm libc_calm(8) [of interest lc fd level optname "hk_world h"]
  by (fastforce simp: hook_getsockopt_def split: prod.splits)

lemma connect_error_calm:
  assumes "connect_error lc c fd tinfo h = Inr (pr, h')" "libc_ok interest lc"
  shows "(\<exists>n. pr = Done n) \<and> calm_step interest h h'"
proof -
  obtain n v h1 where 1: "hook_getsockopt lc c fd SOL_SOCKET SO_ERROR h = (n, v, h1)" by (metis prod_cases3)
  have "hk_io h' = hk_io h1" "hk_closures h' = hk_closures h1" "\<exists>n. pr = Done n"
    using assms(1) 1 by (auto simp: connect_error_def split: if_splits)
  then show ?thesis using calm_trans [OF getsockopt_calm [OF 1 assms(2)] calm_refl] by blast
qed

lemma connect_moves:
  assumes "connect_with_timeout lc c fd addr to h = Inr (pr, h')" "libc_ok interest lc" "hc_timer c \<notin> set (m_live (timers_of h))"
  shows "moves (lc_epoll_ctl lc) interest r h (own_wait c pr h) h'"
proof (cases "hooks.t_hook_enable h (hc_tid c)")
  case False
  then have "passes (hc_tid c) (connect_f lc fd addr) h = Inr (pr, h')" using assms(1) by (simp add: connect_with_timeout_def Let_def)
  then show ?thesis using libc_calm(6) [OF assms(2)] by (rule passes_moves)
next
  case True
  then obtain ctx h1 where g: "fd_get lc fd False h = Inr (ctx, h1)"
    using assms(1) by (auto simp: connect_with_timeout_def Let_def rbind_eq_Inr)
  note c1 = fd_get_calm [OF g, of interest, OF libc_calm(1) [OF assms(2)]]
  show ?thesis
  proof (rule calm_first [OF c1(1)])
    obtain n h2 where f: "sys_call (hc_tid c) (connect_f lc fd addr) h1 = (n, h2)" by fastforce
    have c2: "calm_step interest h1 h2" by (rule sys_call_calm [OF f libc_calm(6) [OF assms(2)]])
    let ?bad = "set_errno (hc_tid c) EBADF h1" and ?h = "h2\<lparr>hk_infos := (hk_infos h2)(hc_info c \<mapsto> 0)\<rparr>"
    have "pr = Done (- 1) \<and> h' = ?bad \<or> pr = Done n \<and> h' = h2 \<or>
      (ctx \<noteq> None \<and> rbind (arm_timeout c to fd WRITE (hc_info c) ?h) (\<lambda>(timer, h).
         rbind (wait_event lc c fd WRITE h) (\<lambda>(rt, h).
           if rt = 0 then Inr (Wait timer, h)
           else rbind (cancel_timer timer h) (\<lambda>h. connect_error lc c fd (hc_info c) h))) = Inr (pr, h'))"
      using assms(1) True g f by (simp add: connect_with_timeout_def passes_def Let_def split: option.splits if_splits)
    then consider "pr = Done (- 1)" "h' = ?bad" | "pr = Done n" "h' = h2" | x where "ctx \<noteq> None" "arm_timeout c to fd WRITE (hc_info c) ?h = Inr x"
      "(case x of (timer, h) \<Rightarrow> rbind (wait_event lc c fd WRITE h) (\<lambda>(rt, h).
         if rt = 0 then Inr (Wait timer, h)
         else rbind (cancel_timer timer h) (\<lambda>h. connect_error lc c fd (hc_info c) h))) = Inr (pr, h')"
      unfolding rbind_eq_Inr by blast
    then consider "pr = Done (- 1)" "h' = ?bad" | "pr = Done n" "h' = h2" | timer h3 rt h4 where "ctx \<noteq> None"
      "arm_timeout c to fd WRITE (hc_info c) ?h = Inr (timer, h3)" "wait_event lc c fd WRITE h3 = Inr (rt, h4)"
      "(if rt = 0 then Inr (Wait timer, h4) else rbind (cancel_timer timer h4) (\<lambda>h. connect_error lc c fd (hc_info c) h)) = Inr (pr, h')"
      by cases (force simp: rbind_eq_Inr)+
    then show "moves (lc_epoll_ctl lc) interest r h1 (own_wait c pr h1) h'"
    proof cases
      case 1
      then show ?thesis using done_moves [of pr "- 1" interest h1 h'] by simp
    next
      case 2
      then show ?thesis using done_moves [of pr n interest h1 h'] c2 by simp
    next
      case 3
      have cw: "calm_step interest h1 ?h" by (rule calm_trans [OF c2 calm_refl]) simp_all
      have live: "hc_timer c \<notin> set (m_live (timers_of ?h))" using assms(3) calm_facts(1) [OF c1(1)] calm_facts(1) [OF cw] by simp
      have w: "0 \<le> fd" "is_event WRITE" using c1(2) 3(1) by (simp_all add: is_event_def)
      note b = block_moves [OF 3(2,3) live w]
      show ?thesis
      proof (rule calm_first [OF cw], cases "rt = 0")
        case True
        then show "moves (lc_epoll_ctl lc) interest r ?h (own_wait c pr ?h) h'" using 3(4) b(1) by (auto simp: own_wait_def)
      next
        case False
        then obtain h5 where h5: "cancel_timer timer h4 = Inr h5" "connect_error lc c fd (hc_info c) h5 = Inr (pr, h')"
          using 3(4) by (auto simp: rbind_eq_Inr)
        note e = connect_error_calm [OF h5(2) assms(2)]
        have "moves (lc_epoll_ctl lc) interest r ?h [] h5" using moves_quiet(1) [OF _ b(2) [OF h5(1)]] b(1) False by simp
        then show "moves (lc_epoll_ctl lc) interest r ?h (own_wait c pr ?h) h'"
          using moves_quiet(1) [OF _ calm_moves] e by (auto simp: own_wait_def)
      qed
    qed
  qed
qed

lemma connect_resume_moves:
  assumes "connect_resume lc c fd tinfo timer h = Inr (pr, h')" "libc_ok interest lc" "alive_timer timer h"
  shows "moves (lc_epoll_ctl lc) interest r h (own_wait c pr h) h'"
proof -
  obtain h1 where h1: "cancel_timer timer h = Inr h1" using assms(1) by (auto simp: connect_resume_def rbind_eq_Inr)
  have "(\<exists>n. pr = Done n) \<and> calm_step interest h1 h'"
    using assms(1) h1 connect_error_calm [OF _ assms(2)]
    by (auto simp: connect_resume_def calm_refl split: option.splits if_splits)
  then show ?thesis
    using moves_quiet(1) [OF cancel_timer_moves [OF h1 assms(3)] calm_moves] by (auto simp: own_wait_def)
qed

text \<open>Closing a descriptor that the kernel does not watch.\<close>

lemma close_calm:
  assumes "passes tid (close_f lc fd) h = Inr (pr, h')" "libc_ok interest lc" "interest (hk_world h) fd = None"
  shows "(\<exists>n. pr = Done n) \<and> calm_step interest h h'"
proof -
  obtain n0 e w where f: "close_f lc fd (hk_world h) = (n0, e, w)" by (metis prod_cases3)
  have "interest w = interest (hk_world h) \<or> interest w = (interest (hk_world h))(fd := None)"
    using libc_calm(10) [OF assms(2), of fd "hk_world h"] f by (simp add: after_def)
  then have "interest w = interest (hk_world h)" using assms(3) by (metis fun_upd_triv)
  then show ?thesis using sys_result_calm [of tid n0 e w h] assms(1) f
    by (auto simp: passes_def sys_call_def split: prod.splits)
qed

lemma fd_get_abs: "fd_get lc fd False h = Inr (ctx, h') \<Longrightarrow> 0 \<le> fd \<Longrightarrow> ctx = fd_abs (hk_fds h) fd"
  by (auto simp: fd_get_def FdManager_get_def fd_abs_def Let_def rbind_eq_Inr split: if_splits prod.splits)

lemma unwatched: "io_inv interest tick io \<Longrightarrow> 0 \<le> fd \<Longrightarrow> fd \<noteq> tick \<Longrightarrow> interest (io_world io) fd = watched (m_fdContexts io) fd"
  by (simp add: io_inv_def agree_def)

lemma close_moves:
  assumes "hook_close lc c fd h = Inr (pr, h')" "libc_ok interest lc" "io_inv interest tick (hk_io h)" "call_ok interest tick c (Close fd) h"
  shows "moves (lc_epoll_ctl lc) interest r h (own_wait c pr h) h'"
proof -
  have fd: "0 \<le> fd" "fd \<noteq> tick" using assms(4) by simp_all
  have shut: "moves (lc_epoll_ctl lc) interest r g (own_wait c pr g) h'"
    if "passes (hc_tid c) (close_f lc fd) g = Inr (pr, h')" "watched (m_fdContexts (hk_io g)) fd = None" "io_inv interest tick (hk_io g)" for g
    using close_calm [OF that(1) assms(2)] unwatched [OF that(3) fd] that(2) done_moves by (fastforce simp: hk_world_def)
  show ?thesis
  proof (cases "hooks.t_hook_enable h (hc_tid c)")
    case False
    then show ?thesis using assms(1,3,4) shut by (simp add: hook_close_def)
  next
    case True
    then obtain ctx h1 where g: "fd_get lc fd False h = Inr (ctx, h1)" using assms(1) by (auto simp: hook_close_def rbind_eq_Inr)
    have c1: "calm_step interest h h1" by (rule fd_get_calm(1) [OF g libc_calm(1) [OF assms(2)]])
    note f1 = calm_facts [OF c1]
    have i1: "io_inv interest tick (hk_io h1)" by (rule f1(4) [OF assms(3)])
    show ?thesis
    proof (rule calm_first [OF c1], cases "ctx = None \<or> \<not> hc_iom c")
      case True
      then have w: "watched (m_fdContexts (hk_io h1)) fd = None" using assms(4) fd_get_abs [OF g fd(1)] f1(2) by auto
      obtain fds where "passes (hc_tid c) (close_f lc fd) (h1\<lparr>hk_fds := fds\<rparr>) = Inr (pr, h')"
      proof (cases ctx)
        case None
        then have "passes (hc_tid c) (close_f lc fd) (h1\<lparr>hk_fds := hk_fds h1\<rparr>) = Inr (pr, h')"
          using assms(1) g \<open>hooks.t_hook_enable h (hc_tid c)\<close> by (simp add: hook_close_def)
        then show ?thesis using that by blast
      next
        case (Some x)
        then show ?thesis using that assms(1) g \<open>hooks.t_hook_enable h (hc_tid c)\<close> True
          by (auto simp: hook_close_def rbind_eq_Inr)
      qed
      from shut [OF this] w i1 show "moves (lc_epoll_ctl lc) interest r h1 (own_wait c pr h1) h'"
        by (auto intro: calm_first [OF calm_refl, of "h1\<lparr>hk_fds := fds\<rparr>"])
    next
      case False
      then obtain b io' fds where k: "cancelAll (lc_epoll_ctl lc) fd (hk_io h1) = Inr (b, io')"
        "passes (hc_tid c) (close_f lc fd) (h1\<lparr>hk_io := io', hk_fds := fds\<rparr>) = Inr (pr, h')"
        using assms(1) g \<open>hooks.t_hook_enable h (hc_tid c)\<close> by (auto simp: hook_close_def res_simps)
      let ?h = "h1\<lparr>hk_io := io'\<rparr>"
      have m: "moves (lc_epoll_ctl lc) interest r h1 [] ?h" by (rule cancel_all_moves [OF k(1) fd(1)])
      from cancelAll_clears [OF libc_calm(11,12) [OF assms(2)] i1 fd] k(1)
      have "io_inv interest tick io'" "watched (m_fdContexts io') fd = None" by auto
      with shut [OF k(2)] have "moves (lc_epoll_ctl lc) interest r ?h (own_wait c pr ?h) h'"
        by (auto intro: calm_first [OF calm_refl, of "h1\<lparr>hk_io := io', hk_fds := fds\<rparr>"])
      from moves_quiet(1) [OF m this] show "moves (lc_epoll_ctl lc) interest r h1 (own_wait c pr h1) h'"
        by (simp add: own_wait_def moves_waiter [OF m] split: progress.splits)
    qed
  qed
qed

text \<open>The calls that only ask the system.\<close>

lemma fcntl_sys_calm:
  assumes "fcntl_sys lc fd cmd a h = Inr (n, h')" "libc_ok interest lc"
  shows "calm_step interest h h'"
proof -
  have "h' = set_world (snd (lc_fcntl lc (hk_world h) fd cmd a)) h" using assms(1) by (auto simp: fcntl_sys_def split: prod.splits)
  then show ?thesis using calm_world libc_calm(1) [OF assms(2)] by metis
qed

lemma fcntl_put_calm:
  "fcntl_sys lc fd cmd a (put_fd fd x h) = Inr (n, h') \<Longrightarrow> libc_ok interest lc \<Longrightarrow> calm_step interest h h'"
  using calm_trans [OF calm_refl [of "put_fd fd x h"] fcntl_sys_calm] by (simp add: put_fd_def)

lemma fcntl_calm:
  assumes "hook_fcntl lc fd cmd va h = Inr (n, h')" "libc_ok interest lc"
  shows "calm_step interest h h'"
proof -
  have q: "calm_step interest g g'" if "fd_get lc fd False g = Inr (ctx, g')" for ctx g g'
    by (rule fd_get_calm(1) [OF that libc_calm(1) [OF assms(2)]])
  consider "cmd = F_SETFL" | "cmd = F_GETFL" | "cmd \<noteq> F_SETFL" "cmd \<noteq> F_GETFL" by blast
  then show ?thesis
  proof cases
    case 1
    then obtain arg ctx h1 where "fd_get lc fd False h = Inr (ctx, h1)" and
      "(case virtual ctx of None \<Rightarrow> fcntl_sys lc fd cmd (Int_Arg arg) h1
        | Some ctx \<Rightarrow>
              let ctx = ctx\<lparr>m_userNonblock := arg AND O_NONBLOCK \<noteq> 0\<rparr>;
                  arg = (if m_sysNonblock ctx then arg OR O_NONBLOCK else arg AND NOT O_NONBLOCK)
              in fcntl_sys lc fd cmd (Int_Arg arg) (put_fd fd ctx h1)) = Inr (n, h')"
      using assms(1) by (auto simp: hook_fcntl_def rbind_eq_Inr)
    then show ?thesis using calm_trans [OF q] fcntl_sys_calm [OF _ assms(2)] fcntl_put_calm [OF _ assms(2)]
      by (cases "virtual ctx") (auto simp: Let_def)
  next
    case 2
    then obtain arg h1 ctx h2 where "fcntl_sys lc fd cmd No_Arg h = Inr (arg, h1)" "fd_get lc fd False h1 = Inr (ctx, h2)" "h' = h2"
      using assms(1) by (auto simp: hook_fcntl_def rbind_eq_Inr F_GETFL_def F_SETFL_def split: option.splits if_splits)
    then show ?thesis using calm_trans [OF fcntl_sys_calm [OF _ assms(2)] q] by blast
  next
    case 3
    then have "\<exists>a. fcntl_sys lc fd cmd a h = Inr (n, h')"
      using assms(1) by (auto simp: hook_fcntl_def rbind_eq_Inr split: if_splits)
    then show ?thesis using fcntl_sys_calm [OF _ assms(2)] by blast
  qed
qed

lemma ioctl_calm:
  assumes "hook_ioctl lc c fd request a h = Inr (pr, h')" "libc_ok interest lc"
  shows "(\<exists>n. pr = Done n) \<and> calm_step interest h h'"
proof -
  note f = libc_calm(7) [OF assms(2), of fd request a]
  have q: "(\<exists>n. pr = Done n) \<and> calm_step interest g h'"
    if "passes (hc_tid c) (ioctl_f lc fd request a) (put_fd fd x g) = Inr (pr, h')" for x g
    using passes_calm [OF that f] calm_trans [OF calm_refl [of "put_fd fd x g"]] by (simp add: put_fd_def)
  show ?thesis
  proof (cases "FIONBIO = request")
    case False
    then show ?thesis using assms(1) passes_calm [OF _ f] by (simp add: hook_ioctl_def)
  next
    case True
    then obtain ctx h1 where g: "fd_get lc fd False h = Inr (ctx, h1)" using assms(1) by (auto simp: hook_ioctl_def rbind_eq_Inr)
    have c1: "calm_step interest h h1" by (rule fd_get_calm(1) [OF g libc_calm(1) [OF assms(2)]])
    have "(\<exists>n. pr = Done n) \<and> calm_step interest h1 h'"
      using assms(1) True g passes_calm [OF _ f] q by (cases "virtual ctx") (auto simp: hook_ioctl_def)
    then show ?thesis using calm_trans [OF c1] by blast
  qed
qed

lemma setsockopt_calm:
  assumes "hook_setsockopt lc c fd level optname v h = Inr (pr, h')" "libc_ok interest lc"
  shows "(\<exists>n. pr = Done n) \<and> calm_step interest h h'"
proof -
  note f = libc_calm(9) [OF assms(2), of fd level optname v]
  have q: "(\<exists>n. pr = Done n) \<and> calm_step interest g h'"
    if "passes (hc_tid c) (setsockopt_f lc fd level optname v) (put_fd fd x g) = Inr (pr, h')" for x g
    using passes_calm [OF that f] calm_trans [OF calm_refl [of "put_fd fd x g"]] by (simp add: put_fd_def)
  show ?thesis
  proof (cases "hooks.t_hook_enable h (hc_tid c) \<and> level = SOL_SOCKET \<and> (optname = SO_RCVTIMEO \<or> optname = SO_SNDTIMEO)")
    case False
    then show ?thesis using assms(1) passes_calm [OF _ f] by (auto simp: hook_setsockopt_def Let_def split: if_splits)
  next
    case True
    then obtain ctx h1 where g: "fd_get lc fd False h = Inr (ctx, h1)"
      using assms(1) by (auto simp: hook_setsockopt_def Let_def rbind_eq_Inr split: if_splits)
    have c1: "calm_step interest h h1" by (rule fd_get_calm(1) [OF g libc_calm(1) [OF assms(2)]])
    have "(\<exists>n. pr = Done n) \<and> calm_step interest h1 h'"
      using assms(1) True g passes_calm [OF _ f] q
      by (cases ctx; cases v) (auto simp: hook_setsockopt_def Let_def split: if_splits)
    then show ?thesis using calm_trans [OF c1] by blast
  qed
qed

lemma socket_calm:
  assumes "hook_socket lc c d t p h = Inr (pr, h')" "libc_ok interest lc"
  shows "(\<exists>n. pr = Done n) \<and> calm_step interest h h'"
proof (cases "hooks.t_hook_enable h (hc_tid c)")
  case False
  then show ?thesis using assms(1) passes_calm [OF _ libc_calm(5) [OF assms(2)]] by (simp add: hook_socket_def)
next
  case True
  obtain fd h1 where f: "sys_call (hc_tid c) (socket_f lc d t p) h = (fd, h1)" by fastforce
  have c1: "calm_step interest h h1" by (rule sys_call_calm [OF f libc_calm(5) [OF assms(2)]])
  have "pr = Done fd \<and> (h' = h1 \<or> (\<exists>ctx. fd_get lc fd True h1 = Inr (ctx, h')))"
    using assms(1) True f by (auto simp: hook_socket_def rbind_eq_Inr split: if_splits)
  then show ?thesis using c1 calm_trans [OF c1 fd_get_calm(1) [OF _ libc_calm(1) [OF assms(2)]]] by blast
qed

text \<open>The callback of a timer.\<close>

lemma run_closure_moves:
  assumes "run_closure lc cl h = Inr h'" "\<And>tinfo fd event. cl = Io_Timeout tinfo fd event \<Longrightarrow> 0 \<le> fd \<and> is_event event"
  shows "hk_closures h' = hk_closures h \<and>
    moves (lc_epoll_ctl lc) interest r h (case cl of Wake f \<Rightarrow> [Task (Submit (fibre_task f))] | _ \<Rightarrow> []) h'"
proof (cases cl)
  case (Wake f)
  then show ?thesis using assms(1) own_schedule_moves by (auto simp: run_closure_def fibre_task_def)
next
  case (Io_Timeout tinfo fd event)
  show ?thesis
  proof (cases "hk_infos h tinfo = Some 0")
    case False
    then have "h' = h" using assms(1) Io_Timeout by (auto simp: run_closure_def split: option.splits if_splits)
    then show ?thesis using Io_Timeout by (simp add: moves_refl)
  next
    case True
    let ?h = "h\<lparr>hk_infos := (hk_infos h)(tinfo \<mapsto> ETIMEDOUT)\<rparr>"
    obtain b io' where c: "cancelEvent (lc_epoll_ctl lc) fd event (hk_io ?h) = Inr (b, io')" "h' = ?h\<lparr>hk_io := io'\<rparr>"
      using assms(1) Io_Timeout True by (auto simp: run_closure_def rbind_eq_Inr Let_def)
    have "moves (lc_epoll_ctl lc) interest r h [] ?h" by (simp add: moves_refl)
    from moves_quiet(1) [OF this cancel_event_moves [OF c(1)]] assms(2) [OF Io_Timeout] c(2) Io_Timeout show ?thesis by simp
  qed
qed

lemma run_closures_moves:
  "run_closures lc ks h = Inr h' \<Longrightarrow> closures_ok h \<Longrightarrow>
   moves (lc_epoll_ctl lc) interest r h (map (\<lambda>f. Task (Submit (fibre_task f))) (woken h ks)) h'"
proof (induction ks arbitrary: h)
  case Nil
  then show ?case by (simp add: woken_def map_filter_simps moves_refl)
next
  case (Cons k ks)
  then obtain h1 where 1: "(case hk_closures h k of None \<Rightarrow> Inr h | Some cl \<Rightarrow> run_closure lc cl h) = Inr h1"
    "run_closures lc ks h1 = Inr h'" by (auto simp: rbind_eq_Inr)
  let ?v = "map (\<lambda>f. Task (Submit (fibre_task f))) (woken h [k])"
  have m: "hk_closures h1 = hk_closures h \<and> moves (lc_epoll_ctl lc) interest r h ?v h1"
  proof (cases "hk_closures h k")
    case None
    then show ?thesis using 1(1) by (simp add: woken_def map_filter_simps moves_refl)
  next
    case (Some cl)
    then show ?thesis using 1(1) run_closure_moves [of lc cl h h1 interest r] Cons.prems(2)
      by (cases cl) (auto simp: closures_ok_def woken_def map_filter_simps)
  qed
  then have "closures_ok h1" "woken h1 ks = woken h ks" using Cons.prems(2) by (simp_all add: closures_ok_def woken_def)
  with Cons.IH [OF 1(2)] have "moves (lc_epoll_ctl lc) interest r h1 (map (\<lambda>f. Task (Submit (fibre_task f))) (woken h ks)) h'" by simp
  from moves_trans [OF conjunct2 [OF m] this] show ?case
    by (simp add: woken_def map_filter_simps split: option.split_asm)
qed

section \<open>The refinement\<close>

definition pg_inv :: "('w \<Rightarrow> int \<Rightarrow> u32 option) \<Rightarrow> int \<Rightarrow> nat \<Rightarrow> 'w program \<Rightarrow> bool" where
  "pg_inv interest tick own p \<longleftrightarrow>
     rt_inv interest tick own (pg_run p) \<and> hk_io (pg_hooks p) = rt_io (pg_run p) \<and> closures_ok (pg_hooks p)"

lemma quiet_moves: "(\<exists>n. pr = Done n) \<and> calm_step interest h h' \<Longrightarrow> moves ep interest r h (own_wait c pr h) h'"
  by (auto intro: done_moves)

lemma passes_quiet: "passes tid f h = Inr (pr, h') \<Longrightarrow> calm interest f \<Longrightarrow> moves ep interest r h [] h'"
  by (auto dest: passes_calm intro: calm_moves)

lemma sleep_world: "libc_ok interest lc \<Longrightarrow> sleep_f lc n (hk_world h) = (m, w) \<Longrightarrow> moves ep interest r h [] (set_world w h)"
  by (metis calm_moves calm_world libc_calm(2) snd_conv)

lemma perform_moves:
  assumes "perform lc c k h = Inr (pr, h')" "libc_ok interest lc" "io_inv interest tick (hk_io h)" "closures_ok h"
    and "call_ok interest tick c k h" "hc_timer c \<notin> set (m_live (timers_of h))"
  shows "moves (lc_epoll_ctl lc) interest r h (hands_in c k pr h) h'"
proof (cases k)
  case (Sleep n)
  then show ?thesis using assms(1) sleep_for_moves [OF _ assms(6)] sleep_world [OF assms(2)]
    by (auto simp: hook_sleep_def split: if_splits prod.splits)
next
  case (Usleep n)
  then show ?thesis using assms(1) sleep_for_moves [OF _ assms(6)] passes_quiet [OF _ libc_calm(3) [OF assms(2)]]
    by (auto simp: hook_usleep_def split: if_splits)
next
  case (Nanosleep s n)
  then show ?thesis using assms(1) sleep_for_moves [OF _ assms(6)] passes_quiet [OF _ libc_calm(4) [OF assms(2)]]
    by (auto simp: hook_nanosleep_def split: if_splits)
next
  case Slept
  then show ?thesis using assms(1) by (auto simp: sleep_resume_def own_wait_def moves_refl)
next
  case (Make_Socket d t p)
  then show ?thesis using assms(1) quiet_moves [OF socket_calm [OF _ assms(2)]] by simp
next
  case (Connect fd adr)
  then show ?thesis using assms(1) connect_moves [OF _ assms(2,6)] by (simp add: hook_connect_def)
next
  case (Connect_Resumed fd tinfo timer)
  then show ?thesis using assms(1,5) connect_resume_moves [OF _ assms(2)] by simp
next
  case (Accept f fd)
  then obtain p0 h1 where 1: "do_io lc c f fd READ SO_RCVTIMEO h = Inr (p0, h1)" "accept_finish lc (p0, h1) = Inr (pr, h')"
    using assms(1) by (auto simp: hook_accept_def rbind_eq_Inr)
  from accept_moves [OF 1(2) assms(2) do_io_moves [OF 1(1) assms(2) _ _ assms(6)]] Accept assms(5) show ?thesis
    by (simp add: is_event_def)
next
  case (Accept_Resumed f fd to tinfo timer)
  then obtain p0 h1 where 1: "do_io_resume lc c f fd READ to tinfo timer h = Inr (p0, h1)" "accept_finish lc (p0, h1) = Inr (pr, h')"
    using assms(1) by (auto simp: rbind_eq_Inr)
  from accept_moves [OF 1(2) assms(2) do_io_resume_moves [OF 1(1) _ _ _ _ assms(6)]] Accept_Resumed assms(5) show ?thesis
    by (simp add: is_event_def)
next
  case (Transfer f fd event so)
  then show ?thesis using assms(1,5) do_io_moves [OF _ assms(2) _ _ assms(6)] by simp
next
  case (Transfer_Resumed f fd event to tinfo timer)
  then show ?thesis using assms(1,5) do_io_resume_moves [OF _ _ _ _ _ assms(6)] by simp
next
  case (Close fd)
  then show ?thesis using assms(1) close_moves [OF _ assms(2,3)] assms(5) by simp
next
  case (Fcntl fd cmd a)
  then obtain n where "hook_fcntl lc fd cmd a h = Inr (n, h')" "pr = Done (sint n)" using assms(1) by (auto simp: rbind_eq_Inr)
  then show ?thesis using Fcntl done_moves [OF _ fcntl_calm [OF _ assms(2)]] by simp
next
  case (Ioctl fd request a)
  then show ?thesis using assms(1) quiet_moves [OF ioctl_calm [OF _ assms(2)]] by simp
next
  case (Getsockopt fd level optname)
  then obtain n v where "hook_getsockopt lc c fd level optname h = (n, v, h')" "pr = Done n"
    using assms(1) by (auto split: prod.splits)
  then show ?thesis using Getsockopt done_moves [OF _ getsockopt_calm [OF _ assms(2)]] by simp
next
  case (Setsockopt fd level optname v)
  then show ?thesis using assms(1) quiet_moves [OF setsockopt_calm [OF _ assms(2)]] by simp
next
  case (Timer_Callback cb)
  then show ?thesis using assms(1,4) run_closures_moves [of lc "run_callback (\<lambda>p. hk_infos h p \<noteq> None) cb" h h' interest r]
    by (auto simp: fire_timer_def rbind_eq_Inr)
qed

lemma put_io_same: "rt_inv interest tick own r \<Longrightarrow> put_io (rt_io r) r = r"
  by (simp add: put_io_def rt_inv_def)

lemma pg_step_open:
  assumes "pg_step lc interest tick p vs p'" "libc_ok interest lc" "pg_inv interest tick own p"
  shows "(\<exists>tr. open_run (lc_epoll_ctl lc) interest (pg_run p) tr (pg_run p') \<and> visible tr = vs) \<and> pg_inv interest tick own p'"
  using assms
proof cases
  case (p_runtime a r')
  have "open_run (lc_epoll_ctl lc) interest (pg_run p) [a] r'" using o_step [OF o_nil p_runtime(3)] by simp
  moreover have "rt_inv interest tick own r'"
    using rt_step_inv [OF p_runtime(3) libc_calm(11) [OF assms(2)]] assms(3) by (simp add: pg_inv_def)
  ultimately show ?thesis using p_runtime(1,2) assms(3) by (auto simp: pg_inv_def put_run_def visible_def closures_ok_def)
next
  case (p_call c k pr h')
  have i: "rt_inv interest tick own (pg_run p)" "hk_io (pg_hooks p) = rt_io (pg_run p)" "closures_ok (pg_hooks p)"
    using assms(3) by (simp_all add: pg_inv_def)
  have io: "io_inv interest tick (hk_io (pg_hooks p))" using i(1,2) by (simp add: rt_inv_def)
  from perform_moves [OF p_call(5) assms(2) io i(3) p_call(3,4), of "pg_run p"] obtain tr where
    tr: "open_run (lc_epoll_ctl lc) interest (pg_run p) tr (put_io (hk_io h') (pg_run p))" "visible tr = vs" "closures_ok h'"
    using i p_call(1) put_io_same [OF i(1)] by (auto simp: moves_def)
  with open_run_inv [OF tr(1) libc_calm(11) [OF assms(2)] i(1)] show ?thesis
    using p_call(2) by (auto simp: pg_inv_def put_hooks_def)
qed

lemma pg_runs_open:
  assumes "pg_runs lc interest tick p vs p'" "libc_ok interest lc" "pg_inv interest tick own p"
  shows "(\<exists>tr. open_run (lc_epoll_ctl lc) interest (pg_run p) tr (pg_run p') \<and> visible tr = vs) \<and> pg_inv interest tick own p'"
  using assms
proof (induction rule: pg_runs.induct)
  case (pg_nil p)
  then show ?case by (auto intro!: exI [of _ "[]"] o_nil)
next
  case (pg_snoc p vs p'' ws p')
  then obtain tr where tr: "open_run (lc_epoll_ctl lc) interest (pg_run p) tr (pg_run p'')" "visible tr = vs"
    and i: "pg_inv interest tick own p''" by blast
  from pg_step_open [OF pg_snoc(2,4) i] obtain tr' where
    "open_run (lc_epoll_ctl lc) interest (pg_run p'') tr' (pg_run p')" "visible tr' = ws" "pg_inv interest tick own p'" by blast
  then show ?case using open_trans [OF _ tr(1)] tr(2) by (auto intro!: exI [of _ "tr @ tr'"])
qed

definition Program_new :: "sys \<Rightarrow> (nat \<Rightarrow> timer) \<Rightarrow> u64 \<Rightarrow> 'w \<Rightarrow> 'w hooks \<Rightarrow> 'w program" where
  "Program_new w heap now wld h =
     \<lparr>pg_run = Runtime_new w heap now wld, pg_hooks = h\<lparr>hk_io := rt_io (Runtime_new w heap now wld), hk_closures := Map.empty\<rparr>\<rparr>"

lemma Program_new_inv:
  assumes "interest wld tick \<noteq> None" "\<And>fd. 0 \<le> fd \<Longrightarrow> fd \<noteq> tick \<Longrightarrow> interest wld fd = None" "sched_start w"
  shows "pg_inv interest tick (m_this (sch w)) (Program_new w heap now wld h)"
  using Runtime_new_inv [of interest wld tick w, OF assms] by (simp add: pg_inv_def Program_new_def closures_ok_def)

text \<open>A program whose first step is a call that waits.\<close>

definition demo_program :: "(int \<Rightarrow> u32 option) program" where
  "demo_program = Program_new (quiet\<lparr>sch := one_sched\<rparr>) (\<lambda>_. Timer_at 0) 0 [9 \<mapsto> EPOLLIN OR EPOLLET] demo_hooks"

lemma demo_program_hooks: "pg_hooks demo_program = demo_hooks"
  by (simp add: demo_program_def Program_new_def Runtime_new_def demo_hooks_def fresh_io_def)

lemma demo_libc_ok: "libc_ok (\<lambda>w. w) demo_libc"
  using demo_epoll by (simp add: libc_ok_def calm_def after_def) (simp add: demo_libc_def)

lemma demo_program_run:
  "\<exists>p. pg_runs demo_libc (\<lambda>w. w) 9 demo_program [Await (fibre_waiter demo_caller demo_hooks)] p \<and>
     waits demo_caller 5 READ 50 6 (Some 4) (pg_hooks p)"
proof -
  let ?k = "Transfer (\<lambda>w. (- 1, EAGAIN, w)) 5 READ SO_RCVTIMEO :: (int \<Rightarrow> u32 option) hook_call"
  obtain h3 where h3: "perform demo_libc demo_caller ?k (pg_hooks demo_program) = Inr (Wait (Some 4), h3)"
    "waits demo_caller 5 READ 50 6 (Some 4) h3" using demo_call by (auto simp: demo_program_hooks)
  have "pg_step demo_libc (\<lambda>w. w) 9 demo_program (hands_in demo_caller ?k (Wait (Some 4)) (pg_hooks demo_program)) (put_hooks h3 demo_program)"
    by (rule p_call [OF _ _ h3(1)]) (simp_all add: demo_program_hooks demo_live calm_def after_def is_event_def)
  from pg_snoc [OF pg_nil this] h3(2) show ?thesis
    by (auto simp: demo_program_hooks own_wait_def put_hooks_def)
qed





section \<open>Sleeping\<close>

text \<open>The timer of a sleeping call, as the call left it.\<close>

definition still_asleep :: "caller \<Rightarrow> 'w hooks \<Rightarrow> 'w hooks \<Rightarrow> bool" where
  "still_asleep c h1 h \<longleftrightarrow> hc_timer c \<in> set (m_timers (timers_of h)) \<and>
     m_heap (timers_of h) (hc_timer c) = m_heap (timers_of h1) (hc_timer c) \<and>
     hk_closures h (hc_fun c) = hk_closures h1 (hc_fun c)"

lemma sleep_for_spec:
  assumes "sleep_for c ms g = Inr (pr, h1)" "tm_inv (timers_of g)" "hc_timer c \<notin> set (m_live (timers_of g))"
  shows "pr = Wait (Some (hc_timer c))" "still_asleep c h1 h1" "hk_closures h1 (hc_fun c) = Some (Wake (hc_fibre c))"
    "m_heap (timers_of h1) (hc_timer c) = Timer_new (hc_now c) ms (Some (Function (hc_fun c))) False"
proof -
  let ?h = "put_closure (hc_fun c) (Wake (hc_fibre c)) g"
    and ?x = "addTimer (hc_now c) (hc_timer c) ms (Some (Function (hc_fun c))) False (timers_of g)"
  have 1: "with_timers c ?x ?h = Inr h1" "pr = Wait (Some (hc_timer c))"
    using assms(1) by (auto simp: sleep_for_def timers_of_def put_closure_def rbind_eq_Inr split: if_splits)
  then have "timers_of h1 = snd ?x" "hk_closures h1 = hk_closures ?h"
    by (auto simp: with_timers_timers with_timers_def rbind_eq_Inr Let_def split: prod.splits)
  then show "pr = Wait (Some (hc_timer c))" "still_asleep c h1 h1" "hk_closures h1 (hc_fun c) = Some (Wake (hc_fibre c))"
    "m_heap (timers_of h1) (hc_timer c) = Timer_new (hc_now c) ms (Some (Function (hc_fun c))) False"
    using 1(2) addTimer_effect [OF assms(2,3)] by (simp_all add: still_asleep_def put_closure_def)
qed



end
