(* ===== verification/Idle_Exit.thy ===== *)
theory Idle_Exit
  imports Runtime_Props
begin

text \<open>
  When the end of an idle loop is the end of the work (\<open>src/concurrency/iomanager.cc\<close>).  The loop ends after three tests, one
  after the other: no timer, no pending event, nothing in the scheduler.  Between them other threads run on; what they may not do
  for the answer to be right is to arm a timer or to register an event.
\<close>

section \<open>Calm executions\<close>

text \<open>A client's operation on the timers that arms one.\<close>

fun arms :: "timer_op \<Rightarrow> bool" where
  "arms (AddTimer now p ms cb recurring) = True"
| "arms (AddConditionTimer now p ms cb weak_cond recurring) = True"
| "arms op = False"

definition arming :: "'w runtime \<Rightarrow> 'w runtime \<Rightarrow> bool" where
  "arming r r' \<longleftrightarrow> (\<exists>op b tm. arms op \<and> exec_op op (io_timers (rt_io r)) = Inr (b, tm) \<and> r' = put_io ((rt_io r)\<lparr>io_timers := tm\<rparr>) r)"

text \<open>Any other step: of the scheduler, of an idle loop in any thread, cancelling and deleting events and timers, also refreshing
  and resetting timers.\<close>

definition calm :: "'w epoll \<Rightarrow> 'w runtime \<Rightarrow> 'w runtime \<Rightarrow> bool" where
  "calm ep r r' \<longleftrightarrow> (\<exists>a. rt_step ep r a r' \<and> (\<forall>w. a \<noteq> Await w)) \<and> \<not> arming r r'"

lemma rt_run_append: "rt_run ep r' tr' r'' \<Longrightarrow> rt_run ep r tr r' \<Longrightarrow> rt_run ep r (tr @ tr') r''"
proof (induction rule: rt_run.induct)
  case (rt_snoc r0 tr0 r2 a r3)
  from rt_run.rt_snoc [OF rt_snoc.IH [OF rt_snoc.prems] rt_snoc.hyps(2)] show ?case by simp
qed simp

lemma calm_run: "(calm ep)\<^sup>*\<^sup>* r r' \<Longrightarrow> \<exists>tr. rt_run ep r tr r'"
proof (induction rule: rtranclp_induct)
  case (step r' r'')
  then show ?case unfolding calm_def by (blast intro: rt_snoc)
qed (blast intro: rt_nil)

section \<open>What calm executions keep\<close>

text \<open>Without timers nothing but a new one arms anything: \<open>refresh\<close> and \<open>reset\<close> find no timer, no recurring one expires.\<close>

lemma no_timer_op:
  assumes "client_op op" "\<not> arms op" "m_timers tm = []" "exec_op op tm = Inr (b, tm')"
  shows "m_timers tm' = []"
proof (cases op)
  case (Cancel p)
  then have "\<exists>b'. cancel p tm = Inr (b', tm')" using assms(4) by (auto simp: rbind_eq_Inr)
  then show ?thesis using assms(3)
    by (auto simp: cancel_def eraseTimer_def set_erase_def Let_def split: if_splits)
next
  case (Refresh now p)
  then have "\<exists>b'. refresh now p tm = Inr (b', tm')" using assms(4) by (auto simp: rbind_eq_Inr)
  then show ?thesis using assms(3) by (auto simp: refresh_def Let_def split: if_splits)
next
  case (Reset now p ms from_now)
  then have "\<exists>b' f. reset now p ms from_now tm = Inr (b', f, tm')" using assms(4) by (auto simp: rbind_eq_Inr)
  then show ?thesis using assms(3) by (auto simp: reset_def Let_def split: if_splits)
qed (use assms in \<open>auto simp: getNextTimer_def Let_def\<close>)

lemma no_timer_piece:
  assumes "m_timers (io_timers io) = []" "idle_piece ep now now q rs pc io = Inr (pc', io')"
  shows "m_timers (io_timers io') = []"
proof (cases "(ep, now, now, q, rs, pc, io)" rule: idle_piece.cases)
  case 1
  then show ?thesis using assms by (auto simp: getNextTimer_def Let_def)
next
  case (5 ep1 now1 now1' q1 rs1 es io1)
  then show ?thesis using assms by (auto simp: listExpiredCb_def)
next
  case (6 ep1 now1 now1' q1 rs1 cbs es io1)
  then show ?thesis using assms by (auto simp: own_schedule_range_def split: prod.splits)
next
  case (8 ep1 now1 now1' q1 rs1 e es io1)
  then have "handle_ready ep e io = Inr io'" using assms(2) by (auto simp: rbind_eq_Inr)
  from frame_ready [OF this] show ?thesis using assms(1) by (simp add: io_frame_def)
qed (use assms in auto)

lemma calm_timers:
  assumes "calm ep r r'" "m_timers (io_timers (rt_io r)) = []"
  shows "m_timers (io_timers (rt_io r')) = []"
proof -
  obtain a where a: "rt_step ep r a r'" "\<not> arming r r'" using assms(1) by (auto simp: calm_def)
  then show ?thesis using assms(2)
  proof (induction rule: rt_step.induct)
    case (r_timer op r b tm)
    have "\<not> arms op" using r_timer(3,4) unfolding arming_def by blast
    then show ?case using no_timer_op [OF r_timer(1) _ _ r_timer(3)] r_timer(5) by simp
  next
    case (r_tickle r io')
    then show ?case by (auto simp: tickle_io_def split: if_splits)
  next
    case (r_idle r tid l f q now rs pc' io')
    then show ?case using no_timer_piece [OF _ r_idle(5)] by simp
  next
    case (r_add event s f st fd cb r rt io')
    then show ?case using frame_add(2) [OF r_add(2)] by simp
  next
    case (r_del event fd r b io')
    then show ?case using frame_del(2) [OF r_del(2)] by simp
  next
    case (r_cancel event fd r b io')
    then show ?case using frame_cancel [OF r_cancel(3)] by (simp add: io_frame_def)
  next
    case (r_cancel_all fd r b io')
    then show ?case using frame_cancel_all [OF r_cancel_all(2)] by (simp add: io_frame_def)
  qed simp_all
qed

text \<open>A step that brings no waiter in leaves a table without waiters empty.\<close>

lemma settled:
  assumes "acct io + a = acct io' + d" "a = {#}" "delivered io \<subseteq># delivered io'" "waiters io = {#}"
  shows "waiters io' = {#}"
proof -
  have "size (waiters io') + size (delivered io') \<le> size (delivered io)"
    using arg_cong [OF assms(1), of size] assms(2,4) by (simp add: acct_def)
  then have "size (waiters io') = 0" using size_mset_mono [OF assms(3)] by linarith
  then show ?thesis by simp
qed

lemma calm_waiters:
  assumes "calm ep r r'" "epoll_ok ep interest" "rt_inv interest tick own r" "waiters (rt_io r) = {#}"
  shows "waiters (rt_io r') = {#}"
proof -
  obtain a where "rt_step ep r a r'" "\<forall>w. a \<noteq> Await w" using assms(1) by (auto simp: calm_def)
  then show ?thesis using assms(2-4)
  proof (induction rule: rt_step.induct)
    case (r_add event s f st fd cb r rt io')
    have "rt \<noteq> 0" using r_add(3) by metis
    have "io_inv interest tick (rt_io r)" using r_add(5) by (simp add: rt_inv_def)
    from addEvent_inv [OF r_add(4) this r_add(1,2)] \<open>rt \<noteq> 0\<close> have "acct io' = acct (rt_io r)" by simp
    then show ?case using settled [of "rt_io r" "{#}" io' "{#}"] r_add(6) frame_add [OF r_add(2)] by (simp add: delivered_def)
  next
    case (r_del event fd r b io')
    have io: "io_inv interest tick (rt_io r)" using r_del(5) by (simp add: rt_inv_def)
    from delEvent_inv [OF r_del(4) io r_del(1,2)] show ?case
      using settled [of "rt_io r" "{#}" io'] r_del(6) frame_del [OF r_del(2)] by (auto simp: delivered_def)
  next
    case (r_cancel event fd r b io')
    have io: "io_inv interest tick (rt_io r)" using r_cancel(6) by (simp add: rt_inv_def)
    from cancelEvent_inv [OF r_cancel(5) io r_cancel(1,2)] r_cancel(3) have "acct io' = acct (rt_io r)" by simp
    then show ?case using settled [of "rt_io r" "{#}" io' "{#}"] r_cancel(7) frame_cancel [OF r_cancel(3)] by (simp add: io_frame_def)
  next
    case (r_cancel_all fd r b io')
    have io: "io_inv interest tick (rt_io r)" using r_cancel_all(5) by (simp add: rt_inv_def)
    from cancelAll_inv [OF r_cancel_all(4) io r_cancel_all(1)] r_cancel_all(2) have "acct io' = acct (rt_io r)" by simp
    then show ?case using settled [of "rt_io r" "{#}" io' "{#}"] r_cancel_all(6) frame_cancel_all [OF r_cancel_all(2)]
      by (simp add: io_frame_def)
  next
    case (r_timer op r b tm)
    then show ?case by (simp add: waiters_def)
  next
    case (r_tickle r io')
    then show ?case by (auto simp: tickle_io_def waiters_def split: if_splits)
  next
    case (r_idle r tid l f q now rs pc' io')
    have io: "io_inv interest tick (rt_io r)" using r_idle(8) by (simp add: rt_inv_def)
    have "waiters io' = {#}"
    proof (cases "(ep, now, now, q, rs, rt_idle r tid, rt_io r)" rule: idle_piece.cases)
      case (8 ep1 now1 now1' q1 rs1 e es io1)
      then have h: "handle_ready ep e (rt_io r) = Inr io'" using r_idle(5) by (auto simp: rbind_eq_Inr)
      from handle_ready_inv [OF r_idle(7) io h] frame_ready [OF h] r_idle(9) show ?thesis
        using settled [of "rt_io r" "{#}" io' "{#}"] by (simp add: io_frame_def)
    qed (use r_idle(5,9) in \<open>auto simp: waiters_def own_schedule_range_def split: prod.splits\<close>)
    then show ?case by simp
  qed simp_all
qed

lemma calm_keeps:
  assumes "(calm ep)\<^sup>*\<^sup>* r r'" "epoll_ok ep interest" "rt_inv interest tick own r"
  shows "rt_inv interest tick own r' \<and> (m_timers (io_timers (rt_io r)) = [] \<longrightarrow> m_timers (io_timers (rt_io r')) = []) \<and>
    (waiters (rt_io r) = {#} \<longrightarrow> waiters (rt_io r') = {#})"
  using assms(1)
proof (induction rule: rtranclp_induct)
  case (step r' r'')
  then have i: "rt_inv interest tick own r'" by simp
  from step(2) obtain a where "rt_step ep r' a r''" by (auto simp: calm_def)
  from rt_step_inv [OF this assms(2) i] have "rt_inv interest tick own r''" by simp
  then show ?case using step calm_timers calm_waiters [OF step(2) assms(2) i] by blast
qed (use assms(3) in simp)

section \<open>The three tests\<close>

text \<open>A timeout of all ones means that there is no timer, as long as deadlines are below \<open>2 ^ 63\<close> ms.\<close>

lemma first_test:
  assumes "idle_piece ep now now' q rs At_Top io = Inr (At_Pending timeout, io')"
    and "\<forall>p \<in> set (m_timers (io_timers io)). t_next (m_heap (io_timers io) p) < 2 ^ 63"
  shows "m_timers (io_timers io) = []"
proof (rule ccontr)
  assume "m_timers (io_timers io) \<noteq> []"
  then obtain p ps where p: "m_timers (io_timers io) = p # ps" by (cases "m_timers (io_timers io)") auto
  let ?n = "t_next (m_heap (io_timers io) p)"
  have d: "unat ?n < 2 ^ 63" using assms(2) p by (simp add: word_less_nat_alt)
  have n: "\<not> now \<ge> ?n" "?n - now = - 1"
    using assms(1) p by (auto simp: getNextTimer_def Let_def split: if_splits)
  have "unat (- 1 :: u64) = 2 ^ 64 - 1" by (simp add: unsigned_minus_1_eq_mask mask_eq_exp_minus_1)
  moreover have "unat (?n - now) = unat ?n - unat now" using n(1) by (intro unat_sub) simp
  ultimately show False using d n(2) by simp
qed

text \<open>C9: When an idle loop ends and no timer was armed and no event registered between its three tests, whatever else the other
  threads did, then the work is done: no timer is armed, nobody waits for an event, no task is queued and no thread holds one; what
  is still inside went to another scheduler or is in another idle loop that is about to schedule it.\<close>

theorem idle_exit_complete:
  assumes "epoll_ok ep interest" "interest wld tick \<noteq> None" "\<And>fd. 0 \<le> fd \<Longrightarrow> fd \<noteq> tick \<Longrightarrow> interest wld fd = None"
    and "sched_start w" "rt_run ep (Runtime_new w heap now0 wld) tr r"
    and "\<forall>p \<in> set (m_timers (io_timers (rt_io r))). t_next (m_heap (io_timers (rt_io r)) p) < 2 ^ 63"
    and "idle_piece ep now now q rs At_Top (rt_io r) = Inr (At_Pending timeout, io)"
    and "(calm ep)\<^sup>*\<^sup>* r r1" "size (waiters (rt_io r1)) < 2 ^ 64"
    and "idle_piece ep now1 now1 q1 rs1 (At_Pending timeout) (rt_io r1) = Inr (At_Sched timeout, io1)"
    and "(calm ep)\<^sup>*\<^sup>* r1 r2" "card (dom (loc (rt_sys r2))) < 2 ^ 64"
    and "idle_piece ep now2 now2 q2 rs2 (At_Sched timeout) (rt_io r2) = Inr (Left, io2)"
  shows "m_timers (io_timers (rt_io r2)) = [] \<and> waiters (rt_io r2) = {#} \<and> m_fibres (sch (rt_sys r2)) = [] \<and>
    threads_at busy (loc (rt_sys r2)) = {} \<and>
    content_of (m_this (sch w)) r2 = mset (io_foreign (rt_io r2)) + all_in_flight (m_this (sch w)) r2"
proof -
  let ?own = "m_this (sch w)"
  have i: "rt_inv interest tick ?own r" using runtime_facts [OF assms(1-5)] by simp
  note k1 = calm_keeps [OF assms(8,1) i]
  note k2 = calm_keeps [OF assms(11,1) conjunct1 [OF k1]]
  have t: "m_timers (io_timers (rt_io r2)) = []" using k1 k2 first_test [OF assms(7,6)] by simp
  have "m_pendingEventCount (rt_io r1) = 0" using assms(10) by (simp split: if_splits)
  then have "size (waiters (rt_io r1)) = 0"
    using k1 assms(9) by (auto simp: rt_inv_def io_inv_def tab_inv_def word_of_nat_eq_0_iff dest: dvd_imp_le)
  then have w: "waiters (rt_io r2) = {#}" using k2 by simp
  obtain tr' where "rt_run ep (Runtime_new w heap now0 wld) tr' r2"
    using rt_run_append [OF _ rt_run_append [OF _ assms(5)]] calm_run [OF assms(8)] calm_run [OF assms(11)] by blast
  from idle_exit_is_quiet [OF assms(1-4) this assms(12,13)]
  have q: "m_fibres (sch (rt_sys r2)) = []" "threads_at busy (loc (rt_sys r2)) = {}" by simp_all
  have "content_of ?own r2 = mset (io_foreign (rt_io r2)) + all_in_flight ?own r2"
    using w q k2 by (simp add: content_of_def acct_def delivered_def rt_inv_def)
  then show ?thesis using t w q by simp
qed

lemma idle_exit_complete_witness:
  "\<exists>(r :: (int \<Rightarrow> u32 option) runtime) io. idle_piece simple_epoll 5 5 1 [] (At_Sched (- 1)) (rt_io r) = Inr (Left, io) \<and>
     m_timers (io_timers (rt_io r)) = [] \<and> waiters (rt_io r) = {#}"
proof -
  let ?r = "Runtime_new quiet (\<lambda>_. Timer_at 0) 0 [9 \<mapsto> EPOLLIN OR EPOLLET] :: (int \<Rightarrow> u32 option) runtime"
  let ?w = "quiet\<lparr>sch := (sch quiet)\<lparr>m_autoStop := True, m_stopping := True\<rparr>\<rparr>"
  let ?s = "put_sys ?w ?r"
  have "sched_step (rt_sys ?r) Silent ?w" using request_stop [of quiet True] by (simp add: Runtime_new_def)
  then have r: "rt_run simple_epoll ?r [Task Silent] ?s"
    using rt_snoc [OF rt_nil r_sched, of ?r Silent ?w simple_epoll] by (simp add: idle_kept_def Runtime_new_def quiet_def)
  have tm: "m_timers (io_timers (rt_io ?s)) = []" "m_pendingEventCount (rt_io ?s) = 0"
    by (simp_all add: Runtime_new_def IOManager_new_def TimerManager_new_def put_sys_def)
  have wt: "waiters (rt_io ?s) = {#}" using waiters_resize [of "[]" 32] by (simp add: Runtime_new_def waiters_def IOManager_new_def put_sys_def)
  have 1: "\<exists>io. idle_piece simple_epoll 5 5 1 [] At_Top (rt_io ?s) = Inr (At_Pending (- 1), io)"
    using tm by (simp add: getNextTimer_def)
  have 2: "idle_piece simple_epoll 5 5 1 [] (At_Pending (- 1)) (rt_io ?s) = Inr (At_Sched (- 1), rt_io ?s)" using tm by simp
  have 3: "idle_piece simple_epoll 5 5 1 [] (At_Sched (- 1)) (rt_io ?s) = Inr (Left, rt_io ?s)" by (simp add: stopping_def quiet_def)
  have c: "card (dom (loc (rt_sys ?s))) < 2 ^ 64" by (simp add: quiet_def)
  from 1 obtain io where io: "idle_piece simple_epoll 5 5 1 [] At_Top (rt_io ?s) = Inr (At_Pending (- 1), io)" by blast
  have "m_timers (io_timers (rt_io ?s)) = [] \<and> waiters (rt_io ?s) = {#}"
    using idle_exit_complete [OF simple_epoll_ok _ _ quiet_start r _ io _ _ 2 _ c 3, of 9] tm wt by auto
  with 3 show ?thesis by blast
qed

end
