(* ===== verification/Waiting.thy ===== *)
theory Waiting
  imports Runtime_Props
begin

text \<open>
  How long a task waits (\<open>Scheduler::run\<close>, \<open>scheduleNoLock\<close>).  Tasks are appended to the queue and every search takes the first
  one that it may take, so in the whole runtime, under every interleaving, only the tasks that are before a task in the queue
  can be taken before it by a thread that may take it.
\<close>

section \<open>The place in the queue\<close>

definition within :: "task \<Rightarrow> nat \<Rightarrow> task list \<Rightarrow> bool" where
  "within t n q \<longleftrightarrow> (\<exists>pre post. q = pre @ t # post \<and> length pre \<le> n)"

lemma within_Nil [simp]: "\<not> within t n []"
  by (simp add: within_def)

lemma within_Cons [simp]: "within t n (x # q) \<longleftrightarrow> t = x \<or> (\<exists>m. n = Suc m \<and> within t m q)"
proof
  assume "within t n (x # q)"
  then obtain pre post where q: "x # q = pre @ t # post" "length pre \<le> n" by (auto simp: within_def)
  then show "t = x \<or> (\<exists>m. n = Suc m \<and> within t m q)"
    by (cases pre; cases n) (auto simp: within_def)
next
  assume "t = x \<or> (\<exists>m. n = Suc m \<and> within t m q)"
  then show "within t n (x # q)"
  proof
    assume "t = x"
    then show ?thesis unfolding within_def by (intro exI [of _ "[]"] exI [of _ q]) simp
  next
    assume "\<exists>m. n = Suc m \<and> within t m q"
    then obtain m pre post where "n = Suc m" "q = pre @ t # post" "length pre \<le> m" by (auto simp: within_def)
    then show ?thesis unfolding within_def by (intro exI [of _ "x # pre"] exI [of _ post]) simp
  qed
qed

lemma within_prefix: "within t n q \<Longrightarrow> prefix q q' \<Longrightarrow> within t n q'"
  unfolding within_def prefix_def by force

lemma within_mono: "within t m q \<Longrightarrow> m \<le> n \<Longrightarrow> within t n q"
  by (auto simp: within_def intro: le_trans)

lemma within_set: "within t n q \<Longrightarrow> t \<in> set q"
  by (auto simp: within_def)

lemma exec_test_exact: "exec_test fs it = Inr e \<Longrightarrow> e = executing fs it"
  by (auto simp: exec_test_def executing_def res_simps split: option.splits)

text \<open>What a search does to the place of a task that it does not take; and if it may take the task, it takes that or one before it.\<close>

lemma pick_within:
  "pick_loop tid fs q b = Inr (k, r, l) \<Longrightarrow> within t n q \<Longrightarrow>
   r = Some t \<or> within t n l \<and> (eligible tid fs t \<longrightarrow> r \<noteq> None \<and> 0 < n \<and> within t (n - 1) l)"
proof (induction q arbitrary: b k r l n)
  case (Cons it its)
  have IH: "r = Some t \<or> within t n (it # l') \<and> (eligible tid fs t \<longrightarrow> r \<noteq> None \<and> 0 < n \<and> within t (n - 1) (it # l'))"
    if "pick_loop tid fs its b' = Inr (k, r, l')" "\<not> eligible tid fs it" for b' l'
  proof (cases "t = it")
    case False
    then obtain m where m: "n = Suc m" "within t m its" using Cons.prems(2) by auto
    from Cons.IH [OF that(1) m(2)] show ?thesis using m(1) by (cases m) auto
  qed (use that(2) in simp)
  show ?case
  proof (cases "elsewhere tid it")
    case True
    with Cons.prems(1) obtain l' where "pick_loop tid fs its True = Inr (k, r, l')" "l = it # l'"
      by (auto simp: pick_loop_elsewhere res_simps simp del: pick_loop.simps)
    then show ?thesis using IH True by (simp add: eligible_def)
  next
    case False
    with Cons.prems(1) obtain e where e: "exec_test fs it = Inr e"
      "(if e then rbind (pick_loop tid fs its b) (\<lambda>(t, r, q). Inr (t, r, it # q))
        else Inr (b \<or> its \<noteq> [], Some it, its)) = Inr (k, r, l)"
      by (auto simp: pick_loop_here res_simps simp del: pick_loop.simps)
    show ?thesis
    proof (cases e)
      case True
      with e(2) obtain l' where "pick_loop tid fs its b = Inr (k, r, l')" "l = it # l'" by (auto simp: res_simps)
      then show ?thesis using IH True exec_test_exact [OF e(1)] by (simp add: eligible_def)
    next
      case exec: False
      then have "r = Some it" "l = its" using e(2) by auto
      then show ?thesis using Cons.prems(2) by (auto intro: within_mono)
    qed
  qed
qed simp

section \<open>The runtime\<close>

lemma run_pick_within:
  assumes "run_pick tid w = Inr (x, w')" "within t n (m_fibres (sch w))"
  shows "x = Some t \<or> within t n (m_fibres (sch w')) \<and>
    (eligible tid (fbs w) t \<longrightarrow> x \<noteq> None \<and> 0 < n \<and> within t (n - 1) (m_fibres (sch w')))"
proof -
  obtain k l where pl: "pick_loop tid (fbs w) (m_fibres (sch w)) False = Inr (k, x, l)"
    using assms(1) by (auto simp: run_pick_def res_simps Let_def)
  from pick_within [OF pl assms(2)] have "x = Some t \<or> within t n l \<and> (eligible tid (fbs w) t \<longrightarrow> x \<noteq> None \<and> 0 < n \<and> within t (n - 1) l)" .
  moreover have "x \<noteq> None \<Longrightarrow> m_fibres (sch w') = l" "x = None \<Longrightarrow> m_fibres (sch w') = m_fibres (sch w)"
    using assms(1) pl by (auto simp: run_pick_def Let_def)
  ultimately show ?thesis using assms(2) by (cases x) auto
qed

text \<open>A search by \<open>tid\<close> in a state in which \<open>tid\<close> could take the task.\<close>

definition turn :: "int \<Rightarrow> task \<Rightarrow> sys \<Rightarrow> label \<Rightarrow> bool" where
  "turn tid t w a \<longleftrightarrow> (\<exists>x. a = Start tid x) \<and> eligible tid (fbs w) t"

lemma sched_step_within:
  assumes "sched_step w a w'" "within t n (m_fibres (sch w))" "\<forall>tid'. a \<noteq> Start tid' t"
  shows "within t n (m_fibres (sch w')) \<and> (turn tid t w a \<longrightarrow> 0 < n \<and> within t (n - 1) (m_fibres (sch w')))"
  using assms
proof (induction rule: sched_step.induct)
  case (submit t' w)
  then show ?case by (auto simp: turn_def schedule_queue intro: within_prefix)
next
  case (pick_one w tid' l t' w')
  from run_pick_within [OF pick_one(3,4)] pick_one(5) show ?case by (auto simp: turn_def)
next
  case (pick_none w tid' l w')
  from run_pick_within [OF pick_none(3,4)] show ?case by (auto simp: turn_def)
next
  case (enter w tid' p q w')
  then show ?case by (auto simp: turn_def dest!: run_enter_sch)
next
  case (request_stop w b)
  then show ?case by (simp add: turn_def)
next
  case (dispatch w tid' l p w')
  then show ?case using run_dispatch_dispatched [OF dispatch(1,3)] by (auto simp: turn_def dispatched_def)
next
  case (mark w tid' l j f how p w')
  then show ?case by (auto simp: turn_def dest!: run_mark_sch)
next
  case (leaves w tid' l j f k w')
  then show ?case by (auto simp: turn_def dest!: run_leave_sch)
next
  case (came_back w tid' l j f)
  then show ?case by (simp add: turn_def run_back_def)
next
  case (after_requeue w tid' l j f w')
  from run_after_sch [OF after_requeue(1,5)] after_requeue(6) show ?case by (auto simp: turn_def intro: within_prefix)
next
  case (after w tid' l j f w')
  from run_after_sch [OF after(1,4)] after(5) show ?case by (auto simp: turn_def intro: within_prefix)
qed

definition rt_turn :: "int \<Rightarrow> task \<Rightarrow> 'w runtime \<Rightarrow> rt_label \<Rightarrow> bool" where
  "rt_turn tid t r a = (case a of Task x \<Rightarrow> turn tid t (rt_sys r) x | _ \<Rightarrow> False)"

lemma rt_step_within:
  assumes "rt_step ep r a r'" "epoll_ok ep interest" "rt_inv interest tick own r" "within t n (m_fibres (sch (rt_sys r)))"
    and "\<forall>tid'. a \<noteq> Task (Start tid' t)"
  shows "within t n (m_fibres (sch (rt_sys r'))) \<and> (rt_turn tid t r a \<longrightarrow> 0 < n \<and> within t (n - 1) (m_fibres (sch (rt_sys r'))))"
proof -
  have eq: "io_sched (rt_io r) = sch (rt_sys r)" using assms(3) by (simp add: rt_inv_def)
  have io: "within t n (m_fibres (io_sched io'))" if "sched_frame (io_sched (rt_io r)) (io_sched io')" for io' :: "'a iomanager"
    using assms(4) that eq by (auto simp: sched_frame_def intro: within_prefix)
  show ?thesis using assms(1,3,4,5) io eq
  proof (induction rule: rt_step.induct)
    case (r_sched r a w')
    from sched_step_within [OF r_sched(1,4), of tid] r_sched(5) show ?case by (simp add: rt_turn_def)
  next
    case (r_add event s f st fd cb r rt io')
    have "sched_frame (io_sched (rt_io r)) (io_sched io')" using frame_add(1) [OF r_add(2)] by simp
    with r_add(6) show ?case by (simp add: rt_turn_def)
  next
    case (r_del event fd r b io')
    have "sched_frame (io_sched (rt_io r)) (io_sched io')" using frame_del(1) [OF r_del(2)] by simp
    with r_del(6) show ?case by (simp add: rt_turn_def)
  next
    case (r_cancel event fd r b io')
    from frame_cancel [OF r_cancel(3)] r_cancel(7) show ?case by (simp add: rt_turn_def io_frame_def)
  next
    case (r_cancel_all fd r b io')
    from frame_cancel_all [OF r_cancel_all(2)] r_cancel_all(6) show ?case by (simp add: rt_turn_def io_frame_def)
  next
    case (r_timer op r b tm)
    then show ?case by (simp add: rt_turn_def)
  next
    case (r_tickle r io')
    then show ?case by (auto simp: tickle_io_def rt_turn_def split: if_splits)
  next
    case (r_idle r tid' l f q now rs pc' io')
    have "io_inv interest tick (rt_io r)" "timers_reachable (io_timers (rt_io r))" using r_idle(6) by (simp_all add: rt_inv_def)
    from piece_inv [OF assms(2) this r_idle(4,5)] r_idle(9) show ?case by (simp add: rt_turn_def fired_label_def split: idle_pc.split)
  next
    case (r_out r tid' l f how pc' p w')
    from run_mark_sch [OF r_out(4)] r_out(6) show ?case by (simp add: rt_turn_def)
  qed
qed

text \<open>An execution in which the task is not taken, with the number of those searches.\<close>

inductive passes :: "'w epoll \<Rightarrow> int \<Rightarrow> task \<Rightarrow> 'w runtime \<Rightarrow> nat \<Rightarrow> 'w runtime \<Rightarrow> bool" for ep :: "'w epoll" and tid :: int and t :: task where
  p_nil: "passes ep tid t r 0 r"
| p_snoc: "passes ep tid t r (k + (if rt_turn tid t r'' a then 1 else 0)) r'"
    if "passes ep tid t r k r''" "rt_step ep r'' a r'" "\<forall>tid'. a \<noteq> Task (Start tid' t)"

lemma passes_within:
  assumes "passes ep tid t r k r'" "epoll_ok ep interest" "rt_inv interest tick own r" "within t n (m_fibres (sch (rt_sys r)))"
  shows "rt_inv interest tick own r' \<and> k \<le> n \<and> within t (n - k) (m_fibres (sch (rt_sys r')))"
  using assms
proof (induction rule: passes.induct)
  case (p_snoc r k r'' a r')
  then have i: "rt_inv interest tick own r''" "k \<le> n" "within t (n - k) (m_fibres (sch (rt_sys r'')))" by simp_all
  from rt_step_inv [OF p_snoc(2,5) i(1)] rt_step_within [OF p_snoc(2,5) i(1,3) p_snoc(3), of tid] i(2)
  show ?case by (cases "rt_turn tid t r'' a") auto
qed simp

text \<open>C8: A task waits at most for those before it.  Under every interleaving of the whole runtime, while a task is queued a thread
  that may take it can search at most as often as there were tasks before it, until it is taken (searches during which its fibre is
  still in another thread do not count); and it cannot be missed: each such search finds a task, so the thread does not go idle.\<close>

theorem bounded_waiting:
  assumes "epoll_ok ep interest" "interest wld tick \<noteq> None" "\<And>fd. 0 \<le> fd \<Longrightarrow> fd \<noteq> tick \<Longrightarrow> interest wld fd = None"
    and "sched_start w" "rt_run ep (Runtime_new w heap now wld) tr r"
    and "m_fibres (sch (rt_sys r)) = pre @ t # post" "passes ep tid t r k r'"
  shows "k \<le> length pre \<and> t \<in> set (m_fibres (sch (rt_sys r'))) \<and>
    (eligible tid (fbs (rt_sys r')) t \<longrightarrow> (\<forall>s. run_pick tid (rt_sys r') \<noteq> Inr (None, s)) \<and>
      (k = length pre \<longrightarrow> (\<forall>x s. run_pick tid (rt_sys r') = Inr (x, s) \<longrightarrow> x = Some t)))"
proof -
  have i: "rt_inv interest tick (m_this (sch w)) r" using runtime_facts [OF assms(1-5)] by simp
  have "within t (length pre) (m_fibres (sch (rt_sys r)))" using assms(6) by (auto simp: within_def)
  note p = passes_within [OF assms(7,1) i this]
  have "x \<noteq> None \<and> (k = length pre \<longrightarrow> x = Some t)"
    if "eligible tid (fbs (rt_sys r')) t" "run_pick tid (rt_sys r') = Inr (x, s)" for x s
    using run_pick_within [OF that(2) conjunct2 [OF conjunct2 [OF p]]] that(1) by auto
  then show ?thesis using p by (auto intro: within_set)
qed

text \<open>A step of the scheduler while no thread is in its idle fibre.\<close>

lemma rt_sched_snoc:
  "rt_run ep r0 tr r \<Longrightarrow> rt_sys r = w \<Longrightarrow> sched_step w a w' \<Longrightarrow> (\<And>tid l f. loc w tid = Some l \<Longrightarrow> rl_pc l \<noteq> Inside Idling f) \<Longrightarrow>
   rt_run ep r0 (tr @ [Task a]) (put_sys w' r)"
  by (rule rt_snoc, assumption, rule r_sched) (auto simp: idle_kept_def)

lemma bounded_waiting_witness:
  "\<exists>(r :: (int \<Rightarrow> u32 option) runtime) r' t0 t. m_fibres (sch (rt_sys r)) = [t0, t] \<and> passes simple_epoll 10 t r 1 r' \<and>
     t \<in> set (m_fibres (sch (rt_sys r')))"
proof -
  define t0 where "t0 = \<lparr>ft_fibre = None, ft_cb = Some (Function 5), ft_thread = - 1\<rparr>"
  define t where "t = \<lparr>ft_fibre = None, ft_cb = Some (Function 6), ft_thread = 10\<rparr>"
  let ?ep = simple_epoll
  let ?r0 = "Runtime_new quiet (\<lambda>_. Timer_at 0) 0 [9 \<mapsto> EPOLLIN OR EPOLLET] :: (int \<Rightarrow> u32 option) runtime"
  let ?w2 = "quiet\<lparr>sch := schedule t (schedule t0 (sch quiet))\<rparr>"
  let ?w1 = "quiet\<lparr>sch := schedule t0 (sch quiet)\<rparr>"
  have l: "loc quiet = Map.empty" "loc ?w1 = Map.empty" "loc ?w2 = Map.empty" by (simp_all add: quiet_def)
  have sub: "sched_step quiet (Submit t0) ?w1" "sched_step ?w1 (Submit t) ?w2"
    using submit [of t0 quiet] submit [of t ?w1] by (simp_all add: t0_def t_def)
  have 1: "rt_run ?ep ?r0 ([] @ [Task (Submit t0)]) (put_sys ?w1 ?r0)"
    by (rule rt_sched_snoc [OF rt_nil _ sub(1)]) (simp_all add: Runtime_new_def l)
  define r2 where "r2 = put_sys ?w2 (put_sys ?w1 ?r0)"
  have 2: "rt_run ?ep ?r0 (([] @ [Task (Submit t0)]) @ [Task (Submit t)]) r2"
    unfolding r2_def by (rule rt_sched_snoc [OF 1 _ sub(2)]) (simp_all add: l)
  have "\<exists>w3. run_enter 10 1 2 ?w2 = Inr w3"
    by (simp add: run_enter_def quiet_def schedule_def scheduleNoLock_def tickle_def GetThis_def fibres_init_def
      Fibre_main_def SetThis_def t0_def t_def Let_def)
  then obtain w3 where w3: "run_enter 10 1 2 ?w2 = Inr w3" by blast
  have q3: "m_fibres (sch w3) = [t0, t]" "loc w3 = [10 \<mapsto> \<lparr>rl_pc = Top, rl_ft = ft_reset, rl_active = False, rl_cb = None, rl_idle = 2\<rparr>]"
    using run_enter_sch [OF w3] by (simp_all add: schedule_queue t0_def t_def) (simp_all add: quiet_def)
  define r3 where "r3 = put_sys w3 r2"
  have 3: "rt_run ?ep ?r0 ((([] @ [Task (Submit t0)]) @ [Task (Submit t)]) @ [Task Silent]) r3"
    unfolding r3_def by (rule rt_sched_snoc [OF 2 _ enter [OF _ w3]]) (simp_all add: r2_def l)
  obtain w4 where w4: "run_pick 10 w3 = Inr (Some t0, w4)"
    by (simp add: run_pick_def q3(1) t0_def Let_def)
  have s4: "rt_step ?ep r3 (Task (Start 10 t0)) (put_sys w4 r3)"
    by (rule r_sched, unfold r3_def put_sys_simps, rule pick_one [OF _ _ w4]) (auto simp: q3(2) idle_kept_def)
  have e: "eligible 10 (fbs w3) t" by (simp add: eligible_def elsewhere_def executing_def t_def)
  have "rt_turn 10 t r3 (Task (Start 10 t0))" using e by (simp add: rt_turn_def turn_def r3_def)
  then have p: "passes ?ep 10 t r3 1 (put_sys w4 r3)"
    using p_snoc [OF p_nil s4, of t 10] by (simp add: t0_def t_def)
  have q: "m_fibres (sch (rt_sys r3)) = [t0] @ t # []" using q3(1) by (simp add: r3_def)
  have "t \<in> set (m_fibres (sch (rt_sys (put_sys w4 r3))))"
    using bounded_waiting [OF simple_epoll_ok _ _ quiet_start 3 q p, of 9] by auto
  then show ?thesis using p q by (intro exI [of _ r3] exI [of _ "put_sys w4 r3"] exI [of _ t0] exI [of _ t]) simp
qed

end
