(* ===== verification/Ownership.thy ===== *)
theory Ownership
  imports HPGS_Prelude "HOL-Library.Multiset"
begin

text \<open>
  Shared arrays (\<open>include/util/util.h\<close>) and singletons (\<open>include/util/singleton.h\<close>).  \<open>std::shared_ptr\<close> is
  its control block: a count, the pointer and the deleter; a handle holds the address of one.  The address
  of a new control block is an argument.
\<close>

section \<open>Shared pointers\<close>

datatype deleter = Delete_Array | Custom nat

record control =
  b_count :: nat
  b_ptr :: "nat option"
  b_deleter :: deleter

text \<open>\<open>sp_calls\<close> are the calls of deleters that a client gave.\<close>

record 'a shared_heap =
  sp_blocks :: "nat \<Rightarrow> control option"
  sp_mem :: "nat \<Rightarrow> 'a list option"
  sp_calls :: "(nat \<times> nat option) list"

text \<open>\<open>delete[]\<close> of an array that is not there is undefined.\<close>

definition delete_array :: "nat option \<Rightarrow> 'a shared_heap \<Rightarrow> 'a shared_heap res" where
  "delete_array v st =
     (case v of None \<Rightarrow> Inr st
      | Some p \<Rightarrow> if sp_mem st p = None then Inl Undefined else Inr (st\<lparr>sp_mem := (sp_mem st)(p := None)\<rparr>))"

definition run_deleter :: "control \<Rightarrow> 'a shared_heap \<Rightarrow> 'a shared_heap res" where
  "run_deleter x st =
     (case b_deleter x of Delete_Array \<Rightarrow> delete_array (b_ptr x) st
      | Custom d \<Rightarrow> Inr (st\<lparr>sp_calls := sp_calls st @ [(d, b_ptr x)]\<rparr>))"

definition ptr_copy :: "nat \<Rightarrow> 'a shared_heap \<Rightarrow> 'a shared_heap res" where
  "ptr_copy b st =
     (case sp_blocks st b of None \<Rightarrow> Inl Bad_Access
      | Some x \<Rightarrow> Inr (st\<lparr>sp_blocks := (sp_blocks st)(b \<mapsto> x\<lparr>b_count := b_count x + 1\<rparr>)\<rparr>))"

definition ptr_release :: "nat \<Rightarrow> 'a shared_heap \<Rightarrow> 'a shared_heap res" where
  "ptr_release b st =
     (case sp_blocks st b of None \<Rightarrow> Inl Bad_Access
      | Some x \<Rightarrow>
          if b_count x = 1 then run_deleter x (st\<lparr>sp_blocks := (sp_blocks st)(b := None)\<rparr>)
          else Inr (st\<lparr>sp_blocks := (sp_blocks st)(b \<mapsto> x\<lparr>b_count := b_count x - 1\<rparr>)\<rparr>))"

section \<open>Shared arrays\<close>

record shared_array =
  sa_size :: u64
  sa_ptr :: nat

definition SharedArray_new :: "u64 \<Rightarrow> nat option \<Rightarrow> nat \<Rightarrow> 'a shared_heap \<Rightarrow> shared_array \<times> 'a shared_heap" where
  "SharedArray_new sz p b st =
     (\<lparr>sa_size = sz, sa_ptr = b\<rparr>, st\<lparr>sp_blocks := (sp_blocks st)(b \<mapsto> \<lparr>b_count = 1, b_ptr = p, b_deleter = Delete_Array\<rparr>)\<rparr>)"

definition SharedArray_new_with :: "u64 \<Rightarrow> nat option \<Rightarrow> nat \<Rightarrow> nat \<Rightarrow> 'a shared_heap \<Rightarrow> shared_array \<times> 'a shared_heap" where
  "SharedArray_new_with sz p d b st =
     (\<lparr>sa_size = sz, sa_ptr = b\<rparr>, st\<lparr>sp_blocks := (sp_blocks st)(b \<mapsto> \<lparr>b_count = 1, b_ptr = p, b_deleter = Custom d\<rparr>)\<rparr>)"

text \<open>The copy constructor and the destructor are those of the compiler.\<close>

definition SharedArray_copy :: "shared_array \<Rightarrow> 'a shared_heap \<Rightarrow> (shared_array \<times> 'a shared_heap) res" where
  "SharedArray_copy r st = rbind (ptr_copy (sa_ptr r) st) (\<lambda>st. Inr (r, st))"

definition SharedArray_delete :: "shared_array \<Rightarrow> 'a shared_heap \<Rightarrow> 'a shared_heap res" where
  "SharedArray_delete h st = ptr_release (sa_ptr h) st"

definition SharedArray_assign :: "shared_array \<Rightarrow> shared_array \<Rightarrow> 'a shared_heap \<Rightarrow> (shared_array \<times> 'a shared_heap) res" where
  "SharedArray_assign h r st =
     rbind (ptr_copy (sa_ptr r) st) (\<lambda>st. rbind (ptr_release (sa_ptr h) st) (\<lambda>st.
       Inr (h\<lparr>sa_size := sa_size r, sa_ptr := sa_ptr r\<rparr>, st)))"

definition SharedArray_get :: "shared_array \<Rightarrow> 'a shared_heap \<Rightarrow> nat option" where
  "SharedArray_get h st = (case sp_blocks st (sa_ptr h) of None \<Rightarrow> None | Some x \<Rightarrow> b_ptr x)"

text \<open>The element, as its array and index; the size of the handle is not looked at.\<close>

definition SharedArray_at :: "shared_array \<Rightarrow> int \<Rightarrow> 'a shared_heap \<Rightarrow> (nat \<times> nat) res" where
  "SharedArray_at h i st =
     (case SharedArray_get h st of None \<Rightarrow> Inl Null_Deref
      | Some p \<Rightarrow>
          (case sp_mem st p of None \<Rightarrow> Inl Bad_Access
           | Some xs \<Rightarrow> if 0 \<le> i \<and> i < int (length xs) then Inr (p, nat i) else Inl Bad_Access))"

definition SharedArray_use_count :: "shared_array \<Rightarrow> 'a shared_heap \<Rightarrow> nat" where
  "SharedArray_use_count h st = (case sp_blocks st (sa_ptr h) of None \<Rightarrow> 0 | Some x \<Rightarrow> b_count x)"

definition SharedArray_unique :: "shared_array \<Rightarrow> 'a shared_heap \<Rightarrow> bool" where
  "SharedArray_unique h st \<longleftrightarrow> SharedArray_use_count h st = 1"

definition SharedArray_swap :: "shared_array \<Rightarrow> shared_array \<Rightarrow> shared_array \<times> shared_array" where
  "SharedArray_swap h b = (h\<lparr>sa_size := sa_size b, sa_ptr := sa_ptr b\<rparr>, b\<lparr>sa_size := sa_size h, sa_ptr := sa_ptr h\<rparr>)"

definition SharedArray_not :: "shared_array \<Rightarrow> 'a shared_heap \<Rightarrow> bool" where
  "SharedArray_not h st \<longleftrightarrow> SharedArray_get h st = None"

definition SharedArray_bool :: "shared_array \<Rightarrow> 'a shared_heap \<Rightarrow> bool" where
  "SharedArray_bool h st \<longleftrightarrow> SharedArray_get h st \<noteq> None"

definition SharedArray_size :: "shared_array \<Rightarrow> u64" where
  "SharedArray_size h = sa_size h"

section \<open>Counting\<close>

text \<open>What a program does with shared arrays: a client hands over an array that nobody owns, or none; handles are
  copied, assigned, swapped and destroyed.\<close>

definition owned :: "'a shared_heap \<Rightarrow> nat set" where
  "owned st = {p. \<exists>b x. sp_blocks st b = Some x \<and> b_deleter x = Delete_Array \<and> b_ptr x = Some p}"

inductive sa_step :: "shared_array list \<times> 'a shared_heap \<Rightarrow> shared_array list \<times> 'a shared_heap \<Rightarrow> bool" where
  s_alloc: "sa_step (hs, st) (hs, st\<lparr>sp_mem := (sp_mem st)(p \<mapsto> xs)\<rparr>)" if "sp_mem st p = None"
| s_new: "sa_step (hs, st) (hs @ [h], st')"
    if "SharedArray_new sz p b st = (h, st')" "sp_blocks st b = None" "\<forall>q \<in> set_option p. q \<notin> owned st \<and> sp_mem st q \<noteq> None"
| s_new_with: "sa_step (hs, st) (hs @ [h], st')" if "SharedArray_new_with sz p d b st = (h, st')" "sp_blocks st b = None"
| s_copy: "sa_step (hs, st) (hs @ [h], st')" if "i < length hs" "SharedArray_copy (hs ! i) st = Inr (h, st')"
| s_assign: "sa_step (hs, st) (hs[i := h], st')"
    if "i < length hs" "j < length hs" "SharedArray_assign (hs ! i) (hs ! j) st = Inr (h, st')"
| s_swap: "sa_step (hs, st) (hs[i := h, j := h'], st)"
    if "i < length hs" "j < length hs" "i \<noteq> j" "SharedArray_swap (hs ! i) (hs ! j) = (h, h')"
| s_delete: "sa_step (hs, st) (take i hs @ drop (Suc i) hs, st')" if "i < length hs" "SharedArray_delete (hs ! i) st = Inr st'"

inductive sa_run :: "shared_array list \<times> 'a shared_heap \<Rightarrow> shared_array list \<times> 'a shared_heap \<Rightarrow> bool" where
  sa_nil: "sa_run s s"
| sa_more: "sa_run s s'" if "sa_run s s''" "sa_step s'' s'"

text \<open>The counts are those of \<open>n\<close>; every array that a control block owns is there, and no two own the same.\<close>

definition owns_well :: "(nat \<Rightarrow> nat) \<Rightarrow> 'a shared_heap \<Rightarrow> bool" where
  "owns_well n st \<longleftrightarrow>
     (\<forall>b. sp_blocks st b = None \<longrightarrow> n b = 0) \<and> (\<forall>b x. sp_blocks st b = Some x \<longrightarrow> b_count x = n b \<and> 0 < n b) \<and>
     (\<forall>p \<in> owned st. sp_mem st p \<noteq> None) \<and>
     (\<forall>b x b' x' p. sp_blocks st b = Some x \<longrightarrow> sp_blocks st b' = Some x' \<longrightarrow> b_deleter x = Delete_Array \<longrightarrow>
        b_deleter x' = Delete_Array \<longrightarrow> b_ptr x = Some p \<longrightarrow> b_ptr x' = Some p \<longrightarrow> b = b')"

lemma owns_wellD:
  assumes "owns_well n st"
  shows "sp_blocks st b = None \<Longrightarrow> n b = 0" "sp_blocks st b = Some x \<Longrightarrow> b_count x = n b \<and> 0 < n b"
    "p \<in> owned st \<Longrightarrow> sp_mem st p \<noteq> None"
    "sp_blocks st b = Some x \<Longrightarrow> sp_blocks st b' = Some x' \<Longrightarrow> b_deleter x = Delete_Array \<Longrightarrow> b_deleter x' = Delete_Array \<Longrightarrow>
       b_ptr x = Some p \<Longrightarrow> b_ptr x' = Some p \<Longrightarrow> b = b'"
  using assms unfolding owns_well_def by blast+

lemma owns_wellI:
  assumes "\<And>b. sp_blocks st b = None \<Longrightarrow> n b = 0" "\<And>b x. sp_blocks st b = Some x \<Longrightarrow> b_count x = n b \<and> 0 < n b"
    and "\<And>p. p \<in> owned st \<Longrightarrow> sp_mem st p \<noteq> None"
    and "\<And>b x b' x' p. sp_blocks st b = Some x \<Longrightarrow> sp_blocks st b' = Some x' \<Longrightarrow> b_deleter x = Delete_Array \<Longrightarrow>
      b_deleter x' = Delete_Array \<Longrightarrow> b_ptr x = Some p \<Longrightarrow> b_ptr x' = Some p \<Longrightarrow> b = b'"
  shows "owns_well n st"
  using assms unfolding owns_well_def by blast

lemma ownedI: "sp_blocks st b = Some x \<Longrightarrow> b_deleter x = Delete_Array \<Longrightarrow> b_ptr x = Some p \<Longrightarrow> p \<in> owned st"
  by (auto simp: owned_def)

lemma owned_simps [simp]:
  "owned (st\<lparr>sp_mem := m\<rparr>) = owned st" "owned (st\<lparr>sp_calls := cs\<rparr>) = owned st"
  by (simp_all add: owned_def)

lemma owns_well_mem: "owns_well n st \<Longrightarrow> (\<And>p. p \<in> owned st \<Longrightarrow> m p \<noteq> None) \<Longrightarrow> owns_well n (st\<lparr>sp_mem := m\<rparr>)"
  unfolding owns_well_def by simp

definition handles :: "shared_array list \<Rightarrow> nat \<Rightarrow> nat" where
  "handles hs b = length (filter (\<lambda>h. sa_ptr h = b) hs)"

lemma handles_simps [simp]:
  "handles [] b = 0" "handles (h # hs) b = (if sa_ptr h = b then 1 else 0) + handles hs b"
  "handles (xs @ ys) b = handles xs b + handles ys b"
  by (simp_all add: handles_def)

lemma handles_at: "i < length hs \<Longrightarrow> handles hs = (handles (take i hs @ drop (Suc i) hs))(sa_ptr (hs ! i) := handles (take i hs @ drop (Suc i) hs) (sa_ptr (hs ! i)) + 1)"
  by (rule ext, subst (1) id_take_nth_drop [of i hs]) (auto simp del: append_take_drop_id)

lemma handles_pos: "i < length hs \<Longrightarrow> 0 < handles hs (sa_ptr (hs ! i))"
  using handles_at [of i hs] by (metis add_gr_0 fun_upd_same zero_less_one)

lemma handles_update: "i < length hs \<Longrightarrow> handles (hs[i := h]) = (\<lambda>b. handles (take i hs @ drop (Suc i) hs) b + (if sa_ptr h = b then 1 else 0))"
  using handles_at [of i "hs[i := h]"] by (auto simp: fun_eq_iff)

lemma recount:
  assumes "owns_well n st" "sp_blocks st b = Some x" "0 < k"
  shows "owns_well (n(b := k)) (st\<lparr>sp_blocks := (sp_blocks st)(b \<mapsto> x\<lparr>b_count := k\<rparr>)\<rparr>)"
proof -
  let ?st = "st\<lparr>sp_blocks := (sp_blocks st)(b \<mapsto> x\<lparr>b_count := k\<rparr>)\<rparr>"
  have "p \<in> owned ?st \<Longrightarrow> p \<in> owned st" for p using assms(2) by (auto simp: owned_def split: if_splits)
  then show ?thesis using assms unfolding owns_well_def by (auto split: if_splits)
qed

lemma copy_well:
  assumes "owns_well n st" "0 < n b"
  shows "\<exists>st'. ptr_copy b st = Inr st' \<and> owns_well (n(b := n b + 1)) st' \<and> sp_mem st' = sp_mem st"
proof -
  obtain x where x: "sp_blocks st b = Some x" "b_count x = n b"
    using assms by (cases "sp_blocks st b") (auto simp: owns_well_def dest: spec [where x = b])
  then show ?thesis using recount [OF assms(1) x(1), of "n b + 1"] by (simp add: ptr_copy_def)
qed

text \<open>Releasing a pointer succeeds; the last release deletes the array, and no other.\<close>

lemma release_well:
  assumes "owns_well n st" "0 < n b"
  shows "\<exists>x st'. sp_blocks st b = Some x \<and> ptr_release b st = Inr st' \<and> owns_well (n(b := n b - 1)) st' \<and>
    sp_mem st' = (if n b = 1 \<and> b_deleter x = Delete_Array \<and> b_ptr x \<noteq> None then (sp_mem st)(the (b_ptr x) := None) else sp_mem st)"
proof -
  obtain x where x: "sp_blocks st b = Some x" "b_count x = n b"
    using assms by (cases "sp_blocks st b") (auto simp: owns_well_def dest: spec [where x = b])
  show ?thesis
  proof (cases "n b = 1")
    case False
    then show ?thesis using x recount [OF assms(1) x(1), of "n b - 1"] assms(2) by (simp add: ptr_release_def)
  next
    case True
    let ?st = "st\<lparr>sp_blocks := (sp_blocks st)(b := None)\<rparr>"
    have r: "ptr_release b st = run_deleter x ?st" using x True by (simp add: ptr_release_def)
    have sub: "owned ?st \<subseteq> owned st" by (auto simp: owned_def split: if_splits)
    have w: "owns_well (n(b := n b - 1)) ?st"
      using assms(1) True sub unfolding owns_well_def by (auto split: if_splits)
    show ?thesis
    proof (cases "b_deleter x = Delete_Array \<and> b_ptr x \<noteq> None")
      case False
      then have "\<exists>cs. run_deleter x ?st = Inr (?st\<lparr>sp_calls := cs\<rparr>)"
        by (cases "b_deleter x") (auto simp: run_deleter_def delete_array_def intro: exI [of _ "sp_calls st"])
      moreover have "owns_well m (?st\<lparr>sp_calls := cs\<rparr>) = owns_well m ?st" for m cs by (simp add: owns_well_def owned_def)
      ultimately show ?thesis using r w x False by auto
    next
      case own: True
      then obtain p where p: "b_ptr x = Some p" "b_deleter x = Delete_Array" by blast
      have "p \<in> owned st" using x(1) p by (auto simp: owned_def)
      then have live: "sp_mem st p \<noteq> None" using assms(1) by (simp add: owns_well_def)
      have gone: "p \<notin> owned ?st" using assms(1) x(1) p unfolding owns_well_def owned_def by (auto split: if_splits)
      let ?st' = "?st\<lparr>sp_mem := (sp_mem st)(p := None)\<rparr>"
      have "owns_well (n(b := n b - 1)) ?st'"
      proof (rule owns_well_mem [OF w])
        show "((sp_mem st)(p := None)) a \<noteq> None" if "a \<in> owned ?st" for a
          using that gone owns_wellD(3) [OF w that] by (cases "a = p") simp_all
      qed
      moreover have "ptr_release b st = Inr ?st'" using r p live by (simp add: run_deleter_def delete_array_def)
      ultimately show ?thesis using x(1) p True by (intro exI [of _ x] exI [of _ ?st']) simp
    qed
  qed
qed

text \<open>Every operation on handles succeeds, and keeps the counts exact.\<close>

lemma assign_well:
  assumes "owns_well (handles hs) st" "i < length hs" "j < length hs"
  shows "\<exists>st'. SharedArray_assign (hs ! i) (hs ! j) st = Inr (hs ! j, st') \<and> owns_well (handles (hs[i := hs ! j])) st'"
proof -
  let ?a = "sa_ptr (hs ! i)" and ?b = "sa_ptr (hs ! j)" and ?n = "handles hs"
  obtain st1 where 1: "ptr_copy ?b st = Inr st1" "owns_well (?n(?b := ?n ?b + 1)) st1"
    using copy_well [OF assms(1) handles_pos [OF assms(3)]] by blast
  have "0 < (?n(?b := ?n ?b + 1)) ?a" using handles_pos [OF assms(2)] by simp
  from release_well [OF 1(2) this] obtain st2 where 2: "ptr_release ?a st1 = Inr st2"
    "owns_well ((?n(?b := ?n ?b + 1))(?a := (?n(?b := ?n ?b + 1)) ?a - 1)) st2" by blast
  have "(?n(?b := ?n ?b + 1))(?a := (?n(?b := ?n ?b + 1)) ?a - 1) = handles (hs[i := hs ! j])"
    using handles_update [OF assms(2), of "hs ! j"] handles_at [OF assms(2)] by (auto simp: fun_eq_iff)
  then show ?thesis using 1(1) 2 by (simp add: SharedArray_assign_def)
qed

lemma delete_well:
  assumes "owns_well (handles hs) st" "i < length hs"
  shows "\<exists>st'. SharedArray_delete (hs ! i) st = Inr st' \<and> owns_well (handles (take i hs @ drop (Suc i) hs)) st'"
proof -
  let ?a = "sa_ptr (hs ! i)" and ?n = "handles hs"
  from release_well [OF assms(1) handles_pos [OF assms(2)]] obtain st' where
    s: "ptr_release ?a st = Inr st'" "owns_well (?n(?a := ?n ?a - 1)) st'" by blast
  have "?n(?a := ?n ?a - 1) = handles (take i hs @ drop (Suc i) hs)"
    using handles_at [OF assms(2)] by (auto simp: fun_eq_iff)
  then show ?thesis using s by (simp add: SharedArray_delete_def)
qed

lemma sa_step_well: "sa_step s s' \<Longrightarrow> owns_well (handles (fst s)) (snd s) \<Longrightarrow> owns_well (handles (fst s')) (snd s')"
proof (induction rule: sa_step.induct)
  case (s_alloc st p hs xs)
  then show ?case unfolding owns_well_def owned_def by auto
next
  case (s_new sz p b st h st' hs)
  have "handles (hs @ [h]) = (handles hs)(b := 1)"
    using s_new(1,2,4) by (auto simp: SharedArray_new_def owns_well_def fun_eq_iff dest: spec [where x = b])
  moreover have "st' = st\<lparr>sp_blocks := (sp_blocks st)(b \<mapsto> \<lparr>b_count = 1, b_ptr = p, b_deleter = Delete_Array\<rparr>)\<rparr>"
    using s_new(1) by (simp add: SharedArray_new_def)
  moreover have "owned (st\<lparr>sp_blocks := (sp_blocks st)(b \<mapsto> \<lparr>b_count = 1, b_ptr = p, b_deleter = Delete_Array\<rparr>)\<rparr>) \<subseteq> owned st \<union> set_option p"
    by (auto simp: owned_def split: if_splits)
  moreover have "sp_blocks st b' = Some x' \<Longrightarrow> b_deleter x' = Delete_Array \<Longrightarrow> b_ptr x' = Some a \<Longrightarrow> p \<noteq> Some a" for b' x' a
    using ownedI [of st b' x' a] s_new(3) by auto
  ultimately show ?case using s_new(2,3) s_new(4)
    by (intro owns_wellI) (auto dest: owns_wellD split: if_splits)
next
  case (s_new_with sz p d b st h st' hs)
  have "handles (hs @ [h]) = (handles hs)(b := 1)"
    using s_new_with by (auto simp: SharedArray_new_with_def owns_well_def fun_eq_iff dest: spec [where x = b])
  moreover have "st' = st\<lparr>sp_blocks := (sp_blocks st)(b \<mapsto> \<lparr>b_count = 1, b_ptr = p, b_deleter = Custom d\<rparr>)\<rparr>"
    using s_new_with(1) by (simp add: SharedArray_new_with_def)
  moreover have "owned (st\<lparr>sp_blocks := (sp_blocks st)(b \<mapsto> \<lparr>b_count = 1, b_ptr = p, b_deleter = Custom d\<rparr>)\<rparr>) \<subseteq> owned st"
    by (auto simp: owned_def split: if_splits)
  ultimately show ?case using s_new_with(2,3) by (intro owns_wellI) (auto dest: owns_wellD split: if_splits)
next
  case (s_copy i hs st h st')
  from copy_well [OF s_copy(3) handles_pos, of i] s_copy(1,2) obtain st1 where
    "ptr_copy (sa_ptr (hs ! i)) st = Inr st1" "owns_well ((handles hs)(sa_ptr (hs ! i) := handles hs (sa_ptr (hs ! i)) + 1)) st1" by auto
  moreover have "handles (hs @ [hs ! i]) = (handles hs)(sa_ptr (hs ! i) := handles hs (sa_ptr (hs ! i)) + 1)" by (auto simp: fun_eq_iff)
  moreover have "h = hs ! i" "st' = st1" using s_copy(2) calculation(1) by (simp_all add: SharedArray_copy_def)
  ultimately show ?case by (simp only: fst_conv snd_conv)
next
  case (s_assign i hs j st h st')
  then show ?case using assign_well [of hs st i j] by auto
next
  case (s_swap i hs j h h' st)
  have "mset (hs[i := hs ! j, j := hs ! i]) = mset hs" using mset_swap [OF s_swap(2,1)] .
  moreover have "handles hs b = size (filter_mset (\<lambda>h. sa_ptr h = b) (mset hs))" for hs b by (simp add: handles_def flip: mset_filter)
  ultimately have "handles (hs[i := hs ! j, j := hs ! i]) = handles hs" by (simp add: fun_eq_iff)
  moreover have "h = hs ! j" "h' = hs ! i" using s_swap(4) by (auto simp: SharedArray_swap_def)
  ultimately show ?case using s_swap(5) by simp
next
  case (s_delete i hs st st')
  from delete_well [of hs st i] s_delete obtain st1 where "SharedArray_delete (hs ! i) st = Inr st1"
    "owns_well (handles (take i hs @ drop (Suc i) hs)) st1" by auto
  moreover have "st' = st1" using s_delete(2) calculation(1) by simp
  ultimately show ?case by (simp only: fst_conv snd_conv)
qed



section \<open>Singletons\<close>

text \<open>The static variable of an instance of a template: it is constructed by the first call, at the given address.  The key is
  the type, the tag and the number; the functions in the unnamed namespace have one variable for each translation
  unit that includes the header.\<close>

record statics =
  st_instance :: "string \<times> string \<times> int \<Rightarrow> nat option"
  st_instance_ptr :: "string \<times> string \<times> int \<Rightarrow> nat option"
  st_instance_x :: "string \<Rightarrow> string \<times> string \<times> int \<Rightarrow> nat option"
  st_instance_x_ptr :: "string \<Rightarrow> string \<times> string \<times> int \<Rightarrow> nat option"

definition static_local :: "('k \<Rightarrow> nat option) \<Rightarrow> 'k \<Rightarrow> nat \<Rightarrow> nat \<times> ('k \<Rightarrow> nat option)" where
  "static_local m key a = (case m key of Some v \<Rightarrow> (v, m) | None \<Rightarrow> (a, m(key \<mapsto> a)))"

definition Singleton_GetInstance :: "string \<times> string \<times> int \<Rightarrow> nat \<Rightarrow> statics \<Rightarrow> nat \<times> statics" where
  "Singleton_GetInstance key a s = (let (v, m) = static_local (st_instance s) key a in (v, s\<lparr>st_instance := m\<rparr>))"

definition SingletonPtr_GetInstance :: "string \<times> string \<times> int \<Rightarrow> nat \<Rightarrow> statics \<Rightarrow> nat \<times> statics" where
  "SingletonPtr_GetInstance key a s = (let (v, m) = static_local (st_instance_ptr s) key a in (v, s\<lparr>st_instance_ptr := m\<rparr>))"

definition GetInstanceX :: "string \<Rightarrow> string \<times> string \<times> int \<Rightarrow> nat \<Rightarrow> statics \<Rightarrow> nat \<times> statics" where
  "GetInstanceX unit key a s =
     (let (v, m) = static_local (st_instance_x s unit) key a in (v, s\<lparr>st_instance_x := (st_instance_x s)(unit := m)\<rparr>))"

definition GetInstancePtr :: "string \<Rightarrow> string \<times> string \<times> int \<Rightarrow> nat \<Rightarrow> statics \<Rightarrow> nat \<times> statics" where
  "GetInstancePtr unit key a s =
     (let (v, m) = static_local (st_instance_x_ptr s unit) key a in (v, s\<lparr>st_instance_x_ptr := (st_instance_x_ptr s)(unit := m)\<rparr>))"

text \<open>All calls give the same object, whatever happens to the other instances in between.\<close>

lemma Singleton_same:
  "Singleton_GetInstance key a s = (v, s') \<Longrightarrow> st_instance s'' key = st_instance s' key \<Longrightarrow> Singleton_GetInstance key a' s'' = (v, s'')"
  by (auto simp: Singleton_GetInstance_def static_local_def split: option.splits prod.splits)

lemma Singleton_other: "key' \<noteq> key \<Longrightarrow> st_instance (snd (Singleton_GetInstance key' a s)) key = st_instance s key"
  by (simp add: Singleton_GetInstance_def static_local_def split: option.split)

end
