(* ===== verification/Posix_Locks.thy ===== *)
theory Posix_Locks
  imports Sync
begin

text \<open>
  The wrappers of the POSIX locks (\<open>include/concurrency/mutex.h\<close>): \<open>Mutex\<close>, \<open>RWMutex\<close> and \<open>Spinlock\<close>, and the
  scoped read and write locks over a \<open>RWMutex\<close>.  The functions of the system are a record.  One that may block is
  \<open>None\<close> when it does not return in this state; otherwise it gives its error number, which the wrappers ignore.
\<close>

section \<open>Wrappers\<close>

record ('m, 'r, 's) posix =
  mutex_init :: 'm
  mutex_lock :: "'m \<Rightarrow> (int \<times> 'm) option"
  mutex_unlock :: "'m \<Rightarrow> int \<times> 'm"
  rwlock_init :: 'r
  rwlock_rdlock :: "'r \<Rightarrow> (int \<times> 'r) option"
  rwlock_wrlock :: "'r \<Rightarrow> (int \<times> 'r) option"
  rwlock_unlock :: "'r \<Rightarrow> int \<times> 'r"
  spin_init :: "int \<Rightarrow> 's"
  spin_lock :: "'s \<Rightarrow> (int \<times> 's) option"
  spin_unlock :: "'s \<Rightarrow> int \<times> 's"

definition Mutex_new :: "('m, 'r, 's) posix \<Rightarrow> 'm" where
  "Mutex_new px = mutex_init px"

definition Mutex_lock :: "('m, 'r, 's) posix \<Rightarrow> 'm \<Rightarrow> 'm option" where
  "Mutex_lock px m = map_option snd (mutex_lock px m)"

definition Mutex_unlock :: "('m, 'r, 's) posix \<Rightarrow> 'm \<Rightarrow> 'm" where
  "Mutex_unlock px m = snd (mutex_unlock px m)"

definition RWMutex_new :: "('m, 'r, 's) posix \<Rightarrow> 'r" where
  "RWMutex_new px = rwlock_init px"

definition RWMutex_rdlock :: "('m, 'r, 's) posix \<Rightarrow> 'r \<Rightarrow> 'r option" where
  "RWMutex_rdlock px m = map_option snd (rwlock_rdlock px m)"

definition RWMutex_wrlock :: "('m, 'r, 's) posix \<Rightarrow> 'r \<Rightarrow> 'r option" where
  "RWMutex_wrlock px m = map_option snd (rwlock_wrlock px m)"

definition RWMutex_unlock :: "('m, 'r, 's) posix \<Rightarrow> 'r \<Rightarrow> 'r" where
  "RWMutex_unlock px m = snd (rwlock_unlock px m)"

definition Spinlock_new :: "('m, 'r, 's) posix \<Rightarrow> 's" where
  "Spinlock_new px = spin_init px 0"

definition Spinlock_lock :: "('m, 'r, 's) posix \<Rightarrow> 's \<Rightarrow> 's option" where
  "Spinlock_lock px m = map_option snd (spin_lock px m)"

definition Spinlock_unlock :: "('m, 'r, 's) posix \<Rightarrow> 's \<Rightarrow> 's" where
  "Spinlock_unlock px m = snd (spin_unlock px m)"

section \<open>Scoped locks\<close>

text \<open>A mutex: locking one that is held blocks, and otherwise succeeds.\<close>

definition mutex_ok :: "('m, 'r, 's) posix \<Rightarrow> ('m \<Rightarrow> bool) \<Rightarrow> bool" where
  "mutex_ok px held \<longleftrightarrow> \<not> held (mutex_init px) \<and> (\<forall>m. \<not> held (snd (mutex_unlock px m))) \<and>
     (\<forall>m. if held m then mutex_lock px m = None else (\<exists>m'. mutex_lock px m = Some (0, m') \<and> held m'))"

lemma mutex_exclusive: "mutex_ok px held \<Longrightarrow> exclusive (Mutex_lock px) (Mutex_unlock px) held"
proof
  fix m m' assume ok: "mutex_ok px held" and l: "Mutex_lock px m = Some m'"
  show "\<not> held m \<and> held m'"
    using ok l unfolding mutex_ok_def Mutex_lock_def by (cases "held m") (auto dest!: spec [of _ m])
next
  fix m assume "mutex_ok px held" "\<not> held m"
  then show "Mutex_lock px m \<noteq> None"
    unfolding mutex_ok_def Mutex_lock_def by (auto dest!: spec [of _ m])
next
  fix m assume "mutex_ok px held"
  then show "\<not> held (Mutex_unlock px m)" by (simp add: mutex_ok_def Mutex_unlock_def)
qed

theorem mutex_guards_exclude:
  assumes "mutex_ok px held" "(guard_step (Mutex_lock px) (Mutex_unlock px))\<^sup>*\<^sup>* ([], Mutex_new px) (gs, m)"
  shows "holders gs \<le> 1 \<and> (holders gs = 0 \<longleftrightarrow> \<not> held m) \<and> (holders gs = 0 \<longrightarrow> ScopedLock_new (Mutex_lock px) m \<noteq> None)"
  using exclusive.guards_exclude [OF mutex_exclusive [OF assms(1)] assms(2)] assms(1) by (simp add: mutex_ok_def Mutex_new_def)

text \<open>Read and write guards on one lock, in any number and order; a guard is its kind and its \<open>m_locked\<close>.\<close>

datatype guard_kind = Reader | Writer

inductive rw_step ::
  "('r \<Rightarrow> 'r option) \<Rightarrow> ('r \<Rightarrow> 'r option) \<Rightarrow> ('r \<Rightarrow> 'r) \<Rightarrow> (guard_kind \<times> bool) list \<times> 'r \<Rightarrow> (guard_kind \<times> bool) list \<times> 'r \<Rightarrow> bool"
  for rdlock wrlock :: "'r \<Rightarrow> 'r option" and unlock :: "'r \<Rightarrow> 'r" where
  r_new: "rw_step rdlock wrlock unlock (gs, m) (gs @ [(Reader, b)], m')" if "ReadScopedLock_new rdlock m = Some (b, m')"
| w_new: "rw_step rdlock wrlock unlock (gs, m) (gs @ [(Writer, b)], m')" if "WriteScopedLock_new wrlock m = Some (b, m')"
| r_lock: "rw_step rdlock wrlock unlock (gs, m) (gs[i := (Reader, b')], m')"
    if "i < length gs" "gs ! i = (Reader, b)" "ReadScopedLock_lock rdlock b m = Some (b', m')"
| w_lock: "rw_step rdlock wrlock unlock (gs, m) (gs[i := (Writer, b')], m')"
    if "i < length gs" "gs ! i = (Writer, b)" "WriteScopedLock_lock wrlock b m = Some (b', m')"
| r_unlock: "rw_step rdlock wrlock unlock (gs, m) (gs[i := (Reader, b')], m')"
    if "i < length gs" "gs ! i = (Reader, b)" "ReadScopedLock_unlock unlock b m = (b', m')"
| w_unlock: "rw_step rdlock wrlock unlock (gs, m) (gs[i := (Writer, b')], m')"
    if "i < length gs" "gs ! i = (Writer, b)" "WriteScopedLock_unlock unlock b m = (b', m')"
| r_delete: "rw_step rdlock wrlock unlock (gs, m) (take i gs @ drop (Suc i) gs, ReadScopedLock_delete unlock b m)"
    if "i < length gs" "gs ! i = (Reader, b)"
| w_delete: "rw_step rdlock wrlock unlock (gs, m) (take i gs @ drop (Suc i) gs, WriteScopedLock_delete unlock b m)"
    if "i < length gs" "gs ! i = (Writer, b)"

definition holding :: "guard_kind \<Rightarrow> (guard_kind \<times> bool) list \<Rightarrow> nat" where
  "holding k gs = length (filter (\<lambda>g. g = (k, True)) gs)"

lemma holding_simps [simp]:
  "holding k [] = 0" "holding k (g # gs) = of_bool (g = (k, True)) + holding k gs" "holding k (xs @ ys) = holding k xs + holding k ys"
  by (simp_all add: holding_def)

lemma holding_at:
  assumes "i < length gs"
  shows "holding k gs = holding k (take i gs) + of_bool (gs ! i = (k, True)) + holding k (drop (Suc i) gs)"
  using arg_cong [OF id_take_nth_drop [OF assms], of "holding k"] by simp

lemma holding_update:
  "i < length gs \<Longrightarrow> gs ! i = g \<Longrightarrow> holding k (gs[i := g']) + of_bool (g = (k, True)) = holding k gs + of_bool (g' = (k, True))"
  using holding_at [of i gs k] by (simp add: upd_conv_take_nth_drop)

lemma holding_remove:
  "i < length gs \<Longrightarrow> gs ! i = g \<Longrightarrow> holding k (take i gs @ drop (Suc i) gs) + of_bool (g = (k, True)) = holding k gs"
  using holding_at [of i gs k] by simp

text \<open>What POSIX says of a read-write lock, with the number of its readers and whether a writer holds it: a write lock waits
  for everybody, a read lock for the writer (and maybe for others that wait).  A locking call that returns has succeeded.\<close>

definition rwlock_ok :: "('m, 'r, 's) posix \<Rightarrow> ('r \<Rightarrow> nat \<times> bool) \<Rightarrow> bool" where
  "rwlock_ok px st \<longleftrightarrow> st (rwlock_init px) = (0, False) \<and>
     (\<forall>m e m'. rwlock_rdlock px m = Some (e, m') \<longrightarrow> e = 0 \<and> \<not> snd (st m) \<and> st m' = (fst (st m) + 1, False)) \<and>
     (\<forall>m. if st m = (0, False) then \<exists>m'. rwlock_wrlock px m = Some (0, m') \<and> st m' = (0, True) else rwlock_wrlock px m = None) \<and>
     (\<forall>m. st (snd (rwlock_unlock px m)) = (if snd (st m) then (0, False) else (fst (st m) - 1, False)))"

lemma rwlock_okD:
  assumes "rwlock_ok px st"
  shows "RWMutex_rdlock px m = Some m' \<Longrightarrow> \<not> snd (st m) \<and> st m' = (fst (st m) + 1, False)"
    "RWMutex_wrlock px m = Some m' \<Longrightarrow> st m = (0, False) \<and> st m' = (0, True)"
    "st m = (0, False) \<Longrightarrow> RWMutex_wrlock px m \<noteq> None"
    "st (RWMutex_unlock px m) = (if snd (st m) then (0, False) else (fst (st m) - 1, False))"
proof -
  show "RWMutex_rdlock px m = Some m' \<Longrightarrow> \<not> snd (st m) \<and> st m' = (fst (st m) + 1, False)"
    using assms unfolding rwlock_ok_def RWMutex_rdlock_def by (auto simp del: prod.collapse)
  have w: "if st m = (0, False) then \<exists>m'. rwlock_wrlock px m = Some (0, m') \<and> st m' = (0, True) else rwlock_wrlock px m = None"
    using assms unfolding rwlock_ok_def by blast
  show "RWMutex_wrlock px m = Some m' \<Longrightarrow> st m = (0, False) \<and> st m' = (0, True)"
    using w by (auto simp: RWMutex_wrlock_def split: if_splits)
  show "st m = (0, False) \<Longrightarrow> RWMutex_wrlock px m \<noteq> None" using w by (auto simp: RWMutex_wrlock_def)
  show "st (RWMutex_unlock px m) = (if snd (st m) then (0, False) else (fst (st m) - 1, False))"
    using assms unfolding rwlock_ok_def RWMutex_unlock_def by blast
qed

text \<open>The state of the lock is what the guards hold.\<close>

definition rw_consistent :: "('r \<Rightarrow> nat \<times> bool) \<Rightarrow> (guard_kind \<times> bool) list \<times> 'r \<Rightarrow> bool" where
  "rw_consistent st s \<longleftrightarrow> st (snd s) = (holding Reader (fst s), holding Writer (fst s) = 1) \<and> holding Writer (fst s) \<le> 1 \<and>
     (holding Writer (fst s) = 1 \<longrightarrow> holding Reader (fst s) = 0)"

lemma rw_step_consistent:
  assumes "rw_step (RWMutex_rdlock px) (RWMutex_wrlock px) (RWMutex_unlock px) s s'" "rwlock_ok px st" "rw_consistent st s"
  shows "rw_consistent st s'"
  using assms(1,3)
proof (induction rule: rw_step.induct)
  case (r_new m b m' gs)
  then show ?case using rwlock_okD(1) [OF assms(2), of m m'] by (auto simp: ReadScopedLock_new_def rw_consistent_def)
next
  case (w_new m b m' gs)
  then show ?case using rwlock_okD(2) [OF assms(2), of m m'] by (auto simp: WriteScopedLock_new_def rw_consistent_def)
next
  case (r_lock i gs b m b' m')
  then show ?case
    using rwlock_okD(1) [OF assms(2), of m m'] holding_update [OF r_lock(1,2), of Reader "(Reader, b')"] holding_update [OF r_lock(1,2), of Writer "(Reader, b')"]
    by (cases b) (auto simp: ReadScopedLock_lock_def rw_consistent_def)
next
  case (w_lock i gs b m b' m')
  then show ?case
    using rwlock_okD(2) [OF assms(2), of m m'] holding_update [OF w_lock(1,2), of Reader "(Writer, b')"] holding_update [OF w_lock(1,2), of Writer "(Writer, b')"]
    by (cases b) (auto simp: WriteScopedLock_lock_def rw_consistent_def)
next
  case (r_unlock i gs b m b' m')
  then show ?case
    using rwlock_okD(4) [OF assms(2), of m] holding_update [OF r_unlock(1,2), of Reader "(Reader, b')"] holding_update [OF r_unlock(1,2), of Writer "(Reader, b')"]
    by (cases b) (auto simp: ReadScopedLock_unlock_def rw_consistent_def)
next
  case (w_unlock i gs b m b' m')
  then show ?case
    using rwlock_okD(4) [OF assms(2), of m] holding_update [OF w_unlock(1,2), of Reader "(Writer, b')"] holding_update [OF w_unlock(1,2), of Writer "(Writer, b')"]
    by (cases b) (auto simp: WriteScopedLock_unlock_def rw_consistent_def)
next
  case (r_delete i gs b m)
  then show ?case
    using rwlock_okD(4) [OF assms(2), of m] holding_remove [OF r_delete(1,2), of Reader] holding_remove [OF r_delete(1,2), of Writer]
    by (cases b) (auto simp: ReadScopedLock_delete_def ReadScopedLock_unlock_def rw_consistent_def)
next
  case (w_delete i gs b m)
  then show ?case
    using rwlock_okD(4) [OF assms(2), of m] holding_remove [OF w_delete(1,2), of Reader] holding_remove [OF w_delete(1,2), of Writer]
    by (cases b) (auto simp: WriteScopedLock_delete_def WriteScopedLock_unlock_def rw_consistent_def)
qed


definition simple_posix :: "(bool, nat \<times> bool, bool) posix" where
  "simple_posix =
     \<lparr>mutex_init = False, mutex_lock = (\<lambda>m. if m then None else Some (0, True)), mutex_unlock = (\<lambda>m. (0, False)),
      rwlock_init = (0, False), rwlock_rdlock = (\<lambda>m. if snd m then None else Some (0, (fst m + 1, False))),
      rwlock_wrlock = (\<lambda>m. if m = (0, False) then Some (0, (0, True)) else None),
      rwlock_unlock = (\<lambda>m. (0, if snd m then (0, False) else (fst m - 1, False))),
      spin_init = (\<lambda>_. False), spin_lock = (\<lambda>m. if m then None else Some (0, True)), spin_unlock = (\<lambda>m. (0, False))\<rparr>"


section \<open>Where the code breaks\<close>

text \<open>A read lock past the limit of the system fails with \<open>EAGAIN\<close>, a lock that its own thread holds with \<open>EDEADLK\<close>.  The
  guards do not look at that: they count as locked, and their destructors unlock what somebody else holds.\<close>

lemma failed_lock_counts:
  "rwlock_rdlock px m = Some (11, m) \<Longrightarrow> ReadScopedLock_new (RWMutex_rdlock px) m = Some (True, m)"
  "rwlock_wrlock px m = Some (35, m) \<Longrightarrow> WriteScopedLock_new (RWMutex_wrlock px) m = Some (True, m) \<and>
     WriteScopedLock_delete (RWMutex_unlock px) True m = snd (rwlock_unlock px m)"
  by (simp_all add: ReadScopedLock_new_def WriteScopedLock_new_def RWMutex_rdlock_def RWMutex_wrlock_def RWMutex_unlock_def
    WriteScopedLock_delete_def WriteScopedLock_unlock_def)

end
