(* ===== verification/Spec2Isabelle.thy ===== *)
theory Spec2Isabelle
  imports ByteArray_Laws ByteArray_Props Timer_Props Stream Str_Props Util_Algo Fs_Util Json_Util Env Config_Props Log_Props Address_Props FdManager Scheduler_Props IOManager_Props Hook_Props TcpServer_Props Sync Proc_Util MySQL_Props Server_Conf Hook_Runtime_Props Idle_Exit Waiting Ownership Posix_Locks
begin

text \<open>
  A verification library for HPGS, a fibre-based network server framework in C++.

  \<^bold>\<open>The program and its model.\<close>  A \<open>Scheduler\<close> runs tasks (fibres and callbacks) on a pool of threads; an
  \<open>IOManager\<close> is a scheduler whose idle fibre waits in \<open>epoll_wait\<close> and which is also a
  \<open>TimerManager\<close>; the hooks replace the blocking calls of the C library by calls that register an event
  and a timer with the IO manager and yield the fibre; sockets and the TCP server are written on top of
  the hooks.  Beside this core stand the byte array that serialises messages, addresses, the logging and
  configuration systems and a set of utilities.  The theories follow the source files:

  \<^item> \<open>HPGS_Prelude\<close>: word types, the ways an operation can fail (\<open>exn\<close>, results as a sum), checked access
    to memory.  \<open>Std_Set\<close>: \<open>std::set\<close> as an ordered list, with the locale \<open>comparator\<close> for a comparison
    object and the lemmas on insertion, search and erasure; it is interpreted by the timers' comparator,
    and by those of addresses and strings.
  \<^item> \<open>Endian\<close> (\<open>myendian.h\<close>), \<open>ByteArray\<close>, \<open>ByteArray_Inv\<close>, \<open>Byte_Cursor\<close>, \<open>ByteArray_Codec\<close>,
    \<open>ByteArray_Laws\<close>, \<open>ByteArray_Props\<close> (\<open>src/network/bytearray.cc\<close>): the chain of blocks, its invariant,
    the cursor interface of a byte sequence (a locale, interpreted by the chain), the typed fields.
  \<^item> \<open>Timer\<close>, \<open>Timer_Inv\<close>, \<open>Timer_Props\<close> (\<open>src/concurrency/timer.cc\<close>): timers in a heap, the ordered set
    of armed ones, every operation with the wrap-around of its clock.
  \<^item> \<open>Fibre\<close> (\<open>fibre.cc\<close>): fibres in a heap, the thread-local pointers, every switch with the point where
    execution goes on.  \<open>Scheduler\<close>, \<open>Scheduler_Props\<close> (\<open>scheduler.cc\<close>): the task queue and \<open>run\<close> cut at
    its locks and switches into the steps of an interleaved system.
  \<^item> \<open>FdManager\<close> (\<open>fd_manager.cc\<close>), \<open>IOManager\<close>, \<open>IOManager_Props\<close> (\<open>iomanager.cc\<close>): the contexts of
    descriptors, the event table and one turn of the idle loop, over an abstract kernel.
  \<^item> \<open>Runtime\<close>, \<open>Runtime_Props\<close> (\<open>iomanager.cc\<close>): scheduler, IO manager and timers as one interleaved system, with the
    idle loop of every thread cut at each lock it takes and each shared variable it reads.  \<open>Idle_Exit\<close>: when the end of
    that loop is the end of the work.  \<open>Waiting\<close>: how long a task waits in the queue.
  \<^item> \<open>Sync\<close> (\<open>mutex.h\<close>, \<open>mutex.cc\<close>, \<open>thread.cc\<close>): scoped locks over any mutex, with the locale
    \<open>exclusive\<close> for what they need of it, interpreted by the lock on an atomic flag; threads and their start.
    \<open>Posix_Locks\<close>: the wrappers of the locks of the system, and read and write guards together.
  \<^item> \<open>Hook\<close>, \<open>Hook_Props\<close> (\<open>hook.cc\<close>): every hooked call, cut at its yield.  \<open>Hook_Runtime\<close>, \<open>Hook_Runtime_Props\<close>: programs
    that use the hooked calls, as executions of the runtime.
  \<^item> \<open>Address\<close>, \<open>Address_Props\<close> (\<open>address.cc\<close>), \<open>Socket\<close>, \<open>Ssl_Socket\<close>, \<open>Socket_Props\<close> (\<open>socket.cc\<close>),
    \<open>TcpServer\<close>, \<open>TcpServer_Props\<close> (\<open>tcp_server.cc\<close>), \<open>Server_Conf\<close> (\<open>tcp_server.h\<close>, the YAML form of a
    configuration), \<open>Stream\<close> (\<open>stream.cc\<close>).
  \<^item> \<open>MySQL\<close>, \<open>MySQL_Props\<close> (\<open>mysql.cc\<close>): the connection object over the client library, its times, and the
    templates that bind the arguments of statements.
  \<^item> \<open>Log_Format\<close>, \<open>Logger\<close>, \<open>Log_Props\<close> (\<open>log.cc\<close>), \<open>Config\<close>, \<open>Config_Props\<close> (\<open>config.h\<close>,
    \<open>config.cc\<close>), \<open>Env\<close> (\<open>env.cc\<close>).
  \<^item> \<open>Str_Util\<close>, \<open>Str_Props\<close>, \<open>Fs_Util\<close>, \<open>Util_Algo\<close>, \<open>Proc_Util\<close> (\<open>util.cc\<close>, \<open>util.h\<close>), \<open>Json_Util\<close>
    (\<open>json_util.cc\<close>), \<open>Ownership\<close> (the shared arrays of \<open>util.h\<close>, \<open>singleton.h\<close>).

  \<^bold>\<open>How the code is represented.\<close>  A class is a record, a pointer is an address (a number) with the
  objects in a map, the address that \<open>new\<close> returns is an argument, a thread-local variable is a function
  of the thread.  Exceptions, failing assertions and undefined behaviour are values of \<open>exn\<close>; machine
  integers keep their width.  A section under a lock is one step.  The operating system, OpenSSL,
  \<open>getaddrinfo\<close> and the YAML and JSON parsers are parameters of the definitions; what the
  theorems need of them is a named predicate on the parameter (\<open>epoll_ok\<close>, \<open>epoll_reduces\<close>,
  \<open>fcntl_ok\<close>, \<open>net_ok\<close>, \<open>ssl_write_ok\<close>, \<open>client_ok\<close>, \<open>node_ok\<close>, \<open>source_ok\<close>, \<open>sink_ok\<close>, \<open>mkdir_ok\<close>, \<open>libc_ok\<close>,
  \<open>mutex_ok\<close>, \<open>rwlock_ok\<close>), and every such
  theorem has a witness with a concrete system.  Log output inside other components is left out.

  \<^bold>\<open>Parts that work together.\<close>  \<open>Runtime\<close> puts the threads of the
  scheduler and the tables of the IO manager side by side.  \<open>IOManager\<close> uses the scheduler's queue and the timers as they are defined
  in their own theories, \<open>Hook\<close> uses the IO manager, the timers and the descriptor table, \<open>Socket\<close> runs the
  hooked calls to their end (what happens while a call waits is a parameter), \<open>TcpServer\<close> uses the
  sockets.  So a property such as the wake-up of a call at its time limit is about
  \<open>addConditionTimer\<close>, \<open>listExpiredCb\<close>, \<open>OnTimer\<close>, the closure of \<open>do_io\<close>, \<open>cancelEvent\<close>,
  \<open>triggerEvent\<close> and \<open>scheduleNoLock\<close> together.

  \<^bold>\<open>What is shown.\<close>
  \<^item> Scheduling: under every interleaving no task is lost or run twice, tasks go to the thread they are
    bound to, the counters are exact, so \<open>stopping\<close> means that nothing is left; what each fibre switch
    does on every branch.
  \<^item> The whole runtime: under every interleaving each task, waiter and expired callback is in exactly one place,
    from its registration until a thread takes it; the pieces of the idle loop are its turn; when an idle loop ends and nothing
    was armed or registered during its three tests, no work is left; a task is taken after at most as many searches as
    there were tasks before it.
  \<^item> Programs: each hooked call is a sequence of transitions of the runtime and hands its fibre in exactly when it
    waits, so the fibres of every program are accounted for; a sleeping fibre is handed back exactly once, at its deadline.
  \<^item> Events: every waiter is in exactly one place, the pending counter counts them, the kernel watches
    exactly the registered events, and which calls can fail.
  \<^item> Timers: the invariant of the reachable states, exactness of expiry and of the computed delay, no
    lost wake-up.
  \<^item> Hooks: the retry loop ends exactly when the system stops interrupting; a blocking call answers,
    waits or cleans up; its time limit wakes it once with \<open>ETIMEDOUT\<close>; closing releases every waiter;
    the non-blocking flag is virtual.
  \<^item> Locks: scoped locks on the atomic flag exclude each other, under every interleaving, and so do read and write guards
    on a read-write lock; a constructed thread has started.
  \<^item> Ownership: the counts of shared arrays are exact, so none is deleted twice or too early.
  \<^item> Network: time limits of sockets, vectored TLS output, binding a server opens all or nothing; order,
    prefixes and text of addresses.
  \<^item> Data: the byte array implements a byte sequence with a cursor, fields of every type are read back on
    machines of either byte order, varints stay in their bounds.
  \<^item> System and utilities: configuration changes reach the listeners, log events reach their appenders,
    patterns and URLs are parsed back, conversions and searches are exact.
  \<^item> Sections "Where the code breaks" hold lemmas that exhibit defects of the code.

  \<^bold>\<open>Bounds.\<close>  \<open>Logger_log\<close> has fuel 2, which is enough because only the root logger has no parent to hand
  on to; \<open>ListAllFile\<close> and \<open>Rm\<close> take a bound on the depth of the directory tree as an argument, as the
  tree of the system could be cyclic.  Loops that may not end are partial functions, so that
  running for ever is the value \<open>None\<close> (reported as \<open>Diverge\<close>).  The timer theorems on delays assume
  deadlines below \<open>2 ^ 63\<close> ms, the counters of the scheduler fewer than \<open>2 ^ 64\<close> threads.

  \<^bold>\<open>Not modelled.\<close>  The statements, transactions, results and the pool of the MySQL client, the rest of its connection
  class, \<open>FibreSemaphore\<close>, \<open>SpeedLimit\<close> and a few functions that are declared without an implementation; the number of the thread
  (\<open>GetThreadId\<close>, an argument everywhere); destructors that only release resources of the system; getters of
  members, which are the fields of the records; the global objects that register configuration variables and loggers;
  the YAML form of the logging configuration (commented out in the source); the cast from a string to a \<open>std::set\<close>
  (it returns another type than it declares, so it cannot be instantiated); and \<open>Noncopyable\<close>, which only deletes the copy operations.
\<close>

end
